(* ===== verification/Prelude.thy ===== *)
theory Prelude
  imports Main "HOL-Library.Word" "HOL-Library.Monad_Syntax" "HOL-Library.Finite_Map"
begin

unbundle bit_operations_syntax

text \<open>
  The vocabulary the component theories share: the fixed-width integer types of the
  source, the conversion between bytes and characters that the source writes as
  \<^verbatim>\<open>reinterpret_cast\<close>, big-endian splitting and joining of words, and a few generic
  facts about options, lists, finite sets and finite maps.
\<close>

section \<open>Machine types\<close>

type_synonym u8 = "8 word"
type_synonym u16 = "16 word"
type_synonym u32 = "32 word"
type_synonym u64 = "64 word"
type_synonym bytes = "u8 list"

text \<open>
  Three collections carry the component proofs: \<open>wire_simps\<close> holds the equations that
  read and write one field of a packet, \<open>wf_simps\<close> the unfolding of well-formedness
  predicates, \<open>state_simps\<close> the definitions of the state-changing operations.
\<close>

named_theorems wire_simps
named_theorems wf_simps
named_theorems state_simps

section \<open>Bytes and characters\<close>

text \<open>
  A \<^verbatim>\<open>std::string\<close> is a sequence of bytes; the model writes it as a HOL string,
  whose characters are exactly the 256 byte values.
\<close>

definition byte_of_char :: "char \<Rightarrow> u8" where
  "byte_of_char c = of_char c"

definition char_of_byte :: "u8 \<Rightarrow> char" where
  "char_of_byte b = char_of (unat b)"

lemma unat_byte_of_char: "unat (byte_of_char c) = of_char c"
proof -
  have "(of_char c :: u8) = of_nat (of_char c)"
    by (simp add: of_nat_of_char)
  moreover have "(of_char c :: nat) < 256"
    by (rule nat_of_char_less_256)
  ultimately show ?thesis
    by (simp add: byte_of_char_def unat_of_nat)
qed

lemma char_of_byte_of_char [simp]: "char_of_byte (byte_of_char c) = c"
  by (simp add: char_of_byte_def unat_byte_of_char)

lemma byte_of_char_of_byte [simp]: "byte_of_char (char_of_byte b) = b"
proof -
  have "unat b < 256"
    using unsigned_less [of b] by simp
  then have "of_char (char_of_byte b) = unat b"
    by (simp add: char_of_byte_def)
  then show ?thesis
    by (metis unat_byte_of_char word_unat_eq_iff)
qed

lemma map_char_of_byte_of_char [simp]: "map char_of_byte (map byte_of_char s) = s"
  by (induction s) simp_all

lemma map_byte_of_char_of_byte [simp]: "map byte_of_char (map char_of_byte bs) = bs"
  by (induction bs) simp_all

lemma map_char_comp [simp]:
  "map (char_of_byte \<circ> byte_of_char) s = s" "map (byte_of_char \<circ> char_of_byte) bs = bs"
  by (simp_all add: comp_def)

section \<open>Big-endian words\<close>

lemma u16_join_split:
  "push_bit 8 (ucast (ucast (drop_bit 8 v) :: u8)) OR ucast (ucast v :: u8) = (v :: u16)"
  by (rule bit_word_eqI) (auto simp: bit_simps)

lemma u16_split_join:
  "(ucast (drop_bit 8 (push_bit 8 (ucast hi) OR ucast lo :: u16)) :: u8) = hi"
  "(ucast (push_bit 8 (ucast hi) OR ucast lo :: u16) :: u8) = lo"
  by (rule bit_word_eqI; auto simp: bit_simps dest: bit_imp_le_length)+

lemma u32_join_split:
  "push_bit 24 (ucast (ucast (drop_bit 24 v) :: u8)) OR
   push_bit 16 (ucast (ucast (drop_bit 16 v) :: u8)) OR
   push_bit 8 (ucast (ucast (drop_bit 8 v) :: u8)) OR
   ucast (ucast v :: u8) = (v :: u32)"
proof (rule bit_word_eqI)
  fix n
  assume "n < LENGTH(32)"
  then consider "n < 8" | "8 \<le> n" "n < 16" | "16 \<le> n" "n < 24" | "24 \<le> n" "n < 32"
    by fastforce
  then show "bit (push_bit 24 (ucast (ucast (drop_bit 24 v) :: u8)) OR
     push_bit 16 (ucast (ucast (drop_bit 16 v) :: u8)) OR
     push_bit 8 (ucast (ucast (drop_bit 8 v) :: u8)) OR ucast (ucast v :: u8) :: u32) n = bit v n"
    by cases (auto simp: bit_simps)
qed

lemma u32_split_join:
  fixes a b c d :: u8
  defines "v \<equiv> push_bit 24 (ucast a) OR push_bit 16 (ucast b) OR push_bit 8 (ucast c) OR ucast d :: u32"
  shows "ucast (drop_bit 24 v) = a" "ucast (drop_bit 16 v) = b"
    "ucast (drop_bit 8 v) = c" "ucast v = d"
  unfolding v_def
  by (rule bit_word_eqI; auto simp: bit_simps dest: bit_imp_le_length)+

lemma u64_join_split:
  "push_bit 32 (ucast (ucast (drop_bit 32 v) :: u32)) OR ucast (ucast v :: u32) = (v :: u64)"
  by (rule bit_word_eqI) (auto simp: bit_simps)

lemma u64_split_join:
  "(ucast (drop_bit 32 (push_bit 32 (ucast hi) OR ucast lo :: u64)) :: u32) = hi"
  "(ucast (push_bit 32 (ucast hi) OR ucast lo :: u64) :: u32) = lo"
  by (rule bit_word_eqI; auto simp: bit_simps dest: bit_imp_le_length)+

text \<open>Joining is the inverse of splitting, as equivalences the readers can rewrite with.\<close>

lemma u16_join_iff:
  "push_bit 8 (ucast hi) OR ucast lo = (v :: u16) \<longleftrightarrow>
     (hi :: u8) = ucast (drop_bit 8 v) \<and> (lo :: u8) = ucast v"
  using u16_join_split u16_split_join by metis

lemma u32_join_iff:
  "push_bit 24 (ucast a) OR push_bit 16 (ucast b) OR push_bit 8 (ucast c) OR ucast d = (v :: u32) \<longleftrightarrow>
     (a :: u8) = ucast (drop_bit 24 v) \<and> (b :: u8) = ucast (drop_bit 16 v) \<and>
     (c :: u8) = ucast (drop_bit 8 v) \<and> (d :: u8) = ucast v"
  using u32_join_split u32_split_join by metis

lemma u64_join_iff:
  "push_bit 32 (ucast hi) OR ucast lo = (v :: u64) \<longleftrightarrow>
     (hi :: u32) = ucast (drop_bit 32 v) \<and> (lo :: u32) = ucast v"
  using u64_join_split u64_split_join by metis

text \<open>A length that fits the target width survives \<^verbatim>\<open>static_cast\<close> in both directions.\<close>

lemma unat_of_nat_u16: "n < 65536 \<Longrightarrow> unat (of_nat n :: u16) = n"
  by (simp add: unat_of_nat)

lemma unat_of_nat_u32: "n < 4294967296 \<Longrightarrow> unat (of_nat n :: u32) = n"
  by (simp add: unat_of_nat)

section \<open>Options, lists, finite sets\<close>

lemma bind_pair_Some_iff:
  "(m \<bind> (\<lambda>(x, s). f x s)) = Some y \<longleftrightarrow> (\<exists>x s. m = Some (x, s) \<and> f x s = Some y)"
  by (cases m) auto

lemma bind_pair_None_iff:
  "(m \<bind> (\<lambda>(x, s). f x s)) = None \<longleftrightarrow> m = None \<or> (\<exists>x s. m = Some (x, s) \<and> f x s = None)"
  by (cases m) auto

lemma fsubset_fcard_eq: "A |\<subseteq>| B \<Longrightarrow> fcard A = fcard B \<longleftrightarrow> A = B"
  by (metis fcard_pfsubset fcard_mono order_antisym_conv order_refl nless_le pfsubset_fcard_mono)

end
