(* ===== verification/ByteIO.thy ===== *)
theory ByteIO
  imports Prelude
begin

text \<open>
  The bounded byte writer and reader of \<^verbatim>\<open>shared/src/protocol.cpp\<close>, with the
  \<^verbatim>\<open>ByteView\<close> and the packet limits of \<^verbatim>\<open>protocol.hpp\<close>.

  A writer or reader whose operation returns \<^verbatim>\<open>false\<close> is never used again by the
  source, so \<^verbatim>\<open>false\<close> is \<^const>\<open>None\<close> here and a successful operation returns the
  changed object. The locale \<open>field_codec\<close> is the contract between the two: one law for
  writing a field and one law, an equivalence, for reading it back. Every field the
  protocol uses is an interpretation.
\<close>

section \<open>Limits and views\<close>

definition kMagic :: u32 where "kMagic = 0x434D4F44"
definition kProtocolVersion :: u16 where "kProtocolVersion = 1"
definition kHeaderSize :: nat where "kHeaderSize = 12"
definition kMaximumPacketSize :: nat where "kMaximumPacketSize = 4096"
definition kMaximumPayloadSize :: nat where "kMaximumPayloadSize = kMaximumPacketSize - kHeaderSize"

lemmas packet_limits = kMagic_def kProtocolVersion_def kHeaderSize_def
  kMaximumPacketSize_def kMaximumPayloadSize_def

text \<open>
  A pointer with a size: either the null pointer, with whatever size it was given, or a
  pointer to as many readable bytes as the size says.
\<close>

datatype ByteView = NullView nat | View bytes

fun view_size :: "ByteView \<Rightarrow> nat" where
  "view_size (NullView n) = n"
| "view_size (View bs) = length bs"

fun view_is_null :: "ByteView \<Rightarrow> bool" where
  "view_is_null (NullView _) = True"
| "view_is_null (View _) = False"

text \<open>
  The bytes behind a view; a null view has none. The operations below test for null
  before they read, as the source does.
\<close>

fun view_bytes :: "ByteView \<Rightarrow> bytes" where
  "view_bytes (NullView _) = []"
| "view_bytes (View bs) = bs"

section \<open>ByteWriter\<close>

record ByteWriter =
  writer_bytes :: bytes

definition WriteByte :: "ByteWriter \<Rightarrow> u8 \<Rightarrow> ByteWriter option" where
  "WriteByte w value =
    (if length (writer_bytes w) = kMaximumPacketSize then None
     else Some (w\<lparr>writer_bytes := writer_bytes w @ [value]\<rparr>))"

definition WriteU8 :: "ByteWriter \<Rightarrow> u8 \<Rightarrow> ByteWriter option" where
  "WriteU8 w value = WriteByte w value"

definition WriteU16 :: "ByteWriter \<Rightarrow> u16 \<Rightarrow> ByteWriter option" where
  "WriteU16 w value = do {
     w \<leftarrow> WriteByte w (ucast (drop_bit 8 value));
     WriteByte w (ucast value) }"

definition WriteU32 :: "ByteWriter \<Rightarrow> u32 \<Rightarrow> ByteWriter option" where
  "WriteU32 w value = do {
     w \<leftarrow> WriteByte w (ucast (drop_bit 24 value));
     w \<leftarrow> WriteByte w (ucast (drop_bit 16 value));
     w \<leftarrow> WriteByte w (ucast (drop_bit 8 value));
     WriteByte w (ucast value) }"

definition WriteU64 :: "ByteWriter \<Rightarrow> u64 \<Rightarrow> ByteWriter option" where
  "WriteU64 w value = do {
     w \<leftarrow> WriteU32 w (ucast (drop_bit 32 value));
     WriteU32 w (ucast value) }"

definition WriteBytes :: "ByteWriter \<Rightarrow> ByteView \<Rightarrow> ByteWriter option" where
  "WriteBytes w data =
    (if view_is_null data \<or> view_size data > kMaximumPacketSize - length (writer_bytes w) then None
     else Some (w\<lparr>writer_bytes := writer_bytes w @ view_bytes data\<rparr>))"

definition WriteString :: "ByteWriter \<Rightarrow> string \<Rightarrow> ByteWriter option" where
  "WriteString w value =
    (if length value \<le> 65535 then do {
       w \<leftarrow> WriteU16 w (of_nat (length value));
       WriteBytes w (View (map byte_of_char value)) }
     else None)"

section \<open>ByteReader\<close>

record ByteReader =
  reader_view :: ByteView
  reader_offset :: nat

definition reader_on :: "ByteView \<Rightarrow> ByteReader" where
  "reader_on view = \<lparr>reader_view = view, reader_offset = 0\<rparr>"

definition Remaining :: "ByteReader \<Rightarrow> nat" where
  "Remaining r = view_size (reader_view r) - reader_offset r"

definition ReadByte :: "ByteReader \<Rightarrow> (u8 \<times> ByteReader) option" where
  "ReadByte r =
    (if reader_offset r \<ge> view_size (reader_view r) \<or> view_is_null (reader_view r) then None
     else Some (view_bytes (reader_view r) ! reader_offset r,
                r\<lparr>reader_offset := reader_offset r + 1\<rparr>))"

definition ReadU8 :: "ByteReader \<Rightarrow> (u8 \<times> ByteReader) option" where
  "ReadU8 r = ReadByte r"

definition ReadU16 :: "ByteReader \<Rightarrow> (u16 \<times> ByteReader) option" where
  "ReadU16 r = do {
     (high, r) \<leftarrow> ReadByte r;
     (low, r) \<leftarrow> ReadByte r;
     Some (push_bit 8 (ucast high) OR ucast low, r) }"

definition ReadU32 :: "ByteReader \<Rightarrow> (u32 \<times> ByteReader) option" where
  "ReadU32 r = do {
     (b0, r) \<leftarrow> ReadByte r;
     (b1, r) \<leftarrow> ReadByte r;
     (b2, r) \<leftarrow> ReadByte r;
     (b3, r) \<leftarrow> ReadByte r;
     Some (push_bit 24 (ucast b0) OR push_bit 16 (ucast b1) OR push_bit 8 (ucast b2) OR ucast b3, r) }"

definition ReadU64 :: "ByteReader \<Rightarrow> (u64 \<times> ByteReader) option" where
  "ReadU64 r = do {
     (high, r) \<leftarrow> ReadU32 r;
     (low, r) \<leftarrow> ReadU32 r;
     Some (push_bit 32 (ucast high) OR ucast low, r) }"

definition ReadBytes :: "ByteReader \<Rightarrow> nat \<Rightarrow> (bytes \<times> ByteReader) option" where
  "ReadBytes r count =
    (if count > Remaining r \<or> view_is_null (reader_view r) then None
     else Some (take count (drop (reader_offset r) (view_bytes (reader_view r))),
                r\<lparr>reader_offset := reader_offset r + count\<rparr>))"

definition ReadString :: "nat \<Rightarrow> ByteReader \<Rightarrow> (string \<times> ByteReader) option" where
  "ReadString maximumLength r = do {
     (len, r) \<leftarrow> ReadU16 r;
     if unat len > maximumLength \<or> unat len > Remaining r \<or> view_is_null (reader_view r) then None
     else Some (map char_of_byte (take (unat len) (drop (reader_offset r) (view_bytes (reader_view r)))),
                r\<lparr>reader_offset := reader_offset r + unat len\<rparr>) }"

section \<open>The contract of a wire field\<close>

text \<open>A reader over \<open>pre @ suf\<close> that has consumed \<open>pre\<close>.\<close>

definition reader_at :: "bytes \<Rightarrow> bytes \<Rightarrow> ByteReader" where
  "reader_at pre suf = \<lparr>reader_view = View (pre @ suf), reader_offset = length pre\<rparr>"

definition writer_ok :: "ByteWriter \<Rightarrow> bool" where
  "writer_ok w \<longleftrightarrow> length (writer_bytes w) \<le> kMaximumPacketSize"

text \<open>Appending within the packet limit, the one effect every write has.\<close>

definition append_bytes :: "ByteWriter \<Rightarrow> bytes \<Rightarrow> ByteWriter option" where
  "append_bytes w bs =
    (if length (writer_bytes w) + length bs \<le> kMaximumPacketSize
     then Some (w\<lparr>writer_bytes := writer_bytes w @ bs\<rparr>) else None)"

locale field_codec =
  fixes wr :: "ByteWriter \<Rightarrow> 'a \<Rightarrow> ByteWriter option"
    and rd :: "ByteReader \<Rightarrow> ('a \<times> ByteReader) option"
    and enc :: "'a \<Rightarrow> bytes"
    and ok :: "'a \<Rightarrow> bool"
  assumes write_iff: "writer_ok w \<Longrightarrow> ok v \<Longrightarrow> wr w v = append_bytes w (enc v)"
    and read_iff: "rd (reader_at pre suf) = Some (v, r) \<longleftrightarrow>
      ok v \<and> (\<exists>suf'. suf = enc v @ suf' \<and> r = reader_at (pre @ enc v) suf')"
begin

text \<open>What was written is what is read, wherever in a packet the field stands.\<close>

lemma read_written:
  assumes "writer_ok w" "ok v" "wr w v = Some w'"
  shows "rd (reader_at (writer_bytes w) (drop (length (writer_bytes w)) (writer_bytes w') @ suf))
    = Some (v, reader_at (writer_bytes w') suf)"
  using assms by (auto simp: read_iff write_iff append_bytes_def split: if_splits)

text \<open>Encodings are prefix free, so a packet cannot be split into fields in two ways.\<close>

lemma enc_prefix_free:
  assumes "ok v" "ok v'" "enc v @ suf = enc v' @ suf'"
  shows "v = v' \<and> suf = suf'"
proof -
  have "rd (reader_at [] (enc v @ suf)) = Some (v, reader_at (enc v) suf)"
    using assms(1) by (auto simp: read_iff)
  moreover have "rd (reader_at [] (enc v @ suf)) = Some (v', reader_at (enc v') suf')"
    using assms(2) unfolding assms(3) by (auto simp: read_iff)
  ultimately have "v = v'" by simp
  with assms(3) show ?thesis by simp
qed

text \<open>A failed read means that no encoding starts at the reader's position.\<close>

lemma read_None_iff:
  "rd (reader_at pre suf) = None \<longleftrightarrow> (\<forall>v suf'. ok v \<longrightarrow> suf \<noteq> enc v @ suf')"
  by (metis not_None_eq prod.exhaust_sel read_iff)

text \<open>An encoding at the reader's position is read, whatever follows it.\<close>

lemma read_enc:
  "ok v \<Longrightarrow> rd (reader_at pre (enc v @ suf)) = Some (v, reader_at (pre @ enc v) suf)"
  by (simp add: read_iff)

lemma read_enc_last: "ok v \<Longrightarrow> rd (reader_at pre (enc v)) = Some (v, reader_at (pre @ enc v) [])"
  using read_enc [of v pre "[]"] by simp

text \<open>
  Reading a field and going on: the result exists exactly when the remaining bytes start
  with an encoding and the continuation succeeds behind it.
\<close>

lemma read_bind_iff:
  "(do { (v, r) \<leftarrow> rd (reader_at pre suf); f v r }) = Some y \<longleftrightarrow>
     (\<exists>v suf'. ok v \<and> suf = enc v @ suf' \<and> f v (reader_at (pre @ enc v) suf') = Some y)"
  by (auto simp: bind_pair_Some_iff read_iff)

text \<open>A write behind earlier appends extends the appended bytes.\<close>

lemma append_write:
  "writer_ok w \<Longrightarrow> ok v \<Longrightarrow> (do { w \<leftarrow> append_bytes w bs; wr w v }) = append_bytes w (bs @ enc v)"
  by (auto simp: append_bytes_def write_iff writer_ok_def)

lemma append_write_bind:
  assumes "writer_ok w" "ok v"
  shows "(do { w \<leftarrow> append_bytes w bs; w \<leftarrow> wr w v; f w }) = (do { w \<leftarrow> append_bytes w (bs @ enc v); f w })"
  using append_write [OF assms, of bs, symmetric] by simp

lemma write_keeps_ok: "writer_ok w \<Longrightarrow> ok v \<Longrightarrow> wr w v = Some w' \<Longrightarrow> writer_ok w'"
  by (auto simp: write_iff append_bytes_def writer_ok_def split: if_splits)

end

text \<open>Two fields in sequence are again a field.\<close>

locale two_fields =
  first: field_codec wr\<^sub>1 rd\<^sub>1 enc\<^sub>1 ok\<^sub>1 +
  second: field_codec wr\<^sub>2 rd\<^sub>2 enc\<^sub>2 ok\<^sub>2
  for wr\<^sub>1 :: "ByteWriter \<Rightarrow> 'a \<Rightarrow> ByteWriter option" and rd\<^sub>1 enc\<^sub>1 ok\<^sub>1
  and wr\<^sub>2 :: "ByteWriter \<Rightarrow> 'b \<Rightarrow> ByteWriter option" and rd\<^sub>2 enc\<^sub>2 ok\<^sub>2
begin

lemma pair_codec:
  "field_codec (\<lambda>w (a, b). do { w \<leftarrow> wr\<^sub>1 w a; wr\<^sub>2 w b })
     (\<lambda>r. do { (a, r) \<leftarrow> rd\<^sub>1 r; (b, r) \<leftarrow> rd\<^sub>2 r; Some ((a, b), r) })
     (\<lambda>(a, b). enc\<^sub>1 a @ enc\<^sub>2 b) (\<lambda>(a, b). ok\<^sub>1 a \<and> ok\<^sub>2 b)"
proof
  fix w :: ByteWriter and v :: "'a \<times> 'b"
  assume "writer_ok w" and "case v of (a, b) \<Rightarrow> ok\<^sub>1 a \<and> ok\<^sub>2 b"
  then show "(case v of (a, b) \<Rightarrow> do { w \<leftarrow> wr\<^sub>1 w a; wr\<^sub>2 w b }) =
      append_bytes w (case v of (a, b) \<Rightarrow> enc\<^sub>1 a @ enc\<^sub>2 b)"
    by (auto simp: first.write_iff second.write_iff append_bytes_def writer_ok_def)
next
  fix pre suf and v :: "'a \<times> 'b" and r
  show "(do { (a, r) \<leftarrow> rd\<^sub>1 (reader_at pre suf); (b, r) \<leftarrow> rd\<^sub>2 r; Some ((a, b), r) }) = Some (v, r) \<longleftrightarrow>
      (case v of (a, b) \<Rightarrow> ok\<^sub>1 a \<and> ok\<^sub>2 b) \<and>
      (\<exists>suf'. suf = (case v of (a, b) \<Rightarrow> enc\<^sub>1 a @ enc\<^sub>2 b) @ suf' \<and>
         r = reader_at (pre @ (case v of (a, b) \<Rightarrow> enc\<^sub>1 a @ enc\<^sub>2 b)) suf')"
    by (cases v) (auto simp: bind_pair_Some_iff first.read_iff second.read_iff)
qed

end

section \<open>The fields the protocol uses\<close>

definition u16_bytes :: "u16 \<Rightarrow> bytes" where
  "u16_bytes v = [ucast (drop_bit 8 v), ucast v]"

definition u32_bytes :: "u32 \<Rightarrow> bytes" where
  "u32_bytes v = [ucast (drop_bit 24 v), ucast (drop_bit 16 v), ucast (drop_bit 8 v), ucast v]"

definition u64_bytes :: "u64 \<Rightarrow> bytes" where
  "u64_bytes v = u32_bytes (ucast (drop_bit 32 v)) @ u32_bytes (ucast v)"

definition string_bytes :: "string \<Rightarrow> bytes" where
  "string_bytes s = u16_bytes (of_nat (length s)) @ map byte_of_char s"

lemma length_field_bytes [simp]:
  "length (u16_bytes v) = 2" "length (u32_bytes x) = 4" "length (u64_bytes y) = 8"
  "length (string_bytes s) = 2 + length s"
  by (simp_all add: u16_bytes_def u32_bytes_def u64_bytes_def string_bytes_def)

lemma Remaining_reader_at [simp]: "Remaining (reader_at pre suf) = length suf"
  by (simp add: Remaining_def reader_at_def)

lemma append_bytes_Nil: "writer_ok w \<Longrightarrow> append_bytes w [] = Some w"
  by (simp add: append_bytes_def writer_ok_def)

interpretation byte: field_codec WriteByte ReadByte "\<lambda>v. [v]" "\<lambda>_. True"
proof
  fix w v
  show "writer_ok w \<Longrightarrow> WriteByte w v = append_bytes w [v]"
    by (auto simp: WriteByte_def append_bytes_def writer_ok_def)
next
  fix pre suf v r
  show "ReadByte (reader_at pre suf) = Some (v, r) \<longleftrightarrow>
      True \<and> (\<exists>suf'. suf = [v] @ suf' \<and> r = reader_at (pre @ [v]) suf')"
    by (cases suf) (auto simp: ReadByte_def reader_at_def nth_append)
qed

lemma WriteByte_bind:
  "writer_ok w \<Longrightarrow> (do { w \<leftarrow> WriteByte w b; f w }) =
     (if length (writer_bytes w) < kMaximumPacketSize then f (w\<lparr>writer_bytes := writer_bytes w @ [b]\<rparr>) else None)"
  by (auto simp: byte.write_iff append_bytes_def)

lemma writer_ok_snoc:
  "length (writer_bytes w) < kMaximumPacketSize \<Longrightarrow> writer_ok (w\<lparr>writer_bytes := writer_bytes w @ [b]\<rparr>)"
  by (simp add: writer_ok_def)

lemma WriteU16_append: "writer_ok w \<Longrightarrow> WriteU16 w v = append_bytes w (u16_bytes v)"
  by (auto simp: WriteU16_def u16_bytes_def byte.write_iff append_bytes_def writer_ok_def)

lemma ReadU16_iff:
  "ReadU16 (reader_at pre suf) = Some (v, r) \<longleftrightarrow>
     (\<exists>suf'. suf = u16_bytes v @ suf' \<and> r = reader_at (pre @ u16_bytes v) suf')"
  by (auto simp: ReadU16_def u16_bytes_def bind_pair_Some_iff byte.read_iff u16_join_iff)

interpretation u16: field_codec WriteU16 ReadU16 u16_bytes "\<lambda>_. True"
  by unfold_locales (simp_all add: WriteU16_append ReadU16_iff)

lemma WriteU32_append: "writer_ok w \<Longrightarrow> WriteU32 w v = append_bytes w (u32_bytes v)"
  by (auto simp: WriteU32_def u32_bytes_def byte.write_iff append_bytes_def writer_ok_def)

lemma ReadU32_iff:
  "ReadU32 (reader_at pre suf) = Some (v, r) \<longleftrightarrow>
     (\<exists>suf'. suf = u32_bytes v @ suf' \<and> r = reader_at (pre @ u32_bytes v) suf')"
  by (auto simp: ReadU32_def u32_bytes_def bind_pair_Some_iff byte.read_iff u32_join_iff)

interpretation u32: field_codec WriteU32 ReadU32 u32_bytes "\<lambda>_. True"
  by unfold_locales (simp_all add: WriteU32_append ReadU32_iff)

text \<open>A 64-bit field is the pair of its halves.\<close>

interpretation u32_pair: two_fields WriteU32 ReadU32 u32_bytes "\<lambda>_. True" WriteU32 ReadU32 u32_bytes "\<lambda>_. True"
  by unfold_locales

lemma ReadU64_iff:
  "ReadU64 (reader_at pre suf) = Some (v, r) \<longleftrightarrow>
     (\<exists>suf'. suf = u64_bytes v @ suf' \<and> r = reader_at (pre @ u64_bytes v) suf')"
proof -
  let ?pair = "\<lambda>r. do { (a, r) \<leftarrow> ReadU32 r; (b, r) \<leftarrow> ReadU32 r; Some ((a, b), r) }"
  have "ReadU64 r = do { (p, r) \<leftarrow> ?pair r; Some (push_bit 32 (ucast (fst p)) OR ucast (snd p), r) }" for r
    by (cases "ReadU32 r") (simp_all add: ReadU64_def split_def)
  note split = this
  have "ReadU64 (reader_at pre suf) = Some (v, r) \<longleftrightarrow>
      (\<exists>p. ?pair (reader_at pre suf) = Some (p, r) \<and> push_bit 32 (ucast (fst p)) OR ucast (snd p) = v)"
    unfolding split bind_pair_Some_iff by auto
  then show ?thesis
    unfolding field_codec.read_iff [OF u32_pair.pair_codec] u64_join_iff u64_bytes_def
    by auto
qed

interpretation u64: field_codec WriteU64 ReadU64 u64_bytes "\<lambda>_. True"
proof
  fix w v
  have "WriteU64 w v = (case (ucast (drop_bit 32 v), ucast v) of (a, b) \<Rightarrow>
      do { w \<leftarrow> WriteU32 w a; WriteU32 w b })"
    by (simp add: WriteU64_def)
  then show "writer_ok w \<Longrightarrow> WriteU64 w v = append_bytes w (u64_bytes v)"
    using field_codec.write_iff [OF u32_pair.pair_codec, of w "(ucast (drop_bit 32 v), ucast v)"]
    by (simp add: u64_bytes_def)
qed (simp add: ReadU64_iff)

text \<open>Raw bytes of a known length, and strings with a length prefix and a limit.\<close>

interpretation raw: field_codec "\<lambda>w bs. WriteBytes w (View bs)" "\<lambda>r. ReadBytes r n" "\<lambda>bs. bs"
    "\<lambda>bs. length bs = n" for n
proof
  fix w :: ByteWriter and bs :: bytes
  show "writer_ok w \<Longrightarrow> length bs = n \<Longrightarrow> WriteBytes w (View bs) = append_bytes w bs"
    by (auto simp: WriteBytes_def append_bytes_def writer_ok_def)
next
  fix pre suf bs r
  show "ReadBytes (reader_at pre suf) n = Some (bs, r) \<longleftrightarrow>
      length bs = n \<and> (\<exists>suf'. suf = bs @ suf' \<and> r = reader_at (pre @ bs) suf')"
  proof (cases "n \<le> length suf")
    case True
    then have "ReadBytes (reader_at pre suf) n = Some (take n suf, reader_at (pre @ take n suf) (drop n suf))"
      by (simp add: ReadBytes_def reader_at_def Remaining_def)
    moreover have "length bs = n \<and> suf = bs @ suf' \<longleftrightarrow> bs = take n suf \<and> suf' = drop n suf" for suf'
      using True by (auto simp: append_eq_conv_conj)
    ultimately show ?thesis
      by (metis option.inject prod.inject)
  next
    case False
    then show ?thesis
      by (auto simp: ReadBytes_def)
  qed
qed

lemma ReadString_iff:
  assumes "limit \<le> 65535"
  shows "ReadString limit (reader_at pre suf) = Some (s, r) \<longleftrightarrow>
    length s \<le> limit \<and> (\<exists>suf'. suf = string_bytes s @ suf' \<and> r = reader_at (pre @ string_bytes s) suf')"
proof
  assume "ReadString limit (reader_at pre suf) = Some (s, r)"
  then obtain len suf1 where suf: "suf = u16_bytes len @ suf1" and le: "unat len \<le> limit" "unat len \<le> length suf1"
    and s: "s = map char_of_byte (take (unat len) suf1)"
    and r: "r = (reader_at (pre @ u16_bytes len) suf1)\<lparr>reader_offset := length pre + 2 + unat len\<rparr>"
    by (auto simp: ReadString_def bind_pair_Some_iff u16.read_iff split: if_splits)
      (auto simp: reader_at_def)
  have "length s = unat len"
    using s le by simp
  then have "string_bytes s = u16_bytes len @ take (unat len) suf1"
    by (simp add: string_bytes_def s)
  then show "length s \<le> limit \<and> (\<exists>suf'. suf = string_bytes s @ suf' \<and> r = reader_at (pre @ string_bytes s) suf')"
    using suf le s r \<open>length s = unat len\<close>
    by (intro conjI exI [of _ "drop (unat len) suf1"]) (auto simp: reader_at_def)
next
  assume *: "length s \<le> limit \<and> (\<exists>suf'. suf = string_bytes s @ suf' \<and> r = reader_at (pre @ string_bytes s) suf')"
  then obtain suf' where suf: "suf = string_bytes s @ suf'" and r: "r = reader_at (pre @ string_bytes s) suf'"
    by blast
  have len: "unat (of_nat (length s) :: u16) = length s"
    using * assms by (simp add: unat_of_nat_u16)
  have "ReadU16 (reader_at pre suf) =
      Some (of_nat (length s), reader_at (pre @ u16_bytes (of_nat (length s))) (map byte_of_char s @ suf'))"
    by (simp add: u16.read_iff suf string_bytes_def)
  then show "ReadString limit (reader_at pre suf) = Some (s, r)"
    using * r by (simp add: ReadString_def len string_bytes_def) (simp add: reader_at_def)
qed

lemma WriteString_append:
  "writer_ok w \<Longrightarrow> length s \<le> 65535 \<Longrightarrow> WriteString w s = append_bytes w (string_bytes s)"
  by (auto simp: WriteString_def string_bytes_def u16.write_iff append_bytes_def WriteBytes_def writer_ok_def)

lemmas field_writes = byte.write_iff u16.write_iff u32.write_iff u64.write_iff raw.write_iff WriteString_append
lemmas field_reads = byte.read_iff u16.read_iff u32.read_iff u64.read_iff raw.read_iff

lemmas field_read_binds = byte.read_bind_iff u16.read_bind_iff u32.read_bind_iff u64.read_bind_iff raw.read_bind_iff


lemmas field_read_encs = u16.read_enc u32.read_enc u64.read_enc raw.read_enc
  u16.read_enc_last u32.read_enc_last u64.read_enc_last raw.read_enc_last

end
