(* ===== verification/Picosha2.thy ===== *)
theory Picosha2
  imports Prelude
begin

text \<open>
  SHA-256 as \<^verbatim>\<open>third_party/picosha2/picosha2.h\<close> computes it, on the 32-bit Windows
  client, where \<^verbatim>\<open>word_t\<close>, an \<^verbatim>\<open>unsigned long\<close>, has 32 bits and
  \<^verbatim>\<open>mask_32bit\<close> is the identity. The main result is that hashing in chunks, in
  whatever way the data is cut, gives the digest of the whole.
\<close>

section \<open>The block function\<close>

text \<open>The constants of the source, each written as its two 16-bit halves.\<close>

definition halves :: "u32 \<times> u32 \<Rightarrow> u32" where
  "halves p = (case p of (high, low) \<Rightarrow> push_bit 16 high OR low)"

definition add_constant :: "u32 list" where
  "add_constant = map halves [
    (0x428a, 0x2f98), (0x7137, 0x4491), (0xb5c0, 0xfbcf), (0xe9b5, 0xdba5),
    (0x3956, 0xc25b), (0x59f1, 0x11f1), (0x923f, 0x82a4), (0xab1c, 0x5ed5),
    (0xd807, 0xaa98), (0x1283, 0x5b01), (0x2431, 0x85be), (0x550c, 0x7dc3),
    (0x72be, 0x5d74), (0x80de, 0xb1fe), (0x9bdc, 0x06a7), (0xc19b, 0xf174),
    (0xe49b, 0x69c1), (0xefbe, 0x4786), (0x0fc1, 0x9dc6), (0x240c, 0xa1cc),
    (0x2de9, 0x2c6f), (0x4a74, 0x84aa), (0x5cb0, 0xa9dc), (0x76f9, 0x88da),
    (0x983e, 0x5152), (0xa831, 0xc66d), (0xb003, 0x27c8), (0xbf59, 0x7fc7),
    (0xc6e0, 0x0bf3), (0xd5a7, 0x9147), (0x06ca, 0x6351), (0x1429, 0x2967),
    (0x27b7, 0x0a85), (0x2e1b, 0x2138), (0x4d2c, 0x6dfc), (0x5338, 0x0d13),
    (0x650a, 0x7354), (0x766a, 0x0abb), (0x81c2, 0xc92e), (0x9272, 0x2c85),
    (0xa2bf, 0xe8a1), (0xa81a, 0x664b), (0xc24b, 0x8b70), (0xc76c, 0x51a3),
    (0xd192, 0xe819), (0xd699, 0x0624), (0xf40e, 0x3585), (0x106a, 0xa070),
    (0x19a4, 0xc116), (0x1e37, 0x6c08), (0x2748, 0x774c), (0x34b0, 0xbcb5),
    (0x391c, 0x0cb3), (0x4ed8, 0xaa4a), (0x5b9c, 0xca4f), (0x682e, 0x6ff3),
    (0x748f, 0x82ee), (0x78a5, 0x636f), (0x84c8, 0x7814), (0x8cc7, 0x0208),
    (0x90be, 0xfffa), (0xa450, 0x6ceb), (0xbef9, 0xa3f7), (0xc671, 0x78f2)]"

definition initial_message_digest :: "u32 list" where
  "initial_message_digest = map halves [
    (0x6a09, 0xe667), (0xbb67, 0xae85), (0x3c6e, 0xf372), (0xa54f, 0xf53a),
    (0x510e, 0x527f), (0x9b05, 0x688c), (0x1f83, 0xd9ab), (0x5be0, 0xcd19)]"

definition ch :: "u32 \<Rightarrow> u32 \<Rightarrow> u32 \<Rightarrow> u32" where
  "ch x y z = (x AND y) XOR (NOT x AND z)"

definition maj :: "u32 \<Rightarrow> u32 \<Rightarrow> u32 \<Rightarrow> u32" where
  "maj x y z = (x AND y) XOR (x AND z) XOR (y AND z)"

definition rotr :: "u32 \<Rightarrow> nat \<Rightarrow> u32" where
  "rotr x n = drop_bit n x OR push_bit (32 - n) x"

definition bsig0 :: "u32 \<Rightarrow> u32" where
  "bsig0 x = rotr x 2 XOR rotr x 13 XOR rotr x 22"

definition bsig1 :: "u32 \<Rightarrow> u32" where
  "bsig1 x = rotr x 6 XOR rotr x 11 XOR rotr x 25"

definition shr :: "u32 \<Rightarrow> nat \<Rightarrow> u32" where
  "shr x n = drop_bit n x"

definition ssig0 :: "u32 \<Rightarrow> u32" where
  "ssig0 x = rotr x 7 XOR rotr x 18 XOR shr x 3"

definition ssig1 :: "u32 \<Rightarrow> u32" where
  "ssig1 x = rotr x 17 XOR rotr x 19 XOR shr x 10"

text \<open>The first sixteen schedule words, big-endian, and the loop that extends them.\<close>

definition block_word :: "bytes \<Rightarrow> nat \<Rightarrow> u32" where
  "block_word block i = push_bit 24 (ucast (block ! (i * 4))) OR push_bit 16 (ucast (block ! (i * 4 + 1))) OR
     push_bit 8 (ucast (block ! (i * 4 + 2))) OR ucast (block ! (i * 4 + 3))"

definition extend_word :: "nat \<Rightarrow> u32 list \<Rightarrow> u32 list" where
  "extend_word i w = w @ [ssig1 (w ! (i - 2)) + w ! (i - 7) + ssig0 (w ! (i - 15)) + w ! (i - 16)]"

definition message_schedule :: "bytes \<Rightarrow> u32 list" where
  "message_schedule block = fold extend_word [16..<64] (map (block_word block) [0..<16])"

type_synonym Working = "u32 \<times> u32 \<times> u32 \<times> u32 \<times> u32 \<times> u32 \<times> u32 \<times> u32"

definition round_step :: "u32 list \<Rightarrow> nat \<Rightarrow> Working \<Rightarrow> Working" where
  "round_step w i s =
    (case s of (a, b, c, d, e, f, g, h) \<Rightarrow>
      let temp1 = h + bsig1 e + ch e f g + add_constant ! i + w ! i;
          temp2 = bsig0 a + maj a b c
      in (temp1 + temp2, a, b, c, d + temp1, e, f, g))"

definition hash256_block :: "u32 list \<Rightarrow> bytes \<Rightarrow> u32 list" where
  "hash256_block h block =
    (let w = message_schedule block
     in case fold (round_step w) [0..<64] (h ! 0, h ! 1, h ! 2, h ! 3, h ! 4, h ! 5, h ! 6, h ! 7) of
          (a, b, c, d, e, f, g, i) \<Rightarrow>
            [h ! 0 + a, h ! 1 + b, h ! 2 + c, h ! 3 + d, h ! 4 + e, h ! 5 + f, h ! 6 + g, h ! 7 + i])"

section \<open>The incremental hasher\<close>

record Hasher =
  hasher_buffer :: bytes
  data_length_digits :: "u32 list"
  hasher_h :: "u32 list"

definition new_hasher :: Hasher where
  "new_hasher = \<lparr>hasher_buffer = [], data_length_digits = [0, 0, 0, 0], hasher_h = initial_message_digest\<rparr>"

text \<open>The carry loop over the four 16-bit digits, least significant first; it stops at the first digit that fits.\<close>

fun carry_digits :: "u32 \<Rightarrow> u32 list \<Rightarrow> u32 list" where
  "carry_digits carry [] = []"
| "carry_digits carry (d # ds) =
    (let d = d + carry
     in if d \<ge> 65536 then (d AND 65535) # carry_digits (drop_bit 16 d) ds else d # ds)"

definition add_to_data_length :: "u32 \<Rightarrow> u32 list \<Rightarrow> u32 list" where
  "add_to_data_length n ds = carry_digits 0 (ds[0 := ds ! 0 + n])"

text \<open>The block loop of \<^verbatim>\<open>process\<close>, and what it leaves in the buffer.\<close>

function hash_blocks :: "u32 list \<Rightarrow> bytes \<Rightarrow> u32 list \<times> bytes" where
  "hash_blocks h buffer =
    (if 64 \<le> length buffer then hash_blocks (hash256_block h (take 64 buffer)) (drop 64 buffer) else (h, buffer))"
  by pat_completeness auto
termination by (relation "measure (\<lambda>(h, buffer). length buffer)") auto

declare hash_blocks.simps [simp del]

definition hasher_process :: "bytes \<Rightarrow> Hasher \<Rightarrow> Hasher" where
  "hasher_process data s =
    (let (h, rest) = hash_blocks (hasher_h s) (hasher_buffer s @ data)
     in \<lparr>hasher_buffer = rest, data_length_digits = add_to_data_length (of_nat (length data)) (data_length_digits s),
         hasher_h = h\<rparr>)"

text \<open>Byte length to bit length: each digit is shifted by three with the carry of the one below.\<close>

fun shift_digits :: "u32 \<Rightarrow> u32 list \<Rightarrow> u32 list" where
  "shift_digits carry [] = []"
| "shift_digits carry (d # ds) =
     ((push_bit 3 d OR carry) AND 65535) # shift_digits (drop_bit 13 d AND 65535) ds"

definition write_data_bit_length :: "u32 list \<Rightarrow> bytes" where
  "write_data_bit_length ds =
    concat (map (\<lambda>d. [ucast (drop_bit 8 d), ucast d]) (rev (shift_digits 0 ds)))"

definition hasher_finish :: "Hasher \<Rightarrow> u32 list" where
  "hasher_finish s =
    (let remains = length (hasher_buffer s);
         len = write_data_bit_length (data_length_digits s)
     in if remains > 55
        then
          let h = hash256_block (hasher_h s) (hasher_buffer s @ [0x80] @ replicate (63 - remains) 0)
          in hash256_block h (replicate 56 0 @ len)
        else hash256_block (hasher_h s) (hasher_buffer s @ [0x80] @ replicate (55 - remains) 0 @ len))"

definition get_hash_bytes :: "u32 list \<Rightarrow> bytes" where
  "get_hash_bytes h = concat (map (\<lambda>w. [ucast (drop_bit 24 w), ucast (drop_bit 16 w), ucast (drop_bit 8 w), ucast w]) h)"

definition hash256 :: "bytes \<Rightarrow> bytes" where
  "hash256 data = get_hash_bytes (hasher_finish (hasher_process data new_hasher))"

section \<open>The length counter\<close>

text \<open>The four digits are the base 65536 digits of the number of bytes, modulo \<^verbatim>\<open>2 ^ 64\<close>.\<close>

primrec digits16 :: "nat \<Rightarrow> nat \<Rightarrow> u32 list" where
  "digits16 0 n = []"
| "digits16 (Suc k) n = of_nat (n mod 65536) # digits16 k (n div 65536)"

lemma unat_digit [simp]: "unat (of_nat (n mod 65536) :: u32) = n mod 65536"
  by (simp add: unat_of_nat take_bit_nat_eq_self_iff)

lemma digit_add:
  assumes "unat (c :: u32) < 4294901760"
  shows "unat ((of_nat (n mod 65536) :: u32) + c) = n mod 65536 + unat c"
proof -
  have "n mod 65536 < 65536" by simp
  then have "n mod 65536 + unat c < 2 ^ 32" using assms by simp
  then show ?thesis by (subst unat_add_lem [THEN iffD1]) simp_all
qed

lemma low16: "(d :: u32) AND 65535 = of_nat (unat d mod 65536)"
proof -
  have "d AND 65535 = take_bit 16 d"
    by (simp add: take_bit_eq_mask mask_eq_exp_minus_1)
  also have "\<dots> = d mod 65536" by (simp add: take_bit_eq_mod)
  also have "\<dots> = of_nat (unat d mod 65536)"
    by (simp add: word_unat_eq_iff unat_mod)
  finally show ?thesis .
qed

lemma unat_drop16: "unat (drop_bit 16 (d :: u32)) = unat d div 65536"
  by (simp add: drop_bit_eq_div unat_div)

lemma div_mod_split: "(n + c) div p = n div p + (n mod p + c) div (p :: nat)"
proof (cases "p = 0")
  case False
  have "n + c = (n mod p + c) + n div p * p" by (simp add: mod_div_mult_eq)
  then have "(n + c) div p = ((n mod p + c) + n div p * p) div p" by simp
  also have "\<dots> = n div p + (n mod p + c) div p" using False by (simp only: div_mult_self1 not_False_eq_True)
  finally show ?thesis .
qed simp

lemma carry_digits_eq: "unat c < 4294901760 \<Longrightarrow> carry_digits c (digits16 k n) = digits16 k (n + unat c)"
proof (induction k arbitrary: c n)
  case 0
  then show ?case by simp
next
  case (Suc k)
  let ?d = "(of_nat (n mod 65536) :: u32) + c"
  have d: "unat ?d = n mod 65536 + unat c" by (rule digit_add) (rule Suc.prems)
  have carry: "unat (drop_bit 16 ?d) = (n mod 65536 + unat c) div 65536"
    by (simp add: unat_drop16 d)
  show ?case
  proof (cases "?d \<ge> 65536")
    case True
    have "carry_digits (drop_bit 16 ?d) (digits16 k (n div 65536)) =
        digits16 k (n div 65536 + unat (drop_bit 16 ?d))"
    proof (rule Suc.IH)
      have "unat ?d < 4294967296" using unsigned_less [of ?d, where ?'a = nat] by simp
      then show "unat (drop_bit 16 ?d) < 4294901760" using carry d by simp
    qed
    then show ?thesis using True
      by (simp add: Let_def low16 d carry div_mod_split [of n "unat c" 65536] mod_add_left_eq)
  next
    case False
    then have small: "n mod 65536 + unat c < 65536" using d by (simp add: word_le_nat_alt)
    then have "(n + unat c) mod 65536 = n mod 65536 + unat c" by (metis mod_add_left_eq mod_less)
    moreover have "(n + unat c) div 65536 = n div 65536" using small by (simp add: div_mod_split [of n "unat c" 65536])
    ultimately show ?thesis using False by (simp add: Let_def)
  qed
qed

lemma add_to_data_length_eq:
  assumes "m < 4294901760"
  shows "add_to_data_length (of_nat m) (digits16 4 n) = digits16 4 (n + m)"
proof -
  have m: "unat (of_nat m :: u32) = m" using assms by (simp add: unat_of_nat take_bit_nat_eq_self_iff)
  have four: "digits16 4 n = of_nat (n mod 65536) # digits16 3 (n div 65536)"
    using digits16.simps(2) [of 3 n] by (simp del: digits16.simps)
  have "add_to_data_length (of_nat m) (digits16 4 n) = carry_digits (of_nat m) (digits16 4 n)"
    by (simp add: add_to_data_length_def four)
  then show ?thesis using assms carry_digits_eq [of "of_nat m" 4 n] by (simp add: m)
qed

lemma low_byte_or:
  assumes "unat (c :: u32) < 8"
  shows "push_bit 3 d OR c = push_bit 3 d + c"
proof (rule disjunctive_add [symmetric])
  fix i
  have c: "take_bit 3 c = c"
    using assms by (simp add: word_unat_eq_iff unsigned_take_bit_eq take_bit_nat_eq_self_iff)
  show "\<not> bit (push_bit 3 d) i \<or> \<not> bit c i"
    using bit_take_bit_iff [of 3 c i] by (auto simp: bit_push_bit_iff c)
qed

lemma shift_arith:
  fixes n c :: nat
  assumes "c < 8"
  shows "8 * n + c = (8 * (n mod 65536) + c) + 65536 * (8 * (n div 65536))"
    and "(8 * (n mod 65536) + c) div 65536 = n mod 65536 div 8192"
proof -
  show "8 * n + c = (8 * (n mod 65536) + c) + 65536 * (8 * (n div 65536))"
    using mod_mult_div_eq [of n 65536] by linarith
  have "(8 * (n mod 65536) + c) div 65536 = ((8 * (n mod 65536) + c) div 8) div 8192"
    by (simp add: div_mult2_eq [symmetric])
  also have "(8 * (n mod 65536) + c) div 8 = n mod 65536" using assms by simp
  finally show "(8 * (n mod 65536) + c) div 65536 = n mod 65536 div 8192" .
qed

lemma shift_digits_eq: "unat c < 8 \<Longrightarrow> shift_digits c (digits16 k n) = digits16 k (8 * n + unat c)"
proof (induction k arbitrary: c n)
  case 0
  then show ?case by simp
next
  case (Suc k)
  let ?r = "n mod 65536"
  let ?d = "of_nat ?r :: u32"
  have r: "?r < 65536" by simp
  have up: "unat (drop_bit 13 ?d AND 65535) = ?r div 8192"
  proof -
    have "unat (drop_bit 13 ?d) = ?r div 8192" by (simp add: drop_bit_eq_div unat_div)
    moreover have "?r div 8192 < 8" using r by (simp add: div_less_iff_less_mult)
    ultimately show ?thesis by (simp add: low16 unat_of_nat take_bit_nat_eq_self_iff)
  qed
  have push: "unat (push_bit 3 ?d + c) = 8 * ?r + unat c"
  proof -
    have "8 * ?r + unat c < 4294967296" using r Suc.prems by simp
    moreover have "push_bit 3 ?d + c = of_nat (8 * ?r + unat c)"
      by (simp add: push_bit_eq_mult)
    ultimately show ?thesis by (metis unat_of_nat_u32)
  qed
  have "unat (drop_bit 13 ?d AND 65535) < 8" using r up by (simp add: div_less_iff_less_mult)
  then have tl: "shift_digits (drop_bit 13 ?d AND 65535) (digits16 k (n div 65536)) =
      digits16 k (8 * (n div 65536) + ?r div 8192)"
    using Suc.IH up by simp
  have "(8 * n + unat c) mod 65536 = (8 * ?r + unat c) mod 65536"
    by (subst shift_arith(1) [OF Suc.prems]) (simp only: mod_mult_self2)
  moreover have "(8 * n + unat c) div 65536 = 8 * (n div 65536) + ?r div 8192"
    by (subst shift_arith(1) [OF Suc.prems])
      (simp only: div_mult_self2 shift_arith(2) [OF Suc.prems])
  ultimately show ?case
    using tl by (simp only: digits16.simps shift_digits.simps low_byte_or [OF Suc.prems] low16 push)
qed

lemma hash_blocks_append:
  "hash_blocks h (b @ c) = (case hash_blocks h b of (h', r) \<Rightarrow> hash_blocks h' (r @ c))"
proof (induction h b rule: hash_blocks.induct)
  case (1 h b)
  show ?case
  proof (cases "64 \<le> length b")
    case True
    then have "hash_blocks h (b @ c) = hash_blocks (hash256_block h (take 64 b)) (drop 64 b @ c)"
      by (subst hash_blocks.simps) simp
    also have "\<dots> = (case hash_blocks h b of (h', r) \<Rightarrow> hash_blocks h' (r @ c))"
      using 1 True by (subst hash_blocks.simps [of h b]) (simp only: if_True)
    finally show ?thesis .
  next
    case False
    then show ?thesis by (subst hash_blocks.simps [of h b]) (simp only: if_False prod.case)
  qed
qed

text \<open>Eight bytes, most significant first.\<close>

definition be64 :: "nat \<Rightarrow> bytes" where
  "be64 n = map (\<lambda>i. of_nat (n div 256 ^ i)) (rev [0..<8])"

lemma ucast_digit: "(ucast (drop_bit 8 (of_nat (n mod 65536) :: u32)) :: u8) = of_nat (n div 256)"
  "(ucast (of_nat (n mod 65536) :: u32) :: u8) = of_nat n"
proof -
  have "unat (ucast (drop_bit 8 (of_nat (n mod 65536) :: u32)) :: u8) = (n mod 65536 div 256) mod 256"
    by (simp add: unsigned_ucast_eq take_bit_eq_mod drop_bit_eq_div unat_div)
  also have "n mod 65536 div 256 = n div 256 mod 256"
    using mod_mult2_eq [of n 256 256] by simp
  finally show "(ucast (drop_bit 8 (of_nat (n mod 65536) :: u32)) :: u8) = of_nat (n div 256)"
    by (simp add: word_unat_eq_iff unat_of_nat take_bit_eq_mod)
  show "(ucast (of_nat (n mod 65536) :: u32) :: u8) = of_nat n"
    by (simp add: word_unat_eq_iff unsigned_ucast_eq take_bit_eq_mod unat_of_nat take_bit_eq_mod mod_mod_cancel)
qed

lemma digits16_4: "digits16 4 m = [of_nat (m mod 65536), of_nat (m div 65536 mod 65536),
    of_nat (m div 65536 div 65536 mod 65536), of_nat (m div 65536 div 65536 div 65536 mod 65536)]"
proof -
  have "digits16 1 m = [of_nat (m mod 65536)]" for m by simp
  moreover have "digits16 2 m = of_nat (m mod 65536) # digits16 1 (m div 65536)" for m
    using digits16.simps(2) [of 1 m] by (simp del: digits16.simps(2) add: numeral_2_eq_2)
  moreover have "digits16 3 m = of_nat (m mod 65536) # digits16 2 (m div 65536)" for m
    using digits16.simps(2) [of 2 m] by (simp del: digits16.simps(2))
  moreover have "digits16 4 m = of_nat (m mod 65536) # digits16 3 (m div 65536)" for m
    using digits16.simps(2) [of 3 m] by (simp del: digits16.simps(2))
  ultimately show ?thesis by simp
qed

lemma write_data_bit_length_eq: "write_data_bit_length (digits16 4 n) = be64 (8 * n)"
proof -
  have "shift_digits 0 (digits16 4 n) = digits16 4 (8 * n)" using shift_digits_eq [of 0 4 n] by simp
  then show ?thesis
    by (simp add: write_data_bit_length_def digits16_4 be64_def ucast_digit div_mult2_eq [symmetric] upt_rec)
qed

section \<open>The padded message\<close>

text \<open>
  FIPS 180-4: the message, one 1 bit, zeros up to eight bytes short of a block, and the
  length in bits as a 64-bit big-endian integer; the digest is the chaining value after
  the last block.
\<close>

definition sha256_pad :: "bytes \<Rightarrow> bytes" where
  "sha256_pad data = data @ 0x80 # replicate ((119 - length data mod 64) mod 64) 0 @ be64 (8 * length data)"

definition sha256_digest :: "bytes \<Rightarrow> bytes" where
  "sha256_digest data = get_hash_bytes (fst (hash_blocks initial_message_digest (sha256_pad data)))"

lemma length_be64 [simp]: "length (be64 n) = 8"
  by (simp add: be64_def)

lemma hash_blocks_rest: "length (snd (hash_blocks h b)) = length b mod 64"
proof (induction h b rule: hash_blocks.induct)
  case (1 h b)
  then show ?case
    by (cases "64 \<le> length b") (subst hash_blocks.simps, simp add: le_mod_geq)+
qed

lemma hash_blocks_one: "length b = 64 \<Longrightarrow> hash_blocks h (b @ c) = hash_blocks (hash256_block h b) c"
  by (subst hash_blocks.simps) simp

lemma hash_blocks_last: "length b = 64 \<Longrightarrow> fst (hash_blocks h b) = hash256_block h b"
  by (subst hash_blocks.simps, simp, subst hash_blocks.simps, simp)

lemma pad_amount:
  fixes k :: nat
  assumes "k < 64"
  shows "(119 - k) mod 64 = (if k > 55 then (63 - k) + 56 else 55 - k)"
proof (cases "k > 55")
  case True
  then have "119 - k < 64" and "119 - k = (63 - k) + 56" using assms by linarith+
  then show ?thesis using True by (simp only: mod_less if_True)
next
  case False
  then have "119 - k = (55 - k) + 64" and "55 - k < 64" by linarith+
  then show ?thesis using False by (simp only: mod_add_self2 mod_less if_False)
qed

lemma sha256_pad_blocks: "length (sha256_pad data) mod 64 = 0"
proof -
  have "length (sha256_pad data) = length data + (119 - length data mod 64) mod 64 + 9"
    by (simp add: sha256_pad_def)
  also have "\<dots> = 64 * (length data div 64) + (length data mod 64 + (119 - length data mod 64) mod 64 + 9)"
    by simp
  also have "length data mod 64 + (119 - length data mod 64) mod 64 + 9 = (if length data mod 64 > 55 then 128 else 64)"
    using pad_amount [of "length data mod 64"] mod_less_divisor [of 64 "length data"] by (cases "length data mod 64 > 55") simp_all
  finally show ?thesis by simp
qed

text \<open>The state of the hasher after \<^verbatim>\<open>data\<close> has been fed to it.\<close>

definition hasher_after :: "bytes \<Rightarrow> Hasher" where
  "hasher_after data = (let (h, r) = hash_blocks initial_message_digest data
     in \<lparr>hasher_buffer = r, data_length_digits = digits16 4 (length data), hasher_h = h\<rparr>)"

lemma new_hasher_after: "new_hasher = hasher_after []"
proof -
  have "digits16 4 0 = [0, 0, 0, 0]" by (simp add: digits16_4)
  moreover have "hash_blocks h [] = (h, [])" for h by (subst hash_blocks.simps) simp
  ultimately show ?thesis by (simp add: new_hasher_def hasher_after_def)
qed

lemma hasher_process_after:
  "length c < 4294901760 \<Longrightarrow> hasher_process c (hasher_after data) = hasher_after (data @ c)"
  by (simp add: hasher_process_def hasher_after_def Let_def hash_blocks_append [of _ data c] add_to_data_length_eq
    split: prod.splits)

lemma hasher_finish_after: "get_hash_bytes (hasher_finish (hasher_after data)) = sha256_digest data"
proof -
  obtain h r where hr: "hash_blocks initial_message_digest data = (h, r)" by (metis prod.exhaust)
  have lr: "length r = length data mod 64" using hash_blocks_rest [of initial_message_digest data] hr by simp
  let ?n = "length data mod 64"
  have n: "?n < 64" by simp
  let ?len = "be64 (8 * length data)"
  have st: "hasher_after data = \<lparr>hasher_buffer = r, data_length_digits = digits16 4 (length data), hasher_h = h\<rparr>"
    by (simp add: hasher_after_def hr)
  have spec: "fst (hash_blocks initial_message_digest (sha256_pad data)) =
      fst (hash_blocks h (r @ 0x80 # replicate ((119 - ?n) mod 64) 0 @ ?len))"
    by (simp add: sha256_pad_def hash_blocks_append [of _ data] hr)
  show ?thesis
  proof (cases "?n > 55")
    case True
    then have pad: "(119 - ?n) mod 64 = (63 - ?n) + 56" using pad_amount [OF n] by simp
    have rep: "replicate ((119 - ?n) mod 64) 0 = replicate (63 - ?n) (0 :: u8) @ replicate 56 0"
      by (simp only: pad replicate_add)
    have "length (r @ 0x80 # replicate (63 - ?n) 0) = 64" using lr n by simp
    from hash_blocks_one [OF this, of h "replicate 56 0 @ ?len"]
    have "hash_blocks h (r @ 0x80 # replicate ((119 - ?n) mod 64) 0 @ ?len) =
        hash_blocks (hash256_block h (r @ 0x80 # replicate (63 - ?n) 0)) (replicate 56 0 @ ?len)"
      by (simp only: rep append_assoc append_Cons)
    then show ?thesis using True lr
      by (simp add: sha256_digest_def spec hash_blocks_last hasher_finish_def st Let_def write_data_bit_length_eq)
  next
    case False
    then have pad: "(119 - ?n) mod 64 = 55 - ?n" using pad_amount [OF n] by simp
    then show ?thesis using False lr
      by (simp add: sha256_digest_def spec hash_blocks_last hasher_finish_def st Let_def write_data_bit_length_eq)
  qed
qed

lemma hasher_chunks:
  "\<forall>c \<in> set cs. length c < 4294901760 \<Longrightarrow> fold hasher_process cs (hasher_after data) = hasher_after (data @ concat cs)"
  by (induction cs arbitrary: data) (simp_all add: hasher_process_after)

end
