(* ===== verification/Assets.thy ===== *)
theory Assets
  imports Prelude
begin

text \<open>
  \<^verbatim>\<open>shared/include/custommodel/assets.hpp\<close> and \<^verbatim>\<open>shared/src/assets.cpp\<close>: the asset
  metadata that travels in a manifest, the limits, and the validation of names and URLs.
  The lemmas compare the two scanning loops with declarative descriptions of the strings
  they accept.
\<close>

section \<open>Limits\<close>

definition kSha256Size :: nat where "kSha256Size = 32"
definition kMaximumAssetsPerManifest :: nat where "kMaximumAssetsPerManifest = 256"
definition kMaximumLogicalNameLength :: nat where "kMaximumLogicalNameLength = 96"
definition kMaximumUrlLength :: nat where "kMaximumUrlLength = 2048"
definition kMaximumIndividualFileSize :: u64 where "kMaximumIndividualFileSize = 64 * 1024 * 1024"
definition kMaximumTotalDownloadSize :: u64 where "kMaximumTotalDownloadSize = 512 * 1024 * 1024"
definition kMaximumManifestBytes :: nat where "kMaximumManifestBytes = 1024 * 1024"

text \<open>\<^verbatim>\<open>std::numeric_limits<std::size_t>::max()\<close> of the 32-bit client.\<close>

definition kSizeMax :: nat where "kSizeMax = 2 ^ 32 - 1"

lemmas asset_limits = kSha256Size_def kMaximumAssetsPerManifest_def kMaximumLogicalNameLength_def
  kMaximumUrlLength_def kMaximumIndividualFileSize_def kMaximumTotalDownloadSize_def
  kMaximumManifestBytes_def kSizeMax_def

section \<open>Digests: a fixed array of 32 bytes\<close>

typedef Sha256Digest = "{bs :: bytes. length bs = 32}"
  morphisms digest_bytes Abs_digest
  by (rule exI [of _ "replicate 32 0"]) simp

lemma digest_abstype [code abstype]: "Abs_digest (digest_bytes d) = d"
  by (rule digest_bytes_inverse)

text \<open>
  A zero-initialised array that is then filled from the front, as
  \<^verbatim>\<open>Sha256Digest digest{}\<close> followed by the writes of the source.
\<close>

definition digest_of_bytes :: "bytes \<Rightarrow> Sha256Digest" where
  "digest_of_bytes bs = Abs_digest (take 32 (bs @ replicate 32 0))"

lemma digest_bytes_of_bytes_code [code abstract]:
  "digest_bytes (digest_of_bytes bs) = take 32 (bs @ replicate 32 0)"
  by (simp add: digest_of_bytes_def Abs_digest_inverse)

instantiation Sha256Digest :: equal
begin

definition equal_Sha256Digest :: "Sha256Digest \<Rightarrow> Sha256Digest \<Rightarrow> bool" where
  "equal_Sha256Digest d e \<longleftrightarrow> digest_bytes d = digest_bytes e"

instance
  by standard (simp add: equal_Sha256Digest_def digest_bytes_inject)

end

lemma length_digest_bytes [simp]: "length (digest_bytes d) = 32"
  using digest_bytes [of d] by simp

lemma digest_bytes_of_bytes [simp]: "length bs = 32 \<Longrightarrow> digest_bytes (digest_of_bytes bs) = bs"
  by (simp add: digest_bytes_of_bytes_code)

lemma digest_of_digest_bytes [simp]: "digest_of_bytes (digest_bytes d) = d"
  by (simp add: digest_bytes_inject [symmetric])

section \<open>Asset descriptions\<close>

datatype AssetType = AssetType (AssetType_value: u16)

abbreviation AssetType_Dff :: AssetType where "AssetType_Dff \<equiv> AssetType 1"
abbreviation AssetType_Txd :: AssetType where "AssetType_Txd \<equiv> AssetType 2"

record AssetDescription =
  assetId :: u32
  asset_type :: AssetType
  logicalName :: string
  downloadUrl :: string
  fileSize :: u64
  sha256 :: Sha256Digest

record Manifest =
  revision :: u64
  manifest_assets :: "AssetDescription list"
  totalDownloadSize :: u64

section \<open>Character classes and \<^verbatim>\<open>string_view\<close> searches\<close>

text \<open>The C library classifications in the "C" locale.\<close>

definition isalnum :: "char \<Rightarrow> bool" where
  "isalnum c = (let n = (of_char c :: nat) in
     48 \<le> n \<and> n \<le> 57 \<or> 65 \<le> n \<and> n \<le> 90 \<or> 97 \<le> n \<and> n \<le> 122)"

definition tolower :: "char \<Rightarrow> char" where
  "tolower c = (let n = (of_char c :: nat) in if 65 \<le> n \<and> n \<le> 90 then char_of (n + 32) else c)"

text \<open>
  \<^verbatim>\<open>find(ch, pos)\<close> and \<^verbatim>\<open>find_first_of(set, pos)\<close>, with \<^verbatim>\<open>npos\<close> as
  \<^const>\<open>None\<close>; \<^verbatim>\<open>find(needle)\<close>; \<^verbatim>\<open>substr(pos, len)\<close>.
\<close>

definition sv_find_if :: "(char \<Rightarrow> bool) \<Rightarrow> string \<Rightarrow> nat \<Rightarrow> nat option" where
  "sv_find_if P s pos =
    (let k = length (takeWhile (\<lambda>c. \<not> P c) (drop pos s))
     in if pos + k < length s then Some (pos + k) else None)"

fun sv_find :: "string \<Rightarrow> string \<Rightarrow> nat option" where
  "sv_find needle [] = (if needle = [] then Some 0 else None)"
| "sv_find needle (c # s) =
     (if take (length needle) (c # s) = needle then Some 0
      else map_option Suc (sv_find needle s))"

definition sv_substr :: "string \<Rightarrow> nat \<Rightarrow> nat \<Rightarrow> string" where
  "sv_substr s pos len = take len (drop pos s)"

section \<open>Validation\<close>

definition IsAsciiIdentifierByte :: "char \<Rightarrow> bool" where
  "IsAsciiIdentifierByte value \<longleftrightarrow> isalnum value \<or> value = CHR ''_'' \<or> value = CHR ''-'' \<or>
     value = CHR ''.'' \<or> value = CHR ''/''"

text \<open>The loop of \<^verbatim>\<open>HasInvalidPathSegment\<close>, started at \<open>offset = 0\<close>.\<close>

function HasInvalidPathSegment_loop :: "string \<Rightarrow> nat \<Rightarrow> bool" where
  "HasInvalidPathSegment_loop name offset =
    (if offset \<le> length name then
       (let separator = sv_find_if (\<lambda>c. c = CHR ''/'') name offset;
            len = (case separator of None \<Rightarrow> length name - offset | Some s \<Rightarrow> s - offset);
            segment = sv_substr name offset len
        in if segment = [] \<or> segment = ''.'' \<or> segment = ''..'' then True
           else case separator of
                  None \<Rightarrow> False
                | Some s \<Rightarrow> HasInvalidPathSegment_loop name (s + 1))
     else False)"
  by pat_completeness auto
termination
  by (relation "measure (\<lambda>(name, offset). length name + 1 - offset)")
    (auto simp: sv_find_if_def Let_def split: if_splits)

declare HasInvalidPathSegment_loop.simps [simp del]

definition HasInvalidPathSegment :: "string \<Rightarrow> bool" where
  "HasInvalidPathSegment name = HasInvalidPathSegment_loop name 0"

definition StartsWithCaseInsensitive :: "string \<Rightarrow> string \<Rightarrow> bool" where
  "StartsWithCaseInsensitive value prefix =
    (if length value < length prefix then False
     else list_all (\<lambda>index. tolower (value ! index) = tolower (prefix ! index)) [0..<length prefix])"

definition IsAssetTypeValid :: "AssetType \<Rightarrow> bool" where
  "IsAssetTypeValid t \<longleftrightarrow> t = AssetType_Dff \<or> t = AssetType_Txd"

definition IsLogicalNameValid :: "string \<Rightarrow> bool" where
  "IsLogicalNameValid name =
    (if name = [] \<or> length name > kMaximumLogicalNameLength \<or>
        hd name = CHR ''/'' \<or> last name = CHR ''/''
     then False
     else list_all IsAsciiIdentifierByte name \<and> \<not> HasInvalidPathSegment name)"

definition IsDownloadUrlValid :: "string \<Rightarrow> bool" where
  "IsDownloadUrlValid url =
    (if url = [] \<or> length url > kMaximumUrlLength then False
     else if \<not> StartsWithCaseInsensitive url ''http://'' \<and>
             \<not> StartsWithCaseInsensitive url ''https://'' then False
     else case sv_find ''://'' url of
       None \<Rightarrow> False
     | Some schemeEnd \<Rightarrow>
         let authorityStart = schemeEnd + 3;
             authorityEnd = sv_find_if (\<lambda>c. c \<in> set ''/?#'') url authorityStart;
             authority = sv_substr url authorityStart
               (case authorityEnd of None \<Rightarrow> length url - authorityStart
                | Some e \<Rightarrow> e - authorityStart)
         in if authority = [] \<or> CHR ''@'' \<in> set authority \<or>
               CHR 0x5C \<in> set url \<or> CHR ''#'' \<in> set url
            then False
            else list_all (\<lambda>c. 0x21 \<le> byte_of_char c \<and> byte_of_char c \<le> 0x7E) url)"

definition IsAssetDescriptionValid :: "AssetDescription \<Rightarrow> bool" where
  "IsAssetDescriptionValid asset \<longleftrightarrow>
     assetId asset \<noteq> 0 \<and> IsAssetTypeValid (asset_type asset) \<and>
     IsLogicalNameValid (logicalName asset) \<and>
     IsDownloadUrlValid (downloadUrl asset) \<and> fileSize asset \<noteq> 0 \<and>
     fileSize asset \<le> kMaximumIndividualFileSize"

definition SerializedAssetBytes :: "AssetDescription \<Rightarrow> nat" where
  "SerializedAssetBytes asset =
    (let fixedBytes = 8 + 4 + 4 + 2 + 2 + 2 + 8 + kSha256Size
     in if length (logicalName asset) > kSizeMax - fixedBytes \<or>
           length (downloadUrl asset) > kSizeMax - fixedBytes - length (logicalName asset)
        then kSizeMax
        else fixedBytes + length (logicalName asset) + length (downloadUrl asset))"

definition ExtensionFor :: "AssetType \<Rightarrow> string" where
  "ExtensionFor t = (if t = AssetType_Dff then ''.dff'' else if t = AssetType_Txd then ''.txd'' else '''')"

definition ToString_AssetType :: "AssetType \<Rightarrow> string" where
  "ToString_AssetType t = (if t = AssetType_Dff then ''DFF'' else if t = AssetType_Txd then ''TXD'' else ''unknown'')"

section \<open>What the validators accept\<close>

text \<open>
  The segments of a path, against which the scanning loop of
  \<^verbatim>\<open>HasInvalidPathSegment\<close> is compared.
\<close>

primrec split_on :: "char \<Rightarrow> string \<Rightarrow> string list" where
  "split_on c [] = [[]]"
| "split_on c (x # xs) =
     (if x = c then [] # split_on c xs
      else (case split_on c xs of [] \<Rightarrow> [[x]] | y # ys \<Rightarrow> (x # y) # ys))"

lemma split_on_unfold:
  "split_on c s = takeWhile (\<lambda>x. x \<noteq> c) s #
     (case dropWhile (\<lambda>x. x \<noteq> c) s of [] \<Rightarrow> [] | _ # t \<Rightarrow> split_on c t)"
  by (induction s) (auto split: list.splits)

lemma length_takeWhile_less_iff: "length (takeWhile P xs) < length xs \<longleftrightarrow> (\<exists>x \<in> set xs. \<not> P x)"
  by (induction xs) auto

lemma sv_find_if_None:
  assumes "pos \<le> length s"
  shows "sv_find_if P s pos = None \<longleftrightarrow> (\<forall>c \<in> set (drop pos s). \<not> P c)"
  using assms length_takeWhile_less_iff [of "\<lambda>c. \<not> P c" "drop pos s"]
  by (auto simp: sv_find_if_def Let_def)

lemma sv_find_if_Some:
  assumes "pos \<le> length s" "sv_find_if P s pos = Some k"
  shows "pos \<le> k" "k < length s" "sv_substr s pos (k - pos) = takeWhile (\<lambda>c. \<not> P c) (drop pos s)"
    "dropWhile (\<lambda>c. \<not> P c) (drop pos s) = s ! k # drop (Suc k) s"
proof -
  let ?t = "takeWhile (\<lambda>c. \<not> P c) (drop pos s)"
  have k: "k = pos + length ?t" and kl: "k < length s"
    using assms by (auto simp: sv_find_if_def Let_def split: if_splits)
  show "pos \<le> k" "k < length s" using k kl by auto
  show "sv_substr s pos (k - pos) = ?t"
    by (simp add: sv_substr_def k takeWhile_eq_take [symmetric])
  have "dropWhile (\<lambda>c. \<not> P c) (drop pos s) = drop k s"
    by (simp add: k dropWhile_eq_drop add.commute)
  then show "dropWhile (\<lambda>c. \<not> P c) (drop pos s) = s ! k # drop (Suc k) s"
    using kl by (simp add: Cons_nth_drop_Suc)
qed

lemma HasInvalidPathSegment_loop_split:
  "offset \<le> length name \<Longrightarrow> HasInvalidPathSegment_loop name offset =
     (\<exists>seg \<in> set (split_on CHR ''/'' (drop offset name)). seg = [] \<or> seg = ''.'' \<or> seg = ''..'')"
proof (induction name offset rule: HasInvalidPathSegment_loop.induct)
  case (1 name offset)
  let ?find = "sv_find_if (\<lambda>c. c = CHR ''/'') name offset"
  show ?case
  proof (cases ?find)
    case None
    then have nosep: "CHR ''/'' \<notin> set (drop offset name)"
      using sv_find_if_None [OF "1.prems"] by auto
    then have tw: "takeWhile (\<lambda>c. c \<noteq> CHR ''/'') (drop offset name) = drop offset name"
      "dropWhile (\<lambda>c. c \<noteq> CHR ''/'') (drop offset name) = []"
      by (auto simp: takeWhile_eq_all_conv dropWhile_eq_Nil_conv)
    show ?thesis
      using None "1.prems"
      by (subst HasInvalidPathSegment_loop.simps, subst split_on_unfold)
        (auto simp: sv_substr_def Let_def tw)
  next
    case (Some k)
    note find = sv_find_if_Some [OF "1.prems" Some]
    have IH: "HasInvalidPathSegment_loop name (k + 1) =
      (\<exists>seg \<in> set (split_on CHR ''/'' (drop (k + 1) name)). seg = [] \<or> seg = ''.'' \<or> seg = ''..'')"
      if "\<not> (sv_substr name offset (k - offset) = [] \<or> sv_substr name offset (k - offset) = ''.'' \<or>
             sv_substr name offset (k - offset) = ''..'')"
      using that "1.IH" [OF "1.prems" refl refl refl _ Some] Some find(2) by simp
    have split: "split_on CHR ''/'' (drop offset name) =
        sv_substr name offset (k - offset) # split_on CHR ''/'' (drop (k + 1) name)"
      by (subst split_on_unfold) (simp add: find(3,4))
    have loop: "HasInvalidPathSegment_loop name offset =
        (let segment = sv_substr name offset (k - offset)
         in if segment = [] \<or> segment = ''.'' \<or> segment = ''..'' then True
            else HasInvalidPathSegment_loop name (k + 1))"
      using Some "1.prems" by (subst HasInvalidPathSegment_loop.simps) (simp add: Let_def)
    show ?thesis
      using IH unfolding split loop by (auto simp: Let_def simp del: split_on.simps)
  qed
qed

lemma HasInvalidPathSegment_split:
  "HasInvalidPathSegment name \<longleftrightarrow>
     (\<exists>seg \<in> set (split_on CHR ''/'' name). seg = [] \<or> seg = ''.'' \<or> seg = ''..'')"
  by (simp add: HasInvalidPathSegment_def HasInvalidPathSegment_loop_split)

lemma hd_slash: "name \<noteq> [] \<Longrightarrow> hd name = c \<Longrightarrow> [] \<in> set (split_on c name)"
  by (cases name) auto

lemma split_on_nonempty [simp]: "split_on c s \<noteq> []"
  by (cases s) (auto split: list.splits)

lemma split_on_snoc: "split_on c (s @ [c]) = split_on c s @ [[]]"
  by (induction s) (auto split: list.splits)

lemma last_slash: "name \<noteq> [] \<Longrightarrow> last name = c \<Longrightarrow> [] \<in> set (split_on c name)"
  using split_on_snoc [of c "butlast name"] by (metis append_butlast_last_id in_set_conv_decomp)

text \<open>
  Claim C39. A logical name is accepted exactly when it has 1 to 96 characters, all from the
  identifier set, and no segment between slashes is empty, a dot or two dots; the offset loop of
  the source, with its separate checks of the first and last character, decides that.
\<close>

theorem logical_name_characterised:
  "IsLogicalNameValid name \<longleftrightarrow>
     1 \<le> length name \<and> length name \<le> 96 \<and>
     (\<forall>c \<in> set name. isalnum c \<or> c \<in> set ''_-./'') \<and>
     (\<forall>seg \<in> set (split_on CHR ''/'' name). seg \<noteq> [] \<and> seg \<noteq> ''.'' \<and> seg \<noteq> ''..'')"
proof -
  have "(\<exists>seg \<in> set (split_on CHR ''/'' name). seg = [] \<or> seg = ''.'' \<or> seg = ''..'')"
    if "name \<noteq> []" "hd name = CHR ''/'' \<or> last name = CHR ''/''"
    using that hd_slash last_slash by fastforce
  then show ?thesis
    by (auto simp: IsLogicalNameValid_def HasInvalidPathSegment_split kMaximumLogicalNameLength_def
        IsAsciiIdentifierByte_def list_all_iff Suc_le_eq)
qed

theorem logical_name_characterised_witness: "IsLogicalNameValid ''car/body-1.dff''"
  unfolding logical_name_characterised by code_simp

lemma StartsWithCaseInsensitive_take:
  "StartsWithCaseInsensitive value prefix \<longleftrightarrow>
     length prefix \<le> length value \<and> map tolower (take (length prefix) value) = map tolower prefix"
  by (auto simp: StartsWithCaseInsensitive_def list_all_iff
      list_eq_iff_nth_eq [of "map tolower (take (length prefix) value)"])

lemma tolower_cases: "tolower c = c \<or> 97 \<le> (of_char (tolower c) :: nat) \<and> (of_char (tolower c) :: nat) \<le> 122"
  by (auto simp: tolower_def Let_def)

lemma tolower_punct: "tolower c = d \<Longrightarrow> (of_char d :: nat) < 97 \<Longrightarrow> c = d"
  using tolower_cases [of c] by auto

lemma starts_with_scheme:
  assumes "map tolower p = p" "CHR '':'' \<notin> set p"
  shows "StartsWithCaseInsensitive url (p @ ''://'') \<longleftrightarrow>
    (\<exists>scheme r. url = scheme @ ''://'' @ r \<and> map tolower scheme = p)"
proof
  assume "StartsWithCaseInsensitive url (p @ ''://'')"
  then have len: "length p + 3 \<le> length url"
    and eq: "map tolower (take (length p + 3) url) = p @ ''://''"
    using assms by (auto simp: StartsWithCaseInsensitive_take tolower_def eval_nat_numeral)
  let ?scheme = "take (length p) url" and ?r = "drop (length p) url"
  have "take (length p + 3) url = ?scheme @ take 3 ?r"
    by (simp add: take_add)
  with eq have scheme: "map tolower ?scheme = p" and sep: "map tolower (take 3 ?r) = ''://''"
    using len by (auto simp: append_eq_append_conv)
  from sep obtain a b c where "take 3 ?r = [a, b, c]"
    and "tolower a = CHR '':''" "tolower b = CHR ''/''" "tolower c = CHR ''/''"
    by (auto simp: map_eq_Cons_conv)
  then have "take 3 ?r = ''://''"
    by (auto dest!: tolower_punct)
  then have "url = ?scheme @ ''://'' @ drop 3 ?r"
    by (metis append_take_drop_id)
  with scheme show "\<exists>scheme r. url = scheme @ ''://'' @ r \<and> map tolower scheme = p"
    by blast
next
  assume "\<exists>scheme r. url = scheme @ ''://'' @ r \<and> map tolower scheme = p"
  then show "StartsWithCaseInsensitive url (p @ ''://'')"
    using assms by (auto simp: StartsWithCaseInsensitive_take tolower_def)
qed

text \<open>
  The grammar the URL check implements: a scheme that is \<^verbatim>\<open>http\<close> or \<^verbatim>\<open>https\<close> in any
  case, a separator, an authority that ends before the first of \<^verbatim>\<open>/ ? #\<close>, and the rest.
\<close>

definition http_scheme :: "string \<Rightarrow> bool" where
  "http_scheme scheme \<longleftrightarrow> map tolower scheme = ''http'' \<or> map tolower scheme = ''https''"

lemma starts_with_http:
  "StartsWithCaseInsensitive url ''http://'' \<or> StartsWithCaseInsensitive url ''https://'' \<longleftrightarrow>
    (\<exists>scheme r. url = scheme @ ''://'' @ r \<and> http_scheme scheme)"
proof -
  have http: "map tolower ''http'' = ''http''" "map tolower ''https'' = ''https''"
    by (simp_all add: tolower_def)
  have "StartsWithCaseInsensitive url ''http://'' \<longleftrightarrow>
      (\<exists>scheme r. url = scheme @ ''://'' @ r \<and> map tolower scheme = ''http'')"
    using starts_with_scheme [OF http(1), of url] by simp
  moreover have "StartsWithCaseInsensitive url ''https://'' \<longleftrightarrow>
      (\<exists>scheme r. url = scheme @ ''://'' @ r \<and> map tolower scheme = ''https'')"
    using starts_with_scheme [OF http(2), of url] by simp
  ultimately show ?thesis
    by (simp only: http_scheme_def conj_disj_distribL ex_disj_distrib)
qed

lemma sv_find_separator: "CHR '':'' \<notin> set s \<Longrightarrow> sv_find ''://'' (s @ ''://'' @ r) = Some (length s)"
  by (induction s) auto

lemma authority_takeWhile:
  assumes "pos \<le> length s"
  shows "sv_substr s pos (case sv_find_if P s pos of None \<Rightarrow> length s - pos | Some e \<Rightarrow> e - pos)
    = takeWhile (\<lambda>c. \<not> P c) (drop pos s)"
proof (cases "sv_find_if P s pos")
  case None
  then show ?thesis
    using sv_find_if_None [OF assms, of P]
    by (simp add: sv_substr_def) (metis takeWhile_eq_all_conv)
next
  case (Some k)
  then show ?thesis
    using sv_find_if_Some(3) [OF assms Some] by simp
qed

lemma takeWhile_span_iff:
  "(\<exists>rest. r = xs @ rest \<and> (\<forall>c \<in> set xs. \<not> P c) \<and> (rest = [] \<or> P (hd rest))) \<longleftrightarrow> takeWhile (\<lambda>c. \<not> P c) r = xs"
proof
  assume "\<exists>rest. r = xs @ rest \<and> (\<forall>c \<in> set xs. \<not> P c) \<and> (rest = [] \<or> P (hd rest))"
  then obtain rest where "r = xs @ rest" "\<forall>c \<in> set xs. \<not> P c" "rest = [] \<or> P (hd rest)"
    by blast
  then show "takeWhile (\<lambda>c. \<not> P c) r = xs"
    by (cases rest) (simp_all add: takeWhile_append2)
next
  assume xs: "takeWhile (\<lambda>c. \<not> P c) r = xs"
  then have "r = xs @ dropWhile (\<lambda>c. \<not> P c) r"
    by (metis takeWhile_dropWhile_id)
  moreover have "\<forall>c \<in> set xs. \<not> P c"
    using xs by (auto dest: set_takeWhileD)
  moreover have "dropWhile (\<lambda>c. \<not> P c) r = [] \<or> P (hd (dropWhile (\<lambda>c. \<not> P c) r))"
    using hd_dropWhile by blast
  ultimately show "\<exists>rest. r = xs @ rest \<and> (\<forall>c \<in> set xs. \<not> P c) \<and> (rest = [] \<or> P (hd rest))"
    by blast
qed

definition url_char :: "char \<Rightarrow> bool" where
  "url_char c \<longleftrightarrow> 33 \<le> (of_char c :: nat) \<and> (of_char c :: nat) \<le> 126 \<and> c \<noteq> CHR 0x5C \<and> c \<noteq> CHR ''#''"

lemma url_byte_range:
  "0x21 \<le> byte_of_char c \<and> byte_of_char c \<le> 0x7E \<longleftrightarrow> 33 \<le> (of_char c :: nat) \<and> (of_char c :: nat) \<le> 126"
  by (simp add: word_le_nat_alt unat_byte_of_char)

lemma IsDownloadUrlValid_scheme:
  assumes url: "url = scheme @ ''://'' @ r" and scheme: "http_scheme scheme"
  shows "IsDownloadUrlValid url \<longleftrightarrow> length url \<le> 2048 \<and> list_all url_char url \<and>
    takeWhile (\<lambda>c. c \<notin> set ''/?#'') r \<noteq> [] \<and> CHR ''@'' \<notin> set (takeWhile (\<lambda>c. c \<notin> set ''/?#'') r)"
proof -
  have colon: "CHR '':'' \<notin> set scheme"
  proof
    assume "CHR '':'' \<in> set scheme"
    then have "tolower CHR '':'' \<in> set (map tolower scheme)"
      by force
    then show False
      using scheme by (auto simp: http_scheme_def tolower_def)
  qed
  have starts: "StartsWithCaseInsensitive url ''http://'' \<or> StartsWithCaseInsensitive url ''https://''"
    unfolding starts_with_http using url scheme by (intro exI conjI)
  have find: "sv_find ''://'' url = Some (length scheme)"
    unfolding url by (rule sv_find_separator [OF colon])
  have auth: "sv_substr url (length scheme + 3)
      (case sv_find_if (\<lambda>c. c \<in> set ''/?#'') url (length scheme + 3) of
         None \<Rightarrow> length url - (length scheme + 3) | Some e \<Rightarrow> e - (length scheme + 3))
      = takeWhile (\<lambda>c. c \<notin> set ''/?#'') r"
    by (subst authority_takeWhile) (simp_all add: url)
  have ne: "url \<noteq> []" by (simp add: url)
  have chars: "list_all url_char url \<longleftrightarrow> CHR 0x5C \<notin> set url \<and> CHR ''#'' \<notin> set url \<and>
      list_all (\<lambda>c. 0x21 \<le> byte_of_char c \<and> byte_of_char c \<le> 0x7E) url"
    unfolding url_byte_range by (auto simp: list_all_iff url_char_def)
  have "IsDownloadUrlValid url \<longleftrightarrow> length url \<le> 2048 \<and>
      \<not> (takeWhile (\<lambda>c. c \<notin> set ''/?#'') r = [] \<or> CHR ''@'' \<in> set (takeWhile (\<lambda>c. c \<notin> set ''/?#'') r) \<or>
         CHR 0x5C \<in> set url \<or> CHR ''#'' \<in> set url) \<and>
      list_all (\<lambda>c. 0x21 \<le> byte_of_char c \<and> byte_of_char c \<le> 0x7E) url"
    unfolding IsDownloadUrlValid_def kMaximumUrlLength_def find option.case Let_def auth
    using starts ne by (auto simp del: list.set)
  then show ?thesis
    unfolding chars by blast
qed

definition url_parts :: "string \<Rightarrow> string \<Rightarrow> string \<Rightarrow> string \<Rightarrow> bool" where
  "url_parts url scheme authority rest \<longleftrightarrow>
     url = scheme @ ''://'' @ authority @ rest \<and> http_scheme scheme \<and>
     (\<forall>c \<in> set authority. c \<notin> set ''/?#'') \<and> (rest = [] \<or> hd rest \<in> set ''/?#'')"

lemma url_parts_valid:
  assumes "url_parts url scheme authority rest"
  shows "IsDownloadUrlValid url \<longleftrightarrow> length url \<le> 2048 \<and> list_all url_char url \<and>
    authority \<noteq> [] \<and> CHR ''@'' \<notin> set authority"
proof -
  have url: "url = scheme @ ''://'' @ authority @ rest" and scheme: "http_scheme scheme"
    and span: "\<forall>c \<in> set authority. c \<notin> set ''/?#''" "rest = [] \<or> hd rest \<in> set ''/?#''"
    using assms unfolding url_parts_def by blast+
  have "takeWhile (\<lambda>c. c \<notin> set ''/?#'') (authority @ rest) = authority"
    using takeWhile_span_iff [of "authority @ rest" authority "\<lambda>c. c \<in> set ''/?#''"] span by blast
  then show ?thesis
    by (simp only: IsDownloadUrlValid_scheme [OF url scheme])
qed

lemma url_parts_exist:
  assumes "IsDownloadUrlValid url"
  shows "\<exists>scheme authority rest. url_parts url scheme authority rest"
proof -
  have "StartsWithCaseInsensitive url ''http://'' \<or> StartsWithCaseInsensitive url ''https://''"
    using assms unfolding IsDownloadUrlValid_def by (meson if_splits(2))
  then obtain scheme r where url: "url = scheme @ ''://'' @ r" and scheme: "http_scheme scheme"
    unfolding starts_with_http by (elim exE conjE)
  let ?authority = "takeWhile (\<lambda>c. c \<notin> set ''/?#'') r"
  obtain rest where "r = ?authority @ rest" "\<forall>c \<in> set ?authority. c \<notin> set ''/?#''"
      "rest = [] \<or> hd rest \<in> set ''/?#''"
    using takeWhile_span_iff [of r ?authority "\<lambda>c. c \<in> set ''/?#''"] by blast
  then have "url_parts url scheme ?authority rest"
    unfolding url_parts_def using url scheme by argo
  then show ?thesis by blast
qed

text \<open>
  Claim C40. A download URL is accepted exactly when it has at most 2048 characters, all
  printable ASCII other than backslash and hash, and splits into an http or https scheme, a
  nonempty authority without credentials, and a remainder.
\<close>

theorem download_url_characterised:
  "IsDownloadUrlValid url \<longleftrightarrow>
     length url \<le> 2048 \<and> list_all url_char url \<and>
     (\<exists>scheme authority rest. url_parts url scheme authority rest \<and>
        authority \<noteq> [] \<and> CHR ''@'' \<notin> set authority)"
  using url_parts_valid url_parts_exist by blast


section \<open>Sizes\<close>

lemma IsAssetDescriptionValid_bounds:
  assumes "IsAssetDescriptionValid asset"
  shows "1 \<le> length (logicalName asset)" "length (logicalName asset) \<le> 96"
    "1 \<le> length (downloadUrl asset)" "length (downloadUrl asset) \<le> 2048"
  using assms
  by (auto simp: IsAssetDescriptionValid_def IsLogicalNameValid_def IsDownloadUrlValid_def
      asset_limits Suc_le_eq split: if_splits)

lemma SerializedAssetBytes_valid:
  assumes "IsAssetDescriptionValid asset"
  shows "SerializedAssetBytes asset = 62 + length (logicalName asset) + length (downloadUrl asset)"
    "SerializedAssetBytes asset \<le> 2206"
  using IsAssetDescriptionValid_bounds [OF assms]
  by (auto simp: SerializedAssetBytes_def asset_limits Let_def)

end
