(* ===== verification/Hex.thy ===== *)
theory Hex
  imports Assets
begin

text \<open>
  The textual form of a digest, from \<^verbatim>\<open>shared/src/sha256.cpp\<close> and the hexadecimal
  output of \<^verbatim>\<open>third_party/picosha2\<close>: printing, the strict parser, and the lemmas
  that make them inverse to each other.
\<close>

section \<open>Definitions\<close>

definition HexValue :: "char \<Rightarrow> int" where
  "HexValue value =
    (let v = int (of_char value)
     in if v \<ge> of_char CHR ''0'' \<and> v \<le> of_char CHR ''9'' then v - of_char CHR ''0''
        else if v \<ge> of_char CHR ''a'' \<and> v \<le> of_char CHR ''f'' then v - of_char CHR ''a'' + 10
        else -1)"

text \<open>
  \<^verbatim>\<open>os << static_cast<unsigned int>(byte)\<close> in base sixteen with width two and the fill
  character \<^verbatim>\<open>'0'\<close>: two lower case digits for every byte.
\<close>

definition hex_digit :: "nat \<Rightarrow> char" where
  "hex_digit n = ''0123456789abcdef'' ! n"

definition output_hex :: "bytes \<Rightarrow> string" where
  "output_hex bs = concat (map (\<lambda>b. [hex_digit (unat b div 16), hex_digit (unat b mod 16)]) bs)"

definition Sha256Hex :: "Sha256Digest \<Rightarrow> string" where
  "Sha256Hex digest = output_hex (digest_bytes digest)"

text \<open>The loop of \<^verbatim>\<open>ParseSha256Hex\<close>: two characters for every byte of the digest.\<close>

fun parse_hex_loop :: "string \<Rightarrow> nat \<Rightarrow> nat \<Rightarrow> bytes option" where
  "parse_hex_loop hex index 0 = Some []"
| "parse_hex_loop hex index (Suc todo) =
    (let high = HexValue (hex ! (index * 2)); low = HexValue (hex ! (index * 2 + 1))
     in if high < 0 \<or> low < 0 then None
        else do {
          rest \<leftarrow> parse_hex_loop hex (index + 1) todo;
          Some ((push_bit 4 (word_of_int high) OR word_of_int low) # rest) })"

definition ParseSha256Hex :: "string \<Rightarrow> Sha256Digest option" where
  "ParseSha256Hex hex =
    (if length hex \<noteq> kSha256Size * 2 then None
     else do {
       digest \<leftarrow> parse_hex_loop hex 0 kSha256Size;
       Some (digest_of_bytes digest) })"

section \<open>Lemmas\<close>

lemma HexValue_digit: "n < 16 \<Longrightarrow> HexValue (hex_digit n) = int n"
proof -
  assume "n < 16"
  then have "n \<in> set [0..<16]" by simp
  moreover have "\<forall>n \<in> set [0..<16]. HexValue (hex_digit n) = int n"
    by code_simp
  ultimately show ?thesis by blast
qed

lemma HexValue_range: "nat (HexValue c) < 16"
  by (auto simp: HexValue_def Let_def)

lemma HexValue_nonneg: "0 \<le> HexValue c \<Longrightarrow> c = hex_digit (nat (HexValue c))"
proof -
  define v :: nat where "v = of_char c"
  have c: "c = char_of v"
    by (simp add: v_def)
  have digits: "\<forall>n \<in> set [48..<58]. hex_digit (n - 48) = char_of n"
    and letters: "\<forall>n \<in> set [97..<103]. hex_digit (n - 87) = char_of n"
    by code_simp+
  assume "0 \<le> HexValue c"
  then have "48 \<le> v \<and> v < 58 \<and> nat (HexValue c) = v - 48 \<or> 97 \<le> v \<and> v < 103 \<and> nat (HexValue c) = v - 87"
    by (auto simp: HexValue_def Let_def v_def split: if_splits)
  then show ?thesis
    using digits letters by (metis c atLeastLessThan_iff set_upt)
qed

lemma nibbles:
  assumes "h < 16" "l < 16"
  shows "unat (push_bit 4 (word_of_int (int h)) OR word_of_int (int l) :: u8) = 16 * h + l"
proof -
  have "\<forall>h \<in> set [0..<16]. \<forall>l \<in> set [0..<16].
      unat (push_bit 4 (word_of_int (int h)) OR word_of_int (int l) :: u8) = 16 * h + l"
    by code_simp
  with assms show ?thesis by simp
qed

lemma parse_hex_loop_iff:
  "index * 2 + todo * 2 = length hex \<Longrightarrow>
    parse_hex_loop hex index todo = Some bs \<longleftrightarrow> length bs = todo \<and> drop (index * 2) hex = output_hex bs"
proof (induction hex index todo arbitrary: bs rule: parse_hex_loop.induct)
  case (2 hex index todo)
  let ?h = "HexValue (hex ! (index * 2))" and ?l = "HexValue (hex ! (index * 2 + 1))"
  have drop: "drop (index * 2) hex = hex ! (index * 2) # hex ! (index * 2 + 1) # drop ((index + 1) * 2) hex"
    using "2.prems" by (simp add: Cons_nth_drop_Suc flip: Suc_eq_plus1)
  have IH: "0 \<le> ?h \<Longrightarrow> 0 \<le> ?l \<Longrightarrow> parse_hex_loop hex (index + 1) todo = Some bs' \<longleftrightarrow>
      length bs' = todo \<and> drop ((index + 1) * 2) hex = output_hex bs'" for bs'
    using "2.IH" "2.prems" by simp
  have byte: "0 \<le> ?h \<Longrightarrow> 0 \<le> ?l \<Longrightarrow>
      unat (push_bit 4 (word_of_int ?h) OR word_of_int ?l :: u8) = 16 * nat ?h + nat ?l"
    using nibbles [OF HexValue_range [of "hex ! (index * 2)"] HexValue_range [of "hex ! (index * 2 + 1)"]] by simp
  show ?case
  proof
    assume "parse_hex_loop hex index (Suc todo) = Some bs"
    then obtain rest where h: "0 \<le> ?h" and l: "0 \<le> ?l" and rest: "parse_hex_loop hex (index + 1) todo = Some rest"
      and bs: "bs = (push_bit 4 (word_of_int ?h) OR word_of_int ?l) # rest"
      by (auto simp: Let_def bind_eq_Some_conv split: if_splits)
    have "nat ?l < 16"
      using HexValue_range [of "hex ! (index * 2 + 1)"] l by simp
    then show "length bs = Suc todo \<and> drop (index * 2) hex = output_hex bs"
      using IH [OF h l, of rest] rest bs byte [OF h l] drop HexValue_nonneg [OF h] HexValue_nonneg [OF l]
      by (simp add: output_hex_def)
  next
    assume *: "length bs = Suc todo \<and> drop (index * 2) hex = output_hex bs"
    then obtain b rest where bs: "bs = b # rest" by (cases bs) auto
    have "hex ! (index * 2) = hex_digit (unat b div 16)" "hex ! (index * 2 + 1) = hex_digit (unat b mod 16)"
      and tl: "drop ((index + 1) * 2) hex = output_hex rest"
      using * drop by (simp_all add: bs output_hex_def)
    moreover have "unat b div 16 < 16"
      using unsigned_less [of b, where ?'a = nat] by simp
    ultimately have h: "?h = int (unat b div 16)" and l: "?l = int (unat b mod 16)"
      by (simp_all add: HexValue_digit)
    have "unat (push_bit 4 (word_of_int ?h) OR word_of_int ?l :: u8) = 16 * (unat b div 16) + unat b mod 16"
      unfolding h l using \<open>unat b div 16 < 16\<close> by (rule nibbles) simp
    then have "push_bit 4 (word_of_int ?h) OR word_of_int ?l = b"
      by (simp only: word_unat_eq_iff mult_div_mod_eq)
    then show "parse_hex_loop hex index (Suc todo) = Some bs"
      using IH [of rest] * tl l by (simp add: h bs Let_def)
  qed
qed (auto simp: output_hex_def)

lemma length_output_hex [simp]: "length (output_hex bs) = 2 * length bs"
  by (induction bs) (simp_all add: output_hex_def)

lemma length_Sha256Hex [simp]: "length (Sha256Hex digest) = 64"
  by (simp add: Sha256Hex_def)

lemma Sha256Hex_inject: "Sha256Hex d = Sha256Hex e \<longleftrightarrow> d = e"
proof -
  have "parse_hex_loop (Sha256Hex d) 0 32 = Some (digest_bytes d)" for d
    using parse_hex_loop_iff [of 0 32 "Sha256Hex d"] by (simp add: Sha256Hex_def)
  then show ?thesis by (metis digest_of_digest_bytes option.inject)
qed

section \<open>Properties\<close>

text \<open>
  Claim C38. Parsing accepts exactly the printed form of a digest and returns that digest:
  sixty-four lower case hexadecimal digits and nothing else.
\<close>

theorem sha256_hex_inverse: "ParseSha256Hex hex = Some digest \<longleftrightarrow> hex = Sha256Hex digest"
proof -
  have "ParseSha256Hex hex = Some digest \<longleftrightarrow> length hex = 64 \<and>
      (\<exists>bs. parse_hex_loop hex 0 32 = Some bs \<and> digest_of_bytes bs = digest)"
    by (auto simp: ParseSha256Hex_def kSha256Size_def bind_eq_Some_conv)
  also have "\<dots> \<longleftrightarrow> length hex = 64 \<and> (\<exists>bs. length bs = 32 \<and> hex = output_hex bs \<and> digest_of_bytes bs = digest)"
    using parse_hex_loop_iff [of 0 32 hex] by auto
  also have "\<dots> \<longleftrightarrow> hex = Sha256Hex digest"
    by (auto simp: Sha256Hex_def intro!: exI [of _ "digest_bytes digest"])
  finally show ?thesis .
qed

end
