(* ===== verification/FileSystem.thy ===== *)
theory FileSystem
  imports Prelude "HOL-Library.Sublist"
begin

text \<open>
  What the client uses of \<^verbatim>\<open>std::filesystem\<close>, \<^verbatim>\<open>std::ifstream\<close> and \<^verbatim>\<open>std::ofstream\<close>. A
  path is its list of components, a disk the finite map of its nodes together with a
  schedule of faults: every call takes one entry of the schedule and, when it is \<open>True\<close>,
  reports an error and leaves the nodes as they were. Any pattern of I/O errors is such
  a schedule; once it is used up nothing fails by itself any more.
\<close>

section \<open>Definitions\<close>

type_synonym path = "string list"

datatype Node = RegularFile bytes | Directory

record Disk =
  nodes :: "(path, Node) fmap"
  faults :: "bool list"

text \<open>The empty path is the root of the volume, which always is a directory.\<close>

definition node_at :: "path \<Rightarrow> Disk \<Rightarrow> Node option" where
  "node_at p d = (if p = [] then Some Directory else fmlookup (nodes d) p)"

text \<open>The result of a call with an \<^verbatim>\<open>error_code\<close>: \<open>None\<close> when the code is set.\<close>

type_synonym 'a io = "Disk \<Rightarrow> 'a option \<times> Disk"

definition attempt :: "'a io \<Rightarrow> 'a io" where
  "attempt f d =
    (case faults d of
       [] \<Rightarrow> f d
     | fault # rest \<Rightarrow> (if fault then (None, d\<lparr>faults := rest\<rparr>) else f (d\<lparr>faults := rest\<rparr>)))"

definition put_node :: "path \<Rightarrow> Node \<Rightarrow> Disk \<Rightarrow> Disk" where
  "put_node p n d = d\<lparr>nodes := fmupd p n (nodes d)\<rparr>"

definition drop_node :: "path \<Rightarrow> Disk \<Rightarrow> Disk" where
  "drop_node p d = d\<lparr>nodes := fmdrop p (nodes d)\<rparr>"

definition has_child :: "path \<Rightarrow> Disk \<Rightarrow> bool" where
  "has_child p d = fBex (fmdom (nodes d)) (\<lambda>q. q \<noteq> [] \<and> butlast q = p)"

definition fs_exists :: "path \<Rightarrow> bool io" where
  "fs_exists p = attempt (\<lambda>d. (Some (node_at p d \<noteq> None), d))"

fun is_regular :: "Node option \<Rightarrow> bool" where
  "is_regular (Some (RegularFile bs)) = True"
| "is_regular n = False"

definition fs_is_regular_file :: "path \<Rightarrow> bool io" where
  "fs_is_regular_file p = attempt (\<lambda>d. (Some (is_regular (node_at p d)), d))"

text \<open>The size of what is not a regular file is an error.\<close>

definition fs_file_size :: "path \<Rightarrow> u64 io" where
  "fs_file_size p = attempt (\<lambda>d.
     (case node_at p d of Some (RegularFile bs) \<Rightarrow> Some (of_nat (length bs)) | _ \<Rightarrow> None, d))"

text \<open>A missing path is no error; a directory goes only when it is empty.\<close>

definition fs_remove :: "path \<Rightarrow> bool io" where
  "fs_remove p = attempt (\<lambda>d.
     case node_at p d of
       None \<Rightarrow> (Some False, d)
     | Some (RegularFile bs) \<Rightarrow> (Some True, drop_node p d)
     | Some Directory \<Rightarrow> if p = [] \<or> has_child p d then (None, d) else (Some True, drop_node p d))"

text \<open>One component at a time; an error leaves the directories made so far.\<close>

definition fs_create_directory :: "path \<Rightarrow> unit io" where
  "fs_create_directory p = attempt (\<lambda>d.
     case node_at p d of
       None \<Rightarrow> (Some (), put_node p Directory d)
     | Some Directory \<Rightarrow> (Some (), d)
     | Some (RegularFile bs) \<Rightarrow> (None, d))"

fun create_directories_loop :: "path \<Rightarrow> path \<Rightarrow> unit io" where
  "create_directories_loop done_part [] d = (Some (), d)"
| "create_directories_loop done_part (c # cs) d =
    (case fs_create_directory (done_part @ [c]) d of
       (None, d) \<Rightarrow> (None, d)
     | (Some _, d) \<Rightarrow> create_directories_loop (done_part @ [c]) cs d)"

definition fs_create_directories :: "path \<Rightarrow> unit io" where
  "fs_create_directories p = create_directories_loop [] p"

text \<open>
  Renaming a regular file onto a free path or another regular file, in an existing
  directory. Directories are never renamed by the client; the model refuses them.
\<close>

definition fs_rename :: "path \<Rightarrow> path \<Rightarrow> unit io" where
  "fs_rename from_path to_path = attempt (\<lambda>d.
     case node_at from_path d of
       Some (RegularFile bs) \<Rightarrow>
         if node_at to_path d = Some Directory \<or> node_at (butlast to_path) d \<noteq> Some Directory then (None, d)
         else (Some (), put_node to_path (RegularFile bs) (drop_node from_path d))
     | _ \<Rightarrow> (None, d))"

text \<open>\<^verbatim>\<open>std::ofstream\<close> opened with \<^verbatim>\<open>trunc\<close>, and one write at its end.\<close>

definition fs_open_truncate :: "path \<Rightarrow> unit io" where
  "fs_open_truncate p = attempt (\<lambda>d.
     if node_at p d = Some Directory \<or> node_at (butlast p) d \<noteq> Some Directory then (None, d)
     else (Some (), put_node p (RegularFile []) d))"

definition fs_write :: "path \<Rightarrow> bytes \<Rightarrow> unit io" where
  "fs_write p data = attempt (\<lambda>d.
     case node_at p d of
       Some (RegularFile bs) \<Rightarrow> (Some (), put_node p (RegularFile (bs @ data)) d)
     | _ \<Rightarrow> (None, d))"

text \<open>\<^verbatim>\<open>std::ifstream\<close>: opening, and one \<^verbatim>\<open>read\<close> of at most \<^verbatim>\<open>n\<close> bytes from a position.\<close>

definition fs_open :: "path \<Rightarrow> bytes io" where
  "fs_open p = attempt (\<lambda>d. (case node_at p d of Some (RegularFile bs) \<Rightarrow> Some bs | _ \<Rightarrow> None, d))"

definition stream_read :: "nat \<Rightarrow> bytes \<Rightarrow> bytes io" where
  "stream_read n rest = attempt (\<lambda>d. (Some (take n rest), d))"

section \<open>Lemmas\<close>

lemma node_at_put [simp]: "p \<noteq> [] \<Longrightarrow> node_at q (put_node p n d) = (if q = p then Some n else node_at q d)"
  by (auto simp: node_at_def put_node_def)

lemma node_at_drop [simp]: "p \<noteq> [] \<Longrightarrow> node_at q (drop_node p d) = (if q = p then None else node_at q d)"
  by (auto simp: node_at_def drop_node_def)

lemma node_at_faults [simp]: "node_at q (d\<lparr>faults := fs\<rparr>) = node_at q d"
  by (simp add: node_at_def)

lemma has_child_faults [simp]: "has_child p (d\<lparr>faults := fs\<rparr>) = has_child p d"
  by (simp add: has_child_def)

lemma node_at_Nil [simp]: "node_at [] d = Some Directory"
  by (simp add: node_at_def)

lemma faults_put [simp]: "faults (put_node p n d) = faults d"
  by (simp add: put_node_def)

lemma faults_drop [simp]: "faults (drop_node p d) = faults d"
  by (simp add: drop_node_def)

text \<open>What a call does: it fails without touching a node, or it runs its body.\<close>

lemma attempt_cases:
  assumes "attempt f d = (r, d')"
  obtains (fault) rest where "faults d = True # rest" "r = None" "d' = d\<lparr>faults := rest\<rparr>"
  | (run) rest where "f (d\<lparr>faults := rest\<rparr>) = (r, d')" "rest = tl (faults d)"
      "faults d = [] \<or> faults d = False # rest"
proof (cases "faults d")
  case Nil
  then have "d\<lparr>faults := []\<rparr> = d" by (cases d) simp
  moreover have "f d = (r, d')" using Nil assms by (simp add: attempt_def)
  ultimately have "f (d\<lparr>faults := []\<rparr>) = (r, d')" by (simp only:)
  then show ?thesis using Nil run [of "[]"] by simp
next
  case (Cons fault rest)
  then show ?thesis using assms that by (cases fault) (auto simp: attempt_def)
qed

lemma attempt_quiet: "faults d = [] \<Longrightarrow> attempt f d = f d"
  by (simp add: attempt_def)

lemmas fs_defs = fs_exists_def fs_is_regular_file_def fs_file_size_def fs_remove_def fs_create_directory_def
  fs_rename_def fs_open_truncate_def fs_write_def fs_open_def stream_read_def

text \<open>The queries change no node.\<close>

lemma fs_query_nodes:
  "fs_exists p d = (b, d') \<Longrightarrow> node_at q d' = node_at q d"
  "fs_is_regular_file p d = (b, d') \<Longrightarrow> node_at q d' = node_at q d"
  "fs_file_size p d = (n, d') \<Longrightarrow> node_at q d' = node_at q d"
  "fs_open p d = (r, d') \<Longrightarrow> node_at q d' = node_at q d"
  "stream_read k bs d = (r, d') \<Longrightarrow> node_at q d' = node_at q d"
  by (auto simp: fs_defs elim!: attempt_cases)

lemma fs_exists_result: "fs_exists p d = (Some b, d') \<Longrightarrow> b \<longleftrightarrow> node_at p d \<noteq> None"
  by (auto simp: fs_defs elim!: attempt_cases)

lemma fs_is_regular_result: "fs_is_regular_file p d = (Some b, d') \<Longrightarrow> b \<longleftrightarrow> is_regular (node_at p d)"
  by (auto simp: fs_defs elim!: attempt_cases)

lemma fs_file_size_result:
  "fs_file_size p d = (Some n, d') \<Longrightarrow> \<exists>bs. node_at p d = Some (RegularFile bs) \<and> n = of_nat (length bs)"
  by (auto simp: fs_defs elim!: attempt_cases split: option.splits Node.splits)

lemma fs_open_result: "fs_open p d = (Some bs, d') \<Longrightarrow> node_at p d = Some (RegularFile bs)"
  by (auto simp: fs_defs elim!: attempt_cases split: option.splits Node.splits)

lemma stream_read_result: "stream_read k bs d = (Some bs', d') \<Longrightarrow> bs' = take k bs"
  by (auto simp: fs_defs elim!: attempt_cases)

text \<open>The changes touch only the paths they name.\<close>

lemma fs_remove_nodes:
  assumes "fs_remove p d = (r, d')"
  shows "q \<noteq> p \<Longrightarrow> node_at q d' = node_at q d"
    and "r = None \<Longrightarrow> node_at q d' = node_at q d"
    and "r \<noteq> None \<Longrightarrow> node_at p d' = None"
  using assms by (auto simp: fs_defs elim!: attempt_cases split: option.splits Node.splits if_splits)
    (auto simp: node_at_def drop_node_def)

lemma fs_rename_nodes:
  assumes "fs_rename p t d = (r, d')" and "p \<noteq> []" and "t \<noteq> []"
  shows "r = None \<Longrightarrow> node_at q d' = node_at q d"
    and "r \<noteq> None \<Longrightarrow> \<exists>bs. node_at p d = Some (RegularFile bs) \<and> node_at t d' = Some (RegularFile bs)"
    and "r \<noteq> None \<Longrightarrow> p \<noteq> t \<Longrightarrow> node_at p d' = None"
    and "q \<noteq> p \<Longrightarrow> q \<noteq> t \<Longrightarrow> node_at q d' = node_at q d"
  using assms by (auto simp: fs_defs elim!: attempt_cases split: option.splits Node.splits if_splits)

lemma fs_create_directory_nodes:
  assumes "fs_create_directory p d = (r, d')"
  shows "node_at q d \<noteq> None \<Longrightarrow> node_at q d' = node_at q d"
    and "q \<noteq> p \<Longrightarrow> node_at q d' = node_at q d"
    and "r \<noteq> None \<Longrightarrow> node_at p d' = Some Directory"
  using assms by (cases "p = []"; auto simp: fs_defs elim!: attempt_cases split: option.splits Node.splits if_splits)+

lemma create_directories_loop_nodes:
  "create_directories_loop a p d = (r, d') \<Longrightarrow>
    (node_at q d \<noteq> None \<longrightarrow> node_at q d' = node_at q d) \<and>
    (node_at q d' = node_at q d \<or> node_at q d' = Some Directory) \<and>
    (node_at q d' \<noteq> node_at q d \<longrightarrow> prefix q (a @ p)) \<and>
    (r \<noteq> None \<longrightarrow> p \<noteq> [] \<longrightarrow> node_at (a @ p) d' = Some Directory)"
proof (induction a p d arbitrary: r d' rule: create_directories_loop.induct)
  case (1 a d)
  then show ?case by simp
next
  case (2 a c cs d)
  obtain r1 d1 where step: "fs_create_directory (a @ [c]) d = (r1, d1)" by (metis prod.exhaust)
  note one = fs_create_directory_nodes [OF step]
  have dir: "node_at q d1 = node_at q d \<or> node_at q d1 = Some Directory" for q
    using step by (auto simp: fs_defs elim!: attempt_cases split: option.splits Node.splits)
  show ?case
  proof (cases r1)
    case None
    then show ?thesis using 2(2) step one dir [of q] by (cases "q = a @ [c]") auto
  next
    case (Some u)
    then have rest: "create_directories_loop (a @ [c]) cs d1 = (r, d')" using 2(2) step by simp
    note IH = 2(1) [OF step [symmetric] Some rest]
    have pre: "q = a @ [c] \<Longrightarrow> prefix q (a @ c # cs)" by simp
    show ?thesis
    proof (intro conjI impI)
      show "node_at q d \<noteq> None \<Longrightarrow> node_at q d' = node_at q d" using IH one(1) [of q] by auto
      show "node_at q d' = node_at q d \<or> node_at q d' = Some Directory" using IH dir [of q] by auto
      show "prefix q (a @ c # cs)" if "node_at q d' \<noteq> node_at q d"
        using that IH one(2) [of q] pre by (cases "q = a @ [c]") auto
      show "node_at (a @ c # cs) d' = Some Directory" if "r \<noteq> None"
      proof (cases cs)
        case Nil
        then show ?thesis using rest one(3) Some by simp
      next
        case (Cons c' cs')
        then show ?thesis using IH that by simp
      qed
    qed
  qed
qed

lemma fs_create_directories_nodes:
  assumes "fs_create_directories p d = (r, d')"
  shows "node_at q d \<noteq> None \<Longrightarrow> node_at q d' = node_at q d"
    and "node_at q d' = node_at q d \<or> node_at q d' = Some Directory"
    and "\<not> prefix q p \<Longrightarrow> node_at q d' = node_at q d"
    and "r \<noteq> None \<Longrightarrow> node_at p d' = Some Directory"
proof -
  note loop = create_directories_loop_nodes [OF assms [unfolded fs_create_directories_def]]
  show "node_at q d \<noteq> None \<Longrightarrow> node_at q d' = node_at q d"
    and "node_at q d' = node_at q d \<or> node_at q d' = Some Directory"
    and "\<not> prefix q p \<Longrightarrow> node_at q d' = node_at q d"
    using loop [of q] by auto
  show "r \<noteq> None \<Longrightarrow> node_at p d' = Some Directory" using loop [of p] by (cases "p = []") auto
qed

text \<open>Without faults the changes succeed where the nodes allow it.\<close>

lemma create_directories_loop_quiet:
  "faults d = [] \<Longrightarrow> (\<And>b. prefix b p \<Longrightarrow> b \<noteq> [] \<Longrightarrow> \<not> is_regular (node_at (a @ b) d)) \<Longrightarrow>
    \<exists>d'. create_directories_loop a p d = (Some (), d') \<and> faults d' = []"
proof (induction p arbitrary: a d)
  case Nil
  then show ?case by simp
next
  case (Cons c cs)
  have "\<not> is_regular (node_at (a @ [c]) d)" using Cons.prems(2) [of "[c]"] by simp
  then obtain d1 where d1: "fs_create_directory (a @ [c]) d = (Some (), d1)" "faults d1 = []"
    using Cons.prems(1)
    by (cases "node_at (a @ [c]) d" rule: is_regular.cases) (auto simp: fs_create_directory_def attempt_quiet)
  have "\<not> is_regular (node_at ((a @ [c]) @ b) d1)" if "prefix b cs" "b \<noteq> []" for b
    using Cons.prems(2) [of "c # b"] that fs_create_directory_nodes(2) [OF d1(1), of "(a @ [c]) @ b"] by simp
  from Cons.IH [OF d1(2) this] show ?case using d1(1) by simp
qed

end
