(* ===== verification/Sha256.thy ===== *)
theory Sha256
  imports ByteIO Picosha2 Hex FileSystem
begin

text \<open>
  The digests of \<^verbatim>\<open>shared/src/sha256.cpp\<close>: of a byte view, and of a file read in blocks
  of 64 KiB. Both are the FIPS 180-4 digest of the bytes.
\<close>

section \<open>Definitions\<close>

definition Sha256 :: "ByteView \<Rightarrow> Sha256Digest" where
  "Sha256 view =
    (if view_is_null view \<and> view_size view \<noteq> 0 then digest_of_bytes (replicate kSha256Size 0)
     else digest_of_bytes (hash256 (view_bytes view)))"

definition kReadBlock :: nat where "kReadBlock = 64 * 1024"

definition hash_chunk :: "bytes \<Rightarrow> Hasher \<Rightarrow> Hasher" where
  "hash_chunk buffer hasher = (if length buffer > 0 then hasher_process buffer hasher else hasher)"

text \<open>
  The reading loop. A short read has reached the end of the file and leaves the stream
  at \<^verbatim>\<open>eof\<close>; a failed one leaves it bad, and the function returns nothing.
\<close>

function hash_stream :: "bytes \<Rightarrow> Hasher \<Rightarrow> Disk \<Rightarrow> Hasher option \<times> Disk" where
  "hash_stream rest hasher d =
    (case stream_read kReadBlock rest d of
       (None, d) \<Rightarrow> (None, d)
     | (Some buffer, d) \<Rightarrow>
         if length rest < kReadBlock then (Some (hash_chunk buffer hasher), d)
         else hash_stream (drop kReadBlock rest) (hash_chunk buffer hasher) d)"
  by pat_completeness auto
termination by (relation "measure (\<lambda>(rest, _, _). length rest)") (auto simp: kReadBlock_def)

declare hash_stream.simps [simp del]

definition Sha256File :: "path \<Rightarrow> Disk \<Rightarrow> Sha256Digest option \<times> Disk" where
  "Sha256File p d =
    (case fs_open p d of
       (None, d) \<Rightarrow> (None, d)
     | (Some content, d) \<Rightarrow>
         (case hash_stream content new_hasher d of
            (None, d) \<Rightarrow> (None, d)
          | (Some hasher, d) \<Rightarrow> (Some (digest_of_bytes (get_hash_bytes (hasher_finish hasher))), d)))"

section \<open>Lemmas\<close>

text \<open>The digest of a sequence of bytes as the standard defines it.\<close>

definition digest_of :: "bytes \<Rightarrow> Sha256Digest" where
  "digest_of bs = digest_of_bytes (sha256_digest bs)"

lemma hash_chunk_after: "hash_chunk (take kReadBlock rest) (hasher_after bs) = hasher_after (bs @ take kReadBlock rest)"
  by (simp add: hash_chunk_def hasher_process_after kReadBlock_def)

lemma hash_stream_result:
  "hash_stream rest (hasher_after bs) d = (r, d') \<Longrightarrow>
    (r = None \<or> r = Some (hasher_after (bs @ rest))) \<and> node_at q d' = node_at q d"
proof (induction "length rest" arbitrary: rest bs d rule: less_induct)
  case less
  obtain b d1 where rd: "stream_read kReadBlock rest d = (b, d1)" by (metis prod.exhaust)
  have same: "node_at q d1 = node_at q d" using fs_query_nodes(5) [OF rd] .
  show ?case
  proof (cases b)
    case None
    then show ?thesis using less.prems rd same by (subst (asm) hash_stream.simps) auto
  next
    case (Some buffer)
    have buffer: "buffer = take kReadBlock rest" using stream_read_result rd Some by blast
    note after = hash_chunk_after [of rest bs, folded buffer]
    have unfolded: "(if length rest < kReadBlock then (Some (hasher_after (bs @ buffer)), d1)
        else hash_stream (drop kReadBlock rest) (hasher_after (bs @ buffer)) d1) = (r, d')"
      using less.prems rd Some by (subst (asm) hash_stream.simps) (simp only: after prod.case option.case)
    show ?thesis
    proof (cases "length rest < kReadBlock")
      case True
      then show ?thesis using unfolded same buffer by auto
    next
      case False
      then have "length (drop kReadBlock rest) < length rest" by (simp add: kReadBlock_def)
      from less.hyps [OF this, of "bs @ buffer" d1] show ?thesis
        using unfolded False same buffer by simp
    qed
  qed
qed

lemma hash_stream_quiet:
  "faults d = [] \<Longrightarrow> hash_stream rest (hasher_after bs) d = (Some (hasher_after (bs @ rest)), d)"
proof (induction "length rest" arbitrary: rest bs rule: less_induct)
  case less
  have rd: "stream_read kReadBlock rest d = (Some (take kReadBlock rest), d)"
    using less.prems by (simp add: stream_read_def attempt_quiet)
  show ?case
  proof (cases "length rest < kReadBlock")
    case True
    then show ?thesis using rd hash_chunk_after [of rest bs] by (subst hash_stream.simps) simp
  next
    case False
    then have "length (drop kReadBlock rest) < length rest" by (simp add: kReadBlock_def)
    from less.hyps [OF this less.prems, of "bs @ take kReadBlock rest"] show ?thesis
      using rd hash_chunk_after [of rest bs] False by (subst hash_stream.simps) simp
  qed
qed

lemma Sha256File_result:
  assumes "Sha256File p d = (Some digest, d')"
  shows "\<exists>bs. node_at p d = Some (RegularFile bs) \<and> digest = digest_of bs"
  using assms
  by (auto simp: Sha256File_def new_hasher_after hasher_finish_after digest_of_def
      dest!: fs_open_result hash_stream_result [where q = p] split: prod.splits option.splits)

lemma Sha256File_nodes: "Sha256File p d = (r, d') \<Longrightarrow> node_at q d' = node_at q d"
  by (auto simp: Sha256File_def new_hasher_after
      dest!: fs_query_nodes(4) [where q = q] hash_stream_result [where q = q] split: prod.splits option.splits)

lemma Sha256File_quiet:
  "faults d = [] \<Longrightarrow> node_at p d = Some (RegularFile bs) \<Longrightarrow> Sha256File p d = (Some (digest_of bs), d)"
  by (simp add: Sha256File_def fs_open_def attempt_quiet new_hasher_after hash_stream_quiet hasher_finish_after digest_of_def)

lemma Sha256_digest_of: "length bs < 4294901760 \<Longrightarrow> Sha256 (View bs) = digest_of bs"
  using hasher_process_after [of bs "[]"]
  by (simp add: Sha256_def hash256_def new_hasher_after hasher_finish_after digest_of_def)


section \<open>Properties\<close>



text \<open>
  The digest of a file, read in blocks of 64 KiB through the incremental hasher,
  is the SHA-256 digest of its whole content; a read error gives no digest, and nothing on
  the disk changes.
\<close>

theorem sha256_file:
  assumes "node_at p d = Some (RegularFile bs)" and "Sha256File p d = (r, d')"
  shows "(r = None \<or> r = Some (digest_of bs)) \<and> (faults d = [] \<longrightarrow> r = Some (digest_of bs)) \<and> node_at q d' = node_at q d"
proof -
  have "r = Some (digest_of bs)" if "r \<noteq> None"
    using Sha256File_result [of p d _ d'] assms that by auto
  moreover have "r = Some (digest_of bs)" if "faults d = []"
    using Sha256File_quiet [OF that assms(1)] assms(2) by simp
  moreover have "node_at q d' = node_at q d" by (rule Sha256File_nodes [OF assms(2)])
  ultimately show ?thesis by blast
qed

theorem sha256_file_witness:
  "fst (Sha256File [''f''] \<lparr>nodes = fmap_of_list [([''f''], RegularFile [7])], faults = []\<rparr>) = Some (digest_of [7])"
proof -
  let ?d = "\<lparr>nodes = fmap_of_list [([''f''], RegularFile [7])], faults = []\<rparr> :: Disk"
  have "node_at [''f''] ?d = Some (RegularFile [7])" by (simp add: node_at_def fmlookup_of_list)
  from sha256_file [OF this, of "fst (Sha256File [''f''] ?d)" "snd (Sha256File [''f''] ?d)"] show ?thesis by simp
qed

end
