(* ===== verification/AssetCache.thy ===== *)
theory AssetCache
  imports Sha256
begin

text \<open>
  The content-addressed cache of \<^verbatim>\<open>client/src/assets/cache.cpp\<close>: where an asset lies, the
  lookup that verifies and evicts, and the commit of a verified download.
\<close>

section \<open>Definitions\<close>

datatype CacheLookup = Hit | Miss | LookupDiskFailure

record AssetCache =
  root :: path

definition PathFor :: "AssetCache \<Rightarrow> AssetDescription \<Rightarrow> path" where
  "PathFor cache asset =
    (let hash = Sha256Hex (sha256 asset)
     in root cache @ [''sha256'', take 2 hash, hash @ ExtensionFor (asset_type asset)])"

definition TemporaryPathFor :: "AssetCache \<Rightarrow> AssetDescription \<Rightarrow> path" where
  "TemporaryPathFor cache asset =
    root cache @ [''tmp'', Sha256Hex (sha256 asset) @ ExtensionFor (asset_type asset) @ ''.tmp'']"

definition cache_Initialize :: "AssetCache \<Rightarrow> Disk \<Rightarrow> bool \<times> Disk" where
  "cache_Initialize cache d =
    (case fs_create_directories (root cache @ [''sha256'']) d of
       (None, d) \<Rightarrow> (False, d)
     | (Some _, d) \<Rightarrow>
         (case fs_create_directories (root cache @ [''tmp'']) d of
            (None, d) \<Rightarrow> (False, d)
          | (Some _, d) \<Rightarrow> (True, d)))"

text \<open>The removal both failing branches of \<^verbatim>\<open>Lookup\<close> end with.\<close>

definition evict :: "path \<Rightarrow> Disk \<Rightarrow> CacheLookup \<times> Disk" where
  "evict p d =
    (case fs_remove p d of
       (None, d) \<Rightarrow> (LookupDiskFailure, d)
     | (Some _, d) \<Rightarrow> (Miss, d))"

definition Lookup :: "AssetCache \<Rightarrow> AssetDescription \<Rightarrow> Disk \<Rightarrow> CacheLookup \<times> Disk" where
  "Lookup cache asset d =
    (let p = PathFor cache asset
     in case fs_exists p d of
          (None, d) \<Rightarrow> (LookupDiskFailure, d)
        | (Some False, d) \<Rightarrow> (Miss, d)
        | (Some True, d) \<Rightarrow>
            (case fs_is_regular_file p d of
               (Some True, d) \<Rightarrow>
                 (case fs_file_size p d of
                    (None, d) \<Rightarrow> evict p d
                  | (Some n, d) \<Rightarrow>
                      (case Sha256File p d of
                         (digest, d) \<Rightarrow>
                           if n = fileSize asset \<and> digest = Some (sha256 asset) then (Hit, d) else evict p d))
             | (_, d) \<Rightarrow> evict p d))"

definition RemoveTemporary :: "path \<Rightarrow> Disk \<Rightarrow> Disk" where
  "RemoveTemporary temporaryPath d = snd (fs_remove temporaryPath d)"

text \<open>
  \<^verbatim>\<open>exists\<close> that fails answers false, so the error is cleared and the rename attempted.
\<close>

definition CommitVerified :: "AssetCache \<Rightarrow> AssetDescription \<Rightarrow> path \<Rightarrow> Disk \<Rightarrow> bool \<times> Disk" where
  "CommitVerified cache asset temporaryPath d =
    (let destination = PathFor cache asset;
         rename = (\<lambda>d. case fs_rename temporaryPath destination d of (r, d) \<Rightarrow> (r \<noteq> None, d))
     in case fs_create_directories (butlast destination) d of
          (None, d) \<Rightarrow> (False, d)
        | (Some _, d) \<Rightarrow>
            (case fs_exists destination d of
               (Some True, d) \<Rightarrow>
                 (case Lookup cache asset d of
                    (lookup, d) \<Rightarrow> if lookup = Hit then (True, RemoveTemporary temporaryPath d) else rename d)
             | (_, d) \<Rightarrow> rename d))"

section \<open>Lemmas\<close>

lemma path_components [simp]: "PathFor c a \<noteq> []" "TemporaryPathFor c a \<noteq> []" "TemporaryPathFor c a \<noteq> PathFor c b"
  "\<not> prefix (TemporaryPathFor c a) (PathFor c b)" "\<not> prefix (PathFor c b) (TemporaryPathFor c a)"
  by (auto simp: PathFor_def TemporaryPathFor_def Let_def dest: arg_cong [where f = length])

text \<open>What it takes for bytes to be the content a description names.\<close>

definition content_ok :: "AssetDescription \<Rightarrow> bytes \<Rightarrow> bool" where
  "content_ok asset bs \<longleftrightarrow> of_nat (length bs) = fileSize asset \<and> digest_of bs = sha256 asset"

definition holds :: "path \<Rightarrow> AssetDescription \<Rightarrow> Disk \<Rightarrow> bool" where
  "holds p asset d \<longleftrightarrow> (\<exists>bs. node_at p d = Some (RegularFile bs) \<and> content_ok asset bs)"

lemma evict_result:
  assumes "evict p d = (r, d')"
  shows "r \<noteq> Hit" and "q \<noteq> p \<Longrightarrow> node_at q d' = node_at q d"
    and "r = Miss \<Longrightarrow> node_at p d' = None" and "r = LookupDiskFailure \<Longrightarrow> node_at q d' = node_at q d"
  using assms fs_remove_nodes [of p d] by (auto simp: evict_def split: prod.splits option.splits)

lemma Lookup_result:
  assumes "Lookup c a d = (r, d')"
  shows "q \<noteq> PathFor c a \<Longrightarrow> node_at q d' = node_at q d"
    and "r = Hit \<Longrightarrow> holds (PathFor c a) a d" and "r = Hit \<Longrightarrow> node_at q d' = node_at q d"
    and "r = Miss \<Longrightarrow> node_at (PathFor c a) d' = None"
    and "r = LookupDiskFailure \<Longrightarrow> node_at q d' = node_at q d"
proof -
  let ?p = "PathFor c a"
  obtain e d1 where e: "fs_exists ?p d = (e, d1)" by (metis prod.exhaust)
  obtain g d2 where g: "fs_is_regular_file ?p d1 = (g, d2)" by (metis prod.exhaust)
  obtain n d3 where n: "fs_file_size ?p d2 = (n, d3)" by (metis prod.exhaust)
  obtain h d4 where h: "Sha256File ?p d3 = (h, d4)" by (metis prod.exhaust)
  note same = fs_query_nodes(1) [OF e] fs_query_nodes(2) [OF g] fs_query_nodes(3) [OF n] Sha256File_nodes [OF h]
  note steps = assms [unfolded Lookup_def Let_def e prod.case]
  consider (missing) "e \<noteq> Some True" "r = (if e = None then LookupDiskFailure else Miss)" "d' = d1"
    | (odd) "e = Some True" "g \<noteq> Some True" "evict ?p d2 = (r, d')"
    | (unsized) "n = None" "evict ?p d3 = (r, d')"
    | (bad) "evict ?p d4 = (r, d')"
    | (hit) m where "n = Some m" "m = fileSize a" "h = Some (sha256 a)" "r = Hit" "d' = d4"
  proof (cases "e = Some True \<and> g = Some True")
    case True
    show thesis
    proof (cases n)
      case None
      then show ?thesis using steps True g n unsized by simp
    next
      case (Some m)
      then show ?thesis using steps True g n h hit [of m] bad
        by (cases "m = fileSize a \<and> h = Some (sha256 a)") auto
    qed
  next
    case False
    show thesis
    proof (cases "e = Some True")
      case True
      then show ?thesis using steps False g odd by (cases g) (auto split: bool.splits)
    next
      case False
      then show ?thesis using steps missing by (cases e) auto
    qed
  qed
  then have "(q \<noteq> ?p \<longrightarrow> node_at q d' = node_at q d) \<and> (r = Hit \<longrightarrow> holds ?p a d) \<and>
    (r = Hit \<longrightarrow> node_at q d' = node_at q d) \<and> (r = Miss \<longrightarrow> node_at ?p d' = None) \<and>
    (r = LookupDiskFailure \<longrightarrow> node_at q d' = node_at q d)"
  proof cases
    case missing
    have "e = Some False \<Longrightarrow> node_at ?p d = None" using fs_exists_result e by blast
    then show ?thesis using missing same(1) by (cases e) auto
  next
    case odd
    then show ?thesis using evict_result [OF odd(3)] same(1,2) by simp
  next
    case unsized
    then show ?thesis using evict_result [OF unsized(2)] same by simp
  next
    case bad
    then show ?thesis using evict_result [OF bad] same by simp
  next
    case hit
    obtain bs where "node_at ?p d2 = Some (RegularFile bs)" "m = of_nat (length bs)"
      using fs_file_size_result n hit(1) by blast
    moreover obtain bs' where "node_at ?p d3 = Some (RegularFile bs')" "sha256 a = digest_of bs'"
      using Sha256File_result h hit(3) by blast
    ultimately have "holds ?p a d" using same hit(2) by (auto simp: holds_def content_ok_def)
    then show ?thesis using hit same by simp
  qed
  then show "q \<noteq> ?p \<Longrightarrow> node_at q d' = node_at q d"
    and "r = Hit \<Longrightarrow> holds ?p a d" and "r = Hit \<Longrightarrow> node_at q d' = node_at q d"
    and "r = Miss \<Longrightarrow> node_at ?p d' = None"
    and "r = LookupDiskFailure \<Longrightarrow> node_at q d' = node_at q d"
    by blast+
qed

lemma RemoveTemporary_nodes:
  "q \<noteq> t \<Longrightarrow> node_at q (RemoveTemporary t d) = node_at q d"
  "node_at t (RemoveTemporary t d) = None \<or> node_at q (RemoveTemporary t d) = node_at q d"
proof -
  obtain r d' where r: "fs_remove t d = (r, d')" by (metis prod.exhaust)
  note nodes = fs_remove_nodes [OF r]
  show "q \<noteq> t \<Longrightarrow> node_at q (RemoveTemporary t d) = node_at q d" using nodes by (simp add: RemoveTemporary_def r)
  show "node_at t (RemoveTemporary t d) = None \<or> node_at q (RemoveTemporary t d) = node_at q d"
    using nodes by (cases r) (auto simp: RemoveTemporary_def r)
qed

text \<open>
  What a step may do to the paths outside \<^verbatim>\<open>P\<close>: nothing, except to create directories
  where nothing was.
\<close>

definition frame :: "path set \<Rightarrow> Disk \<Rightarrow> Disk \<Rightarrow> bool" where
  "frame P d d' \<longleftrightarrow> (\<forall>q. q \<notin> P \<longrightarrow> node_at q d' = node_at q d \<or> node_at q d = None \<and> node_at q d' = Some Directory)"

lemma frame_refl [simp]: "frame P d d"
  by (simp add: frame_def)

lemma frame_trans: "frame P d d1 \<Longrightarrow> frame P d1 d2 \<Longrightarrow> frame P d d2"
  unfolding frame_def by (metis option.distinct(1))

lemma frame_mono: "frame P d d' \<Longrightarrow> P \<subseteq> Q \<Longrightarrow> frame Q d d'"
  by (auto simp: frame_def)

lemma frame_same: "(\<And>q. q \<notin> P \<Longrightarrow> node_at q d' = node_at q d) \<Longrightarrow> frame P d d'"
  by (simp add: frame_def)

lemma frame_Lookup: "Lookup c a d = (r, d') \<Longrightarrow> frame {PathFor c a} d d'"
  by (rule frame_same) (auto dest: Lookup_result(1))

lemma frame_RemoveTemporary: "frame {t} d (RemoveTemporary t d)"
  by (rule frame_same) (simp add: RemoveTemporary_nodes)

lemma frame_create_directories: "fs_create_directories p d = (r, d') \<Longrightarrow> frame P d d'"
  unfolding frame_def using fs_create_directories_nodes(1,2) by (metis (no_types))

lemma frame_rename: "fs_rename p t d = (r, d') \<Longrightarrow> p \<noteq> [] \<Longrightarrow> t \<noteq> [] \<Longrightarrow> frame {p, t} d d'"
  by (rule frame_same) (auto dest: fs_rename_nodes(4))

text \<open>
  What a commit promises: success leaves verified content in the cache, failure leaves the
  temporary file, and nothing unverified reaches the cache.
\<close>

definition committed :: "AssetCache \<Rightarrow> AssetDescription \<Rightarrow> path \<Rightarrow> Disk \<Rightarrow> bool \<Rightarrow> Disk \<Rightarrow> bool" where
  "committed c a t d ok d' \<longleftrightarrow>
    frame {PathFor c a, t} d d' \<and> (ok \<longrightarrow> holds (PathFor c a) a d') \<and>
    (\<not> ok \<longrightarrow> node_at t d' = node_at t d) \<and>
    (node_at (PathFor c a) d' = None \<or> node_at (PathFor c a) d' = node_at (PathFor c a) d \<or> holds (PathFor c a) a d')"

lemma commit_rename:
  assumes ren: "fs_rename t (PathFor c a) dr = (r, d')" and ok: "ok \<longleftrightarrow> r \<noteq> None"
    and fr: "frame {PathFor c a, t} d dr" and t: "t \<noteq> PathFor c a" "t \<noteq> []" "node_at t dr = node_at t d"
    and dest: "node_at (PathFor c a) dr = None \<or> node_at (PathFor c a) dr = node_at (PathFor c a) d"
    and content: "node_at t d = Some (RegularFile bs)" "content_ok a bs"
  shows "committed c a t d ok d'"
proof -
  have "frame {PathFor c a, t} dr d'"
    by (rule frame_mono [OF frame_rename [OF ren]]) (use t in auto)
  then have "frame {PathFor c a, t} d d'" by (rule frame_trans [OF fr])
  moreover have "ok \<Longrightarrow> holds (PathFor c a) a d'"
    using fs_rename_nodes(2) [OF ren t(2)] ok t(3) content by (auto simp: holds_def)
  moreover have "\<not> ok \<Longrightarrow> node_at q d' = node_at q dr" for q
    using fs_rename_nodes(1) [OF ren t(2)] ok by (cases r) simp_all
  ultimately show ?thesis using t(3) dest by (cases ok) (auto simp: committed_def)
qed

lemma CommitVerified_result:
  assumes commit: "CommitVerified c a t d = (ok, d')"
    and t: "t = TemporaryPathFor c b" "node_at t d = Some (RegularFile bs)" and content: "content_ok a bs"
  shows "committed c a t d ok d'"
proof -
  let ?p = "PathFor c a"
  have tp: "t \<noteq> ?p" "t \<noteq> []" using t(1) by simp_all
  obtain u d1 where u: "fs_create_directories (butlast ?p) d = (u, d1)" by (metis prod.exhaust)
  obtain e d2 where e: "fs_exists ?p d1 = (e, d2)" by (metis prod.exhaust)
  obtain l d3 where l: "Lookup c a d2 = (l, d3)" by (metis prod.exhaust)
  have np: "\<not> prefix ?p (butlast ?p)" by (auto dest!: prefix_length_le simp: PathFor_def Let_def butlast_append)
  have p1: "node_at ?p d2 = node_at ?p d" and t1: "node_at t d2 = node_at t d"
    using fs_create_directories_nodes(3) [OF u np] fs_create_directories_nodes(1) [OF u, of t] t
      fs_query_nodes(1) [OF e] by simp_all
  have f2: "frame {?p, t} d d2"
    using frame_create_directories [OF u] frame_same [of _ d2 d1] fs_query_nodes(1) [OF e] frame_trans by blast
  have t3: "node_at t d3 = node_at t d" using Lookup_result(1) [OF l, of t] tp t1 by simp
  have f3: "frame {?p, t} d d3" by (rule frame_trans [OF f2 frame_mono [OF frame_Lookup [OF l]]]) simp
  have p3: "l \<noteq> Hit \<Longrightarrow> node_at ?p d3 = None \<or> node_at ?p d3 = node_at ?p d"
    using Lookup_result(4,5) [OF l] p1 by (cases l) auto
  have rename: "committed c a t d ok d'"
    if "fs_rename t ?p dr = (r, d')" "ok \<longleftrightarrow> r \<noteq> None" "frame {?p, t} d dr" "node_at t dr = node_at t d"
      "node_at ?p dr = None \<or> node_at ?p dr = node_at ?p d" for dr r
    using commit_rename [OF that(1-3) tp that(4)] that(5) t(2) content by simp
  note steps = commit [unfolded CommitVerified_def Let_def u prod.case]
  show ?thesis
  proof (cases "u = None \<or> e \<noteq> Some True")
    case True
    show ?thesis
    proof (cases u)
      case None
      then have "ok = False" "d' = d1" using steps by auto
      then show ?thesis
        using frame_create_directories [OF u] fs_create_directories_nodes(3) [OF u np]
          fs_create_directories_nodes(1) [OF u, of t] t by (simp add: committed_def)
    next
      case (Some v)
      obtain r where "fs_rename t ?p d2 = (r, d')" "ok \<longleftrightarrow> r \<noteq> None"
        using steps Some True e by (cases e) (auto split: prod.splits bool.splits)
      then show ?thesis using rename f2 t1 p1 by blast
    qed
  next
    case False
    then have steps': "(if l = Hit then (True, RemoveTemporary t d3) else case fs_rename t ?p d3 of (r, d) \<Rightarrow> (r \<noteq> None, d)) = (ok, d')"
      using steps e l by auto
    show ?thesis
    proof (cases "l = Hit")
      case True
      then have ok: "ok = True" "d' = RemoveTemporary t d3" using steps' by auto
      have "holds ?p a d3" using Lookup_result(2,3) [OF l] True by (auto simp: holds_def)
      then have "holds ?p a d'" using RemoveTemporary_nodes(1) [of ?p t d3] tp ok by (simp add: holds_def)
      moreover have "frame {?p, t} d d'"
        unfolding ok by (rule frame_trans [OF f3 frame_mono [OF frame_RemoveTemporary]]) simp
      ultimately show ?thesis using ok by (simp add: committed_def)
    next
      case False
      then obtain r where "fs_rename t ?p d3 = (r, d')" "ok \<longleftrightarrow> r \<noteq> None"
        using steps' by (auto split: prod.splits)
      then show ?thesis using rename f3 t3 p3 False by blast
    qed
  qed
qed

text \<open>Without I/O errors the lookup decides, and the commit succeeds.\<close>

lemma evict_quiet:
  assumes "faults d = []" and "\<not> has_child p d" and "p \<noteq> []"
  shows "\<exists>d'. evict p d = (Miss, d') \<and> faults d' = []"
  using assms by (cases "node_at p d" rule: is_regular.cases) (auto simp: evict_def fs_remove_def attempt_quiet)

lemma Lookup_quiet:
  assumes "faults d = []" and "\<not> has_child (PathFor c a) d"
  shows "\<exists>d'. Lookup c a d = (if holds (PathFor c a) a d then Hit else Miss, d') \<and> faults d' = []"
proof -
  let ?p = "PathFor c a"
  obtain d' where ev: "evict ?p d = (Miss, d')" "faults d' = []" using evict_quiet [OF assms] by auto
  show ?thesis
  proof (cases "node_at ?p d" rule: is_regular.cases)
    case (1 bs)
    then show ?thesis using assms(1) ev
      by (auto simp: Lookup_def Let_def fs_exists_def fs_is_regular_file_def fs_file_size_def attempt_quiet
          Sha256File_quiet holds_def content_ok_def)
  qed (use assms(1) ev in \<open>auto simp: Lookup_def Let_def fs_exists_def fs_is_regular_file_def attempt_quiet holds_def\<close>)
qed

definition room_for :: "AssetCache \<Rightarrow> AssetDescription \<Rightarrow> Disk \<Rightarrow> bool" where
  "room_for c a d \<longleftrightarrow> \<not> has_child (PathFor c a) d \<and>
    (\<forall>q \<in> set (prefixes (butlast (PathFor c a))). \<not> is_regular (node_at q d))"

lemma fs_rename_quiet:
  assumes "faults d = []" "node_at s d = Some (RegularFile bs)" "node_at t d \<noteq> Some Directory"
    "node_at (butlast t) d = Some Directory"
  shows "\<exists>d'. fs_rename s t d = (Some (), d')"
  using assms by (simp add: fs_rename_def attempt_quiet)


lemma has_child_iff: "has_child p d \<longleftrightarrow> (\<exists>q. q \<noteq> [] \<and> butlast q = p \<and> node_at q d \<noteq> None)"
  by (auto simp: has_child_def node_at_def fmlookup_dom_iff)

lemma not_has_childI:
  assumes "\<And>x. node_at (p @ [x]) d = None"
  shows "\<not> has_child p d"
proof
  assume "has_child p d"
  then obtain q where "q \<noteq> []" "butlast q = p" "node_at q d \<noteq> None" by (auto simp: has_child_iff)
  then show False using assms [of "last q"] by (metis append_butlast_last_id)
qed

lemma create_parents_quiet:
  assumes "faults d = []" and "room_for c a d" and "fs_create_directories (butlast (PathFor c a)) d = (u, d1)"
  shows "u = Some ()" and "faults d1 = []" and "\<not> has_child (PathFor c a) d1"
    and "node_at (butlast (PathFor c a)) d1 = Some Directory"
proof -
  let ?p = "PathFor c a"
  have "\<not> is_regular (node_at b d)" if "prefix b (butlast ?p)" for b
    using assms(2) that by (simp add: room_for_def)
  then show u: "u = Some ()" and "faults d1 = []"
    using create_directories_loop_quiet [OF assms(1), of "butlast ?p" "[]"] assms(3)
    by (auto simp: fs_create_directories_def)
  show "node_at (butlast ?p) d1 = Some Directory" using fs_create_directories_nodes(4) [OF assms(3)] u by simp
  have "\<not> prefix q (butlast ?p)" if "q \<noteq> []" "butlast q = ?p" for q
    using that by (auto dest!: prefix_length_le dest: arg_cong [where f = length] simp: PathFor_def Let_def butlast_append)
  then show "\<not> has_child ?p d1"
    using assms(2) fs_create_directories_nodes(3) [OF assms(3)] by (fastforce simp: room_for_def has_child_iff)
qed

lemma CommitVerified_quiet:
  assumes d: "faults d = []" "room_for c a d" and t: "t = TemporaryPathFor c b" "node_at t d = Some (RegularFile bs)"
  shows "fst (CommitVerified c a t d)"
proof -
  let ?p = "PathFor c a"
  obtain u d1 where u: "fs_create_directories (butlast ?p) d = (u, d1)" by (metis prod.exhaust)
  note parents = create_parents_quiet [OF d u]
  have t1: "node_at t d1 = Some (RegularFile bs)" using fs_create_directories_nodes(1) [OF u, of t] t(2) by simp
  have e: "fs_exists ?p d1 = (Some (node_at ?p d1 \<noteq> None), d1)"
    using parents(2) by (simp add: fs_exists_def attempt_quiet)
  obtain d2 where l: "Lookup c a d1 = (if holds ?p a d1 then Hit else Miss, d2)" "faults d2 = []"
    using Lookup_quiet [OF parents(2,3)] by blast
  show ?thesis
  proof (cases "node_at ?p d1 = None \<or> holds ?p a d1")
    case True
    obtain d' where "node_at ?p d1 = None \<Longrightarrow> fs_rename t ?p d1 = (Some (), d')"
      using fs_rename_quiet [OF parents(2) t1 _ parents(4)] by fastforce
    then show ?thesis using True parents(1) e l
      by (cases "node_at ?p d1") (auto simp: CommitVerified_def Let_def u holds_def)
  next
    case False
    then have miss: "Lookup c a d1 = (Miss, d2)" using l by simp
    note after = Lookup_result [OF miss]
    have "node_at t d2 = Some (RegularFile bs)" using after(1) [of t] t t1 by simp
    moreover have "node_at (butlast ?p) d2 = Some Directory"
      using after(1) [of "butlast ?p"] parents(4) by (simp add: PathFor_def Let_def butlast_append)
    ultimately obtain d' where "fs_rename t ?p d2 = (Some (), d')"
      using fs_rename_quiet [OF l(2), of t bs ?p] after(4) by auto
    then show ?thesis using False parents(1) e miss by (auto simp: CommitVerified_def Let_def u)
  qed
qed


section \<open>Properties\<close>

text \<open>
  Two assets share a cache file exactly when they have the same digest and the
  same file extension, and no cache file is a temporary file of any asset.
\<close>

theorem cache_paths:
  "(PathFor c a = PathFor c b \<longleftrightarrow>
      sha256 a = sha256 b \<and> ExtensionFor (asset_type a) = ExtensionFor (asset_type b)) \<and>
    PathFor c a \<noteq> TemporaryPathFor c b"
  using path_components(3) [of c b a] by (auto simp: PathFor_def Let_def Sha256Hex_inject)

definition cached_asset :: AssetDescription where
  "cached_asset = \<lparr>assetId = 1, asset_type = AssetType_Dff, logicalName = ''a'',
     downloadUrl = ''http://a/b'', fileSize = 1, sha256 = digest_of [7]\<rparr>"

definition sample_cache :: AssetCache where
  "sample_cache = \<lparr>root = [''cache'']\<rparr>"

text \<open>A disk with one file on it, below the directories of its path.\<close>

definition disk_with :: "path \<Rightarrow> bytes \<Rightarrow> Disk" where
  "disk_with p bs = put_node p (RegularFile bs) (snd (fs_create_directories (butlast p) \<lparr>nodes = fmempty, faults = []\<rparr>))"

text \<open>
  Claim C24. A hit means that the file in the cache has the size and the SHA-256 digest the
  description names; a miss leaves the path free; only that path is touched; and without
  I/O errors the lookup answers a hit whenever the content is right.
\<close>

theorem cache_lookup:
  assumes "Lookup c a d = (r, d')"
  shows "(r = Hit \<longrightarrow> holds (PathFor c a) a d') \<and> (r = Miss \<longrightarrow> node_at (PathFor c a) d' = None) \<and>
    (r = LookupDiskFailure \<longrightarrow> node_at (PathFor c a) d' = node_at (PathFor c a) d) \<and>
    (\<forall>q. q \<noteq> PathFor c a \<longrightarrow> node_at q d' = node_at q d) \<and>
    (faults d = [] \<and> \<not> has_child (PathFor c a) d \<longrightarrow> r = (if holds (PathFor c a) a d then Hit else Miss))"
proof -
  have "holds (PathFor c a) a d'" if "r = Hit"
    using Lookup_result(2,3) [OF assms] that by (simp add: holds_def)
  moreover have "r = (if holds (PathFor c a) a d then Hit else Miss)" if "faults d = []" "\<not> has_child (PathFor c a) d"
    using Lookup_quiet [OF that] assms by auto
  ultimately show ?thesis using Lookup_result [OF assms] by blast
qed

text \<open>
  Two descriptions with one digest and type share a file. If they announce different sizes,
  looking the second one up removes the verified file of the first.
\<close>

theorem lookup_evicts_other_size:
  assumes "holds (PathFor c a) a d" and "PathFor c b = PathFor c a" and "fileSize b \<noteq> fileSize a"
    and "faults d = []" and "\<not> has_child (PathFor c a) d" and "Lookup c b d = (r, d')"
  shows "r = Miss \<and> node_at (PathFor c a) d' = None"
proof -
  have "\<not> holds (PathFor c b) b d" using assms(1-3) by (auto simp: holds_def content_ok_def)
  then have "r = Miss" using Lookup_quiet [of d c b] assms(2,4-6) by auto
  then show ?thesis using Lookup_result [OF assms(6)] assms(2) by auto
qed

text \<open>
  Claim C25. Committing a temporary file whose content was verified: success leaves content
  with the right size and digest at the cache path, failure leaves the temporary file, no
  other file changes, nothing unverified is ever put into the cache; and without I/O
  errors the commit succeeds when no file stands where a directory is needed.
\<close>

theorem cache_commit:
  assumes "CommitVerified c a (TemporaryPathFor c a) d = (ok, d')"
    and "node_at (TemporaryPathFor c a) d = Some (RegularFile bs)" and "content_ok a bs"
  shows "committed c a (TemporaryPathFor c a) d ok d' \<and> (faults d = [] \<and> room_for c a d \<longrightarrow> ok)"
  using CommitVerified_result [OF assms(1) refl assms(2,3)] CommitVerified_quiet [of d c a _ a bs] assms(1,2) by auto

lemma node_at_disk_with:
  assumes "p \<noteq> []"
  shows "node_at p (disk_with p bs) = Some (RegularFile bs)" "faults (disk_with p bs) = []"
    "\<not> has_child p (disk_with p bs)" "\<not> prefix q p \<Longrightarrow> node_at q (disk_with p bs) = None"
    "prefix q (butlast p) \<Longrightarrow> \<not> is_regular (node_at q (disk_with p bs))"
proof -
  let ?e = "\<lparr>nodes = fmempty, faults = []\<rparr> :: Disk"
  have e: "node_at q ?e = (if q = [] then Some Directory else None)" for q by (simp add: node_at_def)
  obtain u d where u: "fs_create_directories (butlast p) ?e = (u, d)" by (metis prod.exhaust)
  have quiet: "faults d = []"
    using create_directories_loop_quiet [of ?e "butlast p" "[]"] u e by (auto simp: fs_create_directories_def)
  have np: "\<not> prefix p (butlast p)" using assms by (metis append_butlast_last_id not_Cons_self2 prefix_order.antisym prefixI append_self_conv)
  have d: "disk_with p bs = put_node p (RegularFile bs) d" by (simp add: disk_with_def u)
  show "node_at p (disk_with p bs) = Some (RegularFile bs)" "faults (disk_with p bs) = []"
    using assms quiet by (simp_all add: d)
  show none: "node_at q (disk_with p bs) = None" if "\<not> prefix q p" for q
  proof -
    have "\<not> prefix q (butlast p)" using that by (metis prefix_order.trans prefixeq_butlast)
    then show ?thesis using that fs_create_directories_nodes(3) [OF u, of q] assms e [of q] by (auto simp: d)
  qed
  show "\<not> has_child p (disk_with p bs)" by (rule not_has_childI) (simp add: none)
  show "\<not> is_regular (node_at q (disk_with p bs))" if "prefix q (butlast p)"
    using that np fs_create_directories_nodes(2) [OF u, of q] assms e [of q] by (auto simp: d split: if_splits)
qed

theorem cache_lookup_witness:
  "\<exists>d'. Lookup sample_cache cached_asset (disk_with (PathFor sample_cache cached_asset) [7]) = (Hit, d') \<and>
    holds (PathFor sample_cache cached_asset) cached_asset d'"
proof -
  let ?p = "PathFor sample_cache cached_asset"
  obtain r d' where r: "Lookup sample_cache cached_asset (disk_with ?p [7]) = (r, d')" by (metis prod.exhaust)
  have "holds ?p cached_asset (disk_with ?p [7])"
    using node_at_disk_with(1) [of ?p "[7]"] by (simp add: holds_def content_ok_def cached_asset_def)
  then have "r = Hit" and "holds ?p cached_asset d'"
    using cache_lookup [OF r] node_at_disk_with(2,3) [of ?p "[7]"] by simp_all
  then show ?thesis using r by blast
qed

theorem cache_commit_witness:
  "fst (CommitVerified sample_cache cached_asset (TemporaryPathFor sample_cache cached_asset)
    (disk_with (TemporaryPathFor sample_cache cached_asset) [7]))"
proof -
  let ?t = "TemporaryPathFor sample_cache cached_asset" and ?p = "PathFor sample_cache cached_asset"
  let ?d = "disk_with ?t [7]"
  obtain ok d' where r: "CommitVerified sample_cache cached_asset ?t ?d = (ok, d')" by (metis prod.exhaust)
  have t: "node_at ?t ?d = Some (RegularFile [7])" using node_at_disk_with(1) [of ?t "[7]"] by simp
  have "\<not> is_regular (node_at q ?d)" if "prefix q (butlast ?p)" for q
  proof (cases "prefix q ?t")
    case True
    have "prefix q ?p" using that prefixeq_butlast prefix_order.trans by blast
    then have "q \<noteq> ?t" using path_components(4) by blast
    then have "prefix q (butlast ?t)"
      using True by (metis append_butlast_last_id path_components(2) prefix_snoc)
    then show ?thesis using node_at_disk_with(5) [of ?t q "[7]"] by simp
  next
    case False
    then show ?thesis using node_at_disk_with(4) [of ?t q "[7]"] by simp
  qed
  moreover have "\<not> has_child ?p ?d"
  proof (rule not_has_childI)
    have "\<not> prefix (?p @ [x]) ?t" for x using path_components(5) append_prefixD by blast
    then show "node_at (?p @ [x]) ?d = None" for x using node_at_disk_with(4) [of ?t _ "[7]"] by simp
  qed
  ultimately have "room_for sample_cache cached_asset ?d" by (simp add: room_for_def)
  then show ?thesis
    using cache_commit [OF r t] node_at_disk_with(2) [of ?t "[7]"] r by (simp add: content_ok_def cached_asset_def)
qed

end
