(* ===== verification/Fetch.thy ===== *)
theory Fetch
  imports Assets FileSystem
begin

text \<open>
  The download interface of \<^verbatim>\<open>client/include/custommodel/assets/fetch.hpp\<close>, as a type and
  as a contract: whatever a backend does to the disk, it does it to the destination.
\<close>

section \<open>Definitions\<close>

datatype FetchError = FetchNone | FetchUnsupportedScheme | FetchNetworkFailure | FetchTimeout
  | FetchSizeMismatch | FetchDiskFailure | FetchInternalError

record FetchOptions =
  redirectLimit :: u32
  connectionTimeoutMilliseconds :: u32
  transferTimeoutMilliseconds :: u32

definition default_options :: FetchOptions where
  "default_options = \<lparr>redirectLimit = 5, connectionTimeoutMilliseconds = 10000, transferTimeoutMilliseconds = 120000\<rparr>"

record FetchResult =
  fetch_error :: FetchError
  bytesReceived :: u64

abbreviation result_of :: "FetchError \<Rightarrow> u64 \<Rightarrow> FetchResult" where
  "result_of e n \<equiv> \<lparr>fetch_error = e, bytesReceived = n\<rparr>"

text \<open>\<^verbatim>\<open>FetchBackend::Fetch\<close>: the URL, the destination, the expected size and the options.\<close>

type_synonym Fetch = "string \<Rightarrow> path \<Rightarrow> u64 \<Rightarrow> FetchOptions \<Rightarrow> Disk \<Rightarrow> FetchResult \<times> Disk"

section \<open>The contract of a backend\<close>

text \<open>
  A set of backends, one for each course the network may take. The manager relies on two
  laws: nothing but the destination changes, and a success reports the number of bytes
  that lie at the destination.
\<close>

locale fetch_backends =
  fixes backends :: "Fetch set"
  assumes touches: "f \<in> backends \<Longrightarrow> p \<noteq> [] \<Longrightarrow> f url p n options d = (r, d') \<Longrightarrow> q \<noteq> p \<Longrightarrow> node_at q d' = node_at q d"
    and delivers: "f \<in> backends \<Longrightarrow> p \<noteq> [] \<Longrightarrow> f url p n options d = (r, d') \<Longrightarrow> fetch_error r = FetchNone \<Longrightarrow>
      \<exists>bs. node_at p d' = Some (RegularFile bs) \<and> bytesReceived r = of_nat (length bs)"

end
