(* ===== verification/Version.thy ===== *)
theory Version
  imports Prelude
begin

text \<open>
  \<^verbatim>\<open>shared/include/custommodel/version.hpp\<close> and \<^verbatim>\<open>shared/src/version.cpp\<close>: the runtime
  version, the SA-MP build identifiers and the table of recognised builds.

  A C++ scoped enumeration with a fixed underlying type has every value of that type as a
  value, whether or not an enumerator names it, and \<^verbatim>\<open>static_cast\<close> moves freely between
  the two. Enumerations that the source builds by a cast, or checks through one, are
  therefore modelled as a datatype around the underlying integer, with one abbreviation
  per enumerator; the constructor and the selector are the two casts.
\<close>

section \<open>Runtime version\<close>

datatype RuntimeVersion = RuntimeVersion (major: u16) (minor: u16) (patch: u16)

definition kRuntimeVersion :: RuntimeVersion where
  "kRuntimeVersion = RuntimeVersion 0 2 0"

text \<open>
  The lexicographic order of versions, which the source never computes as a whole: it is
  the specification that the server's acceptance test is compared with.
\<close>

instantiation RuntimeVersion :: linorder
begin

definition less_RuntimeVersion :: "RuntimeVersion \<Rightarrow> RuntimeVersion \<Rightarrow> bool" where
  "v < w \<longleftrightarrow> major v < major w \<or> major v = major w \<and>
     (minor v < minor w \<or> minor v = minor w \<and> patch v < patch w)"

definition less_eq_RuntimeVersion :: "RuntimeVersion \<Rightarrow> RuntimeVersion \<Rightarrow> bool" where
  "v \<le> w \<longleftrightarrow> v < w \<or> v = (w :: RuntimeVersion)"

instance
proof
  fix v w x :: RuntimeVersion
  show "(v < w) = (v \<le> w \<and> \<not> w \<le> v)"
    by (auto simp: less_eq_RuntimeVersion_def less_RuntimeVersion_def)
  show "v \<le> v"
    by (simp add: less_eq_RuntimeVersion_def)
  show "v \<le> w \<Longrightarrow> w \<le> x \<Longrightarrow> v \<le> x"
    by (auto simp: less_eq_RuntimeVersion_def less_RuntimeVersion_def)
  show "v \<le> w \<Longrightarrow> w \<le> v \<Longrightarrow> v = w"
    by (auto simp: less_eq_RuntimeVersion_def less_RuntimeVersion_def)
  show "v \<le> w \<or> w \<le> v"
    by (cases v; cases w) (auto simp: less_eq_RuntimeVersion_def less_RuntimeVersion_def)
qed

end

section \<open>SA-MP builds\<close>

datatype SampVersion = SampVersion (SampVersion_value: u8)

abbreviation SampVersion_Unknown :: SampVersion where "SampVersion_Unknown \<equiv> SampVersion 0"
abbreviation SampVersion_R1 :: SampVersion where "SampVersion_R1 \<equiv> SampVersion 1"
abbreviation SampVersion_R2 :: SampVersion where "SampVersion_R2 \<equiv> SampVersion 2"
abbreviation SampVersion_R3 :: SampVersion where "SampVersion_R3 \<equiv> SampVersion 3"
abbreviation SampVersion_R3_1 :: SampVersion where "SampVersion_R3_1 \<equiv> SampVersion 4"
abbreviation SampVersion_R4 :: SampVersion where "SampVersion_R4 \<equiv> SampVersion 5"
abbreviation SampVersion_R4_2 :: SampVersion where "SampVersion_R4_2 \<equiv> SampVersion 6"
abbreviation SampVersion_R4Family :: SampVersion where "SampVersion_R4Family \<equiv> SampVersion 7"

record SampBuildInfo =
  build_version :: SampVersion
  build_entryPoint :: u32
  build_name :: string

definition KnownSampBuilds :: "SampBuildInfo list" where
  "KnownSampBuilds =
    [\<lparr>build_version = SampVersion_R1, build_entryPoint = 0x31DF13, build_name = ''SA-MP 0.3.7 R1''\<rparr>,
     \<lparr>build_version = SampVersion_R2, build_entryPoint = 0x3195DD, build_name = ''SA-MP 0.3.7 R2''\<rparr>,
     \<lparr>build_version = SampVersion_R3_1, build_entryPoint = 0x0CC4D0, build_name = ''SA-MP 0.3.7 R3-1''\<rparr>,
     \<lparr>build_version = SampVersion_R4, build_entryPoint = 0x0CBCB0, build_name = ''SA-MP 0.3.7 R4''\<rparr>,
     \<lparr>build_version = SampVersion_R4Family, build_entryPoint = 0x0CBCD0, build_name = ''SA-MP 0.3.7 R4-family''\<rparr>]"

text \<open>The overloaded \<^verbatim>\<open>FindSampBuild\<close>, a linear scan that returns a null pointer when nothing matches.\<close>

definition FindSampBuild_entryPoint :: "u32 \<Rightarrow> SampBuildInfo option" where
  "FindSampBuild_entryPoint entryPoint =
     find (\<lambda>build. build_entryPoint build = entryPoint) KnownSampBuilds"

definition FindSampBuild_version :: "SampVersion \<Rightarrow> SampBuildInfo option" where
  "FindSampBuild_version version =
     find (\<lambda>build. build_version build = version) KnownSampBuilds"

definition ToString_SampVersion :: "SampVersion \<Rightarrow> string" where
  "ToString_SampVersion version =
    (if version = SampVersion_Unknown then ''Unknown''
     else if version = SampVersion_R1 then ''SA-MP 0.3.7 R1''
     else if version = SampVersion_R2 then ''SA-MP 0.3.7 R2''
     else if version = SampVersion_R3 then ''SA-MP 0.3.7 R3''
     else if version = SampVersion_R3_1 then ''SA-MP 0.3.7 R3-1''
     else if version = SampVersion_R4 then ''SA-MP 0.3.7 R4''
     else if version = SampVersion_R4_2 then ''SA-MP 0.3.7 R4-2''
     else if version = SampVersion_R4Family then ''SA-MP 0.3.7 R4-family''
     else ''Unknown'')"

section \<open>The table is consistent\<close>

lemma FindSampBuild_version_iff:
  "FindSampBuild_version v \<noteq> None \<longleftrightarrow>
     v \<in> {SampVersion_R1, SampVersion_R2, SampVersion_R3_1, SampVersion_R4, SampVersion_R4Family}"
  by (auto simp: FindSampBuild_version_def KnownSampBuilds_def)

lemma FindSampBuild_entryPoint_in_table:
  "FindSampBuild_entryPoint e = Some b \<Longrightarrow> b \<in> set KnownSampBuilds \<and> build_entryPoint b = e"
  by (auto simp: FindSampBuild_entryPoint_def find_Some_iff)

lemma distinct_builds:
  "distinct (map build_version KnownSampBuilds)" "distinct (map build_entryPoint KnownSampBuilds)"
  by (simp_all add: KnownSampBuilds_def)

lemma build_names: "b \<in> set KnownSampBuilds \<Longrightarrow> build_name b = ToString_SampVersion (build_version b)"
  by (auto simp: KnownSampBuilds_def ToString_SampVersion_def)

text \<open>
  A build found by the entry point of its module is found again by its version, and its
  name in the table is the one printed for the version.
\<close>

lemma FindSampBuild_agree:
  assumes "FindSampBuild_entryPoint e = Some b"
  shows "FindSampBuild_version (build_version b) = Some b \<and> build_name b = ToString_SampVersion (build_version b)"
  using FindSampBuild_entryPoint_in_table [OF assms]
  by (auto simp: KnownSampBuilds_def FindSampBuild_version_def ToString_SampVersion_def)

end
