(* ===== verification/Protocol.thy ===== *)
theory Protocol
  imports ByteIO Version Assets
begin

text \<open>
  The version 1 packet grammar: the message structures of
  \<^verbatim>\<open>shared/include/custommodel/protocol.hpp\<close> and the encoder and decoder of
  \<^verbatim>\<open>shared/src/protocol.cpp\<close>. \<^verbatim>\<open>EncodeError::None\<close> and \<^verbatim>\<open>DecodeError::None\<close> are
  the right side of a sum, every other error its left side.

  The lemmas compute both directions against one description of the wire, \<open>packet_bytes\<close>:
  the encoder produces exactly it, and the decoder accepts exactly it.
\<close>

section \<open>Messages\<close>

datatype MessageType = HelloType | WelcomeType | RejectType | PingType | PongType
  | ManifestBeginType | ManifestAssetType | ManifestEndType | AssetReadyType | AssetErrorType

primrec MessageType_value :: "MessageType \<Rightarrow> u16" where
  "MessageType_value HelloType = 1"
| "MessageType_value WelcomeType = 2"
| "MessageType_value RejectType = 3"
| "MessageType_value PingType = 4"
| "MessageType_value PongType = 5"
| "MessageType_value ManifestBeginType = 6"
| "MessageType_value ManifestAssetType = 7"
| "MessageType_value ManifestEndType = 8"
| "MessageType_value AssetReadyType = 9"
| "MessageType_value AssetErrorType = 10"

text \<open>The cast back, which the decoder makes only for the ten known values.\<close>

definition MessageType_of :: "u16 \<Rightarrow> MessageType" where
  "MessageType_of value =
    (if value = 1 then HelloType else if value = 2 then WelcomeType
     else if value = 3 then RejectType else if value = 4 then PingType
     else if value = 5 then PongType else if value = 6 then ManifestBeginType
     else if value = 7 then ManifestAssetType else if value = 8 then ManifestEndType
     else if value = 9 then AssetReadyType else AssetErrorType)"

type_synonym CapabilityFlags = u32

datatype Capability = CharModel | ObjectModel | CapabilityDff | CapabilityTxd | Sha256Cache

primrec Capability_value :: "Capability \<Rightarrow> CapabilityFlags" where
  "Capability_value CharModel = push_bit 0 1"
| "Capability_value ObjectModel = push_bit 1 1"
| "Capability_value CapabilityDff = push_bit 2 1"
| "Capability_value CapabilityTxd = push_bit 3 1"
| "Capability_value Sha256Cache = push_bit 4 1"

definition kDeclaredCapabilities :: CapabilityFlags where
  "kDeclaredCapabilities =
     Capability_value CharModel OR Capability_value ObjectModel OR Capability_value CapabilityDff OR
     Capability_value CapabilityTxd OR Capability_value Sha256Cache"

datatype RejectReason = RejectReason (RejectReason_value: u16)

abbreviation UnsupportedProtocol :: RejectReason where "UnsupportedProtocol \<equiv> RejectReason 1"
abbreviation UnsupportedClientRuntime :: RejectReason where "UnsupportedClientRuntime \<equiv> RejectReason 2"
abbreviation UnsupportedSampBuild :: RejectReason where "UnsupportedSampBuild \<equiv> RejectReason 3"
abbreviation MalformedHandshake :: RejectReason where "MalformedHandshake \<equiv> RejectReason 4"
abbreviation UnsupportedCapabilities :: RejectReason where "UnsupportedCapabilities \<equiv> RejectReason 5"

datatype AssetErrorReason = AssetErrorReason (AssetErrorReason_value: u16)

abbreviation AssetErrorReason_InvalidManifest where "AssetErrorReason_InvalidManifest \<equiv> AssetErrorReason 1"
abbreviation AssetErrorReason_UnsupportedScheme where "AssetErrorReason_UnsupportedScheme \<equiv> AssetErrorReason 2"
abbreviation AssetErrorReason_NetworkFailure where "AssetErrorReason_NetworkFailure \<equiv> AssetErrorReason 3"
abbreviation AssetErrorReason_Timeout where "AssetErrorReason_Timeout \<equiv> AssetErrorReason 4"
abbreviation AssetErrorReason_SizeMismatch where "AssetErrorReason_SizeMismatch \<equiv> AssetErrorReason 5"
abbreviation AssetErrorReason_HashMismatch where "AssetErrorReason_HashMismatch \<equiv> AssetErrorReason 6"
abbreviation AssetErrorReason_DiskFailure where "AssetErrorReason_DiskFailure \<equiv> AssetErrorReason 7"
abbreviation AssetErrorReason_InternalError where "AssetErrorReason_InternalError \<equiv> AssetErrorReason 8"

record Hello =
  hello_runtimeVersion :: RuntimeVersion
  hello_protocolVersion :: u16
  hello_sampVersion :: SampVersion
  hello_capabilities :: CapabilityFlags

record Welcome =
  welcome_acceptedProtocolVersion :: u16
  welcome_serverRuntimeVersion :: RuntimeVersion
  welcome_serverProtocolVersion :: u16
  welcome_negotiatedCapabilities :: CapabilityFlags

record Reject =
  reject_reason :: RejectReason

record Ping =
  ping_nonce :: u64

record Pong =
  pong_nonce :: u64

record ManifestBegin =
  begin_manifestRevision :: u64
  begin_assetCount :: u32
  begin_totalDownloadSize :: u64

record ManifestAsset =
  item_manifestRevision :: u64
  item_assetIndex :: u32
  item_asset :: AssetDescription

record ManifestEnd =
  end_manifestRevision :: u64
  end_assetCount :: u32
  end_totalDownloadSize :: u64

record AssetReady =
  ready_manifestRevision :: u64
  ready_assetId :: u32

record AssetError =
  error_manifestRevision :: u64
  error_assetId :: u32
  error_reason :: AssetErrorReason

datatype Message =
    HelloMsg Hello
  | WelcomeMsg Welcome
  | RejectMsg Reject
  | PingMsg Ping
  | PongMsg Pong
  | ManifestBeginMsg ManifestBegin
  | ManifestAssetMsg ManifestAsset
  | ManifestEndMsg ManifestEnd
  | AssetReadyMsg AssetReady
  | AssetErrorMsg AssetError

record Packet =
  packet_protocolVersion :: u16
  packet_message :: Message

datatype EncodeError = EncodeInvalidField | EncodeOversizedPayload

datatype DecodeError = TruncatedHeader | InvalidMagic | UnsupportedProtocolVersion
  | OversizedPayload | TruncatedPayload | PayloadLengthMismatch | UnknownMessageType | InvalidField

section \<open>Field checks\<close>

definition HasCapability :: "CapabilityFlags \<Rightarrow> Capability \<Rightarrow> bool" where
  "HasCapability flags capability \<longleftrightarrow> flags AND Capability_value capability \<noteq> 0"

definition AreCapabilitiesValid :: "CapabilityFlags \<Rightarrow> bool" where
  "AreCapabilitiesValid flags \<longleftrightarrow> flags AND NOT kDeclaredCapabilities = 0"

definition IsSampVersionValueValid :: "u16 \<Rightarrow> bool" where
  "IsSampVersionValueValid value \<longleftrightarrow> value \<le> ucast (SampVersion_value SampVersion_R4Family)"

definition IsRejectReasonValid :: "u16 \<Rightarrow> bool" where
  "IsRejectReasonValid value \<longleftrightarrow>
     RejectReason_value UnsupportedProtocol \<le> value \<and> value \<le> RejectReason_value UnsupportedCapabilities"

definition IsAssetErrorReasonValid :: "u16 \<Rightarrow> bool" where
  "IsAssetErrorReasonValid value \<longleftrightarrow>
     AssetErrorReason_value AssetErrorReason_InvalidManifest \<le> value \<and>
     value \<le> AssetErrorReason_value AssetErrorReason_InternalError"

definition IsManifestBoundaryValid :: "u64 \<Rightarrow> u32 \<Rightarrow> u64 \<Rightarrow> bool" where
  "IsManifestBoundaryValid manifestRevision count totalBytes \<longleftrightarrow>
     manifestRevision \<noteq> 0 \<and> unat count \<le> kMaximumAssetsPerManifest \<and>
     totalBytes \<le> kMaximumTotalDownloadSize \<and> (count \<noteq> 0 \<or> totalBytes = 0)"

definition IsKnownMessageType :: "u16 \<Rightarrow> bool" where
  "IsKnownMessageType value \<longleftrightarrow>
     MessageType_value HelloType \<le> value \<and> value \<le> MessageType_value AssetErrorType"

primrec TypeOf :: "Message \<Rightarrow> MessageType" where
  "TypeOf (HelloMsg _) = HelloType"
| "TypeOf (WelcomeMsg _) = WelcomeType"
| "TypeOf (RejectMsg _) = RejectType"
| "TypeOf (PingMsg _) = PingType"
| "TypeOf (PongMsg _) = PongType"
| "TypeOf (ManifestBeginMsg _) = ManifestBeginType"
| "TypeOf (ManifestAssetMsg _) = ManifestAssetType"
| "TypeOf (ManifestEndMsg _) = ManifestEndType"
| "TypeOf (AssetReadyMsg _) = AssetReadyType"
| "TypeOf (AssetErrorMsg _) = AssetErrorType"

section \<open>Encoding\<close>

text \<open>The idiom of the encoder: a failed write is an oversized payload.\<close>

definition written :: "ByteWriter option \<Rightarrow> EncodeError + ByteWriter" where
  "written m = (case m of None \<Rightarrow> Inl EncodeOversizedPayload | Some w \<Rightarrow> Inr w)"

definition WriteRuntimeVersion :: "ByteWriter \<Rightarrow> RuntimeVersion \<Rightarrow> ByteWriter option" where
  "WriteRuntimeVersion w version = do {
     w \<leftarrow> WriteU16 w (major version);
     w \<leftarrow> WriteU16 w (minor version);
     WriteU16 w (patch version) }"

definition WriteAssetDescription :: "ByteWriter \<Rightarrow> AssetDescription \<Rightarrow> ByteWriter option" where
  "WriteAssetDescription w asset = do {
     w \<leftarrow> WriteU32 w (assetId asset);
     w \<leftarrow> WriteU16 w (AssetType_value (asset_type asset));
     w \<leftarrow> WriteString w (logicalName asset);
     w \<leftarrow> WriteString w (downloadUrl asset);
     w \<leftarrow> WriteU64 w (fileSize asset);
     WriteBytes w (View (digest_bytes (sha256 asset))) }"

fun EncodePayload :: "ByteWriter \<Rightarrow> Message \<Rightarrow> EncodeError + ByteWriter" where
  "EncodePayload w (HelloMsg v) =
    (if \<not> IsSampVersionValueValid (ucast (SampVersion_value (hello_sampVersion v))) \<or>
        \<not> AreCapabilitiesValid (hello_capabilities v)
     then Inl EncodeInvalidField
     else written (do {
       w \<leftarrow> WriteRuntimeVersion w (hello_runtimeVersion v);
       w \<leftarrow> WriteU16 w (hello_protocolVersion v);
       w \<leftarrow> WriteU16 w (ucast (SampVersion_value (hello_sampVersion v)));
       WriteU32 w (hello_capabilities v) }))"
| "EncodePayload w (WelcomeMsg v) =
    (if \<not> AreCapabilitiesValid (welcome_negotiatedCapabilities v)
     then Inl EncodeInvalidField
     else written (do {
       w \<leftarrow> WriteU16 w (welcome_acceptedProtocolVersion v);
       w \<leftarrow> WriteRuntimeVersion w (welcome_serverRuntimeVersion v);
       w \<leftarrow> WriteU16 w (welcome_serverProtocolVersion v);
       WriteU32 w (welcome_negotiatedCapabilities v) }))"
| "EncodePayload w (RejectMsg v) =
    (let reason = RejectReason_value (reject_reason v)
     in if \<not> IsRejectReasonValid reason then Inl EncodeInvalidField
        else written (WriteU16 w reason))"
| "EncodePayload w (PingMsg v) = written (WriteU64 w (ping_nonce v))"
| "EncodePayload w (PongMsg v) = written (WriteU64 w (pong_nonce v))"
| "EncodePayload w (ManifestBeginMsg v) =
    (if \<not> IsManifestBoundaryValid (begin_manifestRevision v) (begin_assetCount v) (begin_totalDownloadSize v)
     then Inl EncodeInvalidField
     else written (do {
       w \<leftarrow> WriteU64 w (begin_manifestRevision v);
       w \<leftarrow> WriteU32 w (begin_assetCount v);
       WriteU64 w (begin_totalDownloadSize v) }))"
| "EncodePayload w (ManifestAssetMsg v) =
    (if item_manifestRevision v = 0 \<or>
        unat (item_assetIndex v) \<ge> kMaximumAssetsPerManifest \<or>
        \<not> IsAssetDescriptionValid (item_asset v)
     then Inl EncodeInvalidField
     else written (do {
       w \<leftarrow> WriteU64 w (item_manifestRevision v);
       w \<leftarrow> WriteU32 w (item_assetIndex v);
       WriteAssetDescription w (item_asset v) }))"
| "EncodePayload w (ManifestEndMsg v) =
    (if \<not> IsManifestBoundaryValid (end_manifestRevision v) (end_assetCount v) (end_totalDownloadSize v)
     then Inl EncodeInvalidField
     else written (do {
       w \<leftarrow> WriteU64 w (end_manifestRevision v);
       w \<leftarrow> WriteU32 w (end_assetCount v);
       WriteU64 w (end_totalDownloadSize v) }))"
| "EncodePayload w (AssetReadyMsg v) =
    (if ready_manifestRevision v = 0 \<or> ready_assetId v = 0 then Inl EncodeInvalidField
     else written (do {
       w \<leftarrow> WriteU64 w (ready_manifestRevision v);
       WriteU32 w (ready_assetId v) }))"
| "EncodePayload w (AssetErrorMsg v) =
    (if error_manifestRevision v = 0 \<or> error_assetId v = 0 \<or>
        \<not> IsAssetErrorReasonValid (AssetErrorReason_value (error_reason v))
     then Inl EncodeInvalidField
     else written (do {
       w \<leftarrow> WriteU64 w (error_manifestRevision v);
       w \<leftarrow> WriteU32 w (error_assetId v);
       WriteU16 w (AssetErrorReason_value (error_reason v)) }))"

text \<open>The loop that copies the payload behind the header, byte by byte.\<close>

primrec WriteU8_each :: "ByteWriter \<Rightarrow> bytes \<Rightarrow> ByteWriter option" where
  "WriteU8_each w [] = Some w"
| "WriteU8_each w (b # bs) = do { w \<leftarrow> WriteU8 w b; WriteU8_each w bs }"

definition empty_writer :: ByteWriter where
  "empty_writer = \<lparr>writer_bytes = []\<rparr>"

definition EncodePacket :: "Message \<Rightarrow> u16 \<Rightarrow> EncodeError + bytes" where
  "EncodePacket message protocolVersion =
    (if protocolVersion \<noteq> kProtocolVersion then Inl EncodeInvalidField
     else case EncodePayload empty_writer message of
       Inl payloadError \<Rightarrow> Inl payloadError
     | Inr payloadWriter \<Rightarrow>
         let payload = writer_bytes payloadWriter
         in if length payload > kMaximumPayloadSize \<or> length payload > 4294967295
            then Inl EncodeOversizedPayload
            else case do {
                w \<leftarrow> WriteU32 empty_writer kMagic;
                w \<leftarrow> WriteU16 w protocolVersion;
                w \<leftarrow> WriteU16 w (MessageType_value (TypeOf message));
                w \<leftarrow> WriteU32 w (of_nat (length payload));
                WriteU8_each w payload } of
              None \<Rightarrow> Inl EncodeOversizedPayload
            | Some packetWriter \<Rightarrow> Inr (writer_bytes packetWriter))"

section \<open>Decoding\<close>

definition ReadRuntimeVersion :: "ByteReader \<Rightarrow> (RuntimeVersion \<times> ByteReader) option" where
  "ReadRuntimeVersion r = do {
     (ma, r) \<leftarrow> ReadU16 r;
     (mi, r) \<leftarrow> ReadU16 r;
     (pa, r) \<leftarrow> ReadU16 r;
     Some (RuntimeVersion ma mi pa, r) }"

definition ReadAssetDescription :: "ByteReader \<Rightarrow> DecodeError + AssetDescription \<times> ByteReader" where
  "ReadAssetDescription r =
    (case do {
        (i, r) \<leftarrow> ReadU32 r;
        (t, r) \<leftarrow> ReadU16 r;
        (name, r) \<leftarrow> ReadString kMaximumLogicalNameLength r;
        (url, r) \<leftarrow> ReadString kMaximumUrlLength r;
        (fsize, r) \<leftarrow> ReadU64 r;
        (digest, r) \<leftarrow> ReadBytes r kSha256Size;
        Some (\<lparr>assetId = i, asset_type = AssetType t, logicalName = name, downloadUrl = url,
               fileSize = fsize, sha256 = digest_of_bytes digest\<rparr>, r) } of
      None \<Rightarrow> Inl TruncatedPayload
    | Some (asset, r) \<Rightarrow> if IsAssetDescriptionValid asset then Inr (asset, r) else Inl InvalidField)"

text \<open>The common tail of \<^verbatim>\<open>DecodePayload\<close>: all of the payload must have been read.\<close>

definition decoded :: "ByteReader \<Rightarrow> Message \<Rightarrow> DecodeError + Message" where
  "decoded r message = (if Remaining r = 0 then Inr message else Inl PayloadLengthMismatch)"

definition decode_boundary :: "ByteReader \<Rightarrow> (u64 \<Rightarrow> u32 \<Rightarrow> u64 \<Rightarrow> Message) \<Rightarrow> DecodeError + Message" where
  "decode_boundary r message =
    (case do {
        (manifestRevision, r) \<leftarrow> ReadU64 r;
        (count, r) \<leftarrow> ReadU32 r;
        (totalBytes, r) \<leftarrow> ReadU64 r;
        Some (manifestRevision, count, totalBytes, r) } of
      None \<Rightarrow> Inl TruncatedPayload
    | Some (manifestRevision, count, totalBytes, r) \<Rightarrow>
        if \<not> IsManifestBoundaryValid manifestRevision count totalBytes then Inl InvalidField
        else decoded r (message manifestRevision count totalBytes))"

fun DecodePayload :: "MessageType \<Rightarrow> ByteView \<Rightarrow> DecodeError + Message" where
  "DecodePayload HelloType payload =
    (case do {
        (version, r) \<leftarrow> ReadRuntimeVersion (reader_on payload);
        (protocolVersion, r) \<leftarrow> ReadU16 r;
        (sampVersion, r) \<leftarrow> ReadU16 r;
        (capabilities, r) \<leftarrow> ReadU32 r;
        Some (version, protocolVersion, sampVersion, capabilities, r) } of
      None \<Rightarrow> Inl TruncatedPayload
    | Some (version, protocolVersion, sampVersion, capabilities, r) \<Rightarrow>
        if \<not> IsSampVersionValueValid sampVersion \<or> \<not> AreCapabilitiesValid capabilities
        then Inl InvalidField
        else decoded r (HelloMsg \<lparr>hello_runtimeVersion = version, hello_protocolVersion = protocolVersion,
               hello_sampVersion = SampVersion (ucast sampVersion), hello_capabilities = capabilities\<rparr>))"
| "DecodePayload WelcomeType payload =
    (case do {
        (accepted, r) \<leftarrow> ReadU16 (reader_on payload);
        (version, r) \<leftarrow> ReadRuntimeVersion r;
        (protocolVersion, r) \<leftarrow> ReadU16 r;
        (capabilities, r) \<leftarrow> ReadU32 r;
        Some (accepted, version, protocolVersion, capabilities, r) } of
      None \<Rightarrow> Inl TruncatedPayload
    | Some (accepted, version, protocolVersion, capabilities, r) \<Rightarrow>
        if \<not> AreCapabilitiesValid capabilities then Inl InvalidField
        else decoded r (WelcomeMsg \<lparr>welcome_acceptedProtocolVersion = accepted,
               welcome_serverRuntimeVersion = version, welcome_serverProtocolVersion = protocolVersion,
               welcome_negotiatedCapabilities = capabilities\<rparr>))"
| "DecodePayload RejectType payload =
    (case ReadU16 (reader_on payload) of
      None \<Rightarrow> Inl TruncatedPayload
    | Some (reason, r) \<Rightarrow>
        if \<not> IsRejectReasonValid reason then Inl InvalidField
        else decoded r (RejectMsg \<lparr>reject_reason = RejectReason reason\<rparr>))"
| "DecodePayload PingType payload =
    (case ReadU64 (reader_on payload) of
      None \<Rightarrow> Inl TruncatedPayload
    | Some (nonce, r) \<Rightarrow> decoded r (PingMsg \<lparr>ping_nonce = nonce\<rparr>))"
| "DecodePayload PongType payload =
    (case ReadU64 (reader_on payload) of
      None \<Rightarrow> Inl TruncatedPayload
    | Some (nonce, r) \<Rightarrow> decoded r (PongMsg \<lparr>pong_nonce = nonce\<rparr>))"
| "DecodePayload ManifestBeginType payload =
    decode_boundary (reader_on payload) (\<lambda>manifestRevision count totalBytes.
      ManifestBeginMsg \<lparr>begin_manifestRevision = manifestRevision, begin_assetCount = count,
        begin_totalDownloadSize = totalBytes\<rparr>)"
| "DecodePayload ManifestAssetType payload =
    (case do {
        (manifestRevision, r) \<leftarrow> ReadU64 (reader_on payload);
        (index, r) \<leftarrow> ReadU32 r;
        Some (manifestRevision, index, r) } of
      None \<Rightarrow> Inl TruncatedPayload
    | Some (manifestRevision, index, r) \<Rightarrow>
        (case ReadAssetDescription r of
           Inl assetError \<Rightarrow> Inl assetError
         | Inr (asset, r) \<Rightarrow>
             if manifestRevision = 0 \<or> unat index \<ge> kMaximumAssetsPerManifest then Inl InvalidField
             else decoded r (ManifestAssetMsg \<lparr>item_manifestRevision = manifestRevision,
                    item_assetIndex = index, item_asset = asset\<rparr>)))"
| "DecodePayload ManifestEndType payload =
    decode_boundary (reader_on payload) (\<lambda>manifestRevision count totalBytes.
      ManifestEndMsg \<lparr>end_manifestRevision = manifestRevision, end_assetCount = count,
        end_totalDownloadSize = totalBytes\<rparr>)"
| "DecodePayload AssetReadyType payload =
    (case do {
        (manifestRevision, r) \<leftarrow> ReadU64 (reader_on payload);
        (i, r) \<leftarrow> ReadU32 r;
        Some (manifestRevision, i, r) } of
      None \<Rightarrow> Inl TruncatedPayload
    | Some (manifestRevision, i, r) \<Rightarrow>
        if manifestRevision = 0 \<or> i = 0 then Inl InvalidField
        else decoded r (AssetReadyMsg \<lparr>ready_manifestRevision = manifestRevision, ready_assetId = i\<rparr>))"
| "DecodePayload AssetErrorType payload =
    (case do {
        (manifestRevision, r) \<leftarrow> ReadU64 (reader_on payload);
        (i, r) \<leftarrow> ReadU32 r;
        (reason, r) \<leftarrow> ReadU16 r;
        Some (manifestRevision, i, reason, r) } of
      None \<Rightarrow> Inl TruncatedPayload
    | Some (manifestRevision, i, reason, r) \<Rightarrow>
        if manifestRevision = 0 \<or> i = 0 \<or> \<not> IsAssetErrorReasonValid reason then Inl InvalidField
        else decoded r (AssetErrorMsg \<lparr>error_manifestRevision = manifestRevision, error_assetId = i,
               error_reason = AssetErrorReason reason\<rparr>))"

definition DecodePacket :: "ByteView \<Rightarrow> DecodeError + Packet" where
  "DecodePacket bytes =
    (if view_size bytes < kHeaderSize \<or> view_is_null bytes then Inl TruncatedHeader
     else case do {
         (magic, r) \<leftarrow> ReadU32 (reader_on bytes);
         (protocolVersion, r) \<leftarrow> ReadU16 r;
         (messageType, r) \<leftarrow> ReadU16 r;
         (payloadSize, r) \<leftarrow> ReadU32 r;
         Some (magic, protocolVersion, messageType, payloadSize, r) } of
       None \<Rightarrow> Inl TruncatedHeader
     | Some (magic, protocolVersion, messageType, payloadSize, r) \<Rightarrow>
         if magic \<noteq> kMagic then Inl InvalidMagic
         else if protocolVersion \<noteq> kProtocolVersion then Inl UnsupportedProtocolVersion
         else if unat payloadSize > kMaximumPayloadSize then Inl OversizedPayload
         else if unat payloadSize > Remaining r then Inl TruncatedPayload
         else if unat payloadSize \<noteq> Remaining r then Inl PayloadLengthMismatch
         else if \<not> IsKnownMessageType messageType then Inl UnknownMessageType
         else case DecodePayload (MessageType_of messageType)
                (View (take (unat payloadSize) (drop kHeaderSize (view_bytes bytes)))) of
             Inl error \<Rightarrow> Inl error
           | Inr message \<Rightarrow> Inr \<lparr>packet_protocolVersion = protocolVersion, packet_message = message\<rparr>)"

declare EncodePayload.simps [simp del] DecodePayload.simps [simp del]

section \<open>The wire format, as one description\<close>

definition runtime_bytes :: "RuntimeVersion \<Rightarrow> bytes" where
  "runtime_bytes v = u16_bytes (major v) @ u16_bytes (minor v) @ u16_bytes (patch v)"

definition asset_bytes :: "AssetDescription \<Rightarrow> bytes" where
  "asset_bytes a = u32_bytes (assetId a) @ u16_bytes (AssetType_value (asset_type a)) @
     string_bytes (logicalName a) @ string_bytes (downloadUrl a) @ u64_bytes (fileSize a) @
     digest_bytes (sha256 a)"

primrec payload_bytes :: "Message \<Rightarrow> bytes" where
  "payload_bytes (HelloMsg v) = runtime_bytes (hello_runtimeVersion v) @ u16_bytes (hello_protocolVersion v) @
     u16_bytes (ucast (SampVersion_value (hello_sampVersion v))) @ u32_bytes (hello_capabilities v)"
| "payload_bytes (WelcomeMsg v) = u16_bytes (welcome_acceptedProtocolVersion v) @
     runtime_bytes (welcome_serverRuntimeVersion v) @ u16_bytes (welcome_serverProtocolVersion v) @
     u32_bytes (welcome_negotiatedCapabilities v)"
| "payload_bytes (RejectMsg v) = u16_bytes (RejectReason_value (reject_reason v))"
| "payload_bytes (PingMsg v) = u64_bytes (ping_nonce v)"
| "payload_bytes (PongMsg v) = u64_bytes (pong_nonce v)"
| "payload_bytes (ManifestBeginMsg v) = u64_bytes (begin_manifestRevision v) @
     u32_bytes (begin_assetCount v) @ u64_bytes (begin_totalDownloadSize v)"
| "payload_bytes (ManifestAssetMsg v) = u64_bytes (item_manifestRevision v) @
     u32_bytes (item_assetIndex v) @ asset_bytes (item_asset v)"
| "payload_bytes (ManifestEndMsg v) = u64_bytes (end_manifestRevision v) @
     u32_bytes (end_assetCount v) @ u64_bytes (end_totalDownloadSize v)"
| "payload_bytes (AssetReadyMsg v) = u64_bytes (ready_manifestRevision v) @ u32_bytes (ready_assetId v)"
| "payload_bytes (AssetErrorMsg v) = u64_bytes (error_manifestRevision v) @ u32_bytes (error_assetId v) @
     u16_bytes (AssetErrorReason_value (error_reason v))"

primrec message_valid :: "Message \<Rightarrow> bool" where
  "message_valid (HelloMsg v) \<longleftrightarrow> SampVersion_value (hello_sampVersion v) \<le> 7 \<and>
     AreCapabilitiesValid (hello_capabilities v)"
| "message_valid (WelcomeMsg v) \<longleftrightarrow> AreCapabilitiesValid (welcome_negotiatedCapabilities v)"
| "message_valid (RejectMsg v) \<longleftrightarrow> IsRejectReasonValid (RejectReason_value (reject_reason v))"
| "message_valid (PingMsg v) \<longleftrightarrow> True"
| "message_valid (PongMsg v) \<longleftrightarrow> True"
| "message_valid (ManifestBeginMsg v) \<longleftrightarrow>
     IsManifestBoundaryValid (begin_manifestRevision v) (begin_assetCount v) (begin_totalDownloadSize v)"
| "message_valid (ManifestAssetMsg v) \<longleftrightarrow> item_manifestRevision v \<noteq> 0 \<and>
     unat (item_assetIndex v) < kMaximumAssetsPerManifest \<and> IsAssetDescriptionValid (item_asset v)"
| "message_valid (ManifestEndMsg v) \<longleftrightarrow>
     IsManifestBoundaryValid (end_manifestRevision v) (end_assetCount v) (end_totalDownloadSize v)"
| "message_valid (AssetReadyMsg v) \<longleftrightarrow> ready_manifestRevision v \<noteq> 0 \<and> ready_assetId v \<noteq> 0"
| "message_valid (AssetErrorMsg v) \<longleftrightarrow> error_manifestRevision v \<noteq> 0 \<and> error_assetId v \<noteq> 0 \<and>
     IsAssetErrorReasonValid (AssetErrorReason_value (error_reason v))"

definition packet_bytes :: "Message \<Rightarrow> bytes" where
  "packet_bytes m = u32_bytes kMagic @ u16_bytes kProtocolVersion @
     u16_bytes (MessageType_value (TypeOf m)) @ u32_bytes (of_nat (length (payload_bytes m))) @ payload_bytes m"

section \<open>Fields made of fields\<close>

lemmas append_simps = byte.append_write byte.append_write_bind u16.append_write u16.append_write_bind
  u32.append_write u32.append_write_bind u64.append_write u64.append_write_bind
  raw.append_write raw.append_write_bind

interpretation runtime: field_codec WriteRuntimeVersion ReadRuntimeVersion runtime_bytes "\<lambda>_. True"
proof
  fix w v
  show "writer_ok w \<Longrightarrow> WriteRuntimeVersion w v = append_bytes w (runtime_bytes v)"
    by (simp add: WriteRuntimeVersion_def runtime_bytes_def field_writes append_simps)
next
  fix pre suf v r
  show "ReadRuntimeVersion (reader_at pre suf) = Some (v, r) \<longleftrightarrow>
      True \<and> (\<exists>suf'. suf = runtime_bytes v @ suf' \<and> r = reader_at (pre @ runtime_bytes v) suf')"
    by (cases v) (auto simp: ReadRuntimeVersion_def runtime_bytes_def bind_pair_Some_iff field_reads)
qed

interpretation name_field: field_codec WriteString "ReadString kMaximumLogicalNameLength" string_bytes
    "\<lambda>s. length s \<le> kMaximumLogicalNameLength"
  by unfold_locales (simp_all add: WriteString_append ReadString_iff asset_limits)

interpretation url_field: field_codec WriteString "ReadString kMaximumUrlLength" string_bytes
    "\<lambda>s. length s \<le> kMaximumUrlLength"
  by unfold_locales (simp_all add: WriteString_append ReadString_iff asset_limits)

lemmas struct_writes = runtime.write_iff runtime.append_write runtime.append_write_bind
  url_field.append_write url_field.append_write_bind

lemma WriteAssetDescription_bytes:
  assumes "writer_ok w" "IsAssetDescriptionValid a"
  shows "WriteAssetDescription w a = append_bytes w (asset_bytes a)"
    and "(do { w \<leftarrow> append_bytes w bs; WriteAssetDescription w a }) = append_bytes w (bs @ asset_bytes a)"
  using assms IsAssetDescriptionValid_bounds [OF assms(2)]
  by (simp_all add: WriteAssetDescription_def asset_bytes_def u32.write_iff append_simps
      url_field.append_write_bind raw.append_write [where n = 32] asset_limits)


lemma ReadAssetDescription_enc:
  assumes "IsAssetDescriptionValid a"
  shows "ReadAssetDescription (reader_at pre (asset_bytes a @ suf)) = Inr (a, reader_at (pre @ asset_bytes a) suf)"
  using assms IsAssetDescriptionValid_bounds [OF assms]
  by (cases a) (simp add: ReadAssetDescription_def asset_bytes_def field_read_encs name_field.read_enc [unfolded asset_limits]
      url_field.read_enc [unfolded asset_limits] asset_limits)

lemma ReadAssetDescription_dest:
  assumes "ReadAssetDescription (reader_at pre suf) = Inr (a, r)"
  shows "IsAssetDescriptionValid a \<and>
    (\<exists>suf'. suf = asset_bytes a @ suf' \<and> r = reader_at (pre @ asset_bytes a) suf')"
  using assms unfolding ReadAssetDescription_def
  by (auto simp: field_read_binds name_field.read_bind_iff url_field.read_bind_iff
      asset_bytes_def kSha256Size_def split: option.splits if_splits)

lemma ReadAssetDescription_iff:
  "ReadAssetDescription (reader_at pre suf) = Inr (a, r) \<longleftrightarrow>
     IsAssetDescriptionValid a \<and>
     (\<exists>suf'. suf = asset_bytes a @ suf' \<and> r = reader_at (pre @ asset_bytes a) suf')"
  using ReadAssetDescription_dest ReadAssetDescription_enc by blast

section \<open>The encoder produces the wire format\<close>

lemma IsSampVersionValueValid_iff: "IsSampVersionValueValid v \<longleftrightarrow> v \<le> 7"
  by (simp add: IsSampVersionValueValid_def)

lemma samp_u8_u16: "(ucast (v :: u8) :: u16) \<le> 7 \<longleftrightarrow> v \<le> 7"
proof -
  have "unat v < 256"
    using unsigned_less [of v] by simp
  then show ?thesis
    by (simp add: word_le_nat_alt unsigned_ucast_eq unsigned_take_bit_eq take_bit_nat_eq_self)
qed

lemma samp_u16_u8:
  assumes "(v :: u16) \<le> 7"
  shows "ucast (ucast v :: u8) = v" "(ucast v :: u8) \<le> 7"
proof -
  have "unat (ucast v :: u8) = unat v"
    using assms by (simp add: word_le_nat_alt unsigned_ucast_eq unsigned_take_bit_eq take_bit_nat_eq_self)
  with assms show "(ucast v :: u8) \<le> 7"
    by (simp add: word_le_nat_alt)
  show "ucast (ucast v :: u8) = v"
    using assms by (intro word_unat_eq_iff [THEN iffD2])
      (simp add: word_le_nat_alt unsigned_ucast_eq unsigned_take_bit_eq take_bit_nat_eq_self)
qed

lemma samp_cast: "SampVersion (ucast (ucast (SampVersion_value s) :: u16)) = s"
proof -
  have "ucast (ucast (SampVersion_value s) :: u16) = SampVersion_value s"
    by (rule bit_word_eqI) (auto simp: bit_simps dest: bit_imp_le_length)
  then show ?thesis by simp
qed

lemma payload_length:
  assumes "message_valid m"
  shows "length (payload_bytes m) \<le> 2218"
  using assms
proof (cases m)
  case (ManifestAssetMsg v)
  then show ?thesis
    using assms IsAssetDescriptionValid_bounds [of "item_asset v"]
    by (simp add: asset_bytes_def)
qed (simp_all add: runtime_bytes_def)

lemma EncodePayload_bytes:
  "writer_ok w \<Longrightarrow> EncodePayload w m =
     (if message_valid m then written (append_bytes w (payload_bytes m)) else Inl EncodeInvalidField)"
  by (cases m) (auto simp: EncodePayload.simps Let_def struct_writes field_writes append_simps
      WriteAssetDescription_bytes IsSampVersionValueValid_iff samp_u8_u16)

lemma WriteU8_each_append: "writer_ok w \<Longrightarrow> WriteU8_each w bs = append_bytes w bs"
proof (induction bs arbitrary: w)
  case (Cons b bs)
  have "WriteU8_each w (b # bs) = (do { w \<leftarrow> append_bytes w [b]; WriteU8_each w bs })"
    using Cons.prems by (simp add: WriteU8_def byte.write_iff)
  also have "\<dots> = append_bytes w (b # bs)"
    using Cons.IH by (auto simp: append_bytes_def writer_ok_def)
  finally show ?case .
qed (simp add: append_bytes_Nil)

lemma empty_writer_append:
  "length bs \<le> kMaximumPacketSize \<Longrightarrow> append_bytes empty_writer bs = Some \<lparr>writer_bytes = bs\<rparr>"
  by (simp add: append_bytes_def empty_writer_def)

lemma EncodePacket_bytes:
  "EncodePacket m version =
    (if version = kProtocolVersion \<and> message_valid m then Inr (packet_bytes m) else Inl EncodeInvalidField)"
proof (cases "message_valid m")
  case True
  let ?p = "payload_bytes m"
  have len: "length ?p \<le> 2218"
    using True by (rule payload_length)
  have ok: "writer_ok empty_writer"
    by (simp add: writer_ok_def empty_writer_def)
  have each: "(do { w \<leftarrow> append_bytes empty_writer bs; WriteU8_each w ?p }) = append_bytes empty_writer (bs @ ?p)" for bs
    using WriteU8_each_append [of _ ?p] by (auto simp: append_bytes_def writer_ok_def empty_writer_def)
  have payload: "EncodePayload empty_writer m = Inr \<lparr>writer_bytes = ?p\<rparr>"
    using len True by (simp add: EncodePayload_bytes ok empty_writer_append written_def packet_limits)
  have packet: "(do {
        w \<leftarrow> WriteU32 empty_writer kMagic;
        w \<leftarrow> WriteU16 w kProtocolVersion;
        w \<leftarrow> WriteU16 w (MessageType_value (TypeOf m));
        w \<leftarrow> WriteU32 w (of_nat (length ?p));
        WriteU8_each w ?p }) = append_bytes empty_writer (packet_bytes m)"
    by (simp add: u32.write_iff ok append_simps each packet_bytes_def)
  show ?thesis
    using len True packet
    by (simp add: EncodePacket_def payload Let_def empty_writer_append packet_bytes_def
        kMaximumPacketSize_def kMaximumPayloadSize_def kHeaderSize_def)
next
  case False
  then show ?thesis
    by (simp add: EncodePacket_def EncodePayload_bytes writer_ok_def empty_writer_def)
qed

lemma packet_length: "message_valid m \<Longrightarrow> 12 \<le> length (packet_bytes m) \<and> length (packet_bytes m) \<le> 2230"
  using payload_length [of m] by (simp add: packet_bytes_def)

section \<open>The decoder accepts exactly the wire format\<close>

lemma case_Inl_option_Inr_iff:
  "(case x of None \<Rightarrow> Inl e | Some y \<Rightarrow> f y) = Inr m \<longleftrightarrow> (\<exists>y. x = Some y \<and> f y = Inr m)"
  by (cases x) auto

lemma case_sum_Inr_iff:
  "(case x of Inl e \<Rightarrow> Inl e | Inr y \<Rightarrow> f y) = Inr m \<longleftrightarrow> (\<exists>y. x = Inr y \<and> f y = Inr m)"
  by (cases x) auto

lemma if_Inl_Inr_iff: "(if b then Inl e else x) = Inr m \<longleftrightarrow> \<not> b \<and> x = Inr m"
  by simp

lemma decoded_iff: "decoded (reader_at pre suf) m = Inr m' \<longleftrightarrow> suf = [] \<and> m = m'"
  by (simp add: decoded_def)

lemma reader_on_View: "reader_on (View bs) = reader_at [] bs"
  by (simp add: reader_on_def reader_at_def)

lemmas decode_dests = case_Inl_option_Inr_iff case_sum_Inr_iff if_Inl_Inr_iff field_read_binds
  runtime.read_bind_iff field_reads ReadAssetDescription_iff decoded_iff reader_on_View

lemmas decode_encs = field_read_encs runtime.read_enc ReadAssetDescription_enc
  ReadAssetDescription_enc [where suf = "[]", simplified] decoded_iff reader_on_View

lemma decode_boundary_dest:
  "decode_boundary (reader_at [] bs) f = Inr m \<Longrightarrow>
    \<exists>rv c t. IsManifestBoundaryValid rv c t \<and> bs = u64_bytes rv @ u32_bytes c @ u64_bytes t \<and> f rv c t = m"
  by (auto simp: decode_boundary_def decode_dests) blast

lemma DecodePayload_dest:
  assumes "DecodePayload t (View bs) = Inr m"
  shows "TypeOf m = t \<and> message_valid m \<and> bs = payload_bytes m"
  using assms
  by (cases t) (auto simp: DecodePayload.simps decode_dests IsSampVersionValueValid_iff samp_u8_u16 samp_u16_u8
      dest!: decode_boundary_dest)

lemma DecodePayload_enc:
  assumes "message_valid m"
  shows "DecodePayload (TypeOf m) (View (payload_bytes m)) = Inr m"
  using assms
  by (cases m) (simp_all add: DecodePayload.simps decode_boundary_def decode_encs
      IsSampVersionValueValid_iff samp_u8_u16 samp_cast)

section \<open>Packets\<close>

lemma MessageType_cast [simp]: "MessageType_of (MessageType_value t) = t"
  by (cases t) (simp_all add: MessageType_of_def)

lemma known_MessageType [simp]: "IsKnownMessageType (MessageType_value t)"
  by (cases t) (simp_all add: IsKnownMessageType_def)

lemma MessageType_value_of: "IsKnownMessageType v \<Longrightarrow> MessageType_value (MessageType_of v) = v"
proof -
  assume "IsKnownMessageType v"
  then have "unat v \<in> {1..10}"
    by (simp add: IsKnownMessageType_def word_le_nat_alt)
  then have "unat v = 1 \<or> unat v = 2 \<or> unat v = 3 \<or> unat v = 4 \<or> unat v = 5 \<or>
      unat v = 6 \<or> unat v = 7 \<or> unat v = 8 \<or> unat v = 9 \<or> unat v = 10"
    unfolding atLeastAtMost_iff by presburger
  then have "v = 1 \<or> v = 2 \<or> v = 3 \<or> v = 4 \<or> v = 5 \<or> v = 6 \<or> v = 7 \<or> v = 8 \<or> v = 9 \<or> v = 10"
    by (simp add: word_unat_eq_iff)
  then show ?thesis
    by (elim disjE) (simp_all add: MessageType_of_def)
qed

text \<open>What the decoder does with a header and the bytes behind it.\<close>

definition decode_body :: "u32 \<Rightarrow> u16 \<Rightarrow> u16 \<Rightarrow> u32 \<Rightarrow> bytes \<Rightarrow> DecodeError + Packet" where
  "decode_body magic protocolVersion messageType payloadSize rest =
    (if magic \<noteq> kMagic then Inl InvalidMagic
     else if protocolVersion \<noteq> kProtocolVersion then Inl UnsupportedProtocolVersion
     else if unat payloadSize > kMaximumPayloadSize then Inl OversizedPayload
     else if unat payloadSize > length rest then Inl TruncatedPayload
     else if unat payloadSize \<noteq> length rest then Inl PayloadLengthMismatch
     else if \<not> IsKnownMessageType messageType then Inl UnknownMessageType
     else case DecodePayload (MessageType_of messageType) (View rest) of
         Inl error \<Rightarrow> Inl error
       | Inr message \<Rightarrow> Inr \<lparr>packet_protocolVersion = protocolVersion, packet_message = message\<rparr>)"

lemma DecodePacket_header:
  "DecodePacket (View (u32_bytes magic @ u16_bytes protocolVersion @ u16_bytes messageType @
     u32_bytes payloadSize @ rest)) = decode_body magic protocolVersion messageType payloadSize rest"
  by (simp add: DecodePacket_def decode_body_def reader_on_View field_read_encs kHeaderSize_def Let_def)

lemma header_split:
  assumes "12 \<le> length bs"
  obtains magic protocolVersion messageType payloadSize rest where
    "bs = u32_bytes magic @ u16_bytes protocolVersion @ u16_bytes messageType @ u32_bytes payloadSize @ rest"
proof -
  have u16_all: "\<exists>v. u16_bytes v = [a, b]" for a b
    by (rule exI [of _ "push_bit 8 (ucast a) OR ucast b"]) (simp only: u16_bytes_def u16_split_join)
  have u32_all: "\<exists>v. u32_bytes v = [a, b, c, d]" for a b c d
    by (rule exI [of _ "push_bit 24 (ucast a) OR push_bit 16 (ucast b) OR push_bit 8 (ucast c) OR ucast d"])
      (simp only: u32_bytes_def u32_split_join)
  obtain b0 b1 b2 b3 b4 b5 b6 b7 b8 b9 b10 b11 rest
    where "bs = [b0, b1, b2, b3] @ [b4, b5] @ [b6, b7] @ [b8, b9, b10, b11] @ rest"
    using assms by (auto simp: eval_nat_numeral Suc_le_length_iff)
  then show ?thesis
    using that u16_all u32_all by metis
qed

lemma DecodePacket_short: "length bs < 12 \<Longrightarrow> DecodePacket (View bs) = Inl TruncatedHeader"
  by (simp add: DecodePacket_def kHeaderSize_def)

lemma DecodePacket_dest:
  assumes "DecodePacket (View bs) = Inr p"
  shows "packet_protocolVersion p = kProtocolVersion \<and> message_valid (packet_message p) \<and>
    bs = packet_bytes (packet_message p)"
proof -
  have "12 \<le> length bs"
    using assms DecodePacket_short [of bs] by (cases "length bs < 12") auto
  then obtain mg pv ty ps rest
    where bs: "bs = u32_bytes mg @ u16_bytes pv @ u16_bytes ty @ u32_bytes ps @ rest"
    by (rule header_split)
  from assms have body: "decode_body mg pv ty ps rest = Inr p"
    unfolding bs DecodePacket_header .
  then obtain m where "mg = kMagic" "pv = kProtocolVersion" "unat ps = length rest"
      "IsKnownMessageType ty" "DecodePayload (MessageType_of ty) (View rest) = Inr m"
      "p = \<lparr>packet_protocolVersion = pv, packet_message = m\<rparr>"
    by (auto simp: decode_body_def case_sum_Inr_iff split: if_splits)
  moreover from this have "TypeOf m = MessageType_of ty" "message_valid m" "rest = payload_bytes m"
    using DecodePayload_dest by blast+
  moreover from calculation have "MessageType_value (TypeOf m) = ty"
    by (simp add: MessageType_value_of)
  moreover have "of_nat (length rest) = ps"
    using \<open>unat ps = length rest\<close> by (simp flip: \<open>unat ps = length rest\<close>)
  ultimately show ?thesis
    by (simp add: bs packet_bytes_def)
qed

lemma decode_body_payload:
  assumes "message_valid m"
  shows "decode_body kMagic kProtocolVersion (MessageType_value (TypeOf m))
     (of_nat (length (payload_bytes m))) rest =
    (if length rest < length (payload_bytes m) then Inl TruncatedPayload
     else if length rest > length (payload_bytes m) then Inl PayloadLengthMismatch
     else case DecodePayload (TypeOf m) (View rest) of
         Inl error \<Rightarrow> Inl error
       | Inr message \<Rightarrow> Inr \<lparr>packet_protocolVersion = kProtocolVersion, packet_message = message\<rparr>)"
proof -
  have "length (payload_bytes m) \<le> 2218"
    using assms by (rule payload_length)
  then show ?thesis
    by (auto simp: decode_body_def unat_of_nat_u32 kMaximumPayloadSize_def kMaximumPacketSize_def kHeaderSize_def)
qed

lemma DecodePacket_packet_bytes:
  assumes "message_valid m"
  shows "DecodePacket (View (packet_bytes m)) = Inr \<lparr>packet_protocolVersion = kProtocolVersion, packet_message = m\<rparr>"
  by (simp add: packet_bytes_def DecodePacket_header decode_body_payload [OF assms] DecodePayload_enc [OF assms])

lemma EncodePacket_Inr_iff:
  "EncodePacket m v = Inr bs \<longleftrightarrow> v = kProtocolVersion \<and> message_valid m \<and> bs = packet_bytes m"
  by (auto simp: EncodePacket_bytes)

section \<open>Properties of the codec\<close>

text \<open>
  Claim C28. Encoding and decoding are inverse to each other in both directions: a byte
  sequence decodes to a packet exactly when it is what the encoder produces for that
  packet's message and version. So every encodable message survives the round trip, the
  wire form of a message is unique, and the decoder accepts nothing the encoder cannot emit.
\<close>

theorem packet_codec_inverse:
  "DecodePacket (View bs) = Inr p \<longleftrightarrow>
     EncodePacket (packet_message p) (packet_protocolVersion p) = Inr bs"
proof
  assume "DecodePacket (View bs) = Inr p"
  then show "EncodePacket (packet_message p) (packet_protocolVersion p) = Inr bs"
    using DecodePacket_dest by (simp add: EncodePacket_Inr_iff)
next
  assume "EncodePacket (packet_message p) (packet_protocolVersion p) = Inr bs"
  then show "DecodePacket (View bs) = Inr p"
    by (auto simp: EncodePacket_Inr_iff DecodePacket_packet_bytes)
qed

text \<open>
  Every proper prefix of an encoded packet is rejected as truncated: with the
  header error below twelve bytes, with the payload error from there on.
\<close>

theorem truncated_packet_rejected:
  assumes "EncodePacket m version = Inr bs" and "n < length bs"
  shows "DecodePacket (View (take n bs)) = Inl (if n < 12 then TruncatedHeader else TruncatedPayload)"
proof (cases "n < 12")
  case True
  then show ?thesis
    by (simp add: DecodePacket_short)
next
  case False
  let ?rest = "take (n - 12) (payload_bytes m)"
  have valid: "message_valid m" and bs: "bs = packet_bytes m"
    using assms(1) by (auto simp: EncodePacket_Inr_iff)
  have "take n bs = u32_bytes kMagic @ u16_bytes kProtocolVersion @ u16_bytes (MessageType_value (TypeOf m)) @
      u32_bytes (of_nat (length (payload_bytes m))) @ ?rest"
    using False by (simp add: bs packet_bytes_def)
  moreover have "length ?rest < length (payload_bytes m)"
    using False assms(2) by (simp add: bs packet_bytes_def)
  ultimately show ?thesis
    using False by (simp only: DecodePacket_header decode_body_payload [OF valid]) simp
qed

theorem truncated_packet_rejected_witness:
  "DecodePacket (View (take 15 (packet_bytes (PingMsg \<lparr>ping_nonce = 7\<rparr>)))) = Inl TruncatedPayload"
  using truncated_packet_rejected [of "PingMsg \<lparr>ping_nonce = 7\<rparr>" kProtocolVersion
      "packet_bytes (PingMsg \<lparr>ping_nonce = 7\<rparr>)" 15]
  by (simp add: EncodePacket_Inr_iff packet_bytes_def)

text \<open>A packet with bytes behind its payload is rejected as a length mismatch.\<close>

theorem trailing_bytes_rejected:
  assumes "EncodePacket m version = Inr bs" and "extra \<noteq> []"
  shows "DecodePacket (View (bs @ extra)) = Inl PayloadLengthMismatch"
proof -
  have "message_valid m" and "bs = packet_bytes m"
    using assms(1) by (auto simp: EncodePacket_Inr_iff)
  then show ?thesis
    using assms(2) by (simp add: packet_bytes_def DecodePacket_header decode_body_payload)
qed

theorem trailing_bytes_rejected_witness:
  "DecodePacket (View (packet_bytes (PingMsg \<lparr>ping_nonce = 7\<rparr>) @ [0])) = Inl PayloadLengthMismatch"
  using trailing_bytes_rejected [of "PingMsg \<lparr>ping_nonce = 7\<rparr>" kProtocolVersion
      "packet_bytes (PingMsg \<lparr>ping_nonce = 7\<rparr>)" "[0]"]
  by (simp add: EncodePacket_Inr_iff)

text \<open>
  The payload sizes of the protocol's message table.
\<close>

primrec payload_size :: "Message \<Rightarrow> nat" where
  "payload_size (HelloMsg _) = 14"
| "payload_size (WelcomeMsg _) = 14"
| "payload_size (RejectMsg _) = 2"
| "payload_size (PingMsg _) = 8"
| "payload_size (PongMsg _) = 8"
| "payload_size (ManifestBeginMsg _) = 20"
| "payload_size (ManifestAssetMsg v) = SerializedAssetBytes (item_asset v)"
| "payload_size (ManifestEndMsg _) = 20"
| "payload_size (AssetReadyMsg _) = 12"
| "payload_size (AssetErrorMsg _) = 14"

lemma length_payload_bytes: "message_valid m \<Longrightarrow> length (payload_bytes m) = payload_size m"
  by (cases m) (simp_all add: runtime_bytes_def asset_bytes_def SerializedAssetBytes_valid)

text \<open>
  The encoder never runs out of room: it fails only on an invalid field or
  version, an encoded packet has the twelve header bytes and the payload size of the
  documented table, and it stays below 2231 of the 4096 bytes a packet may have.
\<close>

theorem encoded_size:
  "EncodePacket m version = Inl EncodeInvalidField \<or>
   (\<exists>bs. EncodePacket m version = Inr bs \<and> length bs = kHeaderSize + payload_size m \<and>
      length bs \<le> 2230 \<and> length bs \<le> kMaximumPacketSize)"
proof (cases "EncodePacket m version")
  case (Inl e)
  then show ?thesis
    by (auto simp: EncodePacket_bytes split: if_splits)
next
  case (Inr bs)
  then have "message_valid m" "bs = packet_bytes m"
    by (auto simp: EncodePacket_Inr_iff)
  then show ?thesis
    using packet_length [of m] length_payload_bytes [of m] Inr
    by (simp add: packet_bytes_def packet_limits)
qed

section \<open>Names for the log\<close>

fun ToString_DecodeError :: "DecodeError \<Rightarrow> string" where
  "ToString_DecodeError TruncatedHeader = ''truncated header''"
| "ToString_DecodeError InvalidMagic = ''invalid magic''"
| "ToString_DecodeError UnsupportedProtocolVersion = ''unsupported protocol version''"
| "ToString_DecodeError OversizedPayload = ''oversized payload''"
| "ToString_DecodeError TruncatedPayload = ''truncated payload''"
| "ToString_DecodeError PayloadLengthMismatch = ''payload length mismatch''"
| "ToString_DecodeError UnknownMessageType = ''unknown message type''"
| "ToString_DecodeError InvalidField = ''invalid field''"

definition ToString_RejectReason :: "RejectReason \<Rightarrow> string" where
  "ToString_RejectReason reason =
    (if reason = UnsupportedProtocol then ''unsupported protocol''
     else if reason = UnsupportedClientRuntime then ''unsupported client runtime''
     else if reason = UnsupportedSampBuild then ''unsupported SA-MP build''
     else if reason = MalformedHandshake then ''malformed handshake''
     else if reason = UnsupportedCapabilities then ''unsupported capabilities''
     else ''unknown rejection reason'')"

definition ToString_AssetErrorReason :: "AssetErrorReason \<Rightarrow> string" where
  "ToString_AssetErrorReason reason =
    (if reason = AssetErrorReason_InvalidManifest then ''invalid manifest''
     else if reason = AssetErrorReason_UnsupportedScheme then ''unsupported scheme''
     else if reason = AssetErrorReason_NetworkFailure then ''network failure''
     else if reason = AssetErrorReason_Timeout then ''timeout''
     else if reason = AssetErrorReason_SizeMismatch then ''size mismatch''
     else if reason = AssetErrorReason_HashMismatch then ''hash mismatch''
     else if reason = AssetErrorReason_DiskFailure then ''disk failure''
     else if reason = AssetErrorReason_InternalError then ''internal error''
     else ''unknown asset error'')"

text \<open>Every reason that can arrive in a packet has a text of its own.\<close>

lemma known_reason_names:
  "IsRejectReasonValid (RejectReason_value r) \<Longrightarrow> ToString_RejectReason r \<noteq> ''unknown rejection reason''"
  "IsAssetErrorReasonValid (AssetErrorReason_value e) \<Longrightarrow> ToString_AssetErrorReason e \<noteq> ''unknown asset error''"
proof -
  have "RejectReason_value r \<in> {1, 2, 3, 4, 5}" if "IsRejectReasonValid (RejectReason_value r)"
  proof -
    have "unat (RejectReason_value r) \<in> {1, 2, 3, 4, 5}"
      using that by (auto simp: IsRejectReasonValid_def word_le_nat_alt)
    then show ?thesis
      by (auto simp: word_unat_eq_iff)
  qed
  then show "IsRejectReasonValid (RejectReason_value r) \<Longrightarrow> ToString_RejectReason r \<noteq> ''unknown rejection reason''"
    by (cases r) (auto simp: ToString_RejectReason_def)
  have "AssetErrorReason_value e \<in> {1, 2, 3, 4, 5, 6, 7, 8}" if "IsAssetErrorReasonValid (AssetErrorReason_value e)"
  proof -
    have "unat (AssetErrorReason_value e) \<in> {1, 2, 3, 4, 5, 6, 7, 8}"
      using that by (auto simp: IsAssetErrorReasonValid_def word_le_nat_alt)
    then show ?thesis
      by (auto simp: word_unat_eq_iff)
  qed
  then show "IsAssetErrorReasonValid (AssetErrorReason_value e) \<Longrightarrow>
      ToString_AssetErrorReason e \<noteq> ''unknown asset error''"
    by (cases e) (auto simp: ToString_AssetErrorReason_def)
qed

end
