(* ===== verification/AssetWorker.thy ===== *)
theory AssetWorker
  imports AssetCache Fetch Protocol
begin

text \<open>
  What the worker thread of \<^verbatim>\<open>client/src/assets/manager.cpp\<close> does with one work item: look
  the asset up in the cache, download it to a temporary file, verify size and digest, and
  commit it. The thread reports its progress by calls of \<^verbatim>\<open>SetState\<close>; the model of
  \<^verbatim>\<open>Process\<close> returns these calls in order, together with the disk it leaves, and
  \<open>ClientAssetManager\<close> interleaves them with the client's thread.
\<close>

section \<open>Definitions\<close>

datatype AssetState = StateUnknown | StateQueued | StateDownloading | StateVerifying | StateReady | StateFailed

datatype ClientAssetEventKind = EvManifestBegin | EvManifestComplete | EvCacheHit | EvQueued
  | EvDownloading | EvVerifying | EvVerified | EvReady | EvFailed

record WorkItem =
  work_generation :: u64
  work_revision :: u64
  work_asset :: AssetDescription

text \<open>The arguments of a call of \<^verbatim>\<open>SetState\<close> after the work item.\<close>

type_synonym Update = "AssetState \<times> ClientAssetEventKind \<times> AssetErrorReason"

definition update_to :: "AssetState \<Rightarrow> ClientAssetEventKind \<Rightarrow> Update" where
  "update_to s k = (s, k, AssetErrorReason_InternalError)"

definition Fail :: "AssetErrorReason \<Rightarrow> Update" where
  "Fail reason = (StateFailed, EvFailed, reason)"

fun MapFetchError :: "FetchError \<Rightarrow> AssetErrorReason" where
  "MapFetchError FetchUnsupportedScheme = AssetErrorReason_UnsupportedScheme"
| "MapFetchError FetchNetworkFailure = AssetErrorReason_NetworkFailure"
| "MapFetchError FetchTimeout = AssetErrorReason_Timeout"
| "MapFetchError FetchSizeMismatch = AssetErrorReason_SizeMismatch"
| "MapFetchError FetchDiskFailure = AssetErrorReason_DiskFailure"
| "MapFetchError FetchInternalError = AssetErrorReason_InternalError"
| "MapFetchError FetchNone = AssetErrorReason_InternalError"

text \<open>Every failing branch after the download removes the temporary file and reports.\<close>

definition give_up :: "path \<Rightarrow> AssetErrorReason \<Rightarrow> Disk \<Rightarrow> Update list \<times> Disk" where
  "give_up temporaryPath reason d = ([Fail reason], RemoveTemporary temporaryPath d)"

text \<open>From \<^verbatim>\<open>Verified\<close> on: the commit.\<close>

definition process_commit :: "AssetCache \<Rightarrow> AssetDescription \<Rightarrow> path \<Rightarrow> Disk \<Rightarrow> Update list \<times> Disk" where
  "process_commit cache asset temporaryPath d =
    (case CommitVerified cache asset temporaryPath d of
       (False, d) \<Rightarrow> give_up temporaryPath AssetErrorReason_DiskFailure d
     | (True, d) \<Rightarrow> ([update_to StateReady EvReady], d))"

text \<open>From \<^verbatim>\<open>Verifying\<close> on: the size on disk, then the digest.\<close>

definition process_verify :: "AssetCache \<Rightarrow> AssetDescription \<Rightarrow> path \<Rightarrow> Disk \<Rightarrow> Update list \<times> Disk" where
  "process_verify cache asset temporaryPath d =
    (case fs_file_size temporaryPath d of
       (None, d) \<Rightarrow> give_up temporaryPath AssetErrorReason_DiskFailure d
     | (Some n, d) \<Rightarrow>
         if n \<noteq> fileSize asset then give_up temporaryPath AssetErrorReason_SizeMismatch d
         else case Sha256File temporaryPath d of
           (None, d) \<Rightarrow> give_up temporaryPath AssetErrorReason_DiskFailure d
         | (Some digest, d) \<Rightarrow>
             if digest \<noteq> sha256 asset then give_up temporaryPath AssetErrorReason_HashMismatch d
             else case process_commit cache asset temporaryPath d of
               (us, d) \<Rightarrow> (update_to StateVerifying EvVerified # us, d))"

text \<open>From \<^verbatim>\<open>Downloading\<close> on: the download.\<close>

definition process_download ::
  "Fetch \<Rightarrow> AssetCache \<Rightarrow> FetchOptions \<Rightarrow> AssetDescription \<Rightarrow> Disk \<Rightarrow> Update list \<times> Disk" where
  "process_download fetch cache options asset d =
    (let temporaryPath = TemporaryPathFor cache asset;
         d = RemoveTemporary temporaryPath d
     in case fetch (downloadUrl asset) temporaryPath (fileSize asset) options d of
          (fetched, d) \<Rightarrow>
            if fetch_error fetched \<noteq> FetchNone then give_up temporaryPath (MapFetchError (fetch_error fetched)) d
            else if bytesReceived fetched \<noteq> fileSize asset then give_up temporaryPath AssetErrorReason_SizeMismatch d
            else case process_verify cache asset temporaryPath d of
              (us, d) \<Rightarrow> (update_to StateVerifying EvVerifying # us, d))"

text \<open>\<^verbatim>\<open>Process\<close> once the generation of the item has been found to be current.\<close>

definition Process ::
  "Fetch \<Rightarrow> AssetCache \<Rightarrow> FetchOptions \<Rightarrow> WorkItem \<Rightarrow> Disk \<Rightarrow> Update list \<times> Disk" where
  "Process fetch cache options work d =
    (case Lookup cache (work_asset work) d of
       (Hit, d) \<Rightarrow> ([update_to StateReady EvCacheHit, update_to StateReady EvReady], d)
     | (LookupDiskFailure, d) \<Rightarrow> ([Fail AssetErrorReason_DiskFailure], d)
     | (Miss, d) \<Rightarrow>
         (case process_download fetch cache options (work_asset work) d of
            (us, d) \<Rightarrow> (update_to StateDownloading EvDownloading # us, d)))"

section \<open>Lemmas\<close>

abbreviation kind_of :: "Update \<Rightarrow> ClientAssetEventKind" where
  "kind_of u \<equiv> fst (snd u)"

text \<open>The only sequences of events a work item produces.\<close>

definition legal_traces :: "ClientAssetEventKind list set" where
  "legal_traces = {[EvCacheHit, EvReady], [EvFailed], [EvDownloading, EvFailed], [EvDownloading, EvVerifying, EvFailed],
     [EvDownloading, EvVerifying, EvVerified, EvFailed], [EvDownloading, EvVerifying, EvVerified, EvReady]}"

text \<open>
  The effect of a work item on the disk: only its cache file and its temporary file are
  touched, the cache file is gone, unchanged or verified, and it is verified when the last
  update is \<^verbatim>\<open>Ready\<close>.
\<close>

definition cache_kept :: "AssetCache \<Rightarrow> AssetDescription \<Rightarrow> Disk \<Rightarrow> Disk \<Rightarrow> bool" where
  "cache_kept c a d d' \<longleftrightarrow> frame {PathFor c a, TemporaryPathFor c a} d d' \<and>
    (node_at (PathFor c a) d' = None \<or> node_at (PathFor c a) d' = node_at (PathFor c a) d \<or> holds (PathFor c a) a d')"

definition outcome :: "AssetCache \<Rightarrow> AssetDescription \<Rightarrow> Disk \<Rightarrow> Update list \<times> Disk \<Rightarrow> bool" where
  "outcome c a d res \<longleftrightarrow> cache_kept c a d (snd res) \<and>
    (kind_of (last (fst res)) = EvReady \<longrightarrow> holds (PathFor c a) a (snd res))"

lemma cache_kept_same: "(\<And>q. q \<noteq> TemporaryPathFor c a \<Longrightarrow> node_at q d' = node_at q d) \<Longrightarrow> cache_kept c a d d'"
proof -
  assume same: "\<And>q. q \<noteq> TemporaryPathFor c a \<Longrightarrow> node_at q d' = node_at q d"
  then have "node_at (PathFor c a) d' = node_at (PathFor c a) d"
    using path_components(3) [of c a a] by metis
  moreover have "frame {PathFor c a, TemporaryPathFor c a} d d'" using same by (simp add: frame_def)
  ultimately show ?thesis by (simp add: cache_kept_def)
qed

lemma cache_kept_trans: "cache_kept c a d d1 \<Longrightarrow> cache_kept c a d1 d2 \<Longrightarrow> cache_kept c a d d2"
  by (auto simp: cache_kept_def holds_def intro: frame_trans)

lemma cache_kept_RemoveTemporary: "cache_kept c a d (RemoveTemporary (TemporaryPathFor c a) d)"
  by (rule cache_kept_same) (simp add: RemoveTemporary_nodes)

lemma cache_kept_Lookup: "Lookup c a d = (r, d') \<Longrightarrow> cache_kept c a d d'"
  using Lookup_result [of c a d r d'] frame_mono [OF frame_Lookup] by (cases r) (auto simp: cache_kept_def)

lemma outcome_give_up: "cache_kept c a d d1 \<Longrightarrow> outcome c a d (give_up (TemporaryPathFor c a) reason d1)"
  using cache_kept_trans [OF _ cache_kept_RemoveTemporary] by (simp add: outcome_def give_up_def Fail_def)

lemma outcome_cons: "outcome c a d1 (us, d') \<Longrightarrow> us \<noteq> [] \<Longrightarrow> cache_kept c a d d1 \<Longrightarrow> outcome c a d (u # us, d')"
  by (auto simp: outcome_def intro: cache_kept_trans)

lemma process_commit_outcome:
  assumes "node_at (TemporaryPathFor c a) d = Some (RegularFile bs)" and "content_ok a bs"
  shows "outcome c a d (process_commit c a (TemporaryPathFor c a) d) \<and>
    map kind_of (fst (process_commit c a (TemporaryPathFor c a) d)) \<in> {[EvReady], [EvFailed]}"
proof -
  obtain ok d' where r: "CommitVerified c a (TemporaryPathFor c a) d = (ok, d')" by (metis prod.exhaust)
  note result = CommitVerified_result [OF r refl assms]
  then have "cache_kept c a d d'" by (auto simp: committed_def cache_kept_def)
  then show ?thesis using result outcome_give_up [of c a d d']
    by (cases ok) (auto simp: process_commit_def r committed_def outcome_def update_to_def give_up_def Fail_def)
qed

lemma process_verify_outcome:
  "outcome c a d (process_verify c a (TemporaryPathFor c a) d) \<and>
    map kind_of (fst (process_verify c a (TemporaryPathFor c a) d)) \<in>
      {[EvFailed], [EvVerified, EvFailed], [EvVerified, EvReady]}"
proof -
  let ?t = "TemporaryPathFor c a"
  obtain n d1 where n: "fs_file_size ?t d = (n, d1)" by (metis prod.exhaust)
  obtain h d2 where h: "Sha256File ?t d1 = (h, d2)" by (metis prod.exhaust)
  have k1: "cache_kept c a d d1" by (rule cache_kept_same) (rule fs_query_nodes(3) [OF n])
  have k2: "cache_kept c a d d2"
    by (rule cache_kept_trans [OF k1 cache_kept_same]) (rule Sha256File_nodes [OF h])
  show ?thesis
  proof (cases "n = Some (fileSize a) \<and> h = Some (sha256 a)")
    case False
    then have "(\<exists>reason. process_verify c a ?t d = give_up ?t reason d1) \<or> (\<exists>reason. process_verify c a ?t d = give_up ?t reason d2)"
      using n h by (cases n; cases h; cases "n = Some (fileSize a)") (auto simp: process_verify_def)
    then obtain reason d' where d': "process_verify c a ?t d = give_up ?t reason d'" "d' = d1 \<or> d' = d2" by blast
    then have "outcome c a d (give_up ?t reason d')" using k1 k2 outcome_give_up by blast
    then show ?thesis using d'(1) by (simp add: give_up_def Fail_def)
  next
    case True
    obtain bs where bs: "node_at ?t d = Some (RegularFile bs)" "fileSize a = of_nat (length bs)"
      using fs_file_size_result n True by blast
    moreover have "sha256 a = digest_of bs"
      using Sha256File_result [of ?t d1] h True bs(1) fs_query_nodes(3) [OF n] by auto
    ultimately have c: "content_ok a bs" "node_at ?t d2 = Some (RegularFile bs)"
      using fs_query_nodes(3) [OF n] Sha256File_nodes [OF h] by (simp_all add: content_ok_def)
    obtain us d' where us: "process_commit c a ?t d2 = (us, d')" by (metis prod.exhaust)
    then have "process_verify c a ?t d = (update_to StateVerifying EvVerified # us, d')"
      using n h True by (simp add: process_verify_def)
    moreover have "outcome c a d (update_to StateVerifying EvVerified # us, d')"
      using process_commit_outcome [OF c(2,1)] us k2 by (auto intro: outcome_cons)
    ultimately show ?thesis using process_commit_outcome [OF c(2,1)] us by (auto simp: update_to_def)
  qed
qed

context fetch_backends begin

lemma process_download_outcome:
  assumes "fetch \<in> backends"
  shows "outcome c a d (process_download fetch c options a d) \<and>
    EvDownloading # map kind_of (fst (process_download fetch c options a d)) \<in> legal_traces"
proof -
  let ?t = "TemporaryPathFor c a"
  obtain r d1 where r: "fetch (downloadUrl a) ?t (fileSize a) options (RemoveTemporary ?t d) = (r, d1)"
    by (metis prod.exhaust)
  have k: "cache_kept c a d d1"
  proof (rule cache_kept_trans [OF cache_kept_RemoveTemporary cache_kept_same])
    show "node_at q d1 = node_at q (RemoveTemporary ?t d)" if "q \<noteq> ?t" for q
      using touches [OF assms _ r that] by simp
  qed
  show ?thesis
  proof (cases "fetch_error r \<noteq> FetchNone \<or> bytesReceived r \<noteq> fileSize a")
    case True
    then obtain reason where "process_download fetch c options a d = give_up ?t reason d1"
      using r by (cases "fetch_error r = FetchNone") (auto simp: process_download_def Let_def)
    then show ?thesis using outcome_give_up [OF k]
      by (simp add: give_up_def Fail_def legal_traces_def)
  next
    case False
    obtain us d' where us: "process_verify c a ?t d1 = (us, d')" by (metis prod.exhaust)
    then have "process_download fetch c options a d = (update_to StateVerifying EvVerifying # us, d')"
      using False r by (simp add: process_download_def)
    moreover have "outcome c a d (update_to StateVerifying EvVerifying # us, d')"
      using process_verify_outcome [of c a d1] us k by (auto intro: outcome_cons)
    ultimately show ?thesis using process_verify_outcome [of c a d1] us
      by (auto simp: update_to_def legal_traces_def)
  qed
qed

lemma Process_outcome:
  assumes "fetch \<in> backends"
  shows "outcome c (work_asset w) d (Process fetch c options w d) \<and>
    map kind_of (fst (Process fetch c options w d)) \<in> legal_traces"
proof -
  obtain l d1 where l: "Lookup c (work_asset w) d = (l, d1)" by (metis prod.exhaust)
  note k = cache_kept_Lookup [OF l]
  show ?thesis
  proof (cases l)
    case Hit
    then show ?thesis using k l Lookup_result(2,3) [OF l]
      by (auto simp: Process_def outcome_def update_to_def legal_traces_def holds_def)
  next
    case Miss
    obtain us d' where us: "process_download fetch c options (work_asset w) d1 = (us, d')" by (metis prod.exhaust)
    note down = process_download_outcome [OF assms, of c "work_asset w" d1 options, unfolded us]
    then have "us \<noteq> []" by (auto simp: legal_traces_def)
    then have "outcome c (work_asset w) d (update_to StateDownloading EvDownloading # us, d')"
      using outcome_cons [of c "work_asset w" d1 us d' d] down k by simp
    then show ?thesis using Miss l us down by (simp add: Process_def update_to_def)
  next
    case LookupDiskFailure
    then show ?thesis using k l by (simp add: Process_def outcome_def Fail_def legal_traces_def)
  qed
qed

end


section \<open>The cache as a whole\<close>

text \<open>
  A cache is sound when every file in it has the digest its name says; the client trusts
  a cache exactly as far as this goes.
\<close>

definition cache_sound :: "AssetCache \<Rightarrow> Disk \<Rightarrow> bool" where
  "cache_sound c d \<longleftrightarrow> (\<forall>a bs. node_at (PathFor c a) d = Some (RegularFile bs) \<longrightarrow> digest_of bs = sha256 a)"

lemma PathFor_digest: "PathFor c a = PathFor c b \<Longrightarrow> sha256 a = sha256 b"
  by (auto simp: PathFor_def Let_def Sha256Hex_inject)

lemma kept_elsewhere:
  assumes "cache_kept c a d d'" and "PathFor c b \<noteq> PathFor c a"
  shows "node_at (PathFor c b) d' = node_at (PathFor c b) d \<or>
    node_at (PathFor c b) d = None \<and> node_at (PathFor c b) d' = Some Directory"
proof -
  have "PathFor c b \<notin> {PathFor c a, TemporaryPathFor c a}" using assms(2) not_sym [OF path_components(3) [of c a b]] by simp
  then show ?thesis using assms(1) unfolding cache_kept_def frame_def by blast
qed

lemma cache_sound_kept:
  assumes "cache_sound c d" and kept: "cache_kept c a d d'"
  shows "cache_sound c d'"
  unfolding cache_sound_def
proof (intro allI impI)
  fix b bs assume bs: "node_at (PathFor c b) d' = Some (RegularFile bs)"
  show "digest_of bs = sha256 b"
  proof (cases "PathFor c b = PathFor c a")
    case True
    then have "node_at (PathFor c b) d = Some (RegularFile bs) \<or> digest_of bs = sha256 a"
      using kept bs by (auto simp: cache_kept_def holds_def content_ok_def)
    then show ?thesis using assms(1) PathFor_digest [OF True] by (auto simp: cache_sound_def)
  next
    case False
    then have "node_at (PathFor c b) d' = node_at (PathFor c b) d"
      using kept_elsewhere [OF kept False] bs by auto
    then show ?thesis using assms(1) bs by (auto simp: cache_sound_def)
  qed
qed

text \<open>Another asset's file that was verified stays so, when it lies elsewhere.\<close>

lemma holds_kept:
  assumes "cache_kept c a d d'" and "PathFor c b \<noteq> PathFor c a" and "holds (PathFor c b) b d"
  shows "holds (PathFor c b) b d'"
proof -
  have "node_at (PathFor c b) d' = node_at (PathFor c b) d"
    using kept_elsewhere [OF assms(1,2)] assms(3) by (auto simp: holds_def)
  then show ?thesis using assms(3) by (simp add: holds_def)
qed

end
