(* ===== verification/Text.thy ===== *)
theory Text
  imports Prelude
begin

text \<open>
  Text the program prints: \<^verbatim>\<open>std::to_string\<close> of unsigned integers and the formatted
  hexadecimal output of \<^verbatim>\<open>std::ostringstream\<close> and \<^verbatim>\<open>snprintf\<close>.
\<close>

section \<open>Definitions\<close>

text \<open>The digits of a number in a base of at most sixteen, most significant first.\<close>

definition upper_digit :: "nat \<Rightarrow> char" where
  "upper_digit n = ''0123456789ABCDEF'' ! n"

function digits_in :: "nat \<Rightarrow> nat \<Rightarrow> string" where
  "digits_in base n =
    (if n < base \<or> base < 2 then [upper_digit (n mod 16)]
     else digits_in base (n div base) @ [upper_digit (n mod base)])"
  by pat_completeness auto
termination by (relation "measure snd") auto

declare digits_in.simps [simp del]
lemmas [code] = digits_in.simps

definition to_string :: "nat \<Rightarrow> string" where
  "to_string n = digits_in 10 n"

text \<open>\<^verbatim>\<open>%02X\<close>: two upper case digits.\<close>

definition hex_byte :: "u8 \<Rightarrow> string" where
  "hex_byte b = [upper_digit (unat b div 16), upper_digit (unat b mod 16)]"

section \<open>Lemmas\<close>

lemma upper_digit_inject: "m < 16 \<Longrightarrow> n < 16 \<Longrightarrow> upper_digit m = upper_digit n \<Longrightarrow> m = n"
proof -
  have "distinct ''0123456789ABCDEF''" by simp
  moreover assume "m < 16" "n < 16" "upper_digit m = upper_digit n"
  ultimately show "m = n" by (simp add: upper_digit_def nth_eq_iff_index_eq)
qed

text \<open>Different numbers print differently.\<close>

lemma digits_in_inject:
  "2 \<le> base \<Longrightarrow> base \<le> 16 \<Longrightarrow> digits_in base m = digits_in base n \<Longrightarrow> m = n"
proof (induction base m arbitrary: n rule: digits_in.induct)
  case (1 base m)
  have nonempty: "digits_in base k \<noteq> []" for k by (subst digits_in.simps) simp
  have last: "last (digits_in base k) = upper_digit (k mod base)" for k
    using "1.prems" by (subst digits_in.simps) auto
  have but: "butlast (digits_in base k) = (if k < base then [] else digits_in base (k div base))" for k
    using "1.prems" by (subst digits_in.simps) auto
  have "upper_digit (m mod base) = upper_digit (n mod base)" using last "1.prems"(3) by metis
  moreover have "m mod base < 16" "n mod base < 16"
    using "1.prems"(1,2) mod_less_divisor [of base m] mod_less_divisor [of base n] by linarith+
  ultimately have mods: "m mod base = n mod base" by (rule upper_digit_inject [rotated 2])
  have buts: "butlast (digits_in base m) = butlast (digits_in base n)" using "1.prems"(3) by simp
  show ?case
  proof (cases "m < base")
    case True
    then have "n < base" using buts nonempty [of "n div base"] by (auto simp: but split: if_splits)
    then show ?thesis using True mods by simp
  next
    case False
    then have "\<not> n < base" using buts nonempty [of "m div base"] by (auto simp: but split: if_splits)
    then have "m div base = n div base" using "1.IH" False "1.prems"(1,2) buts by (simp add: but)
    then show ?thesis using mods by (metis div_mult_mod_eq)
  qed
qed

lemma to_string_inject [simp]: "to_string m = to_string n \<longleftrightarrow> m = n"
  using digits_in_inject [of 10 m n] by (auto simp: to_string_def)

end
