(* ===== verification/WinHttpFetch.thy ===== *)
theory WinHttpFetch
  imports Fetch Text
begin

text \<open>
  The Windows download backend of \<^verbatim>\<open>client/src/assets/winhttp_fetch.cpp\<close>. WinHTTP and
  the message table of the system are not part of the repository: what they answer during
  one call of \<^verbatim>\<open>Fetch\<close> is the record \<open>WinHttp\<close>, a parameter of the model. The order of
  the calls, their error branches, the transfer loop and the diagnostics are the source's.
\<close>

section \<open>What WinHTTP answers\<close>

text \<open>A call with a result either fails with the code \<^verbatim>\<open>GetLastError\<close> returns or succeeds.\<close>

type_synonym 'a answer = "u32 + 'a"

datatype InternetScheme = SchemeHttp | SchemeHttps | SchemeOther

record UrlComponents =
  nScheme :: InternetScheme
  hostName :: string
  nPort :: u16
  urlPath :: string
  extraInfo :: string

text \<open>One turn of the transfer loop: the clock, the bytes available, and what a read delivers.\<close>

record TransferEvent =
  tick :: u64
  dataAvailable :: "u32 answer"
  dataRead :: "bytes answer"

record WinHttp =
  crackUrl :: "string \<Rightarrow> UrlComponents answer"
  openSession :: "unit answer"
  setTimeouts :: "u32 \<Rightarrow> unit answer"
  setRedirectPolicy :: "unit answer"
  connect :: "string \<Rightarrow> u16 \<Rightarrow> unit answer"
  openRequest :: "string \<Rightarrow> bool \<Rightarrow> unit answer"
  setRedirectLimit :: "u32 \<Rightarrow> unit answer"
  rejectCredentials :: "unit answer"
  sendRequest :: "unit answer"
  receiveResponse :: "unit answer"
  queryStatus :: "u32 answer"
  queryContentLength :: "u32 answer"
  startTick :: u64
  transfer :: "nat \<Rightarrow> TransferEvent"
  systemMessage :: "u32 \<Rightarrow> string"
  moduleMessage :: "u32 \<Rightarrow> string option"

section \<open>Definitions\<close>

definition ERROR_WINHTTP_TIMEOUT :: u32 where "ERROR_WINHTTP_TIMEOUT = 12002"
definition ERROR_WINHTTP_HEADER_NOT_FOUND :: u32 where "ERROR_WINHTTP_HEADER_NOT_FOUND = 12150"
definition kIntMax :: u32 where "kIntMax = 0x7FFFFFFF"
definition kTransferBuffer :: nat where "kTransferBuffer = 64 * 1024"

definition MapWinHttpError :: "u32 \<Rightarrow> FetchError" where
  "MapWinHttpError e = (if e = ERROR_WINHTTP_TIMEOUT then FetchTimeout else FetchNetworkFailure)"

text \<open>The trailing white space is popped off the message text.\<close>

function trim_message :: "string \<Rightarrow> string" where
  "trim_message text =
    (if text \<noteq> [] \<and> (last text = CHR 0x0D \<or> last text = CHR 0x0A \<or> last text = CHR '' '')
     then trim_message (butlast text) else text)"
  by pat_completeness auto
termination by (relation "measure length") auto

declare trim_message.simps [simp del]

definition ErrorText :: "WinHttp \<Rightarrow> u32 \<Rightarrow> string" where
  "ErrorText env e =
    (let buffer = systemMessage env e;
         buffer = (if length buffer = 0
                   then case moduleMessage env e of Some text \<Rightarrow> text | None \<Rightarrow> buffer
                   else buffer)
     in if length buffer = 0 then ''<unavailable>''
        else let text = trim_message buffer in if text = [] then ''<unavailable>'' else text)"

record ParsedUrl =
  host :: string
  target :: string
  url_path :: string
  port :: u16
  secure :: bool

text \<open>The diagnostics are the list of messages handed to the handler, oldest first.\<close>

type_synonym diagnostics = "string list"

definition LogFailure :: "WinHttp \<Rightarrow> string \<Rightarrow> u32 \<Rightarrow> diagnostics" where
  "LogFailure env operation e =
    [''WinHTTP '' @ operation @ '' failed error='' @ to_string (unat e) @ '' text='' @ [CHR 0x22] @ ErrorText env e @ [CHR 0x22]]"

definition LogRequest :: "ParsedUrl \<Rightarrow> diagnostics" where
  "LogRequest parsed =
    [''WinHTTP request scheme='' @ (if secure parsed then ''https'' else ''http'') @ '' host='' @ host parsed @
     '' port='' @ to_string (unat (port parsed)) @ '' path='' @ url_path parsed @
     '' secure='' @ (if secure parsed then ''true'' else ''false'')]"

definition ParseUrl :: "WinHttp \<Rightarrow> string \<Rightarrow> ParsedUrl option \<times> diagnostics" where
  "ParseUrl env url =
    (case crackUrl env url of
       Inl e \<Rightarrow> (None, LogFailure env ''WinHttpCrackUrl'' e)
     | Inr components \<Rightarrow>
         if length (hostName components) = 0 \<or>
            nScheme components \<noteq> SchemeHttp \<and> nScheme components \<noteq> SchemeHttps
         then (None, [''WinHTTP WinHttpCrackUrl returned invalid URL components''])
         else
           let p = (if length (urlPath components) \<noteq> 0 then urlPath components else ''/'')
           in (Some \<lparr>host = hostName components, target = p @ extraInfo components, url_path = p,
                     port = nPort components, secure = nScheme components = SchemeHttps\<rparr>, []))"

text \<open>A failed call ends the fetch with the mapped error, the bytes so far and a diagnostic.\<close>

definition Failure :: "WinHttp \<Rightarrow> string \<Rightarrow> u32 \<Rightarrow> u64 \<Rightarrow> FetchResult \<times> diagnostics" where
  "Failure env operation e received = (result_of (MapWinHttpError e) received, LogFailure env operation e)"

text \<open>
  The transfer loop. Every turn that goes round again has received at least one byte and
  no more than are still expected, so it ends after at most \<open>expectedSize\<close> turns whatever
  the network does. A read delivers at most as many bytes as were asked for.
\<close>

function transfer_loop ::
  "WinHttp \<Rightarrow> path \<Rightarrow> u64 \<Rightarrow> FetchOptions \<Rightarrow> nat \<Rightarrow> u64 \<Rightarrow> Disk \<Rightarrow> (FetchResult \<times> diagnostics + u64) \<times> Disk" where
  "transfer_loop env destination expectedSize options turn received d =
    (let event = transfer env turn
     in if tick event - startTick env > ucast (transferTimeoutMilliseconds options)
        then (Inl (result_of FetchTimeout received, [''WinHTTP overall transfer timeout expired'']), d)
        else case dataAvailable event of
          Inl e \<Rightarrow> (Inl (Failure env ''WinHttpQueryDataAvailable'' e received), d)
        | Inr available \<Rightarrow>
            if available = 0 then (Inr received, d)
            else if ucast available > expectedSize - received then (Inl (result_of FetchSizeMismatch received, []), d)
            else case dataRead event of
              Inl e \<Rightarrow> (Inl (Failure env ''WinHttpReadData'' e received), d)
            | Inr data \<Rightarrow>
                let buffer = take (min (unat available) kTransferBuffer) data;
                    bytesRead = (of_nat (length buffer) :: u64)
                in if bytesRead = 0 \<or> bytesRead > expectedSize - received
                   then (Inl (result_of FetchSizeMismatch received, []), d)
                   else case fs_write destination buffer d of
                     (None, d) \<Rightarrow> (Inl (result_of FetchDiskFailure received, []), d)
                   | (Some _, d) \<Rightarrow>
                       transfer_loop env destination expectedSize options (turn + 1) (received + bytesRead) d)"
  by pat_completeness auto
termination
proof (relation "measure (\<lambda>(env, destination, expectedSize, options, turn, received, d). unat (expectedSize - received))",
    goal_cases)
  case 1
  then show ?case by simp
next
  case (2 env destination expectedSize options turn received d event available data buffer bytesRead)
  then have n: "bytesRead \<noteq> 0" "bytesRead \<le> expectedSize - received" by auto
  have "unat (expectedSize - (received + bytesRead)) = unat (expectedSize - received) - unat bytesRead"
    using unat_sub [OF n(2)] by (simp add: diff_diff_eq)
  moreover have "0 < unat bytesRead" using n(1) by (simp add: unat_gt_0)
  moreover have "unat bytesRead \<le> unat (expectedSize - received)" using n(2) by (simp add: word_le_nat_alt)
  ultimately show ?case by simp
qed

declare transfer_loop.simps [simp del]


text \<open>What follows the header queries: the file is opened, filled and closed.\<close>

definition receive_body ::
  "WinHttp \<Rightarrow> path \<Rightarrow> u64 \<Rightarrow> FetchOptions \<Rightarrow> Disk \<Rightarrow> (FetchResult \<times> diagnostics) \<times> Disk" where
  "receive_body env destination expectedSize options d =
    (case fs_open_truncate destination d of
       (None, d) \<Rightarrow> ((result_of FetchDiskFailure 0, []), d)
     | (Some _, d) \<Rightarrow>
         (case transfer_loop env destination expectedSize options 0 0 d of
            (Inl failure, d) \<Rightarrow> (failure, d)
          | (Inr received, d) \<Rightarrow>
              (case fs_write destination [] d of
                 (None, d) \<Rightarrow> ((result_of FetchDiskFailure received, []), d)
               | (Some _, d) \<Rightarrow>
                   ((if received = expectedSize then result_of FetchNone received
                     else result_of FetchSizeMismatch received, []), d))))"

text \<open>The calls before the request is answered; the first that fails is reported.\<close>

definition open_request :: "WinHttp \<Rightarrow> ParsedUrl \<Rightarrow> FetchOptions \<Rightarrow> (FetchResult \<times> diagnostics + diagnostics)" where
  "open_request env parsed options =
    (let connectTimeout = min (connectionTimeoutMilliseconds options) kIntMax
     in case openSession env of Inl e \<Rightarrow> Inl (Failure env ''WinHttpOpen'' e 0)
      | Inr _ \<Rightarrow> (case setTimeouts env connectTimeout of Inl e \<Rightarrow> Inl (Failure env ''WinHttpSetTimeouts'' e 0)
      | Inr _ \<Rightarrow> (case setRedirectPolicy env of Inl e \<Rightarrow> Inl (Failure env ''WinHttpSetOption(REDIRECT_POLICY)'' e 0)
      | Inr _ \<Rightarrow> (case connect env (host parsed) (port parsed) of Inl e \<Rightarrow> Inl (Failure env ''WinHttpConnect'' e 0)
      | Inr _ \<Rightarrow> (case openRequest env (target parsed) (secure parsed) of Inl e \<Rightarrow> Inl (Failure env ''WinHttpOpenRequest'' e 0)
      | Inr _ \<Rightarrow> (case setRedirectLimit env (redirectLimit options) of
            Inl e \<Rightarrow> Inl (Failure env ''WinHttpSetOption(MAX_HTTP_AUTOMATIC_REDIRECTS)'' e 0)
      | Inr _ \<Rightarrow>
          Inr (case rejectCredentials env of
             Inl e \<Rightarrow> LogFailure env ''WinHttpSetOption(REJECT_USERPWD_IN_URL, optional)'' e
           | Inr _ \<Rightarrow> [])))))))"

text \<open>Sending the request and checking the status line and the length the server announces.\<close>

definition check_response :: "WinHttp \<Rightarrow> u64 \<Rightarrow> (FetchResult \<times> diagnostics + diagnostics)" where
  "check_response env expectedSize =
    (case sendRequest env of Inl e \<Rightarrow> Inl (Failure env ''WinHttpSendRequest'' e 0)
     | Inr _ \<Rightarrow> (case receiveResponse env of Inl e \<Rightarrow> Inl (Failure env ''WinHttpReceiveResponse'' e 0)
     | Inr _ \<Rightarrow> (case queryStatus env of Inl e \<Rightarrow> Inl (Failure env ''WinHttpQueryHeaders(StatusCode)'' e 0)
     | Inr status \<Rightarrow>
         if status \<noteq> 200
         then Inl (result_of FetchNetworkFailure 0, [''WinHTTP response rejected status='' @ to_string (unat status)])
         else case queryContentLength env of
           Inl e \<Rightarrow>
             let log = LogFailure env ''WinHttpQueryHeaders(ContentLength)'' e
             in if e \<noteq> ERROR_WINHTTP_HEADER_NOT_FOUND then Inl (result_of (MapWinHttpError e) 0, log) else Inr log
         | Inr contentLength \<Rightarrow>
             if ucast contentLength \<noteq> expectedSize
             then Inl (result_of FetchSizeMismatch 0,
               [''WinHTTP Content-Length mismatch received='' @ to_string (unat contentLength) @
                '' expected='' @ to_string (unat expectedSize)])
             else Inr [])))"

definition WinHttp_Fetch ::
  "WinHttp \<Rightarrow> string \<Rightarrow> path \<Rightarrow> u64 \<Rightarrow> FetchOptions \<Rightarrow> Disk \<Rightarrow> (FetchResult \<times> diagnostics) \<times> Disk" where
  "WinHttp_Fetch env url destination expectedSize options d =
    (if \<not> IsDownloadUrlValid url \<or> expectedSize = 0 \<or> expectedSize > kMaximumIndividualFileSize
     then ((result_of FetchUnsupportedScheme 0, [''WinHTTP URL or expected size rejected before parsing'']), d)
     else case ParseUrl env url of
       (None, log) \<Rightarrow> ((result_of FetchUnsupportedScheme 0, log), d)
     | (Some parsed, log) \<Rightarrow>
         let log = log @ LogRequest parsed
         in case open_request env parsed options of
              Inl (r, log1) \<Rightarrow> ((r, log @ log1), d)
            | Inr log1 \<Rightarrow>
                (case check_response env expectedSize of
                   Inl (r, log2) \<Rightarrow> ((r, log @ log1 @ log2), d)
                 | Inr log2 \<Rightarrow>
                     (case receive_body env destination expectedSize options d of
                        ((r, log3), d) \<Rightarrow> ((r, log @ log1 @ log2 @ log3), d))))"

text \<open>The backend as the manager sees it, without the diagnostics.\<close>

definition winhttp_backend :: "WinHttp \<Rightarrow> Fetch" where
  "winhttp_backend env url destination expectedSize options d =
    (case WinHttp_Fetch env url destination expectedSize options d of ((r, _), d) \<Rightarrow> (r, d))"

section \<open>Lemmas\<close>

text \<open>
  The loop appends to the destination exactly the bytes it counts, and never more than
  the expected size.
\<close>

definition loop_ok :: "path \<Rightarrow> u64 \<Rightarrow> u64 \<Rightarrow> Disk \<Rightarrow> (FetchResult \<times> diagnostics + u64) \<times> Disk \<Rightarrow> bool" where
  "loop_ok p expectedSize received d res \<longleftrightarrow>
    (\<forall>q. q \<noteq> p \<longrightarrow> node_at q (snd res) = node_at q d) \<and>
    (case fst res of
       Inl (r, log) \<Rightarrow> fetch_error r \<noteq> FetchNone \<and> bytesReceived r \<le> expectedSize
     | Inr n \<Rightarrow> n \<le> expectedSize \<and>
         (\<forall>bs. node_at p d = Some (RegularFile bs) \<and> length bs = unat received \<longrightarrow>
           (\<exists>bs'. node_at p (snd res) = Some (RegularFile (bs @ bs')) \<and> length (bs @ bs') = unat n)))"

lemma fs_write_nodes:
  assumes "fs_write p data d = (r, d')"
  shows "q \<noteq> p \<Longrightarrow> node_at q d' = node_at q d" and "r = None \<Longrightarrow> node_at q d' = node_at q d"
    and "r \<noteq> None \<Longrightarrow> \<exists>bs. node_at p d = Some (RegularFile bs) \<and> node_at p d' = Some (RegularFile (bs @ data))"
  using assms
  by (cases "p = []"; auto simp: fs_write_def elim!: attempt_cases split: option.splits Node.splits)+

lemma fs_open_truncate_nodes:
  assumes "fs_open_truncate p d = (r, d')" and "p \<noteq> []"
  shows "q \<noteq> p \<Longrightarrow> node_at q d' = node_at q d" and "r \<noteq> None \<Longrightarrow> node_at p d' = Some (RegularFile [])"
  using assms by (auto simp: fs_open_truncate_def elim!: attempt_cases split: if_splits)

lemma MapWinHttpError_not_none [simp]: "MapWinHttpError e \<noteq> FetchNone"
  by (simp add: MapWinHttpError_def)

lemma word_diff_add:
  assumes "(b :: u64) \<le> n - r" "r \<le> n"
  shows "r + b \<le> n" and "unat (r + b) = unat r + unat b"
proof -
  have "unat b \<le> unat n - unat r" using assms by (simp add: word_le_nat_alt unat_sub)
  then have sum: "unat r + unat b \<le> unat n" using assms(2) by (simp add: word_le_nat_alt)
  then have "unat r + unat b < 2 ^ LENGTH(64)" using unsigned_less [of n, where ?'a = nat] by linarith
  then show unat: "unat (r + b) = unat r + unat b" by (simp add: unat_word_ariths)
  show "r + b \<le> n" using sum unat by (simp add: word_le_nat_alt)
qed

lemma transfer_loop_ok:
  "received \<le> expectedSize \<Longrightarrow> loop_ok p expectedSize received d (transfer_loop env p expectedSize options turn received d)"
proof (induction env p expectedSize options turn received d rule: transfer_loop.induct)
  case (1 env p n options turn received d)
  let ?event = "transfer env turn"
  show ?case
  proof (cases "tick ?event - startTick env > ucast (transferTimeoutMilliseconds options)")
    case True
    then show ?thesis using "1.prems" by (subst transfer_loop.simps) (simp add: loop_ok_def)
  next
    case on_time: False
    show ?thesis
    proof (cases "dataAvailable ?event")
      case (Inl e)
      then show ?thesis using on_time "1.prems"
        by (subst transfer_loop.simps) (simp add: loop_ok_def Failure_def)
    next
      case available: (Inr available)
      show ?thesis
      proof (cases "available = 0 \<or> ucast available > n - received")
        case True
        then show ?thesis using on_time available "1.prems"
          by (subst transfer_loop.simps) (auto simp: loop_ok_def)
      next
        case room: False
        show ?thesis
        proof (cases "dataRead ?event")
          case (Inl e)
          then show ?thesis using on_time available room "1.prems"
            by (subst transfer_loop.simps) (simp add: loop_ok_def Failure_def)
        next
          case data: (Inr data)
          define buffer where "buffer = take (min (unat available) kTransferBuffer) data"
          define bytesRead where "bytesRead = (of_nat (length buffer) :: u64)"
          note sofar = on_time available room data buffer_def [symmetric] bytesRead_def [symmetric] Let_def
          show ?thesis
          proof (cases "bytesRead = 0 \<or> bytesRead > n - received")
            case True
            then show ?thesis using sofar "1.prems" by (subst transfer_loop.simps) (auto simp: loop_ok_def)
          next
            case False
            obtain w d1 where w: "fs_write p buffer d = (w, d1)" by (metis prod.exhaust)
            note nodes = fs_write_nodes [OF w]
            show ?thesis
            proof (cases w)
              case None
              then show ?thesis using sofar False w nodes "1.prems"
                by (subst transfer_loop.simps) (auto simp: loop_ok_def)
            next
              case (Some u)
              have le: "received + bytesRead \<le> n" using False "1.prems" by (intro word_diff_add(1)) auto
              have "unat bytesRead = length buffer"
                by (simp add: bytesRead_def unat_of_nat take_bit_nat_eq_self_iff buffer_def kTransferBuffer_def)
              then have len: "unat (received + bytesRead) = length buffer + unat received"
                using word_diff_add(2) [of bytesRead n received] False "1.prems" by auto
              have eq: "transfer_loop env p n options turn received d =
                  transfer_loop env p n options (turn + 1) (received + bytesRead) d1"
                using sofar False w Some by (subst transfer_loop.simps) auto
              have "loop_ok p n (received + bytesRead) d1 (transfer_loop env p n options (turn + 1) (received + bytesRead) d1)"
                using "1.IH" sofar False w Some le by auto
              then show ?thesis unfolding eq using nodes Some
                by (auto simp: loop_ok_def len split: sum.splits)
            qed
          qed
        qed
      qed
    qed
  qed
qed


lemma receive_body_ok:
  assumes p: "p \<noteq> []" and run: "receive_body env p n options d = ((r, log), d')"
  shows "q \<noteq> p \<Longrightarrow> node_at q d' = node_at q d"
    and "fetch_error r = FetchNone \<Longrightarrow>
      bytesReceived r = n \<and> (\<exists>bs. node_at p d' = Some (RegularFile bs) \<and> length bs = unat n)"
    and "bytesReceived r \<le> n"
proof -
  obtain u d1 where u: "fs_open_truncate p d = (u, d1)" by (metis prod.exhaust)
  obtain res d2 where l: "transfer_loop env p n options 0 0 d1 = (res, d2)" by (metis prod.exhaust)
  have ok: "loop_ok p n 0 d1 (res, d2)" using transfer_loop_ok [of 0 n p d1 env options 0] l by simp
  have "(q \<noteq> p \<longrightarrow> node_at q d' = node_at q d) \<and> (fetch_error r = FetchNone \<longrightarrow>
      bytesReceived r = n \<and> (\<exists>bs. node_at p d' = Some (RegularFile bs) \<and> length bs = unat n)) \<and> bytesReceived r \<le> n"
  proof (cases u)
    case None
    then show ?thesis using run u fs_open_truncate_nodes [OF u p] by (auto simp: receive_body_def fs_open_truncate_def elim!: attempt_cases split: if_splits)
  next
    case (Some v)
    note open_nodes = fs_open_truncate_nodes [OF u p]
    show ?thesis
    proof (cases res)
      case (Inl failure)
      then show ?thesis using run u l ok Some open_nodes by (auto simp: receive_body_def loop_ok_def)
    next
      case (Inr m)
      obtain w d3 where w: "fs_write p [] d2 = (w, d3)" by (metis prod.exhaust)
      obtain bs where bs: "node_at p d2 = Some (RegularFile bs)" "length bs = unat m" and m: "m \<le> n"
        using ok open_nodes(2) Some Inr by (auto simp: loop_ok_def)
      have same: "node_at q d3 = node_at q d2" for q
        using fs_write_nodes [OF w] by (cases "q = p"; cases w) auto
      have res: "d' = d3" "r = (if w = None then result_of FetchDiskFailure m
          else if m = n then result_of FetchNone m else result_of FetchSizeMismatch m)"
        using run u l w Some Inr by (auto simp: receive_body_def split: option.splits)
      show ?thesis using res m bs same ok open_nodes(1) by (auto simp: loop_ok_def)
    qed
  qed
  then show "q \<noteq> p \<Longrightarrow> node_at q d' = node_at q d"
    and "fetch_error r = FetchNone \<Longrightarrow>
      bytesReceived r = n \<and> (\<exists>bs. node_at p d' = Some (RegularFile bs) \<and> length bs = unat n)"
    and "bytesReceived r \<le> n" by blast+
qed

lemma open_request_failed: "open_request env parsed options = Inl (r, log) \<Longrightarrow> fetch_error r \<noteq> FetchNone \<and> bytesReceived r = 0"
  by (auto simp: open_request_def Failure_def Let_def split: sum.splits)

lemma check_response_failed: "check_response env n = Inl (r, log) \<Longrightarrow> fetch_error r \<noteq> FetchNone \<and> bytesReceived r = 0"
  by (auto simp: check_response_def Failure_def Let_def split: sum.splits if_splits)

text \<open>A fetch fails before the file is opened, or it is the outcome of the body.\<close>

lemma WinHttp_Fetch_cases:
  assumes "WinHttp_Fetch env url p n options d = ((r, log), d')"
  obtains (early) "fetch_error r \<noteq> FetchNone" "bytesReceived r = 0" "d' = d"
  | (body) log3 where "IsDownloadUrlValid url" "n \<le> kMaximumIndividualFileSize"
      "receive_body env p n options d = ((r, log3), d')"
proof (cases "\<not> IsDownloadUrlValid url \<or> n = 0 \<or> n > kMaximumIndividualFileSize")
  case True
  then show ?thesis using assms early by (auto simp: WinHttp_Fetch_def)
next
  case valid: False
  show ?thesis
  proof (cases "ParseUrl env url")
    case (Pair pu log0)
    show ?thesis
    proof (cases pu)
      case None
      then show ?thesis using assms valid Pair early by (auto simp: WinHttp_Fetch_def)
    next
      case (Some parsed)
      show ?thesis
      proof (cases "open_request env parsed options")
        case (Inl e)
        then show ?thesis using assms valid Pair Some early open_request_failed [of env parsed options]
          by (cases e) (auto simp: WinHttp_Fetch_def)
      next
        case opened: (Inr log1)
        show ?thesis
        proof (cases "check_response env n")
          case (Inl e)
          then show ?thesis using assms valid Pair Some opened early check_response_failed [of env n]
            by (cases e) (auto simp: WinHttp_Fetch_def)
        next
          case (Inr log2)
          then show ?thesis using assms valid Pair Some opened body
            by (auto simp: WinHttp_Fetch_def split: prod.splits)
        qed
      qed
    qed
  qed
qed

text \<open>WinHTTP keeps the contract of a backend, whatever the network does.\<close>

interpretation winhttp: fetch_backends "range winhttp_backend"
proof (unfold_locales, goal_cases)
  case (1 f p url n options d r d' q)
  then obtain env log where "WinHttp_Fetch env url p n options d = ((r, log), d')"
    by (auto simp: winhttp_backend_def split: prod.splits)
  then show ?case using 1(2,4) receive_body_ok(1) by (cases rule: WinHttp_Fetch_cases) auto
next
  case (2 f p url n options d r d')
  then obtain env log where "WinHttp_Fetch env url p n options d = ((r, log), d')"
    by (auto simp: winhttp_backend_def split: prod.splits)
  then show ?case
  proof (cases rule: WinHttp_Fetch_cases)
    case early
    then show ?thesis using 2(4) by simp
  next
    case (body log3)
    then show ?thesis using receive_body_ok(2) [OF 2(2) body(3) 2(4)] by auto
  qed
qed

section \<open>A server that answers\<close>

definition on_time :: "WinHttp \<Rightarrow> FetchOptions \<Rightarrow> nat \<Rightarrow> bool" where
  "on_time env options turn \<longleftrightarrow> \<not> tick (transfer env turn) - startTick env > ucast (transferTimeoutMilliseconds options)"

fun serves :: "WinHttp \<Rightarrow> FetchOptions \<Rightarrow> nat \<Rightarrow> bytes list \<Rightarrow> bool" where
  "serves env options turn [] \<longleftrightarrow> on_time env options turn \<and> dataAvailable (transfer env turn) = Inr 0"
| "serves env options turn (c # cs) \<longleftrightarrow>
    on_time env options turn \<and> c \<noteq> [] \<and> length c \<le> kTransferBuffer \<and>
    dataAvailable (transfer env turn) = Inr (of_nat (length c)) \<and> dataRead (transfer env turn) = Inr c \<and>
    serves env options (turn + 1) cs"

lemma transfer_loop_serves:
  "serves env options turn cs \<Longrightarrow> faults d = [] \<Longrightarrow> node_at p d = Some (RegularFile bs) \<Longrightarrow> p \<noteq> [] \<Longrightarrow>
    received \<le> n \<Longrightarrow> length (concat cs) \<le> unat n - unat received \<Longrightarrow>
    \<exists>d'. transfer_loop env p n options turn received d = (Inr (received + of_nat (length (concat cs))), d') \<and>
      node_at p d' = Some (RegularFile (bs @ concat cs)) \<and> faults d' = []"
proof (induction cs arbitrary: turn received d bs)
  case Nil
  then show ?case by (subst transfer_loop.simps) (simp add: on_time_def)
next
  case (Cons c cs)
  define d1 where "d1 = put_node p (RegularFile (bs @ c)) d"
  have w: "fs_write p c d = (Some (), d1)" using Cons.prems(2,3) by (simp add: fs_write_def attempt_quiet d1_def)
  have c: "c \<noteq> []" "length c \<le> 65536" using Cons.prems(1) by (simp_all add: kTransferBuffer_def)
  have len: "unat (of_nat (length c) :: u64) = length c" "unat (of_nat (length c) :: u32) = length c"
    using c(2) by (simp_all add: unat_of_nat take_bit_nat_eq_self_iff)
  have room: "length c \<le> unat (n - received)" using Cons.prems(5,6) by (simp add: unat_sub)
  have bytes: "(of_nat (length c) :: u64) \<noteq> 0" "(of_nat (length c) :: u64) \<le> n - received" "(of_nat (length c) :: u32) \<noteq> 0"
    "ucast (of_nat (length c) :: u32) = (of_nat (length c) :: u64)"
    using c len room by (auto simp: word_le_nat_alt word_unat_eq_iff unsigned_ucast_eq take_bit_nat_eq_self_iff)
  note add = word_diff_add [OF bytes(2) Cons.prems(5)]
  have step: "transfer_loop env p n options turn received d =
      transfer_loop env p n options (turn + 1) (received + of_nat (length c)) d1"
    using Cons.prems(1) w bytes len
    by (subst transfer_loop.simps) (simp add: on_time_def Let_def min_absorb1 not_le [symmetric])
  have "\<exists>d'. transfer_loop env p n options (turn + 1) (received + of_nat (length c)) d1 =
        (Inr (received + of_nat (length c) + of_nat (length (concat cs))), d') \<and>
      node_at p d' = Some (RegularFile ((bs @ c) @ concat cs)) \<and> faults d' = []"
  proof (rule Cons.IH)
    show "length (concat cs) \<le> unat n - unat (received + of_nat (length c))"
      using Cons.prems(6) by (simp add: add(2) len)
  qed (use Cons.prems add in \<open>auto simp: d1_def\<close>)
  then show ?case unfolding step by (simp add: add.assoc)
qed

text \<open>Everything before the body goes well.\<close>

definition answers :: "WinHttp \<Rightarrow> string \<Rightarrow> u64 \<Rightarrow> FetchOptions \<Rightarrow> bool" where
  "answers env url n options \<longleftrightarrow>
    (case ParseUrl env url of
       (None, _) \<Rightarrow> False
     | (Some parsed, _) \<Rightarrow> \<not> isl (open_request env parsed options) \<and> \<not> isl (check_response env n))"

lemma isl_iff: "\<not> isl x \<longleftrightarrow> (\<exists>y. x = Inr y)"
  by (cases x) simp_all

section \<open>Properties\<close>


text \<open>
  Claim C26. When the server answers and delivers the expected number of bytes in time, cut
  into whatever chunks, the fetch succeeds and the file holds those bytes in order.
\<close>

theorem fetch_delivers:
  assumes url: "IsDownloadUrlValid url" and n: "n \<noteq> 0" "n \<le> kMaximumIndividualFileSize"
    and env: "answers env url n options" "serves env options 0 cs" "length (concat cs) = unat n"
    and disk: "faults d = []" "p \<noteq> []" "node_at (butlast p) d = Some Directory" "node_at p d \<noteq> Some Directory"
  shows "\<exists>log d'. WinHttp_Fetch env url p n options d = ((result_of FetchNone n, log), d') \<and>
    node_at p d' = Some (RegularFile (concat cs))"
proof -
  define d1 where "d1 = put_node p (RegularFile []) d"
  have op: "fs_open_truncate p d = (Some (), d1)"
    using disk by (simp add: fs_open_truncate_def attempt_quiet d1_def)
  obtain d2 where loop: "transfer_loop env p n options 0 0 d1 = (Inr (of_nat (length (concat cs))), d2)"
      "node_at p d2 = Some (RegularFile (concat cs))" "faults d2 = []"
    using transfer_loop_serves [OF env(2), of d1 p "[]" 0 n] disk env(3) by (auto simp: d1_def)
  have total: "(of_nat (length (concat cs)) :: u64) = n" using env(3) by simp
  define d3 where "d3 = put_node p (RegularFile (concat cs)) d2"
  have cl: "fs_write p [] d2 = (Some (), d3)" using loop(2,3) by (simp add: fs_write_def attempt_quiet d3_def)
  have body: "receive_body env p n options d = ((result_of FetchNone n, []), d3)"
    using op loop(1) cl total by (simp add: receive_body_def)
  obtain parsed log0 log1 log2 where "ParseUrl env url = (Some parsed, log0)"
      "open_request env parsed options = Inr log1" "check_response env n = Inr log2"
    using env(1) by (auto simp: answers_def isl_iff split: prod.splits option.splits)
  then have "WinHttp_Fetch env url p n options d = ((result_of FetchNone n, (log0 @ LogRequest parsed) @ log1 @ log2 @ []), d3)"
    using url n body by (simp add: WinHttp_Fetch_def)
  moreover have "node_at p d3 = Some (RegularFile (concat cs))" using disk(2) by (simp add: d3_def)
  ultimately show ?thesis by blast
qed

text \<open>A server with one byte to give.\<close>

definition sample_server :: WinHttp where
  "sample_server = \<lparr>
     crackUrl = (\<lambda>_. Inr \<lparr>nScheme = SchemeHttp, hostName = ''a'', nPort = 80, urlPath = ''/b'', extraInfo = ''''\<rparr>),
     openSession = Inr (), setTimeouts = (\<lambda>_. Inr ()), setRedirectPolicy = Inr (), connect = (\<lambda>_ _. Inr ()),
     openRequest = (\<lambda>_ _. Inr ()), setRedirectLimit = (\<lambda>_. Inr ()), rejectCredentials = Inl 12009,
     sendRequest = Inr (), receiveResponse = Inr (), queryStatus = Inr 200, queryContentLength = Inr 1,
     startTick = 5,
     transfer = (\<lambda>turn. \<lparr>tick = 6, dataAvailable = Inr (if turn = 0 then 1 else 0), dataRead = Inr [7]\<rparr>),
     systemMessage = (\<lambda>_. ''''), moduleMessage = (\<lambda>_. None)\<rparr>"

lemma sample_server_serves:
  "answers sample_server url 1 default_options" "serves sample_server default_options 0 [[7]]"
  by (auto simp: answers_def ParseUrl_def sample_server_def Let_def open_request_def check_response_def
      on_time_def default_options_def kTransferBuffer_def)

definition empty_disk :: Disk where
  "empty_disk = \<lparr>nodes = fmempty, faults = []\<rparr>"

theorem fetch_delivers_witness:
  "\<exists>log d'. WinHttp_Fetch sample_server ''http://a/b'' [''f''] 1 default_options empty_disk =
      ((result_of FetchNone 1, log), d') \<and> node_at [''f''] d' = Some (RegularFile [7])"
proof -
  have "IsDownloadUrlValid ''http://a/b''" by code_simp
  moreover have "(1 :: u64) \<le> kMaximumIndividualFileSize" by (simp add: kMaximumIndividualFileSize_def)
  ultimately show ?thesis
    using fetch_delivers [OF _ _ _ sample_server_serves(1,2), of "''http://a/b''" empty_disk "[''f'']"]
    by (simp add: empty_disk_def node_at_def)
qed


end
