(* ===== verification/AssetRegistry.thy ===== *)
theory AssetRegistry
  imports Assets "HOL-Library.Multiset"
begin

text \<open>
  The server's asset registry, \<^verbatim>\<open>server/src/asset_registry.cpp\<close>. Its two
  \<^verbatim>\<open>unordered_map\<close>s are association lists: the source iterates over one of them and
  the order of that iteration is unspecified, so the order of the list stands for it and
  the manifest is shown not to depend on it. The lemmas are the invariant that ties the two
  maps, the running total and the limits together, and the functional behaviour of every
  operation. The locale \<open>manifest_source\<close> is what the publication needs of a registry.
\<close>

section \<open>\<^verbatim>\<open>std::unordered_map\<close>\<close>

text \<open>\<^verbatim>\<open>find\<close>, \<^verbatim>\<open>emplace\<close> (which keeps an existing entry) and \<^verbatim>\<open>erase\<close>.\<close>

definition um_emplace :: "'k \<Rightarrow> 'v \<Rightarrow> ('k \<times> 'v) list \<Rightarrow> ('k \<times> 'v) list" where
  "um_emplace k v m = (case map_of m k of None \<Rightarrow> (k, v) # m | Some _ \<Rightarrow> m)"

definition um_erase :: "'k \<Rightarrow> ('k \<times> 'v) list \<Rightarrow> ('k \<times> 'v) list" where
  "um_erase k m = filter (\<lambda>e. fst e \<noteq> k) m"

lemma map_of_um_erase [simp]: "map_of (um_erase k m) = (map_of m)(k := None)"
  by (induction m) (auto simp: um_erase_def)

lemma map_of_um_emplace: "map_of (um_emplace k v m) = (if map_of m k = None then (map_of m)(k \<mapsto> v) else map_of m)"
  by (auto simp: um_emplace_def split: option.splits)

lemma distinct_um_erase: "distinct (map fst m) \<Longrightarrow> distinct (map fst (um_erase k m))"
  by (simp add: um_erase_def distinct_map_filter)

lemma distinct_um_emplace: "distinct (map fst m) \<Longrightarrow> distinct (map fst (um_emplace k v m))"
  by (auto simp: um_emplace_def map_of_eq_None_iff image_iff split: option.splits)

section \<open>Definitions\<close>

datatype RegistryResult = Added | Removed | Cleared | NotFound | InvalidAsset | DuplicateAssetId
  | DuplicateLogicalName | AssetLimitReached | TotalSizeExceeded

record AssetRegistry =
  registry_revision :: u64
  registry_totalSize :: u64
  registry_assets :: "(u32 \<times> AssetDescription) list"
  registry_names :: "(string \<times> u32) list"

definition empty_registry :: AssetRegistry where
  "empty_registry = \<lparr>registry_revision = 1, registry_totalSize = 0, registry_assets = [], registry_names = []\<rparr>"

definition AdvanceRevision :: "AssetRegistry \<Rightarrow> AssetRegistry" where
  "AdvanceRevision r = (if registry_revision r \<noteq> -1 then r\<lparr>registry_revision := registry_revision r + 1\<rparr> else r)"

definition RegisterAsset :: "AssetDescription \<Rightarrow> AssetRegistry \<Rightarrow> RegistryResult \<times> AssetRegistry" where
  "RegisterAsset asset r =
    (if \<not> IsAssetDescriptionValid asset then (InvalidAsset, r)
     else if map_of (registry_assets r) (assetId asset) \<noteq> None then (DuplicateAssetId, r)
     else if map_of (registry_names r) (logicalName asset) \<noteq> None then (DuplicateLogicalName, r)
     else if length (registry_assets r) \<ge> kMaximumAssetsPerManifest then (AssetLimitReached, r)
     else if fileSize asset > kMaximumTotalDownloadSize - registry_totalSize r then (TotalSizeExceeded, r)
     else (Added, AdvanceRevision (r\<lparr>
       registry_totalSize := registry_totalSize r + fileSize asset,
       registry_names := um_emplace (logicalName asset) (assetId asset) (registry_names r),
       registry_assets := um_emplace (assetId asset) asset (registry_assets r)\<rparr>)))"

definition RemoveAsset :: "u32 \<Rightarrow> AssetRegistry \<Rightarrow> RegistryResult \<times> AssetRegistry" where
  "RemoveAsset i r =
    (case map_of (registry_assets r) i of
       None \<Rightarrow> (NotFound, r)
     | Some found \<Rightarrow> (Removed, AdvanceRevision (r\<lparr>
         registry_totalSize := registry_totalSize r - fileSize found,
         registry_names := um_erase (logicalName found) (registry_names r),
         registry_assets := um_erase i (registry_assets r)\<rparr>)))"

definition ClearAssets :: "AssetRegistry \<Rightarrow> RegistryResult \<times> AssetRegistry" where
  "ClearAssets r =
    (if registry_assets r = [] then (Cleared, r)
     else (Cleared, AdvanceRevision (r\<lparr>registry_assets := [], registry_names := [], registry_totalSize := 0\<rparr>)))"

text \<open>
  \<^verbatim>\<open>std::sort\<close> by asset id. Ids are distinct, so the sorted order is unique and the
  stable library sort computes it.
\<close>

definition BuildManifest :: "AssetRegistry \<Rightarrow> Manifest" where
  "BuildManifest r = \<lparr>revision = registry_revision r,
     manifest_assets = sort_key assetId (map snd (registry_assets r)),
     totalDownloadSize = registry_totalSize r\<rparr>"

definition Find :: "u32 \<Rightarrow> AssetRegistry \<Rightarrow> AssetDescription option" where
  "Find i r = map_of (registry_assets r) i"

definition Revision :: "AssetRegistry \<Rightarrow> u64" where
  "Revision r = registry_revision r"

definition Size :: "AssetRegistry \<Rightarrow> nat" where
  "Size r = length (registry_assets r)"

fun ToString_RegistryResult :: "RegistryResult \<Rightarrow> string" where
  "ToString_RegistryResult Added = ''added''"
| "ToString_RegistryResult Removed = ''removed''"
| "ToString_RegistryResult Cleared = ''cleared''"
| "ToString_RegistryResult NotFound = ''not found''"
| "ToString_RegistryResult InvalidAsset = ''invalid asset''"
| "ToString_RegistryResult DuplicateAssetId = ''duplicate asset id''"
| "ToString_RegistryResult DuplicateLogicalName = ''duplicate logical name''"
| "ToString_RegistryResult AssetLimitReached = ''asset limit reached''"
| "ToString_RegistryResult TotalSizeExceeded = ''total size exceeded''"

section \<open>Invariant\<close>

definition entry_ok :: "u32 \<times> AssetDescription \<Rightarrow> bool" where
  "entry_ok e \<longleftrightarrow> fst e = assetId (snd e) \<and> IsAssetDescriptionValid (snd e)"

definition total_of :: "AssetDescription list \<Rightarrow> nat" where
  "total_of as = sum_list (map (\<lambda>a. unat (fileSize a)) as)"

definition registry_ok :: "AssetRegistry \<Rightarrow> bool" where
  "registry_ok r \<longleftrightarrow>
     registry_revision r \<noteq> 0 \<and>
     (\<forall>e \<in> set (registry_assets r). entry_ok e) \<and>
     distinct (map fst (registry_assets r)) \<and>
     distinct (map fst (registry_names r)) \<and>
     set (registry_names r) = (\<lambda>e. (logicalName (snd e), fst e)) ` set (registry_assets r) \<and>
     distinct (map (\<lambda>e. logicalName (snd e)) (registry_assets r)) \<and>
     length (registry_assets r) \<le> kMaximumAssetsPerManifest \<and>
     unat (registry_totalSize r) = total_of (map snd (registry_assets r)) \<and>
     registry_totalSize r \<le> kMaximumTotalDownloadSize"

text \<open>What a manifest promises to whoever publishes it.\<close>

definition manifest_ok :: "Manifest \<Rightarrow> bool" where
  "manifest_ok m \<longleftrightarrow>
     revision m \<noteq> 0 \<and>
     (\<forall>a \<in> set (manifest_assets m). IsAssetDescriptionValid a) \<and>
     sorted (map assetId (manifest_assets m)) \<and>
     distinct (map assetId (manifest_assets m)) \<and>
     distinct (map logicalName (manifest_assets m)) \<and>
     length (manifest_assets m) \<le> kMaximumAssetsPerManifest \<and>
     unat (totalDownloadSize m) = total_of (manifest_assets m) \<and>
     totalDownloadSize m \<le> kMaximumTotalDownloadSize"

lemma total_of_simps [simp]: "total_of [] = 0" "total_of (a # as) = unat (fileSize a) + total_of as"
  by (simp_all add: total_of_def)

lemma total_of_mset: "mset as = mset bs \<Longrightarrow> total_of as = total_of bs"
proof -
  assume "mset as = mset bs"
  then have "mset (map (\<lambda>a. unat (fileSize a)) as) = mset (map (\<lambda>a. unat (fileSize a)) bs)"
    by simp
  then show ?thesis
    unfolding total_of_def by (metis sum_mset_sum_list)
qed

lemma registry_ok_empty: "registry_ok empty_registry"
  by (simp add: registry_ok_def empty_registry_def asset_limits)

lemma AdvanceRevision_nonzero [simp]:
  "registry_revision r \<noteq> 0 \<Longrightarrow> registry_revision (AdvanceRevision r) \<noteq> 0"
  by (auto simp: AdvanceRevision_def add_eq_0_iff2)

lemma AdvanceRevision_select [simp]:
  "registry_totalSize (AdvanceRevision r) = registry_totalSize r"
  "registry_assets (AdvanceRevision r) = registry_assets r"
  "registry_names (AdvanceRevision r) = registry_names r"
  by (simp_all add: AdvanceRevision_def)

lemma entries_id: "registry_ok r \<Longrightarrow> e \<in> set (registry_assets r) \<Longrightarrow> fst e = assetId (snd e)"
  by (simp add: registry_ok_def entry_ok_def)

lemma Find_Some_iff:
  "registry_ok r \<Longrightarrow> Find i r = Some a \<longleftrightarrow> a \<in> set (map snd (registry_assets r)) \<and> assetId a = i"
  using entries_id [of r]
  by (force simp: Find_def registry_ok_def map_of_eq_Some_iff image_iff)

text \<open>Room in the total means that adding does not wrap around.\<close>

lemma total_room:
  fixes t f :: u64
  assumes "t \<le> kMaximumTotalDownloadSize" "\<not> f > kMaximumTotalDownloadSize - t"
  shows "unat (t + f) = unat t + unat f \<and> t + f \<le> kMaximumTotalDownloadSize"
proof -
  have "unat (kMaximumTotalDownloadSize - t) = unat kMaximumTotalDownloadSize - unat t"
    using assms(1) by (simp add: unat_sub)
  then have le: "unat t + unat f \<le> unat kMaximumTotalDownloadSize"
    using assms by (simp add: word_le_nat_alt word_less_nat_alt)
  moreover have "unat kMaximumTotalDownloadSize = 536870912"
    by (simp add: kMaximumTotalDownloadSize_def)
  ultimately have "unat (t + f) = unat t + unat f"
    by (simp add: unat_word_ariths)
  with le show ?thesis
    by (simp add: word_le_nat_alt)
qed

lemma RegisterAsset_Added:
  assumes "registry_ok r" "RegisterAsset a r = (Added, r')"
  shows "registry_ok r' \<and> registry_assets r' = (assetId a, a) # registry_assets r \<and> IsAssetDescriptionValid a"
proof -
  have room: "IsAssetDescriptionValid a" "map_of (registry_assets r) (assetId a) = None"
      "map_of (registry_names r) (logicalName a) = None" "length (registry_assets r) < kMaximumAssetsPerManifest"
      "\<not> fileSize a > kMaximumTotalDownloadSize - registry_totalSize r"
    and r': "r' = AdvanceRevision (r\<lparr>registry_totalSize := registry_totalSize r + fileSize a,
       registry_names := (logicalName a, assetId a) # registry_names r,
       registry_assets := (assetId a, a) # registry_assets r\<rparr>)"
    using assms(2) by (auto simp: RegisterAsset_def um_emplace_def split: if_splits)
  have "logicalName a \<notin> (\<lambda>e. logicalName (snd e)) ` set (registry_assets r)"
    using room(3) assms(1) by (force simp: map_of_eq_None_iff registry_ok_def)
  then show ?thesis
    using assms(1) room total_room [of "registry_totalSize r" "fileSize a"]
    by (simp add: r' registry_ok_def entry_ok_def map_of_eq_None_iff)
qed

lemma total_of_erase:
  "distinct (map fst m) \<Longrightarrow> map_of m k = Some a \<Longrightarrow>
    total_of (map snd m) = unat (fileSize a) + total_of (map snd (um_erase k m))"
proof (induction m)
  case (Cons e m)
  show ?case
  proof (cases "fst e = k")
    case True
    have "filter (\<lambda>e. fst e \<noteq> k) m = m"
      using True Cons.prems(1) by (auto simp: filter_id_conv rev_image_eqI)
    with True Cons.prems show ?thesis
      by (simp add: um_erase_def split: if_splits)
  next
    case False
    with Cons show ?thesis
      by (auto simp: um_erase_def)
  qed
qed simp

lemma set_um_erase: "set (um_erase k m) = {e \<in> set m. fst e \<noteq> k}"
  by (auto simp: um_erase_def)

lemma RemoveAsset_Removed:
  assumes "registry_ok r" "RemoveAsset i r = (Removed, r')"
  shows "registry_ok r' \<and> registry_assets r' = um_erase i (registry_assets r) \<and> Find i r \<noteq> None"
proof -
  obtain a where found: "map_of (registry_assets r) i = Some a"
    and r': "r' = AdvanceRevision (r\<lparr>registry_totalSize := registry_totalSize r - fileSize a,
       registry_names := um_erase (logicalName a) (registry_names r),
       registry_assets := um_erase i (registry_assets r)\<rparr>)"
    using assms(2) by (auto simp: RemoveAsset_def split: option.splits)
  have mem: "(i, a) \<in> set (registry_assets r)"
    using found by (rule map_of_SomeD)
  have total: "unat (registry_totalSize r) = unat (fileSize a) + total_of (map snd (um_erase i (registry_assets r)))"
    using assms(1) total_of_erase [OF _ found] by (simp add: registry_ok_def)
  then have sub: "unat (registry_totalSize r - fileSize a) = total_of (map snd (um_erase i (registry_assets r)))"
    by (simp add: unat_sub word_le_nat_alt)
  then have le: "registry_totalSize r - fileSize a \<le> kMaximumTotalDownloadSize"
    using assms(1) total by (simp add: registry_ok_def word_le_nat_alt)
  have inj: "inj_on (\<lambda>e. logicalName (snd e)) (set (registry_assets r))"
    using assms(1) by (simp add: registry_ok_def distinct_map)
  have same: "logicalName (snd e) = logicalName a \<longleftrightarrow> fst e = i" if "e \<in> set (registry_assets r)" for e
  proof
    assume "logicalName (snd e) = logicalName a"
    then show "fst e = i"
      using inj_onD [OF inj _ that mem] by simp
  next
    assume "fst e = i"
    then show "logicalName (snd e) = logicalName a"
      using assms(1) mem that eq_key_imp_eq_value [of "registry_assets r" i a "snd e"]
      by (cases e) (simp add: registry_ok_def)
  qed
  have names: "set (um_erase (logicalName a) (registry_names r)) =
      (\<lambda>e. (logicalName (snd e), fst e)) ` set (um_erase i (registry_assets r))"
    using assms(1) same by (auto simp: set_um_erase registry_ok_def)
  have "distinct (map (\<lambda>e. logicalName (snd e)) (um_erase i (registry_assets r)))"
    using assms(1) by (simp add: registry_ok_def um_erase_def distinct_map_filter)
  moreover have "length (um_erase i (registry_assets r)) \<le> length (registry_assets r)"
    by (simp add: um_erase_def)
  ultimately show ?thesis
    using assms(1) found sub le names
    by (simp add: r' registry_ok_def distinct_um_erase set_um_erase Find_def)
qed

lemma ClearAssets_ok: "registry_ok r \<Longrightarrow> registry_ok (snd (ClearAssets r))"
  by (simp add: ClearAssets_def registry_ok_def asset_limits)

lemma RegisterAsset_refused: "fst (RegisterAsset a r) \<noteq> Added \<Longrightarrow> snd (RegisterAsset a r) = r"
  by (auto simp: RegisterAsset_def)

lemma RemoveAsset_refused: "fst (RemoveAsset i r) \<noteq> Removed \<Longrightarrow> snd (RemoveAsset i r) = r"
  by (auto simp: RemoveAsset_def split: option.splits)

section \<open>Operations in sequence\<close>

datatype RegistryOp = OpRegister AssetDescription | OpRemove u32 | OpClear

primrec registry_step :: "RegistryOp \<Rightarrow> AssetRegistry \<Rightarrow> AssetRegistry" where
  "registry_step (OpRegister a) r = snd (RegisterAsset a r)"
| "registry_step (OpRemove i) r = snd (RemoveAsset i r)"
| "registry_step OpClear r = snd (ClearAssets r)"

lemma registry_step_ok: "registry_ok r \<Longrightarrow> registry_ok (registry_step op r)"
proof (cases op)
  case (OpRegister a)
  then show "registry_ok r \<Longrightarrow> ?thesis"
    using RegisterAsset_Added [of r a] RegisterAsset_refused [of a r]
    by (cases "RegisterAsset a r"; cases "fst (RegisterAsset a r) = Added") auto
next
  case (OpRemove i)
  then show "registry_ok r \<Longrightarrow> ?thesis"
    using RemoveAsset_Removed [of r i] RemoveAsset_refused [of i r]
    by (cases "RemoveAsset i r"; cases "fst (RemoveAsset i r) = Removed") auto
qed (simp add: ClearAssets_ok)

lemma registry_steps_ok: "registry_ok r \<Longrightarrow> registry_ok (fold registry_step ops r)"
  by (induction ops arbitrary: r) (simp_all add: registry_step_ok)

section \<open>The manifest\<close>

lemma registry_assets_distinct:
  assumes "registry_ok r"
  shows "distinct (map assetId (map snd (registry_assets r)))"
proof -
  have "map fst (registry_assets r) = map assetId (map snd (registry_assets r))"
    using entries_id [OF assms] by simp
  then show ?thesis
    using assms unfolding registry_ok_def by metis
qed

lemma registry_names_distinct: "registry_ok r \<Longrightarrow> distinct (map logicalName (map snd (registry_assets r)))"
  by (simp add: registry_ok_def comp_def)

lemma BuildManifest_ok:
  assumes "registry_ok r"
  shows "manifest_ok (BuildManifest r)"
proof -
  let ?as = "map snd (registry_assets r)"
  have mset: "mset (sort_key assetId ?as) = mset ?as"
    by simp
  have "mset (map assetId (sort_key assetId ?as)) = mset (map assetId ?as)"
    "mset (map logicalName (sort_key assetId ?as)) = mset (map logicalName ?as)"
    by (simp_all only: mset_map mset_sort)
  then have "distinct (map assetId (sort_key assetId ?as))" "distinct (map logicalName (sort_key assetId ?as))"
    using registry_assets_distinct [OF assms] registry_names_distinct [OF assms] mset_eq_imp_distinct_iff by blast+
  then show ?thesis
    using assms total_of_mset [OF mset]
    by (simp add: manifest_ok_def BuildManifest_def registry_ok_def entry_ok_def)
qed

lemma BuildManifest_set:
  "registry_ok r \<Longrightarrow> set (manifest_assets (BuildManifest r)) = {a. Find (assetId a) r = Some a}"
  by (auto simp: BuildManifest_def Find_Some_iff image_iff)

text \<open>
  A list of assets that is strictly sorted by id is determined by its set.
\<close>

lemma sorted_ids_unique:
  assumes "sorted (map assetId as)" "distinct (map assetId as)"
    and "sorted (map assetId bs)" "distinct (map assetId bs)" and "set as = set bs"
  shows "as = bs"
proof -
  have "map assetId as = map assetId bs"
    using assms by (intro sorted_distinct_set_unique) simp_all
  moreover have "inj_on assetId (set as \<union> set bs)"
    using assms by (simp add: distinct_map)
  ultimately show ?thesis
    by (rule map_inj_on)
qed

section \<open>The interface of a manifest source\<close>

locale manifest_source =
  fixes source_ok :: "'r \<Rightarrow> bool" and build :: "'r \<Rightarrow> Manifest"
  assumes build_ok: "source_ok r \<Longrightarrow> manifest_ok (build r)"
begin

lemma asset_valid: "source_ok r \<Longrightarrow> a \<in> set (manifest_assets (build r)) \<Longrightarrow> IsAssetDescriptionValid a"
  using build_ok by (simp add: manifest_ok_def)

lemma ids_distinct: "source_ok r \<Longrightarrow> distinct (map assetId (manifest_assets (build r)))"
  using build_ok by (simp add: manifest_ok_def)

lemma asset_count: "source_ok r \<Longrightarrow> length (manifest_assets (build r)) \<le> 256"
  using build_ok by (auto simp: manifest_ok_def kMaximumAssetsPerManifest_def)

end

interpretation registry_source: manifest_source registry_ok BuildManifest
  by unfold_locales (rule BuildManifest_ok)

section \<open>Properties\<close>

text \<open>
  Claim C32. Whatever operations are applied to a new registry, in any order and with any
  arguments, every stored asset is valid and stored under its own id, the name index names
  exactly the stored assets, no two assets share an id or a name, there are at most 256 of
  them, and the running 64-bit total is the exact sum of their sizes and within 512 MiB.
\<close>

theorem registry_invariant: "registry_ok (fold registry_step ops empty_registry)"
  using registry_ok_empty by (rule registry_steps_ok)

text \<open>
  Claim C35. Registration succeeds exactly for a valid asset with a fresh id and a fresh
  name that fits both limits; then it adds that asset and nothing else changes, and in
  every other case the registry stays as it was.
\<close>

theorem RegisterAsset_functional:
  assumes "registry_ok r"
  shows "(fst (RegisterAsset a r) = Added \<longleftrightarrow>
      IsAssetDescriptionValid a \<and> Find (assetId a) r = None \<and>
      (\<forall>i b. Find i r = Some b \<longrightarrow> logicalName b \<noteq> logicalName a) \<and>
      Size r < 256 \<and>
      total_of (map snd (registry_assets r)) + unat (fileSize a) \<le> 512 * 1024 * 1024) \<and>
    (if fst (RegisterAsset a r) = Added
     then \<forall>i. Find i (snd (RegisterAsset a r)) = (if i = assetId a then Some a else Find i r)
     else snd (RegisterAsset a r) = r)"
proof -
  let ?t = "registry_totalSize r" and ?f = "fileSize a"
  have names: "map_of (registry_names r) (logicalName a) = None \<longleftrightarrow>
      (\<forall>i b. Find i r = Some b \<longrightarrow> logicalName b \<noteq> logicalName a)"
  proof -
    have "map_of (registry_names r) (logicalName a) = None \<longleftrightarrow>
        (\<forall>b \<in> set (map snd (registry_assets r)). logicalName b \<noteq> logicalName a)"
      using assms by (force simp: map_of_eq_None_iff registry_ok_def)
    then show ?thesis
      by (auto simp: Find_Some_iff [OF assms])
  qed
  have "unat (kMaximumTotalDownloadSize - ?t) = unat kMaximumTotalDownloadSize - unat ?t"
    using assms by (intro unat_sub) (simp add: registry_ok_def)
  then have size: "?f > kMaximumTotalDownloadSize - ?t \<longleftrightarrow> unat ?t + unat ?f > 512 * 1024 * 1024"
    using assms by (auto simp: registry_ok_def word_less_nat_alt word_le_nat_alt kMaximumTotalDownloadSize_def)
  have result: "fst (RegisterAsset a r) = Added \<longleftrightarrow> IsAssetDescriptionValid a \<and>
      map_of (registry_assets r) (assetId a) = None \<and> map_of (registry_names r) (logicalName a) = None \<and>
      length (registry_assets r) < 256 \<and> \<not> ?f > kMaximumTotalDownloadSize - ?t"
    by (simp add: RegisterAsset_def kMaximumAssetsPerManifest_def)
  have find: "Find i (snd (RegisterAsset a r)) = (if i = assetId a then Some a else Find i r)"
    if "fst (RegisterAsset a r) = Added" for i
    using RegisterAsset_Added [OF assms, of a "snd (RegisterAsset a r)"] that
    by (cases "RegisterAsset a r") (simp add: Find_def)
  have total: "unat ?t = total_of (map snd (registry_assets r))"
    using assms by (simp add: registry_ok_def)
  show ?thesis
    using find RegisterAsset_refused [of a r]
    by (auto simp: result names size total Find_def Size_def)
qed

definition sample_asset :: "u32 \<Rightarrow> string \<Rightarrow> u64 \<Rightarrow> AssetDescription" where
  "sample_asset i name bytes = \<lparr>assetId = i, asset_type = AssetType_Dff, logicalName = name,
     downloadUrl = ''https://a/b'', fileSize = bytes, sha256 = digest_of_bytes (replicate 32 7)\<rparr>"

lemma sample_asset_valid:
  "IsAssetDescriptionValid (sample_asset 1 ''a/b.dff'' 5)" "IsAssetDescriptionValid (sample_asset 2 ''c'' 9)"
  by code_simp+

theorem RegisterAsset_functional_witness:
  "registry_ok empty_registry \<and> fst (RegisterAsset (sample_asset 1 ''a/b.dff'' 5) empty_registry) = Added"
  using RegisterAsset_functional [OF registry_ok_empty, of "sample_asset 1 ''a/b.dff'' 5"] registry_ok_empty
    sample_asset_valid
  by (simp add: Find_def Size_def empty_registry_def) (simp add: sample_asset_def)

text \<open>
  Removal succeeds exactly for an id that is registered; then that asset is gone,
  its name is free again, the total falls by its size, and nothing else changes.
\<close>

theorem RemoveAsset_functional:
  assumes "registry_ok r"
  shows "(case Find i r of
      None \<Rightarrow> RemoveAsset i r = (NotFound, r)
    | Some a \<Rightarrow> fst (RemoveAsset i r) = Removed \<and>
        (\<forall>j. Find j (snd (RemoveAsset i r)) = (if j = i then None else Find j r)) \<and>
        map_of (registry_names (snd (RemoveAsset i r))) (logicalName a) = None \<and>
        unat (registry_totalSize r) = unat (registry_totalSize (snd (RemoveAsset i r))) + unat (fileSize a))"
proof (cases "Find i r")
  case (Some a)
  then have total: "unat (registry_totalSize r) =
      unat (fileSize a) + total_of (map snd (um_erase i (registry_assets r)))"
    using assms total_of_erase [of "registry_assets r" i a] by (simp add: registry_ok_def Find_def)
  then have "unat (registry_totalSize r - fileSize a) + unat (fileSize a) = unat (registry_totalSize r)"
    by (simp add: unat_sub word_le_nat_alt)
  with Some show ?thesis
    by (simp add: RemoveAsset_def Find_def)
qed (simp add: RemoveAsset_def Find_def)

theorem RemoveAsset_functional_witness:
  "Find 3 empty_registry = None \<and> RemoveAsset 3 empty_registry = (NotFound, empty_registry)"
  using RemoveAsset_functional [OF registry_ok_empty, of 3]
  by (simp add: Find_def empty_registry_def)

text \<open>
  Claim C36. The manifest of a registry is canonical: it has a nonzero revision, the assets
  of the registry strictly ordered by id, and their exact total; and it is the only such
  list, so it does not depend on the order in which the hash map is traversed or in which
  the assets were registered.
\<close>

theorem manifest_canonical:
  assumes "registry_ok r"
  shows "manifest_ok (BuildManifest r) \<and> revision (BuildManifest r) = Revision r \<and>
    (manifest_assets (BuildManifest r) = as \<longleftrightarrow>
       sorted_wrt (<) (map assetId as) \<and> set as = {a. Find (assetId a) r = Some a})"
proof -
  have ok: "manifest_ok (BuildManifest r)"
    using assms by (rule BuildManifest_ok)
  have strict: "sorted_wrt (<) (map assetId bs) \<longleftrightarrow> sorted (map assetId bs) \<and> distinct (map assetId bs)" for bs
    by (rule strict_sorted_iff)
  have "manifest_assets (BuildManifest r) = as"
    if "sorted_wrt (<) (map assetId as)" "set as = {a. Find (assetId a) r = Some a}"
    using ok that BuildManifest_set [OF assms]
    by (intro sorted_ids_unique) (simp_all add: strict manifest_ok_def)
  then show ?thesis
    using ok BuildManifest_set [OF assms]
    by (auto simp: strict manifest_ok_def Revision_def) (simp_all add: BuildManifest_def)
qed

theorem manifest_canonical_witness:
  "manifest_assets (BuildManifest (fold registry_step
     [OpRegister (sample_asset 2 ''c'' 9), OpRegister (sample_asset 1 ''a/b.dff'' 5)] empty_registry)) =
   [sample_asset 1 ''a/b.dff'' 5, sample_asset 2 ''c'' 9]"
proof -
  let ?r = "fold registry_step
     [OpRegister (sample_asset 2 ''c'' 9), OpRegister (sample_asset 1 ''a/b.dff'' 5)] empty_registry"
  have ok: "registry_ok ?r"
    using registry_ok_empty by (rule registry_steps_ok)
  have assets: "registry_assets ?r = [(1, sample_asset 1 ''a/b.dff'' 5), (2, sample_asset 2 ''c'' 9)]"
    using sample_asset_valid
    by (simp add: RegisterAsset_def empty_registry_def sample_asset_def um_emplace_def asset_limits)
  have set: "set [sample_asset 1 ''a/b.dff'' 5, sample_asset 2 ''c'' 9] = {a. Find (assetId a) ?r = Some a}"
    unfolding Find_def assets by (auto simp: sample_asset_def split: if_splits)
  have sorted: "sorted_wrt (<) (map assetId [sample_asset 1 ''a/b.dff'' 5, sample_asset 2 ''c'' 9])"
    by (simp add: sample_asset_def)
  show ?thesis
    using manifest_canonical [OF ok, of "[sample_asset 1 ''a/b.dff'' 5, sample_asset 2 ''c'' 9]"] set sorted
    by blast
qed

text \<open>
  Registering an asset and removing it again leaves the same assets in the
  registry: the manifest differs from the original one at most in its revision.
\<close>

theorem register_remove_round_trip:
  assumes "registry_ok r" and "RegisterAsset a r = (Added, r')" and "RemoveAsset (assetId a) r' = (result, r'')"
  shows "result = Removed \<and>
    BuildManifest r'' = (BuildManifest r)\<lparr>revision := Revision r''\<rparr>"
proof -
  have ok': "registry_ok r'" and assets': "registry_assets r' = (assetId a, a) # registry_assets r"
    using RegisterAsset_Added [OF assms(1,2)] by simp_all
  have result: "result = Removed"
    using assms(3) assets' by (auto simp: RemoveAsset_def)
  have ok'': "registry_ok r''" and assets'': "registry_assets r'' = um_erase (assetId a) (registry_assets r')"
    using RemoveAsset_Removed [OF ok'] assms(3) result by blast+
  have "um_erase (assetId a) (registry_assets r) = registry_assets r"
    using ok' assets' by (auto simp: um_erase_def filter_id_conv registry_ok_def rev_image_eqI)
  then have same: "registry_assets r'' = registry_assets r"
    by (simp add: assets'' assets' um_erase_def)
  then have "registry_totalSize r'' = registry_totalSize r"
    using ok'' assms(1) by (simp add: registry_ok_def word_unat_eq_iff)
  with same result show ?thesis
    by (simp add: BuildManifest_def Revision_def)
qed

theorem register_remove_round_trip_witness:
  "\<exists>r'. RemoveAsset 2 (registry_step (OpRegister (sample_asset 2 ''c'' 9)) empty_registry) = (Removed, r') \<and>
     BuildManifest r' = (BuildManifest empty_registry)\<lparr>revision := Revision r'\<rparr>"
proof -
  have add: "RegisterAsset (sample_asset 2 ''c'' 9) empty_registry =
      (Added, registry_step (OpRegister (sample_asset 2 ''c'' 9)) empty_registry)"
    using sample_asset_valid
    by (simp add: RegisterAsset_def empty_registry_def asset_limits) (simp add: sample_asset_def)
  show ?thesis
    using register_remove_round_trip [OF registry_ok_empty add prod.collapse [symmetric]]
    by (metis prod.collapse sample_asset_def AssetDescription.select_convs(1))
qed

end
