(* ===== verification/PlayerCapabilities.thy ===== *)
theory PlayerCapabilities
  imports Version Protocol
begin

text \<open>
  The server's handshake tracker, \<^verbatim>\<open>server/src/player_capabilities.cpp\<close>: one state per
  player and the decision about a \<^verbatim>\<open>Hello\<close>. The map of players is a finite map, since
  the source only looks up, assigns and erases single keys. The lemmas are the invariant of
  the stored states and the decision itself, on every branch.
\<close>

section \<open>Data\<close>

datatype HandshakeState = HandshakeUnknown | HandshakePending | HandshakeCompatible | HandshakeRejected

record PlayerCapabilityState =
  hs_state :: HandshakeState
  hs_runtimeVersion :: RuntimeVersion
  hs_protocolVersion :: u16
  hs_sampVersion :: SampVersion
  declaredCapabilities :: CapabilityFlags
  negotiatedCapabilities :: CapabilityFlags
  rejectReason :: "RejectReason option"

definition default_player :: PlayerCapabilityState where
  "default_player = \<lparr>hs_state = HandshakeUnknown, hs_runtimeVersion = RuntimeVersion 0 0 0,
     hs_protocolVersion = 0, hs_sampVersion = SampVersion_Unknown, declaredCapabilities = 0,
     negotiatedCapabilities = 0, rejectReason = None\<rparr>"

record HandshakePolicy =
  minimumClientRuntime :: RuntimeVersion
  policy_serverRuntimeVersion :: RuntimeVersion
  serverCapabilities :: CapabilityFlags
  requiredCapabilities :: CapabilityFlags

datatype HandshakeResponse = WelcomeResponse Welcome | RejectResponse Reject

record Tracker =
  policy :: HandshakePolicy
  players :: "(u32, PlayerCapabilityState) fmap"

section \<open>Checks\<close>

definition HasPhase2BTransport :: "SampVersion \<Rightarrow> bool" where
  "HasPhase2BTransport version \<longleftrightarrow> version = SampVersion_R1 \<or> version = SampVersion_R3_1"

definition IsRuntimeSupported :: "RuntimeVersion \<Rightarrow> RuntimeVersion \<Rightarrow> bool" where
  "IsRuntimeSupported version minimum =
    (if major version \<noteq> major minimum then False
     else if minor version \<noteq> minor minimum then minor version > minor minimum
     else patch version \<ge> patch minimum)"

definition StateFromHello :: "HandshakeState \<Rightarrow> Hello \<Rightarrow> PlayerCapabilityState" where
  "StateFromHello state hello = default_player\<lparr>hs_state := state,
     hs_runtimeVersion := hello_runtimeVersion hello,
     hs_protocolVersion := hello_protocolVersion hello,
     hs_sampVersion := hello_sampVersion hello,
     declaredCapabilities := hello_capabilities hello\<rparr>"

definition SameRuntimeVersion :: "RuntimeVersion \<Rightarrow> RuntimeVersion \<Rightarrow> bool" where
  "SameRuntimeVersion left right \<longleftrightarrow>
     major left = major right \<and> minor left = minor right \<and> patch left = patch right"

definition SameHello :: "PlayerCapabilityState \<Rightarrow> Hello \<Rightarrow> bool" where
  "SameHello state hello \<longleftrightarrow>
     SameRuntimeVersion (hs_runtimeVersion state) (hello_runtimeVersion hello) \<and>
     hs_protocolVersion state = hello_protocolVersion hello \<and>
     hs_sampVersion state = hello_sampVersion hello \<and>
     declaredCapabilities state = hello_capabilities hello"

section \<open>Operations\<close>

definition PlayerCapabilityTracker :: "HandshakePolicy \<Rightarrow> Tracker" where
  "PlayerCapabilityTracker p = \<lparr>
     policy = p\<lparr>serverCapabilities := serverCapabilities p AND kDeclaredCapabilities,
                requiredCapabilities := requiredCapabilities p AND kDeclaredCapabilities\<rparr>,
     players = fmempty\<rparr>"

definition set_player :: "u32 \<Rightarrow> PlayerCapabilityState \<Rightarrow> Tracker \<Rightarrow> Tracker" where
  "set_player i state t = t\<lparr>players := fmupd i state (players t)\<rparr>"

definition BeginHandshake :: "u32 \<Rightarrow> Tracker \<Rightarrow> Tracker" where
  "BeginHandshake i t = set_player i (default_player\<lparr>hs_state := HandshakePending\<rparr>) t"

definition WelcomeFor :: "Tracker \<Rightarrow> PlayerCapabilityState \<Rightarrow> Welcome" where
  "WelcomeFor t state = \<lparr>welcome_acceptedProtocolVersion = kProtocolVersion,
     welcome_serverRuntimeVersion = policy_serverRuntimeVersion (policy t),
     welcome_serverProtocolVersion = kProtocolVersion,
     welcome_negotiatedCapabilities = negotiatedCapabilities state\<rparr>"

definition tracker_Reject :: "u32 \<Rightarrow> Hello \<Rightarrow> RejectReason \<Rightarrow> Tracker \<Rightarrow> HandshakeResponse \<times> Tracker" where
  "tracker_Reject i hello reason t =
    (RejectResponse \<lparr>reject_reason = reason\<rparr>,
     set_player i ((StateFromHello HandshakeRejected hello)\<lparr>rejectReason := Some reason\<rparr>) t)"

definition RejectPlayer :: "u32 \<Rightarrow> RejectReason \<Rightarrow> Tracker \<Rightarrow> Reject \<times> Tracker" where
  "RejectPlayer i reason t =
    (\<lparr>reject_reason = reason\<rparr>,
     set_player i (default_player\<lparr>hs_state := HandshakeRejected, rejectReason := Some reason\<rparr>) t)"

definition HandleHello :: "u32 \<Rightarrow> Hello \<Rightarrow> Tracker \<Rightarrow> HandshakeResponse \<times> Tracker" where
  "HandleHello i hello t =
    (let current = fmlookup (players t) i
     in if current \<noteq> None \<and> hs_state (the current) = HandshakeCompatible \<and> SameHello (the current) hello
        then (WelcomeResponse (WelcomeFor t (the current)), t)
        else if current \<noteq> None \<and> hs_state (the current) = HandshakeRejected \<and> rejectReason (the current) \<noteq> None
        then (RejectResponse \<lparr>reject_reason = the (rejectReason (the current))\<rparr>, t)
        else if current = None \<or> hs_state (the current) \<noteq> HandshakePending
        then tracker_Reject i hello MalformedHandshake t
        else if hello_protocolVersion hello \<noteq> kProtocolVersion
        then tracker_Reject i hello UnsupportedProtocol t
        else if \<not> IsRuntimeSupported (hello_runtimeVersion hello) (minimumClientRuntime (policy t))
        then tracker_Reject i hello UnsupportedClientRuntime t
        else if FindSampBuild_version (hello_sampVersion hello) = None \<or> \<not> HasPhase2BTransport (hello_sampVersion hello)
        then tracker_Reject i hello UnsupportedSampBuild t
        else if \<not> AreCapabilitiesValid (hello_capabilities hello)
        then tracker_Reject i hello MalformedHandshake t
        else
          let state = (StateFromHello HandshakeCompatible hello)\<lparr>negotiatedCapabilities :=
                hello_capabilities hello AND serverCapabilities (policy t)\<rparr>
          in if negotiatedCapabilities state AND requiredCapabilities (policy t) \<noteq> requiredCapabilities (policy t)
             then tracker_Reject i hello UnsupportedCapabilities t
             else (WelcomeResponse (WelcomeFor t state), set_player i state t))"

definition RemovePlayer :: "u32 \<Rightarrow> Tracker \<Rightarrow> Tracker" where
  "RemovePlayer i t = t\<lparr>players := fmdrop i (players t)\<rparr>"

definition tracker_Reset :: "Tracker \<Rightarrow> Tracker" where
  "tracker_Reset t = t\<lparr>players := fmempty\<rparr>"

definition tracker_GetState :: "u32 \<Rightarrow> Tracker \<Rightarrow> PlayerCapabilityState" where
  "tracker_GetState i t = (case fmlookup (players t) i of None \<Rightarrow> default_player | Some state \<Rightarrow> state)"

definition TrackedPlayerCount :: "Tracker \<Rightarrow> nat" where
  "TrackedPlayerCount t = fcard (fmdom (players t))"

section \<open>The acceptance test against its description\<close>

lemma IsRuntimeSupported_iff:
  "IsRuntimeSupported version minimum \<longleftrightarrow> major version = major minimum \<and> minimum \<le> version"
  by (cases version; cases minimum)
    (auto simp: IsRuntimeSupported_def less_eq_RuntimeVersion_def less_RuntimeVersion_def)

lemma SameHello_StateFromHello [simp]:
  "SameHello ((StateFromHello s hello)\<lparr>negotiatedCapabilities := n\<rparr>) hello"
  by (simp add: SameHello_def StateFromHello_def SameRuntimeVersion_def)

lemma phase2b_builds:
  "FindSampBuild_version v = None \<or> \<not> HasPhase2BTransport v \<longleftrightarrow> v \<noteq> SampVersion_R1 \<and> v \<noteq> SampVersion_R3_1"
  using FindSampBuild_version_iff [of v] by (auto simp: HasPhase2BTransport_def)

text \<open>\<open>flags_subset a b\<close>: every bit of \<open>a\<close> is set in \<open>b\<close>.\<close>

definition flags_subset :: "CapabilityFlags \<Rightarrow> CapabilityFlags \<Rightarrow> bool" where
  "flags_subset a b \<longleftrightarrow> a AND b = a"

lemma flags_bit_lt: "bit (a :: CapabilityFlags) n \<Longrightarrow> n < 32"
  using bit_imp_le_length [of a n] by simp

lemma flags_subset_bits: "flags_subset a b \<longleftrightarrow> (\<forall>n. bit a n \<longrightarrow> bit b n)"
  by (auto simp: flags_subset_def bit_eq_iff bit_and_iff) (meson flags_bit_lt)

lemma AreCapabilitiesValid_subset: "AreCapabilitiesValid c \<longleftrightarrow> flags_subset c kDeclaredCapabilities"
  by (auto simp: AreCapabilitiesValid_def flags_subset_bits bit_eq_iff bit_and_iff bit_not_iff)
    (meson flags_bit_lt)

lemma flags_subset_and [simp]: "flags_subset (a AND b) a" "flags_subset (a AND b) b"
  by (simp_all add: flags_subset_bits bit_and_iff)

lemma flags_subset_trans: "flags_subset a b \<Longrightarrow> flags_subset b c \<Longrightarrow> flags_subset a c"
  by (simp add: flags_subset_bits)

text \<open>What a server accepts, apart from the state of the player.\<close>

definition acceptable :: "HandshakePolicy \<Rightarrow> Hello \<Rightarrow> bool" where
  "acceptable p hello \<longleftrightarrow>
     hello_protocolVersion hello = kProtocolVersion \<and>
     major (hello_runtimeVersion hello) = major (minimumClientRuntime p) \<and>
     minimumClientRuntime p \<le> hello_runtimeVersion hello \<and>
     hello_sampVersion hello \<in> {SampVersion_R1, SampVersion_R3_1} \<and>
     flags_subset (hello_capabilities hello) kDeclaredCapabilities \<and>
     flags_subset (requiredCapabilities p) (hello_capabilities hello) \<and>
     flags_subset (requiredCapabilities p) (serverCapabilities p)"

lemma flags_subset_and_iff: "a AND b AND c = c \<longleftrightarrow> flags_subset c a \<and> flags_subset c b"
  by (auto simp: flags_subset_bits bit_eq_iff bit_and_iff) (meson flags_bit_lt)+

section \<open>Invariant\<close>

definition player_ok :: "HandshakePolicy \<Rightarrow> PlayerCapabilityState \<Rightarrow> bool" where
  "player_ok p s \<longleftrightarrow>
    (case hs_state s of
       HandshakeUnknown \<Rightarrow> False
     | HandshakePending \<Rightarrow> s = default_player\<lparr>hs_state := HandshakePending\<rparr>
     | HandshakeCompatible \<Rightarrow>
         acceptable p \<lparr>hello_runtimeVersion = hs_runtimeVersion s, hello_protocolVersion = hs_protocolVersion s,
           hello_sampVersion = hs_sampVersion s, hello_capabilities = declaredCapabilities s\<rparr> \<and>
         negotiatedCapabilities s = declaredCapabilities s AND serverCapabilities p \<and>
         rejectReason s = None
     | HandshakeRejected \<Rightarrow> rejectReason s \<noteq> None \<and> negotiatedCapabilities s = 0)"

definition policy_ok :: "HandshakePolicy \<Rightarrow> bool" where
  "policy_ok p \<longleftrightarrow> AreCapabilitiesValid (serverCapabilities p) \<and> AreCapabilitiesValid (requiredCapabilities p)"

definition tracker_ok :: "Tracker \<Rightarrow> bool" where
  "tracker_ok t \<longleftrightarrow> policy_ok (policy t) \<and> (\<forall>i s. fmlookup (players t) i = Some s \<longrightarrow> player_ok (policy t) s)"

lemma set_player_select [simp]:
  "policy (set_player i s t) = policy t"
  "fmlookup (players (set_player i s t)) j = (if j = i then Some s else fmlookup (players t) j)"
  by (simp_all add: set_player_def)

lemma set_player_ok: "tracker_ok t \<Longrightarrow> player_ok (policy t) s \<Longrightarrow> tracker_ok (set_player i s t)"
  by (simp add: tracker_ok_def)

lemma tracker_ok_new: "tracker_ok (PlayerCapabilityTracker p)"
  by (simp add: tracker_ok_def PlayerCapabilityTracker_def policy_ok_def AreCapabilitiesValid_subset)

lemma rejected_ok:
  "player_ok p ((StateFromHello HandshakeRejected hello)\<lparr>rejectReason := Some reason\<rparr>)"
  "player_ok p (default_player\<lparr>hs_state := HandshakeRejected, rejectReason := Some reason\<rparr>)"
  by (simp_all add: player_ok_def StateFromHello_def default_player_def)

lemma tracker_Reject_ok: "tracker_ok t \<Longrightarrow> tracker_ok (snd (tracker_Reject i hello reason t))"
  by (simp add: tracker_Reject_def set_player_ok rejected_ok)

lemma compatible_ok:
  "acceptable p hello \<Longrightarrow> player_ok p ((StateFromHello HandshakeCompatible hello)\<lparr>negotiatedCapabilities :=
     hello_capabilities hello AND serverCapabilities p\<rparr>)"
  by (simp add: player_ok_def StateFromHello_def default_player_def acceptable_def)

text \<open>The decision in one equation for each kind of player state.\<close>

lemma HandleHello_pending:
  assumes "fmlookup (players t) i = Some s" "hs_state s = HandshakePending"
  shows "HandleHello i hello t =
    (if hello_protocolVersion hello \<noteq> kProtocolVersion then tracker_Reject i hello UnsupportedProtocol t
     else if major (hello_runtimeVersion hello) \<noteq> major (minimumClientRuntime (policy t)) \<or>
             hello_runtimeVersion hello < minimumClientRuntime (policy t)
     then tracker_Reject i hello UnsupportedClientRuntime t
     else if hello_sampVersion hello \<notin> {SampVersion_R1, SampVersion_R3_1}
     then tracker_Reject i hello UnsupportedSampBuild t
     else if \<not> flags_subset (hello_capabilities hello) kDeclaredCapabilities
     then tracker_Reject i hello MalformedHandshake t
     else if \<not> flags_subset (requiredCapabilities (policy t)) (hello_capabilities hello AND serverCapabilities (policy t))
     then tracker_Reject i hello UnsupportedCapabilities t
     else let state = (StateFromHello HandshakeCompatible hello)\<lparr>negotiatedCapabilities :=
                hello_capabilities hello AND serverCapabilities (policy t)\<rparr>
          in (WelcomeResponse (WelcomeFor t state), set_player i state t))"
  using assms phase2b_builds [of "hello_sampVersion hello"]
  by (simp add: HandleHello_def IsRuntimeSupported_iff not_le AreCapabilitiesValid_subset Let_def
      flags_subset_def and.commute)

lemma HandleHello_acceptable:
  assumes "fmlookup (players t) i = Some s" "hs_state s = HandshakePending"
  shows "(\<exists>w. fst (HandleHello i hello t) = WelcomeResponse w) \<longleftrightarrow> acceptable (policy t) hello"
  by (auto simp: HandleHello_pending [OF assms] tracker_Reject_def acceptable_def Let_def flags_subset_bits bit_and_iff
      not_less)

lemma HandleHello_ok:
  assumes "tracker_ok t"
  shows "tracker_ok (snd (HandleHello i hello t))"
proof (cases "\<exists>s. fmlookup (players t) i = Some s \<and> hs_state s = HandshakePending")
  case True
  then obtain s where s: "fmlookup (players t) i = Some s" "hs_state s = HandshakePending"
    by blast
  show ?thesis
  proof (cases "acceptable (policy t) hello")
    case acc: True
    then have "snd (HandleHello i hello t) = set_player i ((StateFromHello HandshakeCompatible hello)
        \<lparr>negotiatedCapabilities := hello_capabilities hello AND serverCapabilities (policy t)\<rparr>) t"
      by (auto simp: HandleHello_pending [OF s] acceptable_def Let_def not_less flags_subset_bits bit_and_iff)
    then show ?thesis
      using assms acc by (simp add: set_player_ok compatible_ok)
  next
    case False
    then have "\<nexists>w. fst (HandleHello i hello t) = WelcomeResponse w"
      using HandleHello_acceptable [OF s] by blast
    then have "\<exists>reason. HandleHello i hello t = tracker_Reject i hello reason t"
      by (auto simp: HandleHello_pending [OF s] Let_def split: if_splits)
    then show ?thesis
      using assms tracker_Reject_ok by auto
  qed
next
  case False
  then have "snd (HandleHello i hello t) = t \<or> (\<exists>reason. HandleHello i hello t = tracker_Reject i hello reason t)"
    by (auto simp: HandleHello_def Let_def)
  then show ?thesis
    using assms tracker_Reject_ok by auto
qed

section \<open>Sequences of events\<close>

datatype TrackerEvent = Connected u32 | HelloFrom u32 Hello | RejectedBy u32 RejectReason | Disconnected u32 | ServerReset

primrec tracker_step :: "TrackerEvent \<Rightarrow> Tracker \<Rightarrow> Tracker" where
  "tracker_step (Connected i) t = BeginHandshake i t"
| "tracker_step (HelloFrom i hello) t = snd (HandleHello i hello t)"
| "tracker_step (RejectedBy i reason) t = snd (RejectPlayer i reason t)"
| "tracker_step (Disconnected i) t = RemovePlayer i t"
| "tracker_step ServerReset t = tracker_Reset t"

text \<open>The events that end the current handshake of a player, whatever it has come to.\<close>

primrec restarts :: "u32 \<Rightarrow> TrackerEvent \<Rightarrow> bool" where
  "restarts i (Connected j) = (i = j)"
| "restarts i (HelloFrom j hello) = False"
| "restarts i (RejectedBy j reason) = (i = j)"
| "restarts i (Disconnected j) = (i = j)"
| "restarts i ServerReset = True"

lemma tracker_step_ok: "tracker_ok t \<Longrightarrow> tracker_ok (tracker_step e t)"
proof (induction e)
  case (Connected i)
  then show ?case
    by (simp add: BeginHandshake_def set_player_ok player_ok_def default_player_def)
next
  case (RejectedBy i reason)
  then show ?case
    by (simp add: RejectPlayer_def set_player_ok rejected_ok)
next
  case (HelloFrom i hello)
  then show ?case
    by (simp add: HandleHello_ok)
qed (auto simp: RemovePlayer_def tracker_Reset_def tracker_ok_def split: if_splits)

lemma tracker_Reject_select [simp]:
  "fst (tracker_Reject i hello reason t) = RejectResponse \<lparr>reject_reason = reason\<rparr>"
  "policy (snd (tracker_Reject i hello reason t)) = policy t"
  "fmlookup (players (snd (tracker_Reject i hello reason t))) j =
     (if j = i then Some ((StateFromHello HandshakeRejected hello)\<lparr>rejectReason := Some reason\<rparr>)
      else fmlookup (players t) j)"
  by (simp_all add: tracker_Reject_def)

lemma HandleHello_frame:
  "j \<noteq> i \<Longrightarrow> fmlookup (players (snd (HandleHello i hello t))) j = fmlookup (players t) j"
  "policy (snd (HandleHello i hello t)) = policy t"
  by (simp_all add: HandleHello_def Let_def)

lemma HandleHello_rejected:
  "fmlookup (players t) i = Some s \<Longrightarrow> hs_state s = HandshakeRejected \<Longrightarrow> rejectReason s = Some reason \<Longrightarrow>
    HandleHello i hello t = (RejectResponse \<lparr>reject_reason = reason\<rparr>, t)"
  by (simp add: HandleHello_def)

lemma tracker_step_rejected:
  assumes "fmlookup (players t) i = Some s" "hs_state s = HandshakeRejected" "rejectReason s = Some reason"
    and "\<not> restarts i e"
  shows "fmlookup (players (tracker_step e t)) i = Some s"
proof (cases e)
  case (HelloFrom j hello)
  then show ?thesis
    using assms HandleHello_frame(1) [of i j hello t]
    by (cases "i = j") (simp_all add: HandleHello_rejected)
qed (use assms in \<open>auto simp: BeginHandshake_def RejectPlayer_def RemovePlayer_def\<close>)

lemma tracker_steps_rejected:
  assumes "fmlookup (players t) i = Some s" "hs_state s = HandshakeRejected" "rejectReason s = Some reason"
    and "\<forall>e \<in> set es. \<not> restarts i e"
  shows "fmlookup (players (fold tracker_step es t)) i = Some s"
  using assms by (induction es arbitrary: t) (simp_all add: tracker_step_rejected)

lemma lookup_of_state:
  "hs_state (tracker_GetState i t) \<noteq> HandshakeUnknown \<Longrightarrow>
    fmlookup (players t) i = Some (tracker_GetState i t)"
  by (auto simp: tracker_GetState_def default_player_def split: option.splits)

lemma SameHello_iff:
  "SameHello s hello \<longleftrightarrow> hello = \<lparr>hello_runtimeVersion = hs_runtimeVersion s, hello_protocolVersion = hs_protocolVersion s,
     hello_sampVersion = hs_sampVersion s, hello_capabilities = declaredCapabilities s\<rparr>"
  by (cases hello) (auto simp: SameHello_def SameRuntimeVersion_def RuntimeVersion.expand)

text \<open>A welcome leaves the player compatible with exactly the greeting that was accepted.\<close>

lemma HandleHello_welcome:
  assumes "HandleHello i hello t = (WelcomeResponse w, t')"
  shows "\<exists>s. fmlookup (players t') i = Some s \<and> hs_state s = HandshakeCompatible \<and> SameHello s hello \<and>
    w = WelcomeFor t' s"
  using assms
  by (auto simp: HandleHello_def tracker_Reject_def Let_def WelcomeFor_def set_player_def StateFromHello_def
      SameHello_def SameRuntimeVersion_def split: if_splits)

section \<open>Properties\<close>

text \<open>
  In every reachable state of the server's tracker each stored player is pending,
  rejected with a recorded reason, or compatible; and a compatible player declared an
  acceptable runtime, build and set of capabilities and was granted exactly the ones it
  shares with the server, which include all that the server requires.
\<close>

theorem tracker_invariant: "tracker_ok (fold tracker_step es (PlayerCapabilityTracker p))"
proof -
  have "tracker_ok t \<Longrightarrow> tracker_ok (fold tracker_step es t)" for t
    by (induction es arbitrary: t) (simp_all add: tracker_step_ok)
  then show ?thesis
    using tracker_ok_new by blast
qed

text \<open>
  Claim C31. A pending player's greeting is welcomed exactly when it speaks the server's
  protocol, its runtime has the same major version and is not older than the minimum in the
  order of versions, its game build is R1 or R3-1, and its capabilities are known and
  include the required ones that the server offers. A welcome grants the common
  capabilities, every other greeting leaves the player rejected with the reason that was
  sent, and no other player is affected.
\<close>

theorem hello_decision:
  assumes "hs_state (tracker_GetState i t) = HandshakePending"
  shows "(case HandleHello i hello t of
      (WelcomeResponse w, t') \<Rightarrow> acceptable (policy t) hello \<and>
        hs_state (tracker_GetState i t') = HandshakeCompatible \<and>
        negotiatedCapabilities (tracker_GetState i t') = hello_capabilities hello AND serverCapabilities (policy t) \<and>
        welcome_negotiatedCapabilities w = hello_capabilities hello AND serverCapabilities (policy t)
    | (RejectResponse r, t') \<Rightarrow> \<not> acceptable (policy t) hello \<and>
        hs_state (tracker_GetState i t') = HandshakeRejected \<and>
        rejectReason (tracker_GetState i t') = Some (reject_reason r)) \<and>
    (\<forall>j. j \<noteq> i \<longrightarrow> tracker_GetState j (snd (HandleHello i hello t)) = tracker_GetState j t)"
proof -
  have s: "fmlookup (players t) i = Some (tracker_GetState i t)"
    using assms by (intro lookup_of_state) simp
  have acc: "(\<exists>w. fst (HandleHello i hello t) = WelcomeResponse w) \<longleftrightarrow> acceptable (policy t) hello"
    using s assms by (rule HandleHello_acceptable)
  have frame: "\<forall>j. j \<noteq> i \<longrightarrow> tracker_GetState j (snd (HandleHello i hello t)) = tracker_GetState j t"
    using HandleHello_frame(1) by (simp add: tracker_GetState_def)
  obtain response t' where h: "HandleHello i hello t = (response, t')"
    by (cases "HandleHello i hello t")
  show ?thesis
  proof (cases response)
    case (WelcomeResponse w)
    with h acc have "acceptable (policy t) hello" by simp
    moreover have "hs_state (tracker_GetState i t') = HandshakeCompatible \<and>
        negotiatedCapabilities (tracker_GetState i t') = hello_capabilities hello AND serverCapabilities (policy t) \<and>
        welcome_negotiatedCapabilities w = hello_capabilities hello AND serverCapabilities (policy t)"
      using h unfolding WelcomeResponse HandleHello_pending [OF s assms]
      by (auto simp: tracker_Reject_def Let_def tracker_GetState_def WelcomeFor_def StateFromHello_def
          split: if_splits)
    ultimately show ?thesis
      using frame h WelcomeResponse by simp
  next
    case (RejectResponse r)
    with h acc have "\<not> acceptable (policy t) hello" by simp
    moreover have "hs_state (tracker_GetState i t') = HandshakeRejected \<and>
        rejectReason (tracker_GetState i t') = Some (reject_reason r)"
      using h unfolding RejectResponse HandleHello_pending [OF s assms]
      by (auto simp: tracker_Reject_def Let_def tracker_GetState_def StateFromHello_def split: if_splits)
    ultimately show ?thesis
      using frame h RejectResponse by simp
  qed
qed

text \<open>
  A rejection is final for the connection: until the player reconnects,
  disconnects or is rejected anew, every later greeting of that player is answered with the
  same reason, whatever the other players do meanwhile.
\<close>

theorem rejection_is_final:
  assumes "hs_state (tracker_GetState i t) = HandshakeRejected"
    and "rejectReason (tracker_GetState i t) = Some reason"
    and "\<forall>e \<in> set es. \<not> restarts i e"
  shows "fst (HandleHello i hello (fold tracker_step es t)) = RejectResponse \<lparr>reject_reason = reason\<rparr>"
proof -
  have "fmlookup (players t) i = Some (tracker_GetState i t)"
    using assms(1) by (intro lookup_of_state) simp
  then show ?thesis
    using tracker_steps_rejected assms HandleHello_rejected by (metis fst_conv)
qed

text \<open>
  A welcome is idempotent: repeating the accepted greeting returns the same
  welcome and changes nothing, and a different greeting on the same connection ends it with
  a malformed-handshake rejection.
\<close>

theorem welcome_idempotent:
  assumes "HandleHello i hello t = (WelcomeResponse w, t')"
  shows "HandleHello i hello t' = (WelcomeResponse w, t') \<and>
    (hello' \<noteq> hello \<longrightarrow> fst (HandleHello i hello' t') = RejectResponse \<lparr>reject_reason = MalformedHandshake\<rparr> \<and>
       hs_state (tracker_GetState i (snd (HandleHello i hello' t'))) = HandshakeRejected)"
proof -
  obtain s where s: "fmlookup (players t') i = Some s" "hs_state s = HandshakeCompatible" "SameHello s hello"
      "w = WelcomeFor t' s"
    using HandleHello_welcome [OF assms] by blast
  moreover have "hello' \<noteq> hello \<Longrightarrow> \<not> SameHello s hello'"
    using s(3) unfolding SameHello_iff by simp
  ultimately show ?thesis
    by (auto simp: HandleHello_def tracker_GetState_def StateFromHello_def)
qed

section \<open>Witnesses\<close>

definition sample_policy :: HandshakePolicy where
  "sample_policy = \<lparr>minimumClientRuntime = kRuntimeVersion, policy_serverRuntimeVersion = kRuntimeVersion,
     serverCapabilities = -1, requiredCapabilities = 1\<rparr>"

definition sample_hello :: Hello where
  "sample_hello = \<lparr>hello_runtimeVersion = RuntimeVersion 0 3 1, hello_protocolVersion = 1,
     hello_sampVersion = SampVersion_R1, hello_capabilities = 3\<rparr>"

definition sample_tracker :: Tracker where
  "sample_tracker = BeginHandshake 4 (PlayerCapabilityTracker sample_policy)"

lemma sample_pending: "hs_state (tracker_GetState 4 sample_tracker) = HandshakePending"
  by (simp add: sample_tracker_def BeginHandshake_def tracker_GetState_def)

lemma sample_acceptable: "acceptable (policy sample_tracker) sample_hello"
  by (simp add: acceptable_def sample_tracker_def BeginHandshake_def PlayerCapabilityTracker_def sample_policy_def
      sample_hello_def kRuntimeVersion_def kProtocolVersion_def flags_subset_def kDeclaredCapabilities_def
      less_eq_RuntimeVersion_def less_RuntimeVersion_def)

lemma sample_welcome:
  "\<exists>w t'. HandleHello 4 sample_hello sample_tracker = (WelcomeResponse w, t')"
proof -
  have "fmlookup (players sample_tracker) 4 = Some (tracker_GetState 4 sample_tracker)"
    by (intro lookup_of_state) (simp add: sample_pending)
  then show ?thesis
    using HandleHello_acceptable [OF _ sample_pending] sample_acceptable by (metis prod.collapse)
qed

theorem hello_decision_witness:
  "hs_state (tracker_GetState 4 (snd (HandleHello 4 sample_hello sample_tracker))) = HandshakeCompatible"
  using hello_decision [OF sample_pending, of sample_hello] sample_welcome by auto

theorem rejection_is_final_witness:
  "fst (HandleHello 4 sample_hello (fold tracker_step [Connected 5, HelloFrom 4 sample_hello]
     (snd (RejectPlayer 4 MalformedHandshake sample_tracker)))) =
   RejectResponse \<lparr>reject_reason = MalformedHandshake\<rparr>"
  by (rule rejection_is_final) (simp_all add: RejectPlayer_def tracker_GetState_def)

theorem welcome_idempotent_witness:
  "\<exists>w t'. HandleHello 4 sample_hello sample_tracker = (WelcomeResponse w, t') \<and>
     HandleHello 4 sample_hello t' = (WelcomeResponse w, t')"
  using sample_welcome welcome_idempotent by blast

end
