(* ===== verification/TransportFrame.thy ===== *)
theory TransportFrame
  imports Protocol
begin

text \<open>
  The transport frame of \<^verbatim>\<open>shared/src/transport_frame.cpp\<close>: one RakNet packet id
  before a protocol packet. \<open>Inspect\<close> tells the frames that belong to the protocol from
  foreign ones and \<open>Encode\<close> builds them; the lemmas show that each undoes the other.
\<close>

section \<open>Definitions\<close>

definition kRakNetPacketId :: u8 where "kRakNetPacketId = 0x5E"
definition kPrefixSize :: nat where "kPrefixSize = 1"
definition kMaximumFrameSize :: nat where "kMaximumFrameSize = kPrefixSize + kMaximumPacketSize"

datatype FrameKind = Unrelated | CustomModel

record InspectedFrame =
  frame_kind :: FrameKind
  protocolBytes :: ByteView

text \<open>The value-initialised \<^verbatim>\<open>InspectedFrame\<close>, which the source returns as \<^verbatim>\<open>{}\<close>.\<close>

definition no_frame :: InspectedFrame where
  "no_frame = \<lparr>frame_kind = Unrelated, protocolBytes = NullView 0\<rparr>"

definition HasProtocolMagic :: "ByteView \<Rightarrow> bool" where
  "HasProtocolMagic bytes \<longleftrightarrow> \<not> view_is_null bytes \<and> view_size bytes \<ge> 4 \<and>
     view_bytes bytes ! 0 = byte_of_char CHR ''C'' \<and> view_bytes bytes ! 1 = byte_of_char CHR ''M'' \<and>
     view_bytes bytes ! 2 = byte_of_char CHR ''O'' \<and> view_bytes bytes ! 3 = byte_of_char CHR ''D''"

definition InspectProtocolPayload :: "ByteView \<Rightarrow> InspectedFrame" where
  "InspectProtocolPayload bytes =
    (if \<not> HasProtocolMagic bytes then no_frame
     else \<lparr>frame_kind = CustomModel, protocolBytes = bytes\<rparr>)"

definition Inspect :: "ByteView \<Rightarrow> InspectedFrame" where
  "Inspect frame =
    (if view_is_null frame \<or> view_size frame \<le> kPrefixSize \<or> view_bytes frame ! 0 \<noteq> kRakNetPacketId
     then no_frame
     else InspectProtocolPayload (View (drop kPrefixSize (view_bytes frame))))"

definition Encode :: "ByteView \<Rightarrow> bytes option" where
  "Encode bytes =
    (if \<not> HasProtocolMagic bytes \<or> view_size bytes > kMaximumPacketSize then None
     else Some ([kRakNetPacketId] @ view_bytes bytes))"

section \<open>Lemmas\<close>

text \<open>The four characters are the big-endian magic number of the packet header.\<close>

lemma magic_bytes: "u32_bytes kMagic = map byte_of_char ''CMOD''"
  by (simp add: u32_bytes_def kMagic_def byte_of_char_def)

lemma HasProtocolMagic_View:
  "HasProtocolMagic (View bs) \<longleftrightarrow> (\<exists>rest. bs = u32_bytes kMagic @ rest)"
proof
  assume magic: "HasProtocolMagic (View bs)"
  then have "4 \<le> length bs"
    by (simp add: HasProtocolMagic_def)
  then obtain a b c d rest where "bs = [a, b, c, d] @ rest"
    by (auto simp: eval_nat_numeral Suc_le_length_iff)
  with magic show "\<exists>rest. bs = u32_bytes kMagic @ rest"
    by (auto simp: HasProtocolMagic_def magic_bytes)
qed (auto simp: HasProtocolMagic_def magic_bytes)

lemma HasProtocolMagic_packet [simp]: "HasProtocolMagic (View (packet_bytes m))"
  by (auto simp: HasProtocolMagic_View packet_bytes_def)

lemma Inspect_claimed_iff:
  "frame_kind (Inspect (View f)) = CustomModel \<longleftrightarrow>
     (\<exists>rest. f = kRakNetPacketId # u32_bytes kMagic @ rest)"
  by (cases f) (auto simp: Inspect_def InspectProtocolPayload_def no_frame_def kPrefixSize_def
      HasProtocolMagic_View u32_bytes_def)

lemma Inspect_packet:
  "Inspect (View (kRakNetPacketId # u32_bytes kMagic @ rest)) =
     \<lparr>frame_kind = CustomModel, protocolBytes = View (u32_bytes kMagic @ rest)\<rparr>"
  by (auto simp: Inspect_def InspectProtocolPayload_def no_frame_def kPrefixSize_def
      HasProtocolMagic_View u32_bytes_def)

lemma Encode_packet:
  "message_valid m \<Longrightarrow> Encode (View (packet_bytes m)) = Some (kRakNetPacketId # packet_bytes m)"
  using packet_length [of m] by (simp add: Encode_def kMaximumPacketSize_def)

lemma Inspect_packet_bytes:
  "Inspect (View (kRakNetPacketId # packet_bytes m)) =
     \<lparr>frame_kind = CustomModel, protocolBytes = View (packet_bytes m)\<rparr>"
  by (simp add: packet_bytes_def Inspect_packet)

section \<open>Properties\<close>

text \<open>
  The receiver claims a frame exactly when it is the protocol's packet id followed
  by the magic number, and it then hands the bytes behind the id to the decoder; every
  other frame, including an empty and a null one, is reported unrelated with no bytes, so
  foreign traffic is left alone.
\<close>

theorem frame_inspection:
  "Inspect frame =
    (case frame of
       NullView _ \<Rightarrow> \<lparr>frame_kind = Unrelated, protocolBytes = NullView 0\<rparr>
     | View f \<Rightarrow>
         if take 5 f = 0x5E # map byte_of_char ''CMOD''
         then \<lparr>frame_kind = CustomModel, protocolBytes = View (tl f)\<rparr>
         else \<lparr>frame_kind = Unrelated, protocolBytes = NullView 0\<rparr>)"
proof (cases frame)
  case (View f)
  have "take 5 f = 0x5E # map byte_of_char ''CMOD'' \<longleftrightarrow>
      (\<exists>rest. f = kRakNetPacketId # u32_bytes kMagic @ rest)"
    by (auto simp: kRakNetPacketId_def magic_bytes) (metis append_Cons append_take_drop_id)
  moreover have "frame_kind (Inspect (View f)) \<noteq> CustomModel \<Longrightarrow> Inspect (View f) = no_frame"
    by (auto simp: Inspect_def InspectProtocolPayload_def)
  ultimately show ?thesis
    using Inspect_claimed_iff [of f] Inspect_packet by (auto simp: View no_frame_def)
qed (simp add: Inspect_def no_frame_def)

text \<open>
  What the encoder of frames emits is claimed and handed on unchanged by the
  inspection, and every claimed frame within the size limit is one the encoder emits.
\<close>

theorem frame_round_trip:
  "Encode bytes = Some f \<longleftrightarrow>
     Inspect (View f) = \<lparr>frame_kind = CustomModel, protocolBytes = bytes\<rparr> \<and>
     length f \<le> kMaximumFrameSize"
proof (cases bytes)
  case (View bs)
  then show ?thesis
    by (cases f) (auto simp: Encode_def Inspect_def InspectProtocolPayload_def no_frame_def kPrefixSize_def
        kMaximumFrameSize_def HasProtocolMagic_View u32_bytes_def split: if_splits)
qed (auto simp: Encode_def Inspect_def InspectProtocolPayload_def no_frame_def HasProtocolMagic_def
     split: if_splits)

text \<open>
  Every packet the protocol encoder emits can be framed, and the receiver that
  inspects the frame and decodes what it claims gets the message back.
\<close>

theorem framed_packet_delivered:
  assumes "EncodePacket m version = Inr bs"
  shows "\<exists>f. Encode (View bs) = Some f \<and> length f \<le> kMaximumFrameSize \<and>
    frame_kind (Inspect (View f)) = CustomModel \<and>
    DecodePacket (protocolBytes (Inspect (View f))) = Inr \<lparr>packet_protocolVersion = version, packet_message = m\<rparr>"
proof -
  have "message_valid m" "bs = packet_bytes m" "version = kProtocolVersion"
    using assms by (auto simp: EncodePacket_Inr_iff)
  then show ?thesis
    using packet_length [of m]
    by (simp add: Encode_packet Inspect_packet_bytes DecodePacket_packet_bytes kMaximumFrameSize_def
        kMaximumPacketSize_def)
qed

theorem framed_packet_delivered_witness:
  "\<exists>f. Encode (View (packet_bytes (PongMsg \<lparr>pong_nonce = 3\<rparr>))) = Some f \<and> length f \<le> kMaximumFrameSize \<and>
    frame_kind (Inspect (View f)) = CustomModel \<and>
    DecodePacket (protocolBytes (Inspect (View f))) =
      Inr \<lparr>packet_protocolVersion = 1, packet_message = PongMsg \<lparr>pong_nonce = 3\<rparr>\<rparr>"
  using framed_packet_delivered [of "PongMsg \<lparr>pong_nonce = 3\<rparr>" 1
      "packet_bytes (PongMsg \<lparr>pong_nonce = 3\<rparr>)"]
  by (simp add: EncodePacket_Inr_iff kProtocolVersion_def)

end
