(* ===== verification/ServerTransport.thy ===== *)
theory ServerTransport
  imports TransportFrame
begin

text \<open>
  The server's transport, the abstract class of \<^verbatim>\<open>server/include/custommodel/server/transport.hpp\<close>,
  and its two implementations: the unavailable one of \<^verbatim>\<open>server/src/transport.cpp\<close> and the
  open.mp one of \<^verbatim>\<open>server/openmp/component.cpp\<close>.

  The open.mp core is code outside the repository. The model keeps the calls made to it as
  a trace, and the two answers it gives, whether a player exists and whether a packet was
  accepted, are arbitrary functions of that trace.

  The locale \<open>server_transport\<close> is the contract that the handshake endpoint and the asset
  publication rely on: a successful \<^verbatim>\<open>Send\<close> hands the packet over once, a failed one hands
  over nothing.
\<close>

section \<open>The contract\<close>

locale server_transport =
  fixes send :: "u32 \<Rightarrow> ByteView \<Rightarrow> 't \<Rightarrow> bool \<times> 't"
    and sent :: "'t \<Rightarrow> (u32 \<times> bytes) list"
  assumes send_log: "send i view t = (ok, t') \<Longrightarrow>
    sent t' = (if ok then sent t @ [(i, view_bytes view)] else sent t)"
begin

lemma sent_ok: "send i view t = (True, t') \<Longrightarrow> sent t' = sent t @ [(i, view_bytes view)]"
  using send_log by fastforce

lemma sent_failed: "send i view t = (False, t') \<Longrightarrow> sent t' = sent t"
  using send_log by fastforce

lemma sent_grows: "\<exists>more. sent (snd (send i view t)) = sent t @ more"
  using send_log [OF prod.collapse [symmetric], of i view t] by (cases "fst (send i view t)") auto

end

section \<open>The unavailable transport\<close>

text \<open>It has no state and refuses everything.\<close>

definition Unavailable_Initialize :: "unit \<Rightarrow> bool \<times> unit" where
  "Unavailable_Initialize t = (False, t)"

definition Unavailable_Shutdown :: "unit \<Rightarrow> unit" where
  "Unavailable_Shutdown t = t"

definition Unavailable_Send :: "u32 \<Rightarrow> ByteView \<Rightarrow> unit \<Rightarrow> bool \<times> unit" where
  "Unavailable_Send i bytes t = (False, t)"

definition Unavailable_DispatchIncoming :: "u32 \<Rightarrow> ByteView \<Rightarrow> unit \<Rightarrow> bool" where
  "Unavailable_DispatchIncoming i bytes t = False"

definition Unavailable_IsAvailable :: "unit \<Rightarrow> bool" where
  "Unavailable_IsAvailable t = False"

interpretation unavailable: server_transport Unavailable_Send "\<lambda>_. []"
  by unfold_locales (simp add: Unavailable_Send_def)

section \<open>The open.mp transport\<close>

text \<open>
  The three pointers are null or not; \<^verbatim>\<open>core_calls\<close> is the trace of \<^verbatim>\<open>sendPacket\<close> calls
  with their results, oldest first. A call that throws counts as one that returned
  \<^verbatim>\<open>false\<close>, which is how \<^verbatim>\<open>Send\<close> reports it.
\<close>

type_synonym CoreCall = "u32 \<times> bytes \<times> bool"

record OpenMpTransport =
  core_attached :: bool
  handler_set :: bool
  core_calls :: "CoreCall list"

type_synonym PlayerExists = "CoreCall list \<Rightarrow> u32 \<Rightarrow> bool"
type_synonym SendPacket = "CoreCall list \<Rightarrow> u32 \<Rightarrow> bytes \<Rightarrow> bool"

definition new_OpenMpTransport :: OpenMpTransport where
  "new_OpenMpTransport = \<lparr>core_attached = False, handler_set = False, core_calls = []\<rparr>"

definition OpenMp_Attach :: "bool \<Rightarrow> OpenMpTransport \<Rightarrow> OpenMpTransport" where
  "OpenMp_Attach core t = t\<lparr>core_attached := core\<rparr>"

definition OpenMp_Initialize :: "bool \<Rightarrow> OpenMpTransport \<Rightarrow> bool \<times> OpenMpTransport" where
  "OpenMp_Initialize handler t = (core_attached t \<and> handler, t\<lparr>handler_set := handler\<rparr>)"

definition OpenMp_Shutdown :: "OpenMpTransport \<Rightarrow> OpenMpTransport" where
  "OpenMp_Shutdown t = t\<lparr>handler_set := False, core_attached := False\<rparr>"

definition OpenMp_Send ::
  "PlayerExists \<Rightarrow> SendPacket \<Rightarrow> u32 \<Rightarrow> ByteView \<Rightarrow> OpenMpTransport \<Rightarrow> bool \<times> OpenMpTransport" where
  "OpenMp_Send playerExists sendPacket i bytes t =
    (if \<not> core_attached t \<or> view_is_null bytes \<or> view_size bytes = 0 \<or>
        view_size bytes > kMaximumFrameSize \<or> unat i > 2147483647
     then (False, t)
     else if \<not> playerExists (core_calls t) i then (False, t)
     else let copy = view_bytes bytes; ok = sendPacket (core_calls t) i copy
          in (ok, t\<lparr>core_calls := core_calls t @ [(i, copy, ok)]\<rparr>))"

definition OpenMp_IsAvailable :: "OpenMpTransport \<Rightarrow> bool" where
  "OpenMp_IsAvailable t \<longleftrightarrow> core_attached t \<and> handler_set t"

text \<open>\<^verbatim>\<open>DispatchIncoming\<close> runs the handler on the state of its context.\<close>

definition OpenMp_DispatchIncoming ::
  "(u32 \<Rightarrow> ByteView \<Rightarrow> 's \<Rightarrow> 's) \<Rightarrow> u32 \<Rightarrow> ByteView \<Rightarrow> OpenMpTransport \<Rightarrow> 's \<Rightarrow> bool \<times> 's" where
  "OpenMp_DispatchIncoming handler i bytes t s =
    (if \<not> OpenMp_IsAvailable t then (False, s) else (True, handler i bytes s))"

text \<open>The packets the core has accepted.\<close>

definition core_sent :: "OpenMpTransport \<Rightarrow> (u32 \<times> bytes) list" where
  "core_sent t = map (\<lambda>(i, bs, ok). (i, bs)) (filter (\<lambda>(i, bs, ok). ok) (core_calls t))"

interpretation openmp: server_transport "OpenMp_Send playerExists sendPacket" core_sent
  for playerExists sendPacket
  by unfold_locales (auto simp: OpenMp_Send_def core_sent_def Let_def split: if_splits)

lemma OpenMp_Send_frame:
  "core_attached (snd (OpenMp_Send pe sp i bytes t)) = core_attached t"
  "handler_set (snd (OpenMp_Send pe sp i bytes t)) = handler_set t"
  by (simp_all add: OpenMp_Send_def Let_def)

end
