(* ===== verification/HandshakeEndpoint.thy ===== *)
theory HandshakeEndpoint
  imports PlayerCapabilities ServerTransport
begin

text \<open>
  The handshake endpoint, \<^verbatim>\<open>server/src/handshake_endpoint.cpp\<close>: it recognises a frame,
  decodes it, asks the tracker for a decision and sends the answer. It holds references to
  the tracker and the transport, so its operations take and return both; the transport is
  the \<open>send\<close> of the contract \<^const>\<open>server_transport\<close>.
\<close>

section \<open>Definitions\<close>

datatype DispatchResult = DispatchUnrelated | WelcomeSent | RejectSent | SendFailed

type_synonym 't Send = "u32 \<Rightarrow> ByteView \<Rightarrow> 't \<Rightarrow> bool \<times> 't"

fun response_message :: "HandshakeResponse \<Rightarrow> Message" where
  "response_message (WelcomeResponse w) = WelcomeMsg w"
| "response_message (RejectResponse r) = RejectMsg r"

definition SendResponse :: "'t Send \<Rightarrow> u32 \<Rightarrow> HandshakeResponse \<Rightarrow> 't \<Rightarrow> DispatchResult \<times> 't" where
  "SendResponse send i response t =
    (case EncodePacket (response_message response) kProtocolVersion of
       Inl error \<Rightarrow> (SendFailed, t)
     | Inr encoded \<Rightarrow>
         (case Encode (View encoded) of
            None \<Rightarrow> (SendFailed, t)
          | Some frame \<Rightarrow>
              (case send i (View frame) t of
                 (False, t) \<Rightarrow> (SendFailed, t)
               | (True, t) \<Rightarrow>
                   (case response of
                      WelcomeResponse w \<Rightarrow> (WelcomeSent, t)
                    | RejectResponse r \<Rightarrow> (RejectSent, t)))))"

definition OnPlayerConnected :: "u32 \<Rightarrow> Tracker \<Rightarrow> Tracker" where
  "OnPlayerConnected i tracker = BeginHandshake i tracker"

definition OnPlayerDisconnected :: "u32 \<Rightarrow> Tracker \<Rightarrow> Tracker" where
  "OnPlayerDisconnected i tracker = RemovePlayer i tracker"

definition endpoint_Reject :: "'t Send \<Rightarrow> u32 \<Rightarrow> RejectReason \<Rightarrow> Tracker \<times> 't \<Rightarrow> DispatchResult \<times> Tracker \<times> 't" where
  "endpoint_Reject send i reason s =
    (case s of (tracker, t) \<Rightarrow>
      let (reject, tracker) = RejectPlayer i reason tracker;
          (result, t) = SendResponse send i (RejectResponse reject) t
      in (result, tracker, t))"

definition RejectMalformed :: "'t Send \<Rightarrow> u32 \<Rightarrow> Tracker \<times> 't \<Rightarrow> DispatchResult \<times> Tracker \<times> 't" where
  "RejectMalformed send i s = endpoint_Reject send i MalformedHandshake s"

definition DispatchClaimedProtocol ::
  "'t Send \<Rightarrow> u32 \<Rightarrow> ByteView \<Rightarrow> Tracker \<times> 't \<Rightarrow> DispatchResult \<times> Tracker \<times> 't" where
  "DispatchClaimedProtocol send i bytes s =
    (if view_size bytes > kMaximumPacketSize then endpoint_Reject send i MalformedHandshake s
     else case DecodePacket bytes of
         Inl error \<Rightarrow> endpoint_Reject send i
           (if error = UnsupportedProtocolVersion then UnsupportedProtocol else MalformedHandshake) s
       | Inr packet \<Rightarrow>
           (case packet_message packet of
              HelloMsg hello \<Rightarrow>
                (case s of (tracker, t) \<Rightarrow>
                  let (response, tracker) = HandleHello i hello tracker;
                      (result, t) = SendResponse send i response t
                  in (result, tracker, t))
            | _ \<Rightarrow> endpoint_Reject send i MalformedHandshake s))"

definition DispatchIncoming ::
  "'t Send \<Rightarrow> u32 \<Rightarrow> ByteView \<Rightarrow> Tracker \<times> 't \<Rightarrow> DispatchResult \<times> Tracker \<times> 't" where
  "DispatchIncoming send i frame s =
    (let inspected = Inspect frame
     in if frame_kind inspected = Unrelated then (DispatchUnrelated, s)
        else DispatchClaimedProtocol send i (protocolBytes inspected) s)"

definition DispatchProtocolPayload ::
  "'t Send \<Rightarrow> u32 \<Rightarrow> ByteView \<Rightarrow> Tracker \<times> 't \<Rightarrow> DispatchResult \<times> Tracker \<times> 't" where
  "DispatchProtocolPayload send i bytes s =
    (let inspected = InspectProtocolPayload bytes
     in if frame_kind inspected = Unrelated then (DispatchUnrelated, s)
        else DispatchClaimedProtocol send i (protocolBytes inspected) s)"

section \<open>The decision without the transport\<close>

definition endpoint_decision :: "u32 \<Rightarrow> ByteView \<Rightarrow> Tracker \<Rightarrow> HandshakeResponse \<times> Tracker" where
  "endpoint_decision i bytes tracker =
    (let refuse = (\<lambda>reason. case RejectPlayer i reason tracker of (r, tracker) \<Rightarrow> (RejectResponse r, tracker))
     in if view_size bytes > kMaximumPacketSize then refuse MalformedHandshake
        else case DecodePacket bytes of
            Inl error \<Rightarrow> refuse (if error = UnsupportedProtocolVersion then UnsupportedProtocol else MalformedHandshake)
          | Inr packet \<Rightarrow>
              (case packet_message packet of
                 HelloMsg hello \<Rightarrow> HandleHello i hello tracker
               | _ \<Rightarrow> refuse MalformedHandshake))"

lemma DispatchClaimedProtocol_decision:
  "DispatchClaimedProtocol send i bytes (tracker, t) =
    (let (response, tracker') = endpoint_decision i bytes tracker;
         (result, t') = SendResponse send i response t
     in (result, tracker', t'))"
  by (simp add: DispatchClaimedProtocol_def endpoint_decision_def endpoint_Reject_def RejectPlayer_def Let_def
      split: sum.split Message.split)

definition valid_reason :: "RejectReason \<Rightarrow> bool" where
  "valid_reason r \<longleftrightarrow> IsRejectReasonValid (RejectReason_value r)"

definition reasons_ok :: "Tracker \<Rightarrow> bool" where
  "reasons_ok t \<longleftrightarrow> (\<forall>i s r. fmlookup (players t) i = Some s \<longrightarrow> rejectReason s = Some r \<longrightarrow> valid_reason r)"

lemma valid_reasons [simp]: "valid_reason UnsupportedProtocol" "valid_reason UnsupportedClientRuntime"
  "valid_reason UnsupportedSampBuild" "valid_reason MalformedHandshake" "valid_reason UnsupportedCapabilities"
  by (simp_all add: valid_reason_def IsRejectReasonValid_def)

lemma tracker_Reject_reasons: "reasons_ok t \<Longrightarrow> valid_reason reason \<Longrightarrow> reasons_ok (snd (tracker_Reject i hello reason t))"
  by (auto simp: reasons_ok_def tracker_Reject_def StateFromHello_def)

lemma RejectPlayer_reasons: "reasons_ok t \<Longrightarrow> valid_reason reason \<Longrightarrow> reasons_ok (snd (RejectPlayer i reason t))"
  by (auto simp: reasons_ok_def RejectPlayer_def)

lemma HandleHello_reasons:
  assumes "reasons_ok t"
  shows "reasons_ok (snd (HandleHello i hello t))"
proof -
  have "reasons_ok (set_player i ((StateFromHello HandshakeCompatible hello)\<lparr>negotiatedCapabilities := n\<rparr>) t)" for n
    using assms by (simp add: reasons_ok_def StateFromHello_def default_player_def)
  then show ?thesis
    using assms by (simp add: HandleHello_def Let_def tracker_Reject_reasons)
qed

text \<open>What the tracker records is what the answer says.\<close>

definition records :: "HandshakeResponse \<Rightarrow> u32 \<Rightarrow> Tracker \<Rightarrow> bool" where
  "records response i tracker \<longleftrightarrow>
    (\<exists>s. fmlookup (players tracker) i = Some s \<and>
      (case response of
         WelcomeResponse w \<Rightarrow> hs_state s = HandshakeCompatible \<and> w = WelcomeFor tracker s
       | RejectResponse r \<Rightarrow> hs_state s = HandshakeRejected \<and> rejectReason s = Some (reject_reason r)))"

lemma HandleHello_records: "records (fst (HandleHello i hello t)) i (snd (HandleHello i hello t))"
proof (cases "HandleHello i hello t")
  case (Pair response t')
  show ?thesis
  proof (cases response)
    case (WelcomeResponse w)
    then show ?thesis
      using Pair HandleHello_welcome [of i hello t w t'] by (auto simp: records_def)
  next
    case (RejectResponse r)
    then show ?thesis
      using Pair
      by (auto simp: HandleHello_def records_def tracker_Reject_def Let_def StateFromHello_def split: if_splits)
  qed
qed

lemma endpoint_decision_records:
  "records (fst (endpoint_decision i bytes t)) i (snd (endpoint_decision i bytes t))"
  using HandleHello_records
  by (auto simp: endpoint_decision_def RejectPlayer_def Let_def records_def split: sum.split Message.split)

lemma RejectPlayer_ok: "tracker_ok t \<Longrightarrow> tracker_ok (snd (RejectPlayer i reason t))"
  by (simp add: RejectPlayer_def set_player_ok rejected_ok)

lemma endpoint_decision_ok:
  "tracker_ok t \<Longrightarrow> tracker_ok (snd (endpoint_decision i bytes t))"
  "reasons_ok t \<Longrightarrow> reasons_ok (snd (endpoint_decision i bytes t))"
  using HandleHello_ok HandleHello_reasons RejectPlayer_ok RejectPlayer_reasons
  by (auto simp: endpoint_decision_def Let_def case_prod_beta split: sum.split Message.split)

lemma endpoint_decision_frame:
  "j \<noteq> i \<Longrightarrow> fmlookup (players (snd (endpoint_decision i bytes t))) j = fmlookup (players t) j"
  using HandleHello_frame
  by (auto simp: endpoint_decision_def RejectPlayer_def Let_def case_prod_beta split: sum.split Message.split)

text \<open>Every answer the endpoint decides on can be encoded.\<close>

lemma records_valid:
  assumes "records response i t" "tracker_ok t" "reasons_ok t"
  shows "message_valid (response_message response)"
proof (cases response)
  case (WelcomeResponse w)
  then obtain s where s: "fmlookup (players t) i = Some s" "hs_state s = HandshakeCompatible" "w = WelcomeFor t s"
    using assms(1) by (auto simp: records_def)
  then have "player_ok (policy t) s" "policy_ok (policy t)"
    using assms(2) by (auto simp: tracker_ok_def)
  then have "flags_subset (negotiatedCapabilities s) kDeclaredCapabilities"
    using s(2) by (auto simp: player_ok_def policy_ok_def AreCapabilitiesValid_subset flags_subset_bits bit_and_iff)
  then show ?thesis
    by (simp add: WelcomeResponse s(3) WelcomeFor_def AreCapabilitiesValid_subset)
next
  case (RejectResponse r)
  then show ?thesis
    using assms(1,3) by (auto simp: records_def reasons_ok_def valid_reason_def)
qed

section \<open>Sending the answer\<close>

definition frame_of :: "Message \<Rightarrow> bytes" where
  "frame_of m = kRakNetPacketId # packet_bytes m"

fun sent_result :: "HandshakeResponse \<Rightarrow> DispatchResult" where
  "sent_result (WelcomeResponse _) = WelcomeSent"
| "sent_result (RejectResponse _) = RejectSent"

lemma SendResponse_valid:
  assumes "message_valid (response_message response)"
  shows "SendResponse send i response t =
    (case send i (View (frame_of (response_message response))) t of
       (ok, t') \<Rightarrow> (if ok then sent_result response else SendFailed, t'))"
proof -
  have "EncodePacket (response_message response) kProtocolVersion = Inr (packet_bytes (response_message response))"
    using assms by (simp add: EncodePacket_Inr_iff)
  then show ?thesis
    using Encode_packet [OF assms]
    by (simp add: SendResponse_def frame_of_def split: prod.split bool.split HandshakeResponse.split)
qed

text \<open>
  What a dispatch of a claimed frame amounts to: the decision is recorded, and its frame
  is the one packet handed to the transport.
\<close>

definition answered :: "('t \<Rightarrow> (u32 \<times> bytes) list) \<Rightarrow> u32 \<Rightarrow> DispatchResult \<Rightarrow> Tracker \<Rightarrow> 't \<Rightarrow> 't \<Rightarrow> bool" where
  "answered sent i result tracker' t t' \<longleftrightarrow>
    (\<exists>response. records response i tracker' \<and>
      (result = sent_result response \<and> sent t' = sent t @ [(i, frame_of (response_message response))] \<or>
       result = SendFailed \<and> sent t' = sent t))"

context server_transport
begin

lemma DispatchClaimed_answered:
  assumes "tracker_ok tracker" "reasons_ok tracker"
    and "DispatchClaimedProtocol send i bytes (tracker, t) = (result, tracker', t')"
  shows "answered sent i result tracker' t t' \<and> tracker_ok tracker' \<and> reasons_ok tracker' \<and>
    (\<forall>j. j \<noteq> i \<longrightarrow> tracker_GetState j tracker' = tracker_GetState j tracker)"
proof -
  obtain response where d: "endpoint_decision i bytes tracker = (response, tracker')"
    and s: "SendResponse send i response t = (result, t')"
    using assms(3) by (auto simp: DispatchClaimedProtocol_decision Let_def split: prod.splits)
  have rec: "records response i tracker'" and ok: "tracker_ok tracker'" "reasons_ok tracker'"
    using endpoint_decision_records [of i bytes tracker] endpoint_decision_ok [of tracker i bytes] assms(1,2) d
    by simp_all
  have valid: "message_valid (response_message response)"
    using rec ok by (rule records_valid)
  have "result = sent_result response \<and> sent t' = sent t @ [(i, frame_of (response_message response))] \<or>
      result = SendFailed \<and> sent t' = sent t"
    using s send_log unfolding SendResponse_valid [OF valid] by (fastforce split: prod.splits if_splits)
  moreover have "\<forall>j. j \<noteq> i \<longrightarrow> tracker_GetState j tracker' = tracker_GetState j tracker"
    using endpoint_decision_frame [of _ i bytes tracker] d by (simp add: tracker_GetState_def)
  ultimately show ?thesis
    using rec ok by (auto simp: answered_def)
qed

lemma DispatchIncoming_answered:
  assumes "tracker_ok tracker" "reasons_ok tracker"
    and "DispatchIncoming send i frame (tracker, t) = (result, tracker', t')"
  shows "if frame_kind (Inspect frame) = Unrelated
    then result = DispatchUnrelated \<and> tracker' = tracker \<and> t' = t
    else answered sent i result tracker' t t' \<and> tracker_ok tracker' \<and> reasons_ok tracker' \<and>
      (\<forall>j. j \<noteq> i \<longrightarrow> tracker_GetState j tracker' = tracker_GetState j tracker)"
  using assms(3) DispatchClaimed_answered [OF assms(1,2)]
  by (simp add: DispatchIncoming_def Let_def split: if_splits)

end

section \<open>Properties\<close>

text \<open>
  A server that runs the endpoint over the open.mp transport answers every claimed
  frame once: whatever bytes arrive, one welcome or one rejection is handed to the core for
  that player, or the send failed and nothing was; the answer is the state that the tracker
  has recorded for the player, and the other players keep theirs. A frame that is not the
  protocol's changes nothing and is not answered.
\<close>

theorem endpoint_answers_once:
  assumes "tracker_ok tracker" and "reasons_ok tracker"
    and "DispatchIncoming (OpenMp_Send playerExists sendPacket) i frame (tracker, t) = (result, tracker', t')"
  shows "if frame_kind (Inspect frame) = Unrelated
    then result = DispatchUnrelated \<and> tracker' = tracker \<and> t' = t
    else answered core_sent i result tracker' t t' \<and> tracker_ok tracker' \<and> reasons_ok tracker' \<and>
      (\<forall>j. j \<noteq> i \<longrightarrow> tracker_GetState j tracker' = tracker_GetState j tracker)"
  using assms by (rule openmp.DispatchIncoming_answered)

lemma sample_tracker_ok: "tracker_ok sample_tracker" "reasons_ok sample_tracker"
  using tracker_step_ok [OF tracker_ok_new, of "Connected 4" sample_policy]
  by (simp_all add: sample_tracker_def reasons_ok_def BeginHandshake_def PlayerCapabilityTracker_def default_player_def)

definition accepting_transport :: OpenMpTransport where
  "accepting_transport = \<lparr>core_attached = True, handler_set = True, core_calls = []\<rparr>"

theorem endpoint_answers_once_witness:
  "\<exists>result tracker' t'. DispatchIncoming (OpenMp_Send (\<lambda>_ _. True) (\<lambda>_ _ _. True)) 4
     (View (frame_of (HelloMsg sample_hello))) (sample_tracker, accepting_transport) = (result, tracker', t') \<and>
   answered core_sent 4 result tracker' accepting_transport t'"
proof -
  obtain result tracker' t' where d: "DispatchIncoming (OpenMp_Send (\<lambda>_ _. True) (\<lambda>_ _ _. True)) 4
     (View (frame_of (HelloMsg sample_hello))) (sample_tracker, accepting_transport) = (result, tracker', t')"
    by (metis prod_cases3)
  have "frame_kind (Inspect (View (frame_of (HelloMsg sample_hello)))) \<noteq> Unrelated"
    by (simp add: frame_of_def Inspect_packet_bytes)
  then show ?thesis
    using endpoint_answers_once [OF sample_tracker_ok d] d by auto
qed

datatype EndpointEvent = EndpointConnected u32 | EndpointDisconnected u32 | EndpointFrame u32 ByteView

primrec endpoint_step ::
  "'t Send \<Rightarrow> EndpointEvent \<Rightarrow> Tracker \<times> 't \<Rightarrow> Tracker \<times> 't" where
  "endpoint_step send (EndpointConnected i) s = (OnPlayerConnected i (fst s), snd s)"
| "endpoint_step send (EndpointDisconnected i) s = (OnPlayerDisconnected i (fst s), snd s)"
| "endpoint_step send (EndpointFrame i frame) s = snd (DispatchIncoming send i frame s)"

lemma DispatchIncoming_ok:
  assumes "tracker_ok (fst s)" "reasons_ok (fst s)"
  shows "tracker_ok (fst (snd (DispatchIncoming send i frame s))) \<and> reasons_ok (fst (snd (DispatchIncoming send i frame s)))"
  using assms endpoint_decision_ok
  by (cases s) (simp add: DispatchIncoming_def DispatchClaimedProtocol_decision Let_def case_prod_beta)

lemma endpoint_step_ok:
  assumes "tracker_ok (fst s)" "reasons_ok (fst s)"
  shows "tracker_ok (fst (endpoint_step send e s)) \<and> reasons_ok (fst (endpoint_step send e s))"
proof (cases e)
  case (EndpointConnected i)
  then show ?thesis
    using assms tracker_step_ok [of "fst s" "Connected i"]
    by (simp add: OnPlayerConnected_def) (simp add: BeginHandshake_def reasons_ok_def default_player_def)
next
  case (EndpointDisconnected i)
  then show ?thesis
    using assms tracker_step_ok [of "fst s" "Disconnected i"]
    by (simp add: OnPlayerDisconnected_def) (simp add: RemovePlayer_def reasons_ok_def)
next
  case (EndpointFrame i frame)
  then show ?thesis
    using assms by (simp add: DispatchIncoming_ok)
qed

text \<open>
  Over the whole life of the endpoint, for every sequence of connections,
  disconnections and arriving frames and every behaviour of the transport, the tracker
  keeps its invariant and only reasons that the protocol can carry are recorded.
\<close>


theorem endpoint_invariant:
  "tracker_ok (fst (fold (endpoint_step send) es (PlayerCapabilityTracker p, t))) \<and>
   reasons_ok (fst (fold (endpoint_step send) es (PlayerCapabilityTracker p, t)))"
proof -
  have "tracker_ok (fst s) \<and> reasons_ok (fst s) \<Longrightarrow>
      tracker_ok (fst (fold (endpoint_step send) es s)) \<and> reasons_ok (fst (fold (endpoint_step send) es s))" for s
    by (induction es arbitrary: s) (simp_all add: endpoint_step_ok)
  moreover have "reasons_ok (PlayerCapabilityTracker p)"
    by (simp add: reasons_ok_def PlayerCapabilityTracker_def)
  ultimately show ?thesis
    by (simp add: tracker_ok_new)
qed

end
