(* ===== verification/AssetPublication.thy ===== *)
theory AssetPublication
  imports AssetRegistry HandshakeEndpoint
begin

text \<open>
  The publication of the manifest and the reports of the players,
  \<^verbatim>\<open>server/src/asset_publication.cpp\<close>: one asset state per player. The registry the
  object refers to is an argument of the one operation that reads it. The lemmas are the
  invariant of the player states, over every sequence of events, and the exact stream of
  frames that a publication hands to the transport.
\<close>

section \<open>Data\<close>

datatype AssetSessionState = AssetUnknown | AssetHandshakePending | AssetCompatible | ManifestSending
  | ManifestComplete | AssetsReady | AssetRejected

datatype AssetDispatchResult = Ignored | ReadyRecorded | ErrorRecorded | InvalidOrder | ReportInvalidAsset

datatype ManifestSendResult = Sent | AlreadySent | InvalidState | ManifestSendFailed

record PlayerAssetState =
  as_state :: AssetSessionState
  as_manifestRevision :: u64
  expectedAssets :: "u32 fset"
  readyAssets :: "u32 fset"
  failedAssets :: "(u32, AssetErrorReason) fmap"

definition default_assets :: PlayerAssetState where
  "default_assets = \<lparr>as_state = AssetUnknown, as_manifestRevision = 0, expectedAssets = {||},
     readyAssets = {||}, failedAssets = fmempty\<rparr>"

type_synonym Publication = "(u32, PlayerAssetState) fmap"

section \<open>Operations\<close>

definition publication_Send :: "'t Send \<Rightarrow> u32 \<Rightarrow> Message \<Rightarrow> 't \<Rightarrow> bool \<times> 't" where
  "publication_Send send i message t =
    (case EncodePacket message kProtocolVersion of
       Inl error \<Rightarrow> (False, t)
     | Inr encoded \<Rightarrow>
         (case Encode (View encoded) of
            None \<Rightarrow> (False, t)
          | Some framed \<Rightarrow> send i (View framed) t))"

definition publication_OnPlayerConnected :: "u32 \<Rightarrow> Publication \<Rightarrow> Publication" where
  "publication_OnPlayerConnected i ps = fmupd i (default_assets\<lparr>as_state := AssetHandshakePending\<rparr>) ps"

definition publication_OnPlayerDisconnected :: "u32 \<Rightarrow> Publication \<Rightarrow> Publication" where
  "publication_OnPlayerDisconnected i ps = fmdrop i ps"

text \<open>The loop that sends the assets, from \<open>index\<close> on; it stops at the first failure.\<close>

fun send_assets :: "'t Send \<Rightarrow> u32 \<Rightarrow> u64 \<Rightarrow> nat \<Rightarrow> AssetDescription list \<Rightarrow> 't \<Rightarrow> bool \<times> 't" where
  "send_assets send i manifestRevision index [] t = (True, t)"
| "send_assets send i manifestRevision index (asset # assets) t =
    (case publication_Send send i (ManifestAssetMsg \<lparr>item_manifestRevision = manifestRevision,
         item_assetIndex = of_nat index, item_asset = asset\<rparr>) t of
       (False, t) \<Rightarrow> (False, t)
     | (True, t) \<Rightarrow> send_assets send i manifestRevision (index + 1) assets t)"

definition OnPlayerCompatible ::
  "'t Send \<Rightarrow> AssetRegistry \<Rightarrow> u32 \<Rightarrow> Publication \<times> 't \<Rightarrow> ManifestSendResult \<times> Publication \<times> 't" where
  "OnPlayerCompatible send registry i s =
    (case s of (ps, t) \<Rightarrow>
      (case fmlookup ps i of
         None \<Rightarrow> (InvalidState, ps, t)
       | Some found \<Rightarrow>
           if as_state found = ManifestComplete \<or> as_state found = AssetsReady then (AlreadySent, ps, t)
           else if as_state found \<noteq> AssetHandshakePending \<and> as_state found \<noteq> AssetCompatible
           then (InvalidState, ps, t)
           else
             let manifest = BuildManifest registry;
                 state = default_assets\<lparr>as_state := ManifestSending,
                   as_manifestRevision := revision manifest,
                   expectedAssets := fset_of_list (map assetId (manifest_assets manifest))\<rparr>;
                 count = of_nat (length (manifest_assets manifest));
                 failed = (\<lambda>t. (ManifestSendFailed, fmupd i (state\<lparr>as_state := AssetRejected\<rparr>) ps, t))
             in case publication_Send send i (ManifestBeginMsg \<lparr>begin_manifestRevision = revision manifest,
                  begin_assetCount = count, begin_totalDownloadSize = totalDownloadSize manifest\<rparr>) t of
                (False, t) \<Rightarrow> failed t
              | (True, t) \<Rightarrow>
                  (case send_assets send i (revision manifest) 0 (manifest_assets manifest) t of
                     (False, t) \<Rightarrow> failed t
                   | (True, t) \<Rightarrow>
                       (case publication_Send send i (ManifestEndMsg \<lparr>end_manifestRevision = revision manifest,
                          end_assetCount = count, end_totalDownloadSize = totalDownloadSize manifest\<rparr>) t of
                          (False, t) \<Rightarrow> failed t
                        | (True, t) \<Rightarrow>
                            (Sent, fmupd i (state\<lparr>as_state :=
                               if manifest_assets manifest = [] then AssetsReady else ManifestComplete\<rparr>) ps, t)))))"

definition HandleIncoming :: "u32 \<Rightarrow> Message \<Rightarrow> Publication \<Rightarrow> AssetDispatchResult \<times> Publication" where
  "HandleIncoming i message ps =
    (case fmlookup ps i of
       None \<Rightarrow> (InvalidOrder, ps)
     | Some state \<Rightarrow>
         if as_state state \<noteq> ManifestComplete \<and> as_state state \<noteq> AssetsReady then (InvalidOrder, ps)
         else case message of
             AssetReadyMsg ready \<Rightarrow>
               if ready_manifestRevision ready \<noteq> as_manifestRevision state \<or>
                  ready_assetId ready |\<notin>| expectedAssets state
               then (ReportInvalidAsset, ps)
               else
                 let state = state\<lparr>failedAssets := fmdrop (ready_assetId ready) (failedAssets state),
                       readyAssets := finsert (ready_assetId ready) (readyAssets state)\<rparr>;
                     state = (if fcard (readyAssets state) = fcard (expectedAssets state)
                       then state\<lparr>as_state := AssetsReady\<rparr> else state)
                 in (ReadyRecorded, fmupd i state ps)
           | AssetErrorMsg error \<Rightarrow>
               if error_manifestRevision error \<noteq> as_manifestRevision state \<or>
                  error_assetId error |\<notin>| expectedAssets state
               then (ReportInvalidAsset, ps)
               else (ErrorRecorded, fmupd i (state\<lparr>
                 readyAssets := readyAssets state |-| {|error_assetId error|},
                 failedAssets := fmupd (error_assetId error) (error_reason error) (failedAssets state),
                 as_state := ManifestComplete\<rparr>) ps)
           | _ \<Rightarrow> (Ignored, ps))"

definition publication_Reset :: "Publication \<Rightarrow> Publication" where
  "publication_Reset ps = fmempty"

definition publication_GetState :: "u32 \<Rightarrow> Publication \<Rightarrow> PlayerAssetState" where
  "publication_GetState i ps = (case fmlookup ps i of None \<Rightarrow> default_assets | Some state \<Rightarrow> state)"

section \<open>Invariant of the player states\<close>

definition player_assets_ok :: "PlayerAssetState \<Rightarrow> bool" where
  "player_assets_ok s \<longleftrightarrow>
     readyAssets s |\<subseteq>| expectedAssets s \<and>
     fmdom (failedAssets s) |\<subseteq>| expectedAssets s \<and>
     readyAssets s |\<inter>| fmdom (failedAssets s) = {||} \<and>
     (case as_state s of
        AssetHandshakePending \<Rightarrow> expectedAssets s = {||} \<and> as_manifestRevision s = 0
      | ManifestComplete \<Rightarrow> readyAssets s \<noteq> expectedAssets s
      | AssetsReady \<Rightarrow> readyAssets s = expectedAssets s
      | AssetRejected \<Rightarrow> readyAssets s = {||} \<and> failedAssets s = fmempty
      | _ \<Rightarrow> False)"

definition publication_ok :: "Publication \<Rightarrow> bool" where
  "publication_ok ps \<longleftrightarrow> (\<forall>i s. fmlookup ps i = Some s \<longrightarrow> player_assets_ok s)"

lemma publication_ok_upd: "publication_ok ps \<Longrightarrow> player_assets_ok s \<Longrightarrow> publication_ok (fmupd i s ps)"
  by (simp add: publication_ok_def)

text \<open>The state of a player right after the manifest of a registry has gone out.\<close>

definition published :: "Manifest \<Rightarrow> PlayerAssetState" where
  "published m = default_assets\<lparr>
     as_state := if manifest_assets m = [] then AssetsReady else ManifestComplete,
     as_manifestRevision := revision m,
     expectedAssets := fset_of_list (map assetId (manifest_assets m))\<rparr>"

definition publication_failed :: "Manifest \<Rightarrow> PlayerAssetState" where
  "publication_failed m = (published m)\<lparr>as_state := AssetRejected\<rparr>"

lemma published_ok: "player_assets_ok (published m)" "player_assets_ok (publication_failed m)"
proof -
  have "manifest_assets m \<noteq> [] \<Longrightarrow> fset_of_list (map assetId (manifest_assets m)) \<noteq> {||}"
    by (cases "manifest_assets m") simp_all
  then show "player_assets_ok (published m)"
    by (auto simp: player_assets_ok_def published_def default_assets_def)
  show "player_assets_ok (publication_failed m)"
    by (simp add: player_assets_ok_def published_def publication_failed_def default_assets_def)
qed

section \<open>The stream of messages\<close>

definition item_messages :: "u64 \<Rightarrow> nat \<Rightarrow> AssetDescription list \<Rightarrow> Message list" where
  "item_messages manifestRevision index assets =
    map (\<lambda>(k, a). ManifestAssetMsg \<lparr>item_manifestRevision = manifestRevision,
      item_assetIndex = of_nat k, item_asset = a\<rparr>) (enumerate index assets)"

definition manifest_messages :: "Manifest \<Rightarrow> Message list" where
  "manifest_messages m =
    ManifestBeginMsg \<lparr>begin_manifestRevision = revision m,
      begin_assetCount = of_nat (length (manifest_assets m)), begin_totalDownloadSize = totalDownloadSize m\<rparr> #
    item_messages (revision m) 0 (manifest_assets m) @
    [ManifestEndMsg \<lparr>end_manifestRevision = revision m,
      end_assetCount = of_nat (length (manifest_assets m)), end_totalDownloadSize = totalDownloadSize m\<rparr>]"

lemma item_messages_simps [simp]:
  "item_messages r k [] = []"
  "item_messages r k (a # as) = ManifestAssetMsg \<lparr>item_manifestRevision = r, item_assetIndex = of_nat k,
     item_asset = a\<rparr> # item_messages r (Suc k) as"
  by (simp_all add: item_messages_def)

lemma length_item_messages [simp]: "length (item_messages r k as) = length as"
  by (induction as arbitrary: k) simp_all

primrec send_all :: "'t Send \<Rightarrow> u32 \<Rightarrow> Message list \<Rightarrow> 't \<Rightarrow> bool \<times> 't" where
  "send_all send i [] t = (True, t)"
| "send_all send i (m # ms) t =
    (case publication_Send send i m t of (ok, t) \<Rightarrow> if ok then send_all send i ms t else (False, t))"

lemma send_all_append:
  "send_all send i (ms @ ns) t =
    (case send_all send i ms t of (ok, t) \<Rightarrow> if ok then send_all send i ns t else (False, t))"
  by (induction ms arbitrary: t) (auto split: prod.splits)

lemma send_all_single: "send_all send i [m] t = publication_Send send i m t"
  by (auto split: prod.splits)

lemma send_assets_all: "send_assets send i r k as t = send_all send i (item_messages r k as) t"
  by (induction as arbitrary: k t) (auto split: prod.splits bool.splits)

text \<open>Publishing to a player that waits for it, in terms of the stream.\<close>

lemma OnPlayerCompatible_pending:
  assumes "fmlookup ps i = Some s" "as_state s = AssetHandshakePending \<or> as_state s = AssetCompatible"
  shows "OnPlayerCompatible send r i (ps, t) =
    (case send_all send i (manifest_messages (BuildManifest r)) t of
       (ok, t') \<Rightarrow> if ok then (Sent, fmupd i (published (BuildManifest r)) ps, t')
         else (ManifestSendFailed, fmupd i (publication_failed (BuildManifest r)) ps, t'))"
proof -
  have not: "as_state s \<noteq> ManifestComplete" "as_state s \<noteq> AssetsReady"
    "\<not> (as_state s \<noteq> AssetHandshakePending \<and> as_state s \<noteq> AssetCompatible)"
    using assms(2) by auto
  let ?m = "BuildManifest r"
  obtain b1 t1 where 1: "publication_Send send i (ManifestBeginMsg \<lparr>begin_manifestRevision = revision ?m,
      begin_assetCount = of_nat (length (manifest_assets ?m)),
      begin_totalDownloadSize = totalDownloadSize ?m\<rparr>) t = (b1, t1)"
    by (metis surj_pair)
  obtain b2 t2 where 2: "send_all send i (item_messages (revision ?m) 0 (manifest_assets ?m)) t1 = (b2, t2)"
    by (metis surj_pair)
  obtain b3 t3 where 3: "publication_Send send i (ManifestEndMsg \<lparr>end_manifestRevision = revision ?m,
      end_assetCount = of_nat (length (manifest_assets ?m)),
      end_totalDownloadSize = totalDownloadSize ?m\<rparr>) t2 = (b3, t3)"
    by (metis surj_pair)
  have "default_assets\<lparr>as_state := x, as_manifestRevision := y, expectedAssets := z\<rparr>\<lparr>as_state := w\<rparr> =
      default_assets\<lparr>as_state := w, as_manifestRevision := y, expectedAssets := z\<rparr>" for x y z w
    by simp
  note states = this published_def publication_failed_def
  show ?thesis
    unfolding OnPlayerCompatible_def Let_def manifest_messages_def prod.case assms(1) option.case
    using not
    by (cases b1; cases b2; cases b3)
      (simp_all add: 1 2 3 send_assets_all send_all_append states del: item_messages_simps)
qed

lemma OnPlayerCompatible_other:
  assumes "\<And>s. fmlookup ps i = Some s \<Longrightarrow> as_state s \<noteq> AssetHandshakePending \<and> as_state s \<noteq> AssetCompatible"
  shows "\<exists>result. OnPlayerCompatible send r i (ps, t) = (result, ps, t) \<and> result \<in> {AlreadySent, InvalidState}"
  using assms by (auto simp: OnPlayerCompatible_def split: option.split)

text \<open>A manifest of a registry can be encoded completely.\<close>

lemma item_messages_valid:
  "m \<in> set (item_messages r k as) \<Longrightarrow> r \<noteq> 0 \<Longrightarrow> k + length as \<le> 256 \<Longrightarrow>
    \<forall>a \<in> set as. IsAssetDescriptionValid a \<Longrightarrow> message_valid m"
  by (induction as arbitrary: k) (auto simp: unat_of_nat_u32 kMaximumAssetsPerManifest_def)

lemma total_of_pos: "total_of as \<noteq> 0 \<Longrightarrow> as \<noteq> []"
  by auto

lemma manifest_messages_valid:
  assumes "manifest_ok m" "x \<in> set (manifest_messages m)"
  shows "message_valid x"
proof -
  have len: "length (manifest_assets m) \<le> 256"
    using assms(1) by (simp add: manifest_ok_def kMaximumAssetsPerManifest_def)
  then have count: "unat (of_nat (length (manifest_assets m)) :: u32) = length (manifest_assets m)"
    by (simp add: unat_of_nat_u32)
  have "(of_nat (length (manifest_assets m)) :: u32) \<noteq> 0 \<or> totalDownloadSize m = 0"
    using assms(1) count by (cases "manifest_assets m") (auto simp: manifest_ok_def word_unat_eq_iff)
  then have "IsManifestBoundaryValid (revision m) (of_nat (length (manifest_assets m))) (totalDownloadSize m)"
    using assms(1) len count by (simp add: manifest_ok_def IsManifestBoundaryValid_def kMaximumAssetsPerManifest_def)
  moreover have "y \<in> set (item_messages (revision m) 0 (manifest_assets m)) \<Longrightarrow> message_valid y" for y
    using item_messages_valid [of y "revision m" 0 "manifest_assets m"] assms(1) len
    unfolding manifest_ok_def by simp
  ultimately show ?thesis
    using assms(2) by (auto simp: manifest_messages_def)
qed

lemma publication_Send_valid:
  "message_valid m \<Longrightarrow> publication_Send send i m t = send i (View (frame_of m)) t"
  using Encode_packet [of m] by (simp add: publication_Send_def EncodePacket_bytes frame_of_def)

context server_transport
begin

lemma send_all_sent:
  assumes "\<forall>m \<in> set ms. message_valid m" "send_all send i ms t = (ok, t')"
  shows "\<exists>n \<le> length ms. sent t' = sent t @ map (\<lambda>m. (i, frame_of m)) (take n ms) \<and> (ok \<longleftrightarrow> n = length ms)"
  using assms
proof (induction ms arbitrary: t)
  case (Cons m ms)
  obtain ok1 t1 where first: "send i (View (frame_of m)) t = (ok1, t1)"
    by (cases "send i (View (frame_of m)) t")
  show ?case
  proof (cases ok1)
    case True
    then have "send_all send i ms t1 = (ok, t')"
      using Cons.prems first by (simp add: publication_Send_valid)
    then obtain n where "n \<le> length ms" "sent t' = sent t1 @ map (\<lambda>m. (i, frame_of m)) (take n ms)"
        "ok \<longleftrightarrow> n = length ms"
      using Cons.IH [of t1] Cons.prems(1) by auto
    then show ?thesis
      using sent_ok [of i "View (frame_of m)" t t1] first True by (intro exI [of _ "Suc n"]) simp
  next
    case False
    then show ?thesis
      using Cons.prems first sent_failed [of i "View (frame_of m)" t t1]
      by (intro exI [of _ 0]) (simp add: publication_Send_valid)
  qed
qed simp

lemma publication_stream:
  assumes "manifest_ok (BuildManifest r)"
    and "fmlookup ps i = Some s" "as_state s = AssetHandshakePending \<or> as_state s = AssetCompatible"
    and "OnPlayerCompatible send r i (ps, t) = (result, ps', t')"
  shows "\<exists>n \<le> length (manifest_messages (BuildManifest r)).
    sent t' = sent t @ map (\<lambda>m. (i, frame_of m)) (take n (manifest_messages (BuildManifest r))) \<and>
    (if n = length (manifest_messages (BuildManifest r))
     then result = Sent \<and> ps' = fmupd i (published (BuildManifest r)) ps
     else result = ManifestSendFailed \<and> ps' = fmupd i (publication_failed (BuildManifest r)) ps)"
proof -
  obtain ok t1 where sent: "send_all send i (manifest_messages (BuildManifest r)) t = (ok, t1)"
    by (cases "send_all send i (manifest_messages (BuildManifest r)) t")
  then show ?thesis
    using send_all_sent [OF _ sent] manifest_messages_valid [OF assms(1)] assms(4)
    unfolding OnPlayerCompatible_pending [OF assms(2,3)] by (auto split: if_splits)
qed

end

section \<open>Reports\<close>

definition record_ready :: "u32 \<Rightarrow> PlayerAssetState \<Rightarrow> PlayerAssetState" where
  "record_ready a s = s\<lparr>failedAssets := fmdrop a (failedAssets s), readyAssets := finsert a (readyAssets s),
     as_state := if finsert a (readyAssets s) = expectedAssets s then AssetsReady else as_state s\<rparr>"

definition record_error :: "u32 \<Rightarrow> AssetErrorReason \<Rightarrow> PlayerAssetState \<Rightarrow> PlayerAssetState" where
  "record_error a reason s = s\<lparr>readyAssets := readyAssets s |-| {|a|},
     failedAssets := fmupd a reason (failedAssets s), as_state := ManifestComplete\<rparr>"

definition reporting :: "PlayerAssetState \<Rightarrow> bool" where
  "reporting s \<longleftrightarrow> player_assets_ok s \<and> as_state s \<in> {ManifestComplete, AssetsReady}"

lemma reporting_sets:
  "reporting s \<Longrightarrow> readyAssets s |\<subseteq>| expectedAssets s \<and> fmdom (failedAssets s) |\<subseteq>| expectedAssets s \<and>
    readyAssets s |\<inter>| fmdom (failedAssets s) = {||} \<and> (as_state s = AssetsReady \<longleftrightarrow> readyAssets s = expectedAssets s)"
  by (auto simp: reporting_def player_assets_ok_def)

text \<open>The invariant of a reporting player, as one equivalence without the case distinction.\<close>

lemma reporting_iff:
  "reporting s \<longleftrightarrow> readyAssets s |\<subseteq>| expectedAssets s \<and> fmdom (failedAssets s) |\<subseteq>| expectedAssets s \<and>
    readyAssets s |\<inter>| fmdom (failedAssets s) = {||} \<and>
    as_state s = (if readyAssets s = expectedAssets s then AssetsReady else ManifestComplete)"
  by (cases "as_state s") (simp_all add: reporting_def player_assets_ok_def)

lemma record_ready_ok:
  assumes "reporting s" "a |\<in>| expectedAssets s"
  shows "reporting (record_ready a s)"
proof -
  have "readyAssets s = expectedAssets s \<Longrightarrow> finsert a (readyAssets s) = expectedAssets s"
    using assms(2) by (simp add: finsert_absorb)
  moreover have "finsert a (readyAssets s) |\<inter>| (fmdom (failedAssets s) |-| {|a|}) = {||}"
    using assms(1) unfolding reporting_iff by blast
  moreover have "fmdom (failedAssets s) |-| {|a|} |\<subseteq>| expectedAssets s"
    using assms(1) unfolding reporting_iff by blast
  ultimately show ?thesis
    using assms by (simp add: reporting_iff record_ready_def)
qed

lemma record_error_ok:
  assumes "reporting s" "a |\<in>| expectedAssets s"
  shows "reporting (record_error a reason s)"
proof -
  have "readyAssets s |-| {|a|} \<noteq> expectedAssets s"
    using assms(2) by blast
  moreover have "readyAssets s |-| {|a|} |\<subseteq>| expectedAssets s"
    "(readyAssets s |-| {|a|}) |\<inter>| finsert a (fmdom (failedAssets s)) = {||}"
    using assms(1) unfolding reporting_iff by blast+
  ultimately show ?thesis
    using assms by (simp add: reporting_iff record_error_def)
qed

text \<open>What a report does to the player that sent it.\<close>

definition reported :: "Message \<Rightarrow> PlayerAssetState \<Rightarrow> PlayerAssetState" where
  "reported m s =
    (case m of
       AssetReadyMsg r \<Rightarrow> if ready_manifestRevision r = as_manifestRevision s \<and> ready_assetId r |\<in>| expectedAssets s
         then record_ready (ready_assetId r) s else s
     | AssetErrorMsg e \<Rightarrow> if error_manifestRevision e = as_manifestRevision s \<and> error_assetId e |\<in>| expectedAssets s
         then record_error (error_assetId e) (error_reason e) s else s
     | _ \<Rightarrow> s)"

lemma reported_ok: "reporting s \<Longrightarrow> reporting (reported m s)"
  by (auto simp: reported_def record_ready_ok record_error_ok split: Message.split)

lemma reported_fixed: "as_manifestRevision (reported m s) = as_manifestRevision s \<and> expectedAssets (reported m s) = expectedAssets s"
  by (auto simp: reported_def record_ready_def record_error_def split: Message.split)

lemma fmupd_same: "fmlookup ps i = Some s \<Longrightarrow> fmupd i s ps = ps"
  by (rule fmap_ext) auto

lemma HandleIncoming_reported:
  assumes "fmlookup ps i = Some s" "reporting s"
  shows "snd (HandleIncoming i m ps) = fmupd i (reported m s) ps"
proof -
  have state: "\<not> (as_state s \<noteq> ManifestComplete \<and> as_state s \<noteq> AssetsReady)"
    using assms(2) by (auto simp: reporting_def)
  show ?thesis
  proof (cases m)
    case (AssetReadyMsg r)
    have "ready_assetId r |\<in>| expectedAssets s \<Longrightarrow>
        fcard (finsert (ready_assetId r) (readyAssets s)) = fcard (expectedAssets s) \<longleftrightarrow>
        finsert (ready_assetId r) (readyAssets s) = expectedAssets s"
      using reporting_sets [OF assms(2)] by (intro fsubset_fcard_eq) simp
    then show ?thesis
      using state assms(1) AssetReadyMsg
      by (auto simp: HandleIncoming_def reported_def record_ready_def Let_def fmupd_same)
  next
    case (AssetErrorMsg e)
    then show ?thesis
      using state assms(1)
      by (auto simp: HandleIncoming_def reported_def record_error_def fmupd_same)
  qed (use state assms(1) in \<open>simp_all add: HandleIncoming_def reported_def fmupd_same\<close>)
qed

lemma HandleIncoming_other: "j \<noteq> i \<Longrightarrow> fmlookup (snd (HandleIncoming i m ps)) j = fmlookup ps j"
  by (auto simp: HandleIncoming_def Let_def split: option.split Message.split)

lemma HandleIncoming_refused:
  "(\<And>s. fmlookup ps i = Some s \<Longrightarrow> as_state s \<notin> {ManifestComplete, AssetsReady}) \<Longrightarrow>
    HandleIncoming i m ps = (InvalidOrder, ps)"
  by (auto simp: HandleIncoming_def split: option.split)

section \<open>Sequences of events\<close>

datatype PublicationEvent =
    PlayerConnected u32
  | PlayerDisconnected u32
  | PlayerCompatible u32 AssetRegistry
  | PlayerReport u32 Message
  | PublicationReset

primrec publication_step :: "'t Send \<Rightarrow> PublicationEvent \<Rightarrow> Publication \<times> 't \<Rightarrow> Publication \<times> 't" where
  "publication_step send (PlayerConnected i) s = (publication_OnPlayerConnected i (fst s), snd s)"
| "publication_step send (PlayerDisconnected i) s = (publication_OnPlayerDisconnected i (fst s), snd s)"
| "publication_step send (PlayerCompatible i r) s = snd (OnPlayerCompatible send r i s)"
| "publication_step send (PlayerReport i m) s = (snd (HandleIncoming i m (fst s)), snd s)"
| "publication_step send PublicationReset s = (publication_Reset (fst s), snd s)"

lemma publication_step_ok: "publication_ok (fst s) \<Longrightarrow> publication_ok (fst (publication_step send e s))"
proof (cases e)
  assume ok: "publication_ok (fst s)"
  {
    case (PlayerConnected i)
    then show ?thesis
      using ok by (simp add: publication_OnPlayerConnected_def publication_ok_upd player_assets_ok_def default_assets_def)
  next
    case (PlayerDisconnected i)
    then show ?thesis
      using ok by (simp add: publication_OnPlayerDisconnected_def publication_ok_def)
  next
    case (PlayerCompatible i r)
    show ?thesis
    proof (cases "\<exists>p. fmlookup (fst s) i = Some p \<and> (as_state p = AssetHandshakePending \<or> as_state p = AssetCompatible)")
      case True
      then obtain p where "fmlookup (fst s) i = Some p" "as_state p = AssetHandshakePending \<or> as_state p = AssetCompatible"
        by blast
      then show ?thesis
        using OnPlayerCompatible_pending [of "fst s" i p send r "snd s"] ok PlayerCompatible published_ok
        by (simp add: publication_ok_upd split: prod.split)
    next
      case False
      then show ?thesis
        using OnPlayerCompatible_other [of "fst s" i send r "snd s"] ok PlayerCompatible by auto
    qed
  next
    case (PlayerReport i m)
    show ?thesis
    proof (cases "\<exists>p. fmlookup (fst s) i = Some p \<and> reporting p")
      case True
      then obtain p where "fmlookup (fst s) i = Some p" "reporting p"
        by blast
      then show ?thesis
        using ok PlayerReport reported_ok [of p m]
        by (simp add: HandleIncoming_reported publication_ok_upd reporting_def)
    next
      case False
      then have "HandleIncoming i m (fst s) = (InvalidOrder, fst s)"
        using ok by (intro HandleIncoming_refused) (auto simp: reporting_def publication_ok_def)
      then show ?thesis
        using ok PlayerReport by simp
    qed
  next
    case PublicationReset
    then show ?thesis
      by (simp add: publication_Reset_def publication_ok_def)
  }
qed

section \<open>The latest report counts\<close>

definition concerns :: "u64 \<Rightarrow> u32 \<Rightarrow> Message \<Rightarrow> bool" where
  "concerns manifestRevision a m =
    (case m of
       AssetReadyMsg r \<Rightarrow> ready_manifestRevision r = manifestRevision \<and> ready_assetId r = a
     | AssetErrorMsg e \<Rightarrow> error_manifestRevision e = manifestRevision \<and> error_assetId e = a
     | _ \<Rightarrow> False)"

definition latest_report :: "u64 \<Rightarrow> u32 \<Rightarrow> Message list \<Rightarrow> Message option" where
  "latest_report manifestRevision a ms = find (concerns manifestRevision a) (rev ms)"

definition ready_report :: "Message option \<Rightarrow> bool" where
  "ready_report m = (case m of Some (AssetReadyMsg _) \<Rightarrow> True | _ \<Rightarrow> False)"

definition error_report :: "Message option \<Rightarrow> AssetErrorReason option" where
  "error_report m = (case m of Some (AssetErrorMsg e) \<Rightarrow> Some (error_reason e) | _ \<Rightarrow> None)"

lemma latest_report_snoc:
  "latest_report r a (ms @ [m]) = (if concerns r a m then Some m else latest_report r a ms)"
  by (simp add: latest_report_def)

text \<open>A player's state after some reports, told from the reports.\<close>

definition reflects :: "PlayerAssetState \<Rightarrow> PlayerAssetState \<Rightarrow> Message list \<Rightarrow> bool" where
  "reflects s0 s ms \<longleftrightarrow>
     as_manifestRevision s = as_manifestRevision s0 \<and> expectedAssets s = expectedAssets s0 \<and>
     (\<forall>a. a |\<in>| readyAssets s \<longleftrightarrow>
        a |\<in>| expectedAssets s0 \<and> ready_report (latest_report (as_manifestRevision s0) a ms)) \<and>
     (\<forall>a. fmlookup (failedAssets s) a =
        (if a |\<in>| expectedAssets s0 then error_report (latest_report (as_manifestRevision s0) a ms) else None))"

lemma reflects_reported:
  assumes "reflects s0 s ms"
  shows "reflects s0 (reported m s) (ms @ [m])"
proof (cases m)
  case (AssetReadyMsg r)
  then show ?thesis
    using assms
    by (auto simp: reflects_def reported_def record_ready_def latest_report_snoc concerns_def ready_report_def
        error_report_def)
next
  case (AssetErrorMsg e)
  then show ?thesis
    using assms
    by (auto simp: reflects_def reported_def record_error_def latest_report_snoc concerns_def ready_report_def
        error_report_def)
qed (use assms in \<open>auto simp: reflects_def reported_def latest_report_snoc concerns_def\<close>)

lemma published_reporting: "reporting (published m)"
  using published_ok(1) [of m] by (auto simp: reporting_def published_def)

lemma reports_reflected:
  assumes "fmlookup ps i = Some (published m)"
  shows "\<exists>s. fmlookup (fold (\<lambda>x ps. snd (HandleIncoming i x ps)) ms ps) i = Some s \<and> reporting s \<and>
    reflects (published m) s ms"
proof (induction ms rule: rev_induct)
  case Nil
  then show ?case
    using assms published_reporting
    by (simp add: reflects_def latest_report_def ready_report_def error_report_def published_def default_assets_def)
next
  case (snoc x ms)
  then obtain s where s: "fmlookup (fold (\<lambda>x ps. snd (HandleIncoming i x ps)) ms ps) i = Some s" "reporting s"
      "reflects (published m) s ms"
    by blast
  then show ?case
    using reported_ok reflects_reported by (auto simp: HandleIncoming_reported)
qed

section \<open>Properties\<close>

text \<open>
  In every reachable state of the publication, whatever the players report, in
  whatever order, for whatever registries and transport: the ready and the failed assets of
  a player are disjoint parts of the manifest that was sent to it, the player counts as
  ready exactly when all of them are ready, and nothing is recorded for a player before its
  manifest is complete or after a failed publication.
\<close>

theorem publication_invariant: "publication_ok (fst (fold (publication_step send) es (fmempty, t)))"
proof -
  have "publication_ok (fst s) \<Longrightarrow> publication_ok (fst (fold (publication_step send) es s))" for s
    by (induction es arbitrary: s) (simp_all add: publication_step_ok)
  moreover have "publication_ok fmempty"
    by (simp add: publication_ok_def)
  ultimately show ?thesis
    by simp
qed



text \<open>
  A manifest is published at most once for a connection: whatever the first call
  returned, a second one changes neither the players nor the transport, with any registry.
\<close>

theorem publish_once:
  assumes "OnPlayerCompatible send r i (ps, t) = (result, ps', t')"
  shows "\<exists>again. OnPlayerCompatible send r' i (ps', t') = (again, ps', t') \<and> again \<in> {AlreadySent, InvalidState}"
proof (rule OnPlayerCompatible_other)
  fix s
  assume s: "fmlookup ps' i = Some s"
  show "as_state s \<noteq> AssetHandshakePending \<and> as_state s \<noteq> AssetCompatible"
  proof (cases "\<exists>p. fmlookup ps i = Some p \<and> (as_state p = AssetHandshakePending \<or> as_state p = AssetCompatible)")
    case True
    then obtain p where "fmlookup ps i = Some p" "as_state p = AssetHandshakePending \<or> as_state p = AssetCompatible"
      by blast
    then show ?thesis
      using assms s
      by (auto simp: OnPlayerCompatible_pending published_def publication_failed_def split: prod.splits if_splits)
  next
    case False
    then show ?thesis
      using assms s OnPlayerCompatible_other [of ps i send r t] by auto
  qed
qed

theorem publish_once_witness:
  "OnPlayerCompatible Unavailable_Send empty_registry 4 (fmempty, ()) = (InvalidState, fmempty, ())"
proof -
  have "OnPlayerCompatible Unavailable_Send empty_registry 4 (fmempty, ()) = (InvalidState, fmempty, ())"
    by (simp add: OnPlayerCompatible_def)
  from publish_once [OF this, of empty_registry] show ?thesis
    by (auto simp: OnPlayerCompatible_def)
qed

text \<open>
  Claim C33. After a manifest has been published, the record of a player is determined by
  its latest valid report for each asset, however many reports arrive and in whatever
  order: an asset is ready if that report says so, failed with the reported reason if that
  report is an error, and the player counts as ready exactly when the latest report of
  every published asset is a success. Reports for other revisions or assets, and all other
  messages, have no effect.
\<close>

theorem latest_report_counts:
  fixes ms :: "Message list"
  assumes "publication_GetState i ps = published m" and "fmlookup ps i \<noteq> None"
  defines "s \<equiv> publication_GetState i (fold (\<lambda>x ps. snd (HandleIncoming i x ps)) ms ps)"
    and "latest \<equiv> \<lambda>a. latest_report (revision m) a ms"
    and "ids \<equiv> set (map assetId (manifest_assets m))"
  shows "(\<forall>a. a |\<in>| readyAssets s \<longleftrightarrow> a \<in> ids \<and> ready_report (latest a)) \<and>
    (\<forall>a. fmlookup (failedAssets s) a = (if a \<in> ids then error_report (latest a) else None)) \<and>
    (as_state s = AssetsReady \<longleftrightarrow> (\<forall>a \<in> ids. ready_report (latest a)))"
proof -
  have "fmlookup ps i = Some (published m)"
    using assms(1,2) by (auto simp: publication_GetState_def split: option.splits)
  then obtain s' where "fmlookup (fold (\<lambda>x ps. snd (HandleIncoming i x ps)) ms ps) i = Some s'"
    and rep: "reporting s'" and refl: "reflects (published m) s' ms"
    using reports_reflected by blast
  then have s: "s = s'"
    by (simp add: s_def publication_GetState_def)
  have fixed: "as_manifestRevision (published m) = revision m"
    "expectedAssets (published m) = fset_of_list (map assetId (manifest_assets m))"
    by (simp_all add: published_def)
  have ids: "a |\<in>| fset_of_list (map assetId (manifest_assets m)) \<longleftrightarrow> a \<in> ids" for a
    by (simp only: fset_of_list_elem ids_def)
  have ready: "\<forall>a. a |\<in>| readyAssets s' \<longleftrightarrow> a \<in> ids \<and> ready_report (latest a)"
    and failed: "\<forall>a. fmlookup (failedAssets s') a = (if a \<in> ids then error_report (latest a) else None)"
    and expected: "expectedAssets s' = fset_of_list (map assetId (manifest_assets m))"
    using refl unfolding reflects_def fixed ids latest_def by blast+
  have "as_state s' = AssetsReady \<longleftrightarrow> readyAssets s' = expectedAssets s'"
    using rep by (simp add: reporting_iff)
  also have "\<dots> \<longleftrightarrow> (\<forall>a \<in> ids. ready_report (latest a))"
    unfolding fset_eq_iff expected ids using ready by blast
  finally show ?thesis
    using ready failed s by blast
qed

definition sample_publication :: Publication where
  "sample_publication = fmupd 4 (published (BuildManifest
     (snd (RegisterAsset (sample_asset 2 ''c'' 9) empty_registry)))) fmempty"

theorem latest_report_counts_witness:
  "as_state (publication_GetState 4 (fold (\<lambda>x ps. snd (HandleIncoming 4 x ps))
     [AssetErrorMsg \<lparr>error_manifestRevision = 2, error_assetId = 2, error_reason = AssetErrorReason_Timeout\<rparr>,
      AssetReadyMsg \<lparr>ready_manifestRevision = 2, ready_assetId = 2\<rparr>] sample_publication)) = AssetsReady"
proof -
  let ?m = "BuildManifest (snd (RegisterAsset (sample_asset 2 ''c'' 9) empty_registry))"
  have m: "revision ?m = 2" "map assetId (manifest_assets ?m) = [2]"
    using sample_asset_valid
    by (simp_all add: RegisterAsset_def empty_registry_def BuildManifest_def AdvanceRevision_def um_emplace_def asset_limits
        sample_asset_def)
  have "publication_GetState 4 sample_publication = published ?m" "fmlookup sample_publication 4 \<noteq> None"
    by (simp_all add: publication_GetState_def sample_publication_def)
  from latest_report_counts [OF this, of "[AssetErrorMsg \<lparr>error_manifestRevision = 2, error_assetId = 2,
      error_reason = AssetErrorReason_Timeout\<rparr>, AssetReadyMsg \<lparr>ready_manifestRevision = 2, ready_assetId = 2\<rparr>]"] m
  show ?thesis
    by (simp add: latest_report_def concerns_def ready_report_def)
qed

end
