(* ===== verification/ManifestReceiver.thy ===== *)
theory ManifestReceiver
  imports AssetPublication "HOL-Library.Sublist"
begin

text \<open>
  The client's manifest receiver, the class \<^verbatim>\<open>ManifestReceiver\<close> of
  \<^verbatim>\<open>client/src/assets/manager.cpp\<close>. The main result is an equivalence: the receiver
  completes on exactly the message sequences that the server's publication produces for a
  well-formed manifest.
\<close>

section \<open>Definitions\<close>

datatype ManifestInputResult = InputIgnored | InputAccepted | InputComplete | InputInvalidOrder | InputInvalidManifest

datatype ReceiverState = Idle | Receiving | Complete | Failed

record ManifestReceiver =
  rx_state :: ReceiverState
  rx_manifest :: Manifest
  expectedCount :: u32
  manifestBytes :: nat
  rx_assetIds :: "u32 fset"
  rx_logicalNames :: "string fset"
  rx_completed :: "Manifest option"

definition empty_manifest :: Manifest where
  "empty_manifest = \<lparr>revision = 0, manifest_assets = [], totalDownloadSize = 0\<rparr>"

definition receiver_Reset :: "ManifestReceiver \<Rightarrow> ManifestReceiver" where
  "receiver_Reset r = r\<lparr>rx_state := Idle, rx_manifest := empty_manifest, expectedCount := 0, manifestBytes := 0,
     rx_assetIds := {||}, rx_logicalNames := {||}, rx_completed := None\<rparr>"

definition new_receiver :: ManifestReceiver where
  "new_receiver = \<lparr>rx_state = Idle, rx_manifest = empty_manifest, expectedCount = 0, manifestBytes = 0,
     rx_assetIds = {||}, rx_logicalNames = {||}, rx_completed = None\<rparr>"

text \<open>The summation loop of the end message, from a running total; \<^const>\<open>None\<close> is its early return.\<close>

fun sum_sizes :: "AssetDescription list \<Rightarrow> u64 \<Rightarrow> u64 option" where
  "sum_sizes [] tot = Some tot"
| "sum_sizes (a # as) tot =
    (if fileSize a > kMaximumTotalDownloadSize - tot then None else sum_sizes as (tot + fileSize a))"

definition fail :: "ManifestInputResult \<Rightarrow> ManifestReceiver \<Rightarrow> ManifestInputResult \<times> ManifestReceiver" where
  "fail result r = (result, r\<lparr>rx_state := Failed\<rparr>)"

definition handle_begin :: "ManifestBegin \<Rightarrow> ManifestReceiver \<Rightarrow> ManifestInputResult \<times> ManifestReceiver" where
  "handle_begin begin r =
    (if rx_state r \<noteq> Idle then fail InputInvalidOrder r
     else if begin_manifestRevision begin = 0 \<or>
        unat (begin_assetCount begin) > kMaximumAssetsPerManifest \<or>
        begin_totalDownloadSize begin > kMaximumTotalDownloadSize \<or>
        begin_assetCount begin = 0 \<and> begin_totalDownloadSize begin \<noteq> 0
     then fail InputInvalidManifest r
     else (InputAccepted, r\<lparr>
       rx_manifest := empty_manifest\<lparr>revision := begin_manifestRevision begin,
         totalDownloadSize := begin_totalDownloadSize begin\<rparr>,
       expectedCount := begin_assetCount begin,
       manifestBytes := 20,
       rx_assetIds := {||}, rx_logicalNames := {||}, rx_completed := None,
       rx_state := Receiving\<rparr>))"

text \<open>
  The condition of the second test is evaluated from left to right: an asset that is
  invalid or too large is not inserted, one with a known id is not entered by name.
\<close>

definition handle_asset :: "ManifestAsset \<Rightarrow> ManifestReceiver \<Rightarrow> ManifestInputResult \<times> ManifestReceiver" where
  "handle_asset item r =
    (if rx_state r \<noteq> Receiving \<or>
        item_manifestRevision item \<noteq> revision (rx_manifest r) \<or>
        unat (item_assetIndex item) \<noteq> length (manifest_assets (rx_manifest r)) \<or>
        length (manifest_assets (rx_manifest r)) \<ge> unat (expectedCount r)
     then fail InputInvalidOrder r
     else
       let asset = item_asset item; bytes = SerializedAssetBytes asset
       in if \<not> IsAssetDescriptionValid asset \<or> bytes > kMaximumManifestBytes - manifestBytes r
          then fail InputInvalidManifest r
          else if assetId asset |\<in>| rx_assetIds r then fail InputInvalidManifest r
          else
            let r = r\<lparr>rx_assetIds := finsert (assetId asset) (rx_assetIds r)\<rparr>
            in if logicalName asset |\<in>| rx_logicalNames r then fail InputInvalidManifest r
               else (InputAccepted, r\<lparr>
                 rx_logicalNames := finsert (logicalName asset) (rx_logicalNames r),
                 manifestBytes := manifestBytes r + bytes,
                 rx_manifest := (rx_manifest r)\<lparr>manifest_assets := manifest_assets (rx_manifest r) @ [asset]\<rparr>\<rparr>))"

definition handle_end :: "ManifestEnd \<Rightarrow> ManifestReceiver \<Rightarrow> ManifestInputResult \<times> ManifestReceiver" where
  "handle_end end r =
    (if rx_state r \<noteq> Receiving \<or>
        end_manifestRevision end \<noteq> revision (rx_manifest r) \<or>
        end_assetCount end \<noteq> expectedCount r \<or>
        unat (end_assetCount end) \<noteq> length (manifest_assets (rx_manifest r)) \<or>
        end_totalDownloadSize end \<noteq> totalDownloadSize (rx_manifest r)
     then fail InputInvalidOrder r
     else case sum_sizes (manifest_assets (rx_manifest r)) 0 of
         None \<Rightarrow> fail InputInvalidManifest r
       | Some tot \<Rightarrow>
           if tot \<noteq> totalDownloadSize (rx_manifest r) then fail InputInvalidManifest r
           else
             let r = r\<lparr>manifestBytes := manifestBytes r + 20\<rparr>
             in if manifestBytes r > kMaximumManifestBytes then fail InputInvalidManifest r
                else (InputComplete, r\<lparr>rx_completed := Some (rx_manifest r), rx_state := Complete\<rparr>))"

fun receiver_Handle :: "Message \<Rightarrow> ManifestReceiver \<Rightarrow> ManifestInputResult \<times> ManifestReceiver" where
  "receiver_Handle (ManifestBeginMsg begin) r = handle_begin begin r"
| "receiver_Handle (ManifestAssetMsg item) r = handle_asset item r"
| "receiver_Handle (ManifestEndMsg end) r = handle_end end r"
| "receiver_Handle _ r = (InputIgnored, r)"

section \<open>Sums and sizes\<close>

lemma sum_sizes_iff:
  "tot \<le> kMaximumTotalDownloadSize \<Longrightarrow>
    sum_sizes as tot = Some s \<longleftrightarrow>
      unat tot + total_of as \<le> unat kMaximumTotalDownloadSize \<and> unat s = unat tot + total_of as"
proof (induction as arbitrary: tot)
  case Nil
  then show ?case
    by (auto simp: word_unat_eq_iff word_le_nat_alt)
next
  case (Cons a as)
  have sub: "unat (kMaximumTotalDownloadSize - tot) = unat kMaximumTotalDownloadSize - unat tot"
    using Cons.prems by (intro unat_sub)
  show ?case
  proof (cases "fileSize a > kMaximumTotalDownloadSize - tot")
    case True
    then show ?thesis
      using sub by (auto simp: word_less_nat_alt)
  next
    case False
    then show ?thesis
      using total_room [OF Cons.prems False] Cons.IH [of "tot + fileSize a"] by auto
  qed
qed

definition assets_bytes :: "AssetDescription list \<Rightarrow> nat" where
  "assets_bytes as = sum_list (map SerializedAssetBytes as)"

lemma assets_bytes_simps [simp]: "assets_bytes [] = 0" "assets_bytes (as @ [a]) = assets_bytes as + SerializedAssetBytes a"
  by (simp_all add: assets_bytes_def)

lemma SerializedAssetBytes_le: "IsAssetDescriptionValid a \<Longrightarrow> SerializedAssetBytes a \<le> 2206"
  using IsAssetDescriptionValid_bounds [of a] SerializedAssetBytes_valid [of a] by simp

lemma assets_bytes_le: "\<forall>a \<in> set as. IsAssetDescriptionValid a \<Longrightarrow> assets_bytes as \<le> 2206 * length as"
proof (induction as)
  case (Cons a as)
  then show ?case
    using SerializedAssetBytes_le [of a] by (simp add: assets_bytes_def)
qed simp

section \<open>Well-formed manifests and the phase of the receiver\<close>

definition received_ok :: "Manifest \<Rightarrow> bool" where
  "received_ok m \<longleftrightarrow> revision m \<noteq> 0 \<and>
     (\<forall>a \<in> set (manifest_assets m). IsAssetDescriptionValid a) \<and>
     distinct (map assetId (manifest_assets m)) \<and>
     distinct (map logicalName (manifest_assets m)) \<and>
     length (manifest_assets m) \<le> kMaximumAssetsPerManifest \<and>
     unat (totalDownloadSize m) = total_of (manifest_assets m) \<and>
     totalDownloadSize m \<le> kMaximumTotalDownloadSize"

lemma manifest_ok_received: "manifest_ok m \<Longrightarrow> received_ok m"
  by (simp add: manifest_ok_def received_ok_def)

text \<open>The receiver has accepted a begin message and the assets it holds.\<close>

definition receiving :: "ManifestReceiver \<Rightarrow> bool" where
  "receiving r \<longleftrightarrow>
     rx_state r = Receiving \<and> rx_completed r = None \<and> revision (rx_manifest r) \<noteq> 0 \<and>
     unat (expectedCount r) \<le> 256 \<and>
     totalDownloadSize (rx_manifest r) \<le> kMaximumTotalDownloadSize \<and>
     length (manifest_assets (rx_manifest r)) \<le> unat (expectedCount r) \<and>
     (\<forall>a \<in> set (manifest_assets (rx_manifest r)). IsAssetDescriptionValid a) \<and>
     distinct (map assetId (manifest_assets (rx_manifest r))) \<and>
     distinct (map logicalName (manifest_assets (rx_manifest r))) \<and>
     fset (rx_assetIds r) = assetId ` set (manifest_assets (rx_manifest r)) \<and>
     fset (rx_logicalNames r) = logicalName ` set (manifest_assets (rx_manifest r)) \<and>
     manifestBytes r = 20 + assets_bytes (manifest_assets (rx_manifest r))"

text \<open>The byte limit cannot be reached before the count limit.\<close>

lemma receiving_room:
  assumes "receiving r" "length (manifest_assets (rx_manifest r)) < unat (expectedCount r)"
    "IsAssetDescriptionValid a"
  shows "\<not> SerializedAssetBytes a > kMaximumManifestBytes - manifestBytes r"
proof -
  have "assets_bytes (manifest_assets (rx_manifest r)) \<le> 2206 * length (manifest_assets (rx_manifest r))"
    using assms(1) by (intro assets_bytes_le) (simp add: receiving_def)
  moreover have "length (manifest_assets (rx_manifest r)) \<le> 255"
    using assms(1,2) by (simp add: receiving_def)
  ultimately show ?thesis
    using assms(1) SerializedAssetBytes_le [OF assms(3)] by (simp add: receiving_def kMaximumManifestBytes_def)
qed

definition accept_asset :: "AssetDescription \<Rightarrow> ManifestReceiver \<Rightarrow> ManifestReceiver" where
  "accept_asset a r = r\<lparr>rx_assetIds := finsert (assetId a) (rx_assetIds r),
     rx_logicalNames := finsert (logicalName a) (rx_logicalNames r),
     manifestBytes := manifestBytes r + SerializedAssetBytes a,
     rx_manifest := (rx_manifest r)\<lparr>manifest_assets := manifest_assets (rx_manifest r) @ [a]\<rparr>\<rparr>"

definition acceptable_item :: "ManifestAsset \<Rightarrow> ManifestReceiver \<Rightarrow> bool" where
  "acceptable_item item r \<longleftrightarrow>
     item_manifestRevision item = revision (rx_manifest r) \<and>
     unat (item_assetIndex item) = length (manifest_assets (rx_manifest r)) \<and>
     length (manifest_assets (rx_manifest r)) < unat (expectedCount r) \<and>
     IsAssetDescriptionValid (item_asset item) \<and>
     assetId (item_asset item) \<notin> assetId ` set (manifest_assets (rx_manifest r)) \<and>
     logicalName (item_asset item) \<notin> logicalName ` set (manifest_assets (rx_manifest r))"

lemma handle_asset_accepts:
  assumes "receiving r" "acceptable_item item r"
  shows "handle_asset item r = (InputAccepted, accept_asset (item_asset item) r)"
  using assms receiving_room [OF assms(1), of "item_asset item"]
  by (simp add: handle_asset_def acceptable_item_def accept_asset_def receiving_def Let_def)

lemma handle_asset_refuses:
  assumes "receiving r \<longrightarrow> \<not> acceptable_item item r" "rx_state r = Receiving \<longrightarrow> receiving r"
  shows "rx_state (snd (handle_asset item r)) = Failed \<and> rx_completed (snd (handle_asset item r)) = rx_completed r"
  using assms
  by (auto simp: handle_asset_def acceptable_item_def receiving_def Let_def fail_def)

lemma accept_asset_receiving:
  "receiving r \<Longrightarrow> acceptable_item item r \<Longrightarrow> receiving (accept_asset (item_asset item) r)"
  by (auto simp: receiving_def acceptable_item_def accept_asset_def)

text \<open>A receiver that is in the middle of a manifest and completes it.\<close>

definition acceptable_end :: "ManifestEnd \<Rightarrow> ManifestReceiver \<Rightarrow> bool" where
  "acceptable_end e r \<longleftrightarrow>
     e = \<lparr>end_manifestRevision = revision (rx_manifest r), end_assetCount = expectedCount r,
          end_totalDownloadSize = totalDownloadSize (rx_manifest r)\<rparr> \<and>
     unat (expectedCount r) = length (manifest_assets (rx_manifest r)) \<and>
     unat (totalDownloadSize (rx_manifest r)) = total_of (manifest_assets (rx_manifest r))"

definition complete :: "ManifestReceiver \<Rightarrow> ManifestReceiver" where
  "complete r = r\<lparr>manifestBytes := manifestBytes r + 20, rx_completed := Some (rx_manifest r), rx_state := Complete\<rparr>"

lemma receiving_end_room: "receiving r \<Longrightarrow> \<not> manifestBytes r + 20 > kMaximumManifestBytes"
  using assets_bytes_le [of "manifest_assets (rx_manifest r)"]
  by (simp add: receiving_def kMaximumManifestBytes_def)

lemma sum_sizes_receiving:
  assumes "receiving r"
  shows "sum_sizes (manifest_assets (rx_manifest r)) 0 = Some (totalDownloadSize (rx_manifest r)) \<longleftrightarrow>
    unat (totalDownloadSize (rx_manifest r)) = total_of (manifest_assets (rx_manifest r))"
  using assms sum_sizes_iff [of 0 "manifest_assets (rx_manifest r)"]
  by (auto simp: receiving_def word_le_nat_alt)

lemma handle_end_accepts:
  assumes "receiving r" "acceptable_end e r"
  shows "handle_end e r = (InputComplete, complete r)"
  using assms receiving_end_room [OF assms(1)] sum_sizes_receiving [OF assms(1)]
  by (simp add: handle_end_def acceptable_end_def receiving_def complete_def Let_def)

lemma handle_end_refuses:
  assumes "receiving r \<longrightarrow> \<not> acceptable_end e r" "rx_state r = Receiving \<longrightarrow> receiving r"
  shows "rx_state (snd (handle_end e r)) = Failed \<and> rx_completed (snd (handle_end e r)) = rx_completed r"
proof (cases "rx_state r = Receiving \<and> end_manifestRevision e = revision (rx_manifest r) \<and>
    end_assetCount e = expectedCount r \<and> unat (end_assetCount e) = length (manifest_assets (rx_manifest r)) \<and>
    end_totalDownloadSize e = totalDownloadSize (rx_manifest r)")
  case True
  then have rec: "receiving r" and "\<not> acceptable_end e r"
    using assms by simp_all
  with True have "sum_sizes (manifest_assets (rx_manifest r)) 0 \<noteq> Some (totalDownloadSize (rx_manifest r))"
    using sum_sizes_receiving [OF rec] by (auto simp: acceptable_end_def)
  then show ?thesis
    using True by (auto simp: handle_end_def fail_def split: option.splits)
next
  case False
  then show ?thesis
    by (auto simp: handle_end_def fail_def)
qed

section \<open>Streams of manifest messages\<close>

lemma of_nat_of_unat: "unat (x :: u32) = n \<Longrightarrow> x = of_nat n"
  by auto

fun is_manifest :: "Message \<Rightarrow> bool" where
  "is_manifest (ManifestBeginMsg _) = True"
| "is_manifest (ManifestAssetMsg _) = True"
| "is_manifest (ManifestEndMsg _) = True"
| "is_manifest _ = False"

definition begin_message :: "u64 \<Rightarrow> u32 \<Rightarrow> u64 \<Rightarrow> Message" where
  "begin_message r c t = ManifestBeginMsg \<lparr>begin_manifestRevision = r, begin_assetCount = c, begin_totalDownloadSize = t\<rparr>"

definition item_message :: "u64 \<Rightarrow> nat \<Rightarrow> AssetDescription \<Rightarrow> Message" where
  "item_message r k a = ManifestAssetMsg \<lparr>item_manifestRevision = r, item_assetIndex = of_nat k, item_asset = a\<rparr>"

definition end_message :: "Manifest \<Rightarrow> Message" where
  "end_message m = ManifestEndMsg \<lparr>end_manifestRevision = revision m,
     end_assetCount = of_nat (length (manifest_assets m)), end_totalDownloadSize = totalDownloadSize m\<rparr>"

lemma manifest_messages_alt:
  "manifest_messages m = begin_message (revision m) (of_nat (length (manifest_assets m))) (totalDownloadSize m) #
     item_messages (revision m) 0 (manifest_assets m) @ [end_message m]"
  by (simp add: manifest_messages_def begin_message_def end_message_def)

lemma item_messages_Cons: "item_messages r k (a # as) = item_message r k a # item_messages r (Suc k) as"
  by (simp add: item_message_def)

lemma item_messages_snoc: "item_messages r k (as @ [a]) = item_messages r k as @ [item_message r (k + length as) a]"
  by (induction as arbitrary: k) (simp_all add: item_message_def)

lemma message_distinct [simp]:
  "begin_message r c t \<noteq> item_message r' k a" "item_message r' k a \<noteq> begin_message r c t"
  "begin_message r c t \<noteq> end_message m" "end_message m \<noteq> begin_message r c t"
  "item_message r k a \<noteq> end_message m" "end_message m \<noteq> item_message r k a"
  by (simp_all add: begin_message_def item_message_def end_message_def)

lemma items_prefix:
  "prefix (item_messages r k as @ [x]) (item_messages r' k bs @ [end_message m]) \<Longrightarrow>
    (\<exists>a cs. bs = as @ a # cs \<and> x = item_message r' (k + length as) a) \<or> bs = as \<and> x = end_message m"
proof (induction as arbitrary: k bs)
  case Nil
  then show ?case
    by (cases bs) (simp_all add: item_message_def)
next
  case (Cons a as)
  then obtain b cs where bs: "bs = b # cs"
    by (cases bs) (simp_all add: item_message_def [symmetric])
  have "a = b" "prefix (item_messages r (Suc k) as @ [x]) (item_messages r' (Suc k) cs @ [end_message m])"
    using Cons.prems by (auto simp: bs simp del: prefix_snoc)
  then show ?case
    using Cons.IH [of "Suc k" cs] by (auto simp: bs simp del: prefix_snoc)
qed

lemma stream_prefix:
  assumes "prefix (begin_message r c t # item_messages r 0 as @ [x]) (manifest_messages m)"
  shows "r = revision m \<and> c = of_nat (length (manifest_assets m)) \<and> t = totalDownloadSize m \<and>
    ((\<exists>a cs. manifest_assets m = as @ a # cs \<and> x = item_message (revision m) (length as) a) \<or>
     manifest_assets m = as \<and> x = end_message m)"
proof -
  have head: "r = revision m" "c = of_nat (length (manifest_assets m))" "t = totalDownloadSize m"
    and tail: "prefix (item_messages r 0 as @ [x]) (item_messages (revision m) 0 (manifest_assets m) @ [end_message m])"
    using assms by (auto simp: manifest_messages_alt begin_message_def simp del: prefix_snoc)
  show ?thesis
    using items_prefix [OF tail] head by simp
qed

lemma received_ok_count:
  "received_ok m \<Longrightarrow> unat (of_nat (length (manifest_assets m)) :: u32) = length (manifest_assets m)"
  by (simp add: received_ok_def kMaximumAssetsPerManifest_def unat_of_nat_u32)

text \<open>No stream is continued by another, and a stream determines its manifest.\<close>

lemma stream_maximal:
  assumes "received_ok m" "received_ok m'" "prefix (manifest_messages m @ [x]) (manifest_messages m')"
  shows False
proof -
  have "prefix (manifest_messages m) (manifest_messages m')"
    using assms(3) by (rule append_prefixD)
  then have "manifest_assets m' = manifest_assets m \<or>
      (\<exists>a cs. manifest_assets m' = manifest_assets m @ a # cs \<and> end_message m = item_message (revision m') (length (manifest_assets m)) a)"
    using stream_prefix [of "revision m" _ _ "manifest_assets m" "end_message m" m']
    unfolding manifest_messages_alt by blast
  then have "length (manifest_messages m') = length (manifest_messages m)"
    by (auto simp: manifest_messages_alt)
  with assms(3) show False
    using prefix_length_le by fastforce
qed

lemma stream_determines:
  assumes "manifest_messages m = manifest_messages m'"
  shows "m = m'"
proof -
  have "prefix (begin_message (revision m) (of_nat (length (manifest_assets m))) (totalDownloadSize m) #
      item_messages (revision m) 0 (manifest_assets m) @ [end_message m]) (manifest_messages m')"
    unfolding manifest_messages_alt [symmetric] assms by simp
  from stream_prefix [OF this] have "revision m = revision m'" "totalDownloadSize m = totalDownloadSize m'"
      "manifest_assets m' = manifest_assets m"
    by auto
  then show ?thesis
    by (auto intro: Manifest.equality)
qed

section \<open>What the receiver has seen\<close>

definition history :: "ManifestReceiver \<Rightarrow> Message list \<Rightarrow> bool" where
  "history r ms \<longleftrightarrow>
    (case rx_state r of
       Idle \<Rightarrow> ms = [] \<and> rx_completed r = None
     | Receiving \<Rightarrow> receiving r \<and>
         ms = begin_message (revision (rx_manifest r)) (expectedCount r) (totalDownloadSize (rx_manifest r)) #
           item_messages (revision (rx_manifest r)) 0 (manifest_assets (rx_manifest r))
     | Complete \<Rightarrow> rx_completed r = Some (rx_manifest r) \<and> received_ok (rx_manifest r) \<and>
         ms = manifest_messages (rx_manifest r)
     | Failed \<Rightarrow> (\<forall>m. received_ok m \<longrightarrow> \<not> prefix ms (manifest_messages m))) \<and>
    (\<forall>m. rx_completed r = Some m \<longrightarrow> received_ok m)"

lemma history_receiving: "history r ms \<Longrightarrow> rx_state r = Receiving \<Longrightarrow> receiving r"
  by (simp add: history_def)

lemma history_failed:
  "rx_state r' = Failed \<Longrightarrow> rx_completed r' = rx_completed r \<Longrightarrow> history r ms \<Longrightarrow>
    (\<And>m. received_ok m \<Longrightarrow> \<not> prefix ms' (manifest_messages m)) \<Longrightarrow> history r' ms'"
  by (simp add: history_def)

text \<open>Failure is permanent, and nothing may follow a complete manifest.\<close>

lemma not_prefix_snoc:
  assumes "history r ms" "rx_state r \<in> {Complete, Failed}" "received_ok m"
  shows "\<not> prefix (ms @ [x]) (manifest_messages m)"
  using assms stream_maximal [of "rx_manifest r" m x] append_prefixD [of ms "[x]" "manifest_messages m"]
  by (auto simp: history_def)

lemma not_first:
  assumes "history r ms" "rx_state r = Idle" "\<And>a b c. x \<noteq> begin_message a b c"
  shows "\<not> prefix (ms @ [x]) (manifest_messages m)"
  using assms by (auto simp: history_def manifest_messages_alt)

lemma begin_step:
  assumes "history r ms"
  shows "history (snd (handle_begin b r)) (ms @ [ManifestBeginMsg b])"
proof (cases "rx_state r = Idle \<and> begin_manifestRevision b \<noteq> 0 \<and> unat (begin_assetCount b) \<le> kMaximumAssetsPerManifest \<and>
    begin_totalDownloadSize b \<le> kMaximumTotalDownloadSize")
  case True
  show ?thesis
  proof (cases "begin_assetCount b = 0 \<and> begin_totalDownloadSize b \<noteq> 0")
    case bad: True
    have "\<not> prefix [ManifestBeginMsg b] (manifest_messages m)" if "received_ok m" for m
    proof
      assume "prefix [ManifestBeginMsg b] (manifest_messages m)"
      then have "begin_assetCount b = of_nat (length (manifest_assets m))" "begin_totalDownloadSize b = totalDownloadSize m"
        by (auto simp: manifest_messages_alt begin_message_def)
      then have "manifest_assets m = []" "totalDownloadSize m \<noteq> 0"
        using bad received_ok_count [OF that] by auto
      then show False
        using that by (simp add: received_ok_def unat_eq_zero)
    qed
    then show ?thesis
      using True bad assms by (intro history_failed [OF _ _ assms]) (auto simp: handle_begin_def fail_def history_def)
  next
    case False
    have "ManifestBeginMsg b = begin_message (begin_manifestRevision b) (begin_assetCount b) (begin_totalDownloadSize b)"
      by (simp add: begin_message_def)
    then show ?thesis
      using True False assms
      by (auto simp: handle_begin_def history_def receiving_def empty_manifest_def kMaximumAssetsPerManifest_def)
  qed
next
  case False
  have "\<not> prefix (ms @ [ManifestBeginMsg b]) (manifest_messages m)" if ok: "received_ok m" for m
  proof (cases "rx_state r")
    case Idle
    then show ?thesis
      using False ok assms received_ok_count [OF ok]
      by (auto simp: history_def manifest_messages_alt begin_message_def received_ok_def)
  next
    case Receiving
    then have ms: "ms @ [ManifestBeginMsg b] = begin_message (revision (rx_manifest r)) (expectedCount r)
        (totalDownloadSize (rx_manifest r)) # item_messages (revision (rx_manifest r)) 0 (manifest_assets (rx_manifest r)) @
        [ManifestBeginMsg b]"
      using assms by (simp add: history_def)
    show ?thesis
      using stream_prefix [of _ _ _ _ "ManifestBeginMsg b" m] unfolding ms by (auto simp: item_message_def end_message_def)
  qed (use not_prefix_snoc [OF assms _ ok] in auto)
  then show ?thesis
    using False by (intro history_failed [OF _ _ assms]) (auto simp: handle_begin_def fail_def)
qed

lemma item_message_of: "ManifestAssetMsg item = item_message r k a \<longleftrightarrow>
    item_manifestRevision item = r \<and> item_assetIndex item = of_nat k \<and> item_asset item = a"
  by (cases item) (auto simp: item_message_def)

lemma asset_step:
  assumes "history r ms"
  shows "history (snd (handle_asset item r)) (ms @ [ManifestAssetMsg item])"
proof (cases "receiving r \<and> acceptable_item item r")
  case True
  let ?m = "rx_manifest r"
  have "item_assetIndex item = of_nat (length (manifest_assets ?m))"
    using True by (auto simp: acceptable_item_def intro: of_nat_of_unat)
  then have "ManifestAssetMsg item = item_message (revision ?m) (length (manifest_assets ?m)) (item_asset item)"
    using True by (simp add: item_message_of acceptable_item_def)
  moreover have "receiving (accept_asset (item_asset item) r)"
    using True accept_asset_receiving by blast
  ultimately show ?thesis
    using True assms handle_asset_accepts [of r item]
    by (simp add: history_def receiving_def [of r])
      (simp add: receiving_def accept_asset_def item_messages_snoc)
next
  case False
  have "\<not> prefix (ms @ [ManifestAssetMsg item]) (manifest_messages m)" if ok: "received_ok m" for m
  proof (cases "rx_state r")
    case Idle
    then show ?thesis
      using not_first [OF assms] by (simp add: begin_message_def)
  next
    case Receiving
    let ?m = "rx_manifest r" and ?as = "manifest_assets (rx_manifest r)"
    have rec: "receiving r"
      using assms Receiving by (rule history_receiving)
    have ms: "ms @ [ManifestAssetMsg item] = begin_message (revision ?m) (expectedCount r) (totalDownloadSize ?m) #
        item_messages (revision ?m) 0 ?as @ [ManifestAssetMsg item]"
      using assms Receiving by (simp add: history_def)
    show ?thesis
    proof
      assume "prefix (ms @ [ManifestAssetMsg item]) (manifest_messages m)"
      then have "revision ?m = revision m" "expectedCount r = of_nat (length (manifest_assets m))"
        and "\<exists>a cs. manifest_assets m = ?as @ a # cs \<and> ManifestAssetMsg item = item_message (revision m) (length ?as) a"
        using stream_prefix [of "revision ?m" "expectedCount r" "totalDownloadSize ?m" ?as "ManifestAssetMsg item" m]
        unfolding ms by (auto simp: end_message_def)
      moreover from this have "unat (expectedCount r) = length (manifest_assets m)"
        using received_ok_count [OF ok] by simp
      ultimately have "acceptable_item item r"
        using ok rec
        by (auto simp: acceptable_item_def item_message_of received_ok_def receiving_def unat_of_nat_u32)
      with False rec show False
        by simp
    qed
  qed (use not_prefix_snoc [OF assms _ ok] in auto)
  then show ?thesis
    using False handle_asset_refuses [of r item] history_receiving [OF assms]
    by (intro history_failed [OF _ _ assms]) auto
qed

lemma end_step:
  assumes "history r ms"
  shows "history (snd (handle_end e r)) (ms @ [ManifestEndMsg e])"
proof (cases "receiving r \<and> acceptable_end e r")
  case True
  let ?m = "rx_manifest r"
  have count: "expectedCount r = of_nat (length (manifest_assets ?m))"
    using True by (auto simp: acceptable_end_def intro: of_nat_of_unat)
  then have "ManifestEndMsg e = end_message ?m"
    using True by (simp add: acceptable_end_def end_message_def)
  moreover have "received_ok ?m"
    using True by (auto simp: received_ok_def receiving_def acceptable_end_def kMaximumAssetsPerManifest_def)
  ultimately show ?thesis
    using True assms handle_end_accepts [of r e] count
    by (simp add: history_def complete_def manifest_messages_alt receiving_def [of r])
next
  case False
  have "\<not> prefix (ms @ [ManifestEndMsg e]) (manifest_messages m)" if ok: "received_ok m" for m
  proof (cases "rx_state r")
    case Idle
    then show ?thesis
      using not_first [OF assms] by (simp add: begin_message_def)
  next
    case Receiving
    let ?m = "rx_manifest r" and ?as = "manifest_assets (rx_manifest r)"
    have rec: "receiving r"
      using assms Receiving by (rule history_receiving)
    have ms: "ms @ [ManifestEndMsg e] = begin_message (revision ?m) (expectedCount r) (totalDownloadSize ?m) #
        item_messages (revision ?m) 0 ?as @ [ManifestEndMsg e]"
      using assms Receiving by (simp add: history_def)
    show ?thesis
    proof
      assume "prefix (ms @ [ManifestEndMsg e]) (manifest_messages m)"
      then have "revision ?m = revision m" "expectedCount r = of_nat (length (manifest_assets m))"
          "totalDownloadSize ?m = totalDownloadSize m" "manifest_assets m = ?as" "ManifestEndMsg e = end_message m"
        using stream_prefix [of "revision ?m" "expectedCount r" "totalDownloadSize ?m" ?as "ManifestEndMsg e" m]
        unfolding ms by (auto simp: item_message_def)
      then have "acceptable_end e r"
        using ok received_ok_count [OF ok] by (auto simp: acceptable_end_def end_message_def received_ok_def)
      with False rec show False
        by simp
    qed
  qed (use not_prefix_snoc [OF assms _ ok] in auto)
  then show ?thesis
    using False handle_end_refuses [of r e] history_receiving [OF assms]
    by (intro history_failed [OF _ _ assms]) auto
qed

lemma receiver_ignores: "\<not> is_manifest m \<Longrightarrow> receiver_Handle m r = (InputIgnored, r)"
  by (cases m) simp_all

definition receiver_run :: "Message list \<Rightarrow> ManifestReceiver" where
  "receiver_run ms = fold (\<lambda>m r. snd (receiver_Handle m r)) ms new_receiver"

lemma receiver_run_snoc: "receiver_run (ms @ [m]) = snd (receiver_Handle m (receiver_run ms))"
  by (simp add: receiver_run_def)

lemma receiver_history: "history (receiver_run ms) (filter is_manifest ms)"
proof (induction ms rule: rev_induct)
  case Nil
  show ?case
    by (simp add: receiver_run_def history_def new_receiver_def)
next
  case (snoc m ms)
  then show ?case
    using begin_step asset_step end_step
    by (cases m) (simp_all add: receiver_run_snoc)
qed

text \<open>A complete stream leaves the receiver complete: no other phase is compatible with it.\<close>

lemma history_complete:
  assumes "history r (manifest_messages m)" "received_ok m"
  shows "rx_state r = Complete \<and> rx_completed r = Some m"
proof (cases "rx_state r")
  case Idle
  then show ?thesis
    using assms by (simp add: history_def manifest_messages_alt)
next
  case Receiving
  then have "manifest_messages m = begin_message (revision (rx_manifest r)) (expectedCount r)
      (totalDownloadSize (rx_manifest r)) # item_messages (revision (rx_manifest r)) 0 (manifest_assets (rx_manifest r))"
    using assms(1) by (simp add: history_def)
  then have "last (manifest_messages m) \<noteq> end_message m"
    by (cases "manifest_assets (rx_manifest r)" rule: rev_cases) (simp_all add: item_messages_snoc)
  then show ?thesis
    by (simp add: manifest_messages_alt)
next
  case Complete
  then show ?thesis
    using assms(1) stream_determines by (auto simp: history_def)
next
  case Failed
  then show ?thesis
    using assms by (auto simp: history_def)
qed

lemma receiver_complete: "received_ok m \<Longrightarrow> rx_completed (receiver_run (manifest_messages m)) = Some m"
proof -
  have "filter is_manifest (manifest_messages m) = manifest_messages m"
    by (auto simp: manifest_messages_def item_messages_def filter_id_conv split: prod.splits)
  then show "received_ok m \<Longrightarrow> ?thesis"
    using receiver_history [of "manifest_messages m"] history_complete by simp
qed

section \<open>Properties\<close>

text \<open>
  Claim C29. The client's receiver completes with a manifest exactly when the manifest
  messages it has received since the start are the stream of that manifest, begin, assets
  in order, end, and the manifest is well formed; other messages in between do not matter.
  So no malformed, reordered, repeated or truncated stream is ever accepted, and every
  correct one is.
\<close>

theorem receiver_accepts_exactly_streams:
  "rx_state (receiver_run ms) = Complete \<and> rx_completed (receiver_run ms) = Some m \<longleftrightarrow>
     received_ok m \<and> filter is_manifest ms = manifest_messages m"
proof
  assume "rx_state (receiver_run ms) = Complete \<and> rx_completed (receiver_run ms) = Some m"
  then show "received_ok m \<and> filter is_manifest ms = manifest_messages m"
    using receiver_history [of ms] by (simp add: history_def)
next
  assume "received_ok m \<and> filter is_manifest ms = manifest_messages m"
  then show "rx_state (receiver_run ms) = Complete \<and> rx_completed (receiver_run ms) = Some m"
    using receiver_history [of ms] history_complete [of "receiver_run ms" m] by simp
qed

text \<open>
  A manifest that the receiver ever offers is well formed: nonzero revision,
  valid assets with distinct ids and names, at most 256 of them, and a total that is their
  exact sum within 512 MiB; and its wire form stays far below the one-mebibyte limit, so
  that limit is never what rejects a manifest.
\<close>

theorem completed_manifest_well_formed:
  assumes "rx_completed (receiver_run ms) = Some m"
  shows "received_ok m \<and> 40 + assets_bytes (manifest_assets m) \<le> 564776 \<and> 564776 < kMaximumManifestBytes"
proof -
  have ok: "received_ok m"
    using receiver_history [of ms] assms by (simp add: history_def)
  then have "assets_bytes (manifest_assets m) \<le> 2206 * length (manifest_assets m)"
    by (intro assets_bytes_le) (simp add: received_ok_def)
  with ok show ?thesis
    by (simp add: received_ok_def asset_limits)
qed

definition sample_manifest :: Manifest where
  "sample_manifest = BuildManifest (snd (RegisterAsset (sample_asset 2 ''c'' 9) empty_registry))"

lemma sample_manifest_ok: "manifest_ok sample_manifest"
  using BuildManifest_ok [OF registry_step_ok [OF registry_ok_empty, of "OpRegister (sample_asset 2 ''c'' 9)"]]
  by (simp add: sample_manifest_def)

theorem completed_manifest_well_formed_witness:
  "received_ok sample_manifest \<and> 40 + assets_bytes (manifest_assets sample_manifest) \<le> 564776"
  using completed_manifest_well_formed [OF receiver_complete [OF manifest_ok_received [OF sample_manifest_ok]]]
  by simp

end
