(* ===== verification/ClientAssetManager.thy ===== *)
theory ClientAssetManager
  imports AssetWorker WinHttpFetch ManifestReceiver
begin

text \<open>
  The class \<^verbatim>\<open>ClientAssetManager\<close> of \<^verbatim>\<open>client/src/assets/manager.cpp\<close>: its state under the
  mutex, the operations of the client's thread, and the worker thread as a machine whose
  turns end where the source releases the mutex, so that every interleaving of the two
  threads is a sequence of steps.
\<close>

section \<open>State\<close>

record ClientAssetEvent =
  ev_kind :: ClientAssetEventKind
  ev_revision :: u64
  ev_assetId :: u32
  ev_assetCount :: u32
  ev_error :: AssetErrorReason

record ClientAssetManager =
  mgr_cache :: AssetCache
  mgr_hasBackend :: bool
  mgr_options :: FetchOptions
  mgr_receiver :: ManifestReceiver
  mgr_queue :: "WorkItem list"
  mgr_events :: "ClientAssetEvent list"
  mgr_states :: "(u32, AssetState) fmap"
  mgr_generation :: u64
  mgr_initialized :: bool
  mgr_stopping :: bool

definition new_manager :: "AssetCache \<Rightarrow> bool \<Rightarrow> ClientAssetManager" where
  "new_manager c hasBackend = \<lparr>mgr_cache = c, mgr_hasBackend = hasBackend, mgr_options = default_options,
     mgr_receiver = new_receiver, mgr_queue = [], mgr_events = [], mgr_states = fmempty,
     mgr_generation = 1, mgr_initialized = False, mgr_stopping = False\<rparr>"

text \<open>
  Where the worker thread is: not started, waiting at the condition variable, holding an
  item it has taken, reporting the remaining updates of an item, or returned.
\<close>

datatype Worker = WorkerAbsent | WorkerWaiting | WorkerTook WorkItem
  | WorkerReporting WorkItem "Update list" | WorkerReturned

record System =
  sys_manager :: ClientAssetManager
  sys_worker :: Worker
  sys_disk :: Disk

section \<open>Operations of the client's thread\<close>

definition RequestStop :: "ClientAssetManager \<Rightarrow> ClientAssetManager" where
  "RequestStop m = m\<lparr>mgr_stopping := True, mgr_queue := []\<rparr>"

definition ResetSession :: "ClientAssetManager \<Rightarrow> ClientAssetManager" where
  "ResetSession m =
    (let g = mgr_generation m + 1
     in m\<lparr>mgr_generation := (if g = 0 then 1 else g), mgr_receiver := receiver_Reset (mgr_receiver m),
          mgr_queue := [], mgr_events := [], mgr_states := fmempty\<rparr>)"

definition asset_event :: "ClientAssetEventKind \<Rightarrow> u64 \<Rightarrow> u32 \<Rightarrow> AssetErrorReason \<Rightarrow> ClientAssetEvent" where
  "asset_event k r i e = \<lparr>ev_kind = k, ev_revision = r, ev_assetId = i, ev_assetCount = 0, ev_error = e\<rparr>"

definition manifest_event :: "ClientAssetEventKind \<Rightarrow> u64 \<Rightarrow> u32 \<Rightarrow> ClientAssetEvent" where
  "manifest_event k r n = \<lparr>ev_kind = k, ev_revision = r, ev_assetId = 0, ev_assetCount = n,
     ev_error = AssetErrorReason_InternalError\<rparr>"

text \<open>One turn of the loop of \<^verbatim>\<open>QueueManifest\<close>: assets that are not new or failed are skipped.\<close>

definition queue_asset :: "u64 \<Rightarrow> AssetDescription \<Rightarrow> ClientAssetManager \<Rightarrow> ClientAssetManager" where
  "queue_asset r a m =
    (if (case fmlookup (mgr_states m) (assetId a) of None \<Rightarrow> False | Some s \<Rightarrow> s \<noteq> StateFailed) then m
     else m\<lparr>mgr_states := fmupd (assetId a) StateQueued (mgr_states m),
            mgr_queue := mgr_queue m @ [\<lparr>work_generation = mgr_generation m, work_revision = r, work_asset = a\<rparr>],
            mgr_events := mgr_events m @ [asset_event EvQueued r (assetId a) AssetErrorReason_InternalError]\<rparr>)"

definition QueueManifest :: "Manifest \<Rightarrow> ClientAssetManager \<Rightarrow> ClientAssetManager" where
  "QueueManifest manifest m = fold (queue_asset (revision manifest)) (manifest_assets manifest) m"

definition HandleMessage :: "Message \<Rightarrow> ClientAssetManager \<Rightarrow> ManifestInputResult \<times> ClientAssetManager" where
  "HandleMessage message m =
    (case receiver_Handle message (mgr_receiver m) of
       (result, r) \<Rightarrow>
         let m = m\<lparr>mgr_receiver := r\<rparr>
         in if result = InputAccepted
            then case message of
                ManifestBeginMsg begin \<Rightarrow>
                  (result, m\<lparr>mgr_events := mgr_events m @ [manifest_event EvManifestBegin
                     (begin_manifestRevision begin) (begin_assetCount begin)]\<rparr>)
              | _ \<Rightarrow> (result, m)
            else if result = InputComplete
            then case rx_completed r of
                Some manifest \<Rightarrow>
                  (result, QueueManifest manifest (m\<lparr>mgr_events := mgr_events m @ [manifest_event EvManifestComplete
                     (revision manifest) (of_nat (length (manifest_assets manifest)))]\<rparr>))
              | None \<Rightarrow> (result, m)
            else (result, m))"

definition DrainEvents :: "ClientAssetManager \<Rightarrow> ClientAssetEvent list \<times> ClientAssetManager" where
  "DrainEvents m = (mgr_events m, m\<lparr>mgr_events := []\<rparr>)"

definition GetState :: "u32 \<Rightarrow> ClientAssetManager \<Rightarrow> AssetState" where
  "GetState i m = (case fmlookup (mgr_states m) i of None \<Rightarrow> StateUnknown | Some s \<Rightarrow> s)"

text \<open>
  Initialisation and shutdown concern the thread and the disk as well. \<^verbatim>\<open>Shutdown\<close> is a
  stop request and, once the worker has returned, the join that ends it.
\<close>

definition manager_Initialize :: "System \<Rightarrow> bool \<times> System" where
  "manager_Initialize s =
    (let m = sys_manager s
     in if mgr_initialized m \<or> \<not> mgr_hasBackend m then (False, s)
        else case cache_Initialize (mgr_cache m) (sys_disk s) of
          (False, d) \<Rightarrow> (False, s\<lparr>sys_disk := d\<rparr>)
        | (True, d) \<Rightarrow>
            (True, s\<lparr>sys_disk := d, sys_manager := m\<lparr>mgr_stopping := False, mgr_initialized := True\<rparr>,
               sys_worker := WorkerWaiting\<rparr>))"

fun joinable :: "Worker \<Rightarrow> bool" where
  "joinable WorkerAbsent = True"
| "joinable WorkerReturned = True"
| "joinable w = False"

definition Shutdown_join :: "System \<Rightarrow> System option" where
  "Shutdown_join s =
    (if joinable (sys_worker s)
     then Some (s\<lparr>sys_worker := WorkerAbsent, sys_manager := (sys_manager s)\<lparr>mgr_initialized := False\<rparr>\<rparr>)
     else None)"

section \<open>The worker thread\<close>

definition SetState :: "WorkItem \<Rightarrow> Update \<Rightarrow> ClientAssetManager \<Rightarrow> ClientAssetManager" where
  "SetState work u m =
    (case u of (s, k, e) \<Rightarrow>
      if work_generation work \<noteq> mgr_generation m then m
      else m\<lparr>mgr_states := fmupd (assetId (work_asset work)) s (mgr_states m),
             mgr_events := mgr_events m @ [asset_event k (work_revision work) (assetId (work_asset work)) e]\<rparr>)"

definition IsCurrentGeneration :: "u64 \<Rightarrow> ClientAssetManager \<Rightarrow> bool" where
  "IsCurrentGeneration g m \<longleftrightarrow> \<not> mgr_stopping m \<and> g = mgr_generation m"

text \<open>
  One turn of \<^verbatim>\<open>WorkerLoop\<close>. The disk belongs to the worker alone, so the whole file work
  of an item can happen at the turn that finds its generation current; its updates follow
  one by one. \<open>None\<close> is a thread that cannot go on.
\<close>

definition worker_turn :: "Fetch \<Rightarrow> System \<Rightarrow> System option" where
  "worker_turn fetch s =
    (let m = sys_manager s
     in case sys_worker s of
          WorkerAbsent \<Rightarrow> None
        | WorkerReturned \<Rightarrow> None
        | WorkerWaiting \<Rightarrow>
            if mgr_stopping m then Some (s\<lparr>sys_worker := WorkerReturned\<rparr>)
            else (case mgr_queue m of
                [] \<Rightarrow> None
              | w # ws \<Rightarrow> Some (s\<lparr>sys_worker := WorkerTook w, sys_manager := m\<lparr>mgr_queue := ws\<rparr>\<rparr>))
        | WorkerTook w \<Rightarrow>
            if \<not> IsCurrentGeneration (work_generation w) m then Some (s\<lparr>sys_worker := WorkerWaiting\<rparr>)
            else (case Process fetch (mgr_cache m) (mgr_options m) w (sys_disk s) of
                (us, d) \<Rightarrow> Some (s\<lparr>sys_worker := WorkerReporting w us, sys_disk := d\<rparr>))
        | WorkerReporting w [] \<Rightarrow> Some (s\<lparr>sys_worker := WorkerWaiting\<rparr>)
        | WorkerReporting w (u # us) \<Rightarrow>
            Some (s\<lparr>sys_worker := WorkerReporting w us, sys_manager := SetState w u m\<rparr>))"

section \<open>Interleavings\<close>

datatype ClientCall = CallHandleMessage Message | CallResetSession | CallDrainEvents | CallRequestStop
  | CallInitialize | CallJoin

fun client_call :: "ClientCall \<Rightarrow> System \<Rightarrow> System option" where
  "client_call (CallHandleMessage message) s = Some (s\<lparr>sys_manager := snd (HandleMessage message (sys_manager s))\<rparr>)"
| "client_call CallResetSession s = Some (s\<lparr>sys_manager := ResetSession (sys_manager s)\<rparr>)"
| "client_call CallDrainEvents s = Some (s\<lparr>sys_manager := snd (DrainEvents (sys_manager s))\<rparr>)"
| "client_call CallRequestStop s = Some (s\<lparr>sys_manager := RequestStop (sys_manager s)\<rparr>)"
| "client_call CallInitialize s = Some (snd (manager_Initialize s))"
| "client_call CallJoin s = Shutdown_join s"

text \<open>
  The states a manager can reach from a disk, whatever the network answers and however
  the threads are scheduled, with the number of resets on the way.
\<close>

inductive reachable :: "Fetch set \<Rightarrow> System \<Rightarrow> nat \<Rightarrow> System \<Rightarrow> bool" for backends start where
  start: "reachable backends start 0 start"
| client: "reachable backends start k s \<Longrightarrow> client_call call s = Some s' \<Longrightarrow>
    reachable backends start (if call = CallResetSession then k + 1 else k) s'"
| worker: "reachable backends start k s \<Longrightarrow> fetch \<in> backends \<Longrightarrow> worker_turn fetch s = Some s' \<Longrightarrow>
    reachable backends start k s'"

definition start_system :: "AssetCache \<Rightarrow> bool \<Rightarrow> Disk \<Rightarrow> System" where
  "start_system c hasBackend d =
    \<lparr>sys_manager = new_manager c hasBackend, sys_worker = WorkerAbsent, sys_disk = d\<rparr>"

section \<open>Lemmas\<close>

lemma QueueManifest_fresh:
  assumes "distinct (map assetId (manifest_assets mf))" and "mgr_states m = fmempty"
  shows "mgr_queue (QueueManifest mf m) = mgr_queue m @
      map (\<lambda>a. \<lparr>work_generation = mgr_generation m, work_revision = revision mf, work_asset = a\<rparr>) (manifest_assets mf)"
    and "fmlookup (mgr_states (QueueManifest mf m)) i =
      (if i \<in> assetId ` set (manifest_assets mf) then Some StateQueued else None)"
    and "mgr_events (QueueManifest mf m) = mgr_events m @
      map (\<lambda>a. asset_event EvQueued (revision mf) (assetId a) AssetErrorReason_InternalError) (manifest_assets mf)"
    and "mgr_receiver (QueueManifest mf m) = mgr_receiver m" and "mgr_generation (QueueManifest mf m) = mgr_generation m"
    and "mgr_cache (QueueManifest mf m) = mgr_cache m" and "mgr_stopping (QueueManifest mf m) = mgr_stopping m"
    and "mgr_initialized (QueueManifest mf m) = mgr_initialized m" and "mgr_options (QueueManifest mf m) = mgr_options m"
    and "mgr_hasBackend (QueueManifest mf m) = mgr_hasBackend m"
proof -
  let ?item = "\<lambda>a. \<lparr>work_generation = mgr_generation m, work_revision = revision mf, work_asset = a\<rparr>"
  have "distinct (map assetId as) \<Longrightarrow>
      mgr_queue (fold (queue_asset (revision mf)) as m) = mgr_queue m @ map ?item as \<and>
      (\<forall>i. fmlookup (mgr_states (fold (queue_asset (revision mf)) as m)) i =
        (if i \<in> assetId ` set as then Some StateQueued else None)) \<and>
      mgr_events (fold (queue_asset (revision mf)) as m) = mgr_events m @
        map (\<lambda>a. asset_event EvQueued (revision mf) (assetId a) AssetErrorReason_InternalError) as \<and>
      mgr_receiver (fold (queue_asset (revision mf)) as m) = mgr_receiver m \<and>
      mgr_generation (fold (queue_asset (revision mf)) as m) = mgr_generation m \<and>
      mgr_cache (fold (queue_asset (revision mf)) as m) = mgr_cache m \<and>
      mgr_stopping (fold (queue_asset (revision mf)) as m) = mgr_stopping m \<and>
      mgr_initialized (fold (queue_asset (revision mf)) as m) = mgr_initialized m \<and>
      mgr_options (fold (queue_asset (revision mf)) as m) = mgr_options m \<and>
      mgr_hasBackend (fold (queue_asset (revision mf)) as m) = mgr_hasBackend m" for as
  proof (induction as rule: rev_induct)
    case Nil
    then show ?case using assms(2) by simp
  next
    case (snoc a as)
    then have "assetId a \<notin> assetId ` set as" by auto
    then show ?case using snoc by (auto simp: queue_asset_def)
  qed
  from this [OF assms(1)] show
    "mgr_queue (QueueManifest mf m) = mgr_queue m @ map ?item (manifest_assets mf)"
    "fmlookup (mgr_states (QueueManifest mf m)) i =
      (if i \<in> assetId ` set (manifest_assets mf) then Some StateQueued else None)"
    "mgr_events (QueueManifest mf m) = mgr_events m @
      map (\<lambda>a. asset_event EvQueued (revision mf) (assetId a) AssetErrorReason_InternalError) (manifest_assets mf)"
    "mgr_receiver (QueueManifest mf m) = mgr_receiver m" "mgr_generation (QueueManifest mf m) = mgr_generation m"
    "mgr_cache (QueueManifest mf m) = mgr_cache m" "mgr_stopping (QueueManifest mf m) = mgr_stopping m"
    "mgr_initialized (QueueManifest mf m) = mgr_initialized m" "mgr_options (QueueManifest mf m) = mgr_options m"
    "mgr_hasBackend (QueueManifest mf m) = mgr_hasBackend m"
    unfolding QueueManifest_def by blast+
qed

text \<open>A manifest, once complete, stays until the session is reset, and completes only once.\<close>

lemma completed_phase: "rx_completed (receiver_run ms) = Some mf \<Longrightarrow> rx_state (receiver_run ms) \<in> {Complete, Failed}"
  using receiver_history [of ms] by (cases "rx_state (receiver_run ms)") (auto simp: history_def receiving_def)

lemma completed_stays:
  assumes "rx_completed r = Some mf" and "rx_state r \<in> {Complete, Failed}"
  shows "rx_completed (snd (receiver_Handle message r)) = Some mf \<and>
    fst (receiver_Handle message r) \<notin> {InputAccepted, InputComplete}"
  using assms
  by (cases message) (auto simp: handle_begin_def handle_asset_def handle_end_def fail_def)

lemma complete_result:
  "receiver_Handle message r = (InputComplete, r') \<Longrightarrow> rx_completed r' = Some (rx_manifest r) \<and> rx_state r = Receiving"
  by (cases message)
    (auto simp: handle_begin_def handle_asset_def handle_end_def fail_def Let_def split: if_splits option.splits)

lemma incomplete_result:
  "receiver_Handle message r = (result, r') \<Longrightarrow> result \<noteq> InputComplete \<Longrightarrow> rx_completed r = None \<Longrightarrow> rx_completed r' = None"
  by (cases message)
    (auto simp: handle_begin_def handle_asset_def handle_end_def fail_def Let_def split: if_splits option.splits)

end
