(* ===== verification/ManagerSession.thy ===== *)
theory ManagerSession
  imports ClientAssetManager
begin

text \<open>
  The session invariant of the asset manager, for every interleaving of the client's
  thread and the worker: what the client can observe belongs to the current session.
\<close>

section \<open>The session invariant\<close>

text \<open>
  Everything the client can observe belongs to the manifest of the current session; an
  item the worker still holds from an earlier one has an older generation.
\<close>

definition in_session :: "ClientAssetManager \<Rightarrow> u64 \<Rightarrow> AssetDescription \<Rightarrow> bool" where
  "in_session m r a \<longleftrightarrow> (\<exists>mf. rx_completed (mgr_receiver m) = Some mf \<and> r = revision mf \<and> a \<in> set (manifest_assets mf))"

definition event_ok :: "ClientAssetManager \<Rightarrow> ClientAssetEvent \<Rightarrow> bool" where
  "event_ok m e \<longleftrightarrow> ev_kind e = EvManifestBegin \<or>
    (\<exists>mf. rx_completed (mgr_receiver m) = Some mf \<and> ev_revision e = revision mf \<and>
      (ev_kind e = EvManifestComplete \<or> ev_assetId e \<in> assetId ` set (manifest_assets mf)))"

definition state_ok :: "ClientAssetManager \<Rightarrow> u32 \<Rightarrow> bool" where
  "state_ok m i \<longleftrightarrow> (\<exists>mf. rx_completed (mgr_receiver m) = Some mf \<and> i \<in> assetId ` set (manifest_assets mf))"

definition manager_ok :: "nat \<Rightarrow> ClientAssetManager \<Rightarrow> bool" where
  "manager_ok k m \<longleftrightarrow> (\<exists>ms. mgr_receiver m = receiver_run ms) \<and> unat (mgr_generation m) = k + 1 \<and>
    (\<forall>w \<in> set (mgr_queue m). work_generation w = mgr_generation m \<and> in_session m (work_revision w) (work_asset w)) \<and>
    (\<forall>e \<in> set (mgr_events m). event_ok m e) \<and>
    (\<forall>i. fmlookup (mgr_states m) i \<noteq> None \<longrightarrow> state_ok m i)"

fun held :: "Worker \<Rightarrow> WorkItem option" where
  "held (WorkerTook w) = Some w"
| "held (WorkerReporting w us) = Some w"
| "held x = None"

definition held_ok :: "ClientAssetManager \<Rightarrow> Worker \<Rightarrow> bool" where
  "held_ok m x \<longleftrightarrow> (\<forall>w. held x = Some w \<longrightarrow> work_generation w \<le> mgr_generation m \<and>
    (work_generation w = mgr_generation m \<longrightarrow> in_session m (work_revision w) (work_asset w)))"

definition session_ok :: "nat \<Rightarrow> System \<Rightarrow> bool" where
  "session_ok k s \<longleftrightarrow> manager_ok k (sys_manager s) \<and> held_ok (sys_manager s) (sys_worker s) \<and>
    (\<not> mgr_initialized (sys_manager s) \<longrightarrow> sys_worker s = WorkerAbsent)"

lemma manager_ok_begin:
  assumes "manager_ok k m" and run: "receiver_Handle message (mgr_receiver m) = (result, r)" and new: "result \<noteq> InputComplete"
  shows "rx_completed r = rx_completed (mgr_receiver m)" and "manager_ok k (m\<lparr>mgr_receiver := r\<rparr>)"
proof -
  obtain ms where ms: "mgr_receiver m = receiver_run ms" using assms(1) by (auto simp: manager_ok_def)
  then have r: "r = receiver_run (ms @ [message])" using run by (simp add: receiver_run_snoc)
  show same: "rx_completed r = rx_completed (mgr_receiver m)"
  proof (cases "rx_completed (mgr_receiver m)")
    case None
    then show ?thesis using incomplete_result [OF run new] by simp
  next
    case (Some mf)
    then show ?thesis using completed_stays [OF Some, of message] completed_phase [of ms mf] ms run by simp
  qed
  show "manager_ok k (m\<lparr>mgr_receiver := r\<rparr>)"
    using assms(1) same r
    by (auto simp: manager_ok_def in_session_def event_ok_def state_ok_def)
qed

lemma held_ok_same:
  "held_ok m x \<Longrightarrow> rx_completed (mgr_receiver m') = rx_completed (mgr_receiver m) \<Longrightarrow>
    mgr_generation m' = mgr_generation m \<Longrightarrow> held_ok m' x"
  by (simp add: held_ok_def in_session_def)

text \<open>Before the manifest is complete nothing is queued, held or recorded.\<close>

lemma manager_ok_empty:
  assumes "manager_ok k m" and "rx_completed (mgr_receiver m) = None"
  shows "mgr_queue m = []" and "mgr_states m = fmempty"
proof -
  show "mgr_queue m = []" using assms by (cases "mgr_queue m") (auto simp: manager_ok_def in_session_def)
  have "fmlookup (mgr_states m) i = None" for i using assms by (auto simp: manager_ok_def state_ok_def)
  then show "mgr_states m = fmempty" by (intro fmap_ext) simp
qed

lemma handle_complete:
  assumes ok: "manager_ok k m" and run: "receiver_Handle message (mgr_receiver m) = (InputComplete, r)"
  obtains mf where "rx_completed r = Some mf" "distinct (map assetId (manifest_assets mf))"
    "rx_completed (mgr_receiver m) = None" "mgr_queue m = []" "mgr_states m = fmempty" "\<exists>ms. r = receiver_run ms"
proof -
  obtain ms where ms: "mgr_receiver m = receiver_run ms" using ok by (auto simp: manager_ok_def)
  then have r: "r = receiver_run (ms @ [message])" using run by (simp add: receiver_run_snoc)
  note c = complete_result [OF run]
  then have none: "rx_completed (mgr_receiver m) = None"
    using completed_phase [of ms] ms by (cases "rx_completed (mgr_receiver m)") auto
  have "received_ok (rx_manifest (mgr_receiver m))"
    using receiver_history [of "ms @ [message]"] c r by (simp add: history_def)
  then show thesis using that c none manager_ok_empty [OF ok none] r by (auto simp: received_ok_def)
qed

lemma HandleMessage_incomplete:
  assumes run: "receiver_Handle message (mgr_receiver m) = (result, r)" and new: "result \<noteq> InputComplete"
  shows "\<exists>es. snd (HandleMessage message m) = m\<lparr>mgr_receiver := r, mgr_events := mgr_events m @ es\<rparr> \<and>
    (\<forall>e \<in> set es. ev_kind e = EvManifestBegin)"
proof -
  let ?m = "m\<lparr>mgr_receiver := r\<rparr>"
  obtain es where "snd (HandleMessage message m) = ?m\<lparr>mgr_events := mgr_events m @ es\<rparr>"
    "\<forall>e \<in> set es. ev_kind e = EvManifestBegin"
  proof (cases "result = InputAccepted")
    case True
    then show thesis using run that [of "[]"] that
      by (cases message) (auto simp: HandleMessage_def Let_def manifest_event_def)
  next
    case no: False
    then show thesis using run new that [of "[]"] by (simp add: HandleMessage_def Let_def)
  qed
  then show ?thesis by auto
qed

text \<open>The manager between the completion of the manifest and the queueing of its assets.\<close>

definition manifest_announced :: "ManifestReceiver \<Rightarrow> Manifest \<Rightarrow> ClientAssetManager \<Rightarrow> ClientAssetManager" where
  "manifest_announced r mf m = m\<lparr>mgr_receiver := r, mgr_events := mgr_events m @ [manifest_event EvManifestComplete
     (revision mf) (of_nat (length (manifest_assets mf)))]\<rparr>"

lemma HandleMessage_complete:
  assumes "receiver_Handle message (mgr_receiver m) = (InputComplete, r)" and "rx_completed r = Some mf"
  shows "snd (HandleMessage message m) = QueueManifest mf (manifest_announced r mf m)"
  using assms by (simp add: HandleMessage_def Let_def manifest_announced_def)

lemma HandleMessage_ok:
  assumes "manager_ok k m" and "held_ok m x"
  shows "manager_ok k (snd (HandleMessage message m)) \<and> held_ok (snd (HandleMessage message m)) x \<and>
    mgr_initialized (snd (HandleMessage message m)) = mgr_initialized m"
proof -
  obtain result r where run: "receiver_Handle message (mgr_receiver m) = (result, r)" by (metis prod.exhaust)
  show ?thesis
  proof (cases "result = InputComplete")
    case False
    note kept = manager_ok_begin [OF assms(1) run False]
    let ?m = "m\<lparr>mgr_receiver := r\<rparr>"
    obtain es where es: "snd (HandleMessage message m) = ?m\<lparr>mgr_events := mgr_events m @ es\<rparr>"
      "\<forall>e \<in> set es. ev_kind e = EvManifestBegin" using HandleMessage_incomplete [OF run False] by blast
    have "manager_ok k (?m\<lparr>mgr_events := mgr_events m @ es\<rparr>)"
      using kept(2) es(2) by (auto simp: manager_ok_def in_session_def event_ok_def state_ok_def)
    then show ?thesis using es(1) kept(1) held_ok_same [OF assms(2)] by simp
  next
    case True
    then obtain mf where mf: "rx_completed r = Some mf" "distinct (map assetId (manifest_assets mf))"
        "rx_completed (mgr_receiver m) = None" "mgr_queue m = []" "mgr_states m = fmempty" "\<exists>ms. r = receiver_run ms"
      using handle_complete [OF assms(1)] run by blast
    define m1 where "m1 = manifest_announced r mf m"
    have eq: "snd (HandleMessage message m) = QueueManifest mf m1"
      using HandleMessage_complete run True mf(1) by (simp add: m1_def)
    have m1: "mgr_states m1 = fmempty" "mgr_queue m1 = []" "mgr_receiver m1 = r" "mgr_generation m1 = mgr_generation m"
      "mgr_initialized m1 = mgr_initialized m"
      using mf by (simp_all add: m1_def manifest_announced_def)
    note fresh = QueueManifest_fresh [OF mf(2) m1(1)]
    have old: "\<forall>e \<in> set (mgr_events m). ev_kind e = EvManifestBegin"
      using assms(1) mf(3) by (simp add: manager_ok_def event_ok_def)
    have "\<forall>e \<in> set (mgr_events m1). ev_kind e = EvManifestBegin \<or> ev_kind e = EvManifestComplete \<and> ev_revision e = revision mf"
      using old by (auto simp: m1_def manifest_announced_def manifest_event_def)
    then have "manager_ok k (QueueManifest mf m1)"
      using assms(1) mf(1,6) m1 fresh
      by (auto simp: manager_ok_def in_session_def event_ok_def state_ok_def asset_event_def)
    moreover have "held_ok (QueueManifest mf m1) x"
      using assms(2) mf(3) m1(4) fresh by (auto simp: held_ok_def in_session_def)
    ultimately show ?thesis using eq m1 fresh by simp
  qed
qed

lemma start_ok: "session_ok 0 (start_system c b d)"
proof -
  have "new_receiver = receiver_run []" by (simp add: receiver_run_def)
  then have "\<exists>ms. new_receiver = receiver_run ms" by blast
  then show ?thesis
    by (simp add: session_ok_def start_system_def new_manager_def manager_ok_def held_ok_def)
qed

lemma receiver_Reset_new: "receiver_Reset r = receiver_run []"
  by (simp add: receiver_Reset_def receiver_run_def new_receiver_def)

lemma ResetSession_ok:
  assumes "manager_ok k m" and "held_ok m x" and "k + 2 < 2 ^ 64"
  shows "manager_ok (k + 1) (ResetSession m)" and "held_ok (ResetSession m) x"
    and "mgr_generation (ResetSession m) = mgr_generation m + 1" "mgr_generation m < mgr_generation m + 1"
proof -
  have g: "unat (mgr_generation m) = k + 1" using assms(1) by (simp add: manager_ok_def)
  then have next_generation: "unat (mgr_generation m + 1) = k + 2"
    using assms(3) by (simp add: unat_word_ariths)
  then have nonzero: "mgr_generation m + 1 \<noteq> 0" by (metis add_is_0 unat_0 zero_neq_numeral)
  then show gen: "mgr_generation (ResetSession m) = mgr_generation m + 1" by (simp add: ResetSession_def Let_def)
  show less: "mgr_generation m < mgr_generation m + 1" using g next_generation by (simp add: word_less_nat_alt)
  show "manager_ok (k + 1) (ResetSession m)"
    using next_generation gen receiver_Reset_new [of "mgr_receiver m"]
    by (auto simp: manager_ok_def ResetSession_def Let_def)
  show "held_ok (ResetSession m) x"
    using assms(2) less gen by (auto simp: held_ok_def)
qed

lemma manager_ok_frame:
  assumes "manager_ok k m" and "mgr_receiver m' = mgr_receiver m" and "mgr_generation m' = mgr_generation m"
    and "set (mgr_queue m') \<subseteq> set (mgr_queue m)" and "set (mgr_events m') \<subseteq> set (mgr_events m)"
    and "mgr_states m' = mgr_states m"
  shows "manager_ok k m'"
proof -
  have "in_session m' = in_session m" "event_ok m' = event_ok m" "state_ok m' = state_ok m"
    using assms(2) by (simp_all add: in_session_def event_ok_def state_ok_def fun_eq_iff)
  then show ?thesis using assms unfolding manager_ok_def by (metis subsetD)
qed

lemma session_ok_frame:
  assumes "session_ok k s" and "mgr_receiver (sys_manager s') = mgr_receiver (sys_manager s)"
    and "mgr_generation (sys_manager s') = mgr_generation (sys_manager s)"
    and "set (mgr_queue (sys_manager s')) \<subseteq> set (mgr_queue (sys_manager s))"
    and "set (mgr_events (sys_manager s')) \<subseteq> set (mgr_events (sys_manager s))"
    and "mgr_states (sys_manager s') = mgr_states (sys_manager s)"
    and "held_ok (sys_manager s) (sys_worker s')" and "\<not> mgr_initialized (sys_manager s') \<longrightarrow> sys_worker s' = WorkerAbsent"
  shows "session_ok k s'"
  using assms manager_ok_frame [of k "sys_manager s" "sys_manager s'"]
    held_ok_same [of "sys_manager s" "sys_worker s'" "sys_manager s'"]
  by (simp add: session_ok_def)

lemma held_ok_none: "held x = None \<Longrightarrow> held_ok m x"
  by (simp add: held_ok_def)

lemma client_call_ok:
  assumes ok: "session_ok k s" and call: "client_call call s = Some s'"
    and k: "k' = (if call = CallResetSession then k + 1 else k)" "k' + 1 < 2 ^ 64"
  shows "session_ok k' s'"
proof -
  let ?m = "sys_manager s"
  have m: "manager_ok k ?m" "held_ok ?m (sys_worker s)" "\<not> mgr_initialized ?m \<longrightarrow> sys_worker s = WorkerAbsent"
    using ok by (simp_all add: session_ok_def)
  show ?thesis
  proof (cases call)
    case (CallHandleMessage message)
    then show ?thesis using call k HandleMessage_ok [OF m(1,2), of message] m(3) by (auto simp: session_ok_def)
  next
    case CallResetSession
    then have "k + 2 < 2 ^ 64" using k by simp
    from ResetSession_ok [OF m(1,2) this] show ?thesis
      using call k CallResetSession m(3) by (auto simp: session_ok_def ResetSession_def Let_def)
  next
    case CallDrainEvents
    then have "s' = s\<lparr>sys_manager := snd (DrainEvents ?m)\<rparr>" using call by simp
    then show ?thesis using session_ok_frame [OF ok, of s'] m k CallDrainEvents by (simp add: DrainEvents_def)
  next
    case CallRequestStop
    then have "s' = s\<lparr>sys_manager := RequestStop ?m\<rparr>" using call by simp
    then show ?thesis using session_ok_frame [OF ok, of s'] m k CallRequestStop by (simp add: RequestStop_def)
  next
    case CallInitialize
    obtain b d where init: "cache_Initialize (mgr_cache ?m) (sys_disk s) = (b, d)" by (metis prod.exhaust)
    have kk: "k' = k" using k CallInitialize by simp
    show ?thesis
    proof (cases "mgr_initialized ?m \<or> \<not> mgr_hasBackend ?m \<or> \<not> b")
      case True
      then have "s' = s \<or> s' = s\<lparr>sys_disk := d\<rparr>"
        using call CallInitialize init by (cases b) (auto simp: manager_Initialize_def Let_def)
      then show ?thesis using ok kk by (auto simp: session_ok_def)
    next
      case False
      then have "sys_manager s' = ?m\<lparr>mgr_stopping := False, mgr_initialized := True\<rparr>" "sys_worker s' = WorkerWaiting"
        using call CallInitialize init by (auto simp: manager_Initialize_def Let_def)
      then show ?thesis using session_ok_frame [OF ok, of s'] kk by (simp add: held_ok_none)
    qed
  next
    case CallJoin
    then have "sys_manager s' = ?m\<lparr>mgr_initialized := False\<rparr>" "sys_worker s' = WorkerAbsent"
      using call by (auto simp: Shutdown_join_def split: if_splits)
    then show ?thesis using session_ok_frame [OF ok, of s'] k CallJoin by (simp add: held_ok_none)
  qed
qed

lemma SetState_same:
  "mgr_receiver (SetState w u m) = mgr_receiver m" "mgr_generation (SetState w u m) = mgr_generation m"
  "mgr_queue (SetState w u m) = mgr_queue m" "mgr_initialized (SetState w u m) = mgr_initialized m"
  "mgr_cache (SetState w u m) = mgr_cache m" "mgr_stopping (SetState w u m) = mgr_stopping m"
  "mgr_options (SetState w u m) = mgr_options m"
  by (simp_all add: SetState_def split: prod.splits)

lemma SetState_ok:
  assumes m: "manager_ok k m" and w: "work_generation w = mgr_generation m \<longrightarrow> in_session m (work_revision w) (work_asset w)"
  shows "manager_ok k (SetState w u m)"
proof (cases "work_generation w = mgr_generation m")
  case True
  obtain s e r where u: "u = (s, e, r)" by (metis prod_cases3)
  show ?thesis using m w True
    by (auto simp: u SetState_def manager_ok_def in_session_def event_ok_def state_ok_def asset_event_def)
next
  case False
  then show ?thesis using m by (simp add: SetState_def split: prod.splits)
qed

lemma worker_turn_ok:
  assumes ok: "session_ok k s" and turn: "worker_turn fetch s = Some s'"
  shows "session_ok k s'"
proof -
  let ?m = "sys_manager s"
  have m: "manager_ok k ?m" "held_ok ?m (sys_worker s)" "\<not> mgr_initialized ?m \<longrightarrow> sys_worker s = WorkerAbsent"
    using ok by (simp_all add: session_ok_def)
  show ?thesis
  proof (cases "sys_worker s")
    case WorkerWaiting
    show ?thesis
    proof (cases "mgr_stopping ?m")
      case True
      then have "sys_manager s' = ?m" "sys_worker s' = WorkerReturned" using turn WorkerWaiting by (auto simp: worker_turn_def)
      then show ?thesis using session_ok_frame [OF ok, of s'] m(3) WorkerWaiting by (simp add: held_ok_none)
    next
      case False
      then obtain w ws where q: "mgr_queue ?m = w # ws"
        "sys_manager s' = ?m\<lparr>mgr_queue := ws\<rparr>" "sys_worker s' = WorkerTook w"
        using turn WorkerWaiting by (cases "mgr_queue ?m") (auto simp: worker_turn_def)
      have "held_ok ?m (WorkerTook w)" using m(1) q(1) by (simp add: manager_ok_def held_ok_def)
      then show ?thesis using session_ok_frame [OF ok, of s'] q m(3) WorkerWaiting by auto
    qed
  next
    case (WorkerTook w)
    have init: "mgr_initialized ?m" using m(3) WorkerTook by auto
    show ?thesis
    proof (cases "IsCurrentGeneration (work_generation w) ?m")
      case False
      then have "sys_manager s' = ?m" "sys_worker s' = WorkerWaiting" using turn WorkerTook by (auto simp: worker_turn_def)
      then show ?thesis using session_ok_frame [OF ok, of s'] init by (simp add: held_ok_none)
    next
      case True
      then obtain us where "sys_manager s' = ?m" "sys_worker s' = WorkerReporting w us"
        using turn WorkerTook by (auto simp: worker_turn_def Let_def split: prod.splits)
      moreover have "held_ok ?m (WorkerReporting w us)" using m(2) WorkerTook by (simp add: held_ok_def)
      ultimately show ?thesis using session_ok_frame [OF ok, of s'] init by simp
    qed
  next
    case (WorkerReporting w us)
    then have w: "work_generation w = mgr_generation ?m \<longrightarrow> in_session ?m (work_revision w) (work_asset w)"
      using m(2) by (simp add: held_ok_def)
    have init: "mgr_initialized ?m" using m(3) WorkerReporting by auto
    show ?thesis
    proof (cases us)
      case Nil
      then have "sys_manager s' = ?m" "sys_worker s' = WorkerWaiting"
        using turn WorkerReporting by (auto simp: worker_turn_def)
      then show ?thesis using session_ok_frame [OF ok, of s'] init by (simp add: held_ok_none)
    next
      case (Cons u us')
      then have "sys_worker s' = WorkerReporting w us'" "sys_manager s' = SetState w u ?m"
        using turn WorkerReporting by (auto simp: worker_turn_def)
      moreover have "held_ok ?m (WorkerReporting w us')" using m(2) WorkerReporting by (simp add: held_ok_def)
      ultimately show ?thesis using m(1) init SetState_ok [OF m(1) w, of u] held_ok_same [of ?m "WorkerReporting w us'" "SetState w u ?m"]
        by (simp add: session_ok_def SetState_same)
    qed
  qed (use turn in \<open>auto simp: worker_turn_def\<close>)
qed

lemma reachable_session_ok:
  "reachable backends (start_system c b d) k s \<Longrightarrow> k + 1 < 2 ^ 64 \<Longrightarrow> session_ok k s"
proof (induction rule: reachable.induct)
  case start
  show ?case by (rule start_ok)
next
  case (client k s call s')
  have "k + 1 < 2 ^ 64" using client.prems by (cases "call = CallResetSession") simp_all
  then have "session_ok k s" by (rule client.IH)
  then show ?case using client_call_ok [OF _ client.hyps(2) refl client.prems] by blast
next
  case (worker k s fetch s')
  then show ?case by (blast intro: worker_turn_ok)
qed

end
