(* ===== verification/ManagerProgress.thy ===== *)
theory ManagerProgress
  imports ManagerSession
begin

text \<open>
  The progress of the assets of a session: a ready asset is verified on disk, and the
  worker settles whatever is queued in finitely many turns.
\<close>

section \<open>Ready assets are on disk\<close>

text \<open>Each event kind of a work item goes with one state.\<close>

fun state_of :: "ClientAssetEventKind \<Rightarrow> AssetState" where
  "state_of EvCacheHit = StateReady"
| "state_of EvReady = StateReady"
| "state_of EvFailed = StateFailed"
| "state_of EvDownloading = StateDownloading"
| "state_of EvVerifying = StateVerifying"
| "state_of EvVerified = StateVerifying"
| "state_of EvQueued = StateQueued"
| "state_of k = StateUnknown"

definition ready_updates :: "Update list \<Rightarrow> bool" where
  "ready_updates us \<longleftrightarrow> (\<forall>u \<in> set us. fst u = state_of (kind_of u))"

lemma ready_updates_process: "ready_updates (fst (Process fetch c options w d))"
proof -
  have gu: "ready_updates (fst (give_up t r d))" for t r d by (simp add: give_up_def ready_updates_def Fail_def)
  have commit: "ready_updates (fst (process_commit c a t d))" for a t d
    using gu by (auto simp: process_commit_def ready_updates_def update_to_def split: prod.splits bool.splits)
  have cons: "ready_updates (update_to s k # us) \<longleftrightarrow> ready_updates us" if "s = state_of k" for s k us
    using that by (simp add: ready_updates_def update_to_def)
  have verify: "ready_updates (fst (process_verify c a t d))" for a t d
    using gu commit cons [of StateVerifying EvVerified] cons [of StateVerifying EvVerifying]
    by (auto simp: process_verify_def split: prod.splits option.splits) (metis fst_conv)
  have download: "ready_updates (fst (process_download fetch c options a d))" for a d
    using gu verify cons [of StateVerifying EvVerified] cons [of StateVerifying EvVerifying]
    by (auto simp: process_download_def Let_def split: prod.splits) (metis fst_conv)
  have "process_download fetch c options a d = (us, d') \<Longrightarrow> ready_updates us" for a d us d'
    using download by (metis fst_conv)
  moreover have "ready_updates [Fail r]" "ready_updates [update_to StateReady EvCacheHit, update_to StateReady EvReady]" for r
    by (simp_all add: ready_updates_def update_to_def Fail_def)
  ultimately show ?thesis using cons [of StateDownloading EvDownloading]
    by (auto simp: Process_def split: prod.splits CacheLookup.splits)
qed

lemma ready_last:
  assumes "map kind_of us \<in> legal_traces" and "ready_updates us" and "u \<in> set us" "fst u = StateReady"
  shows "kind_of (last us) = EvReady"
proof -
  have "state_of (kind_of u) = StateReady" using assms by (simp add: ready_updates_def)
  then have "kind_of u \<in> {EvCacheHit, EvReady}" by (cases "kind_of u") simp_all
  then have "EvCacheHit \<in> set (map kind_of us) \<or> EvReady \<in> set (map kind_of us)" using assms(3) by force
  moreover have "us \<noteq> []" using assms(3) by auto
  then have "kind_of (last us) = last (map kind_of us)" by (simp add: last_map)
  ultimately show ?thesis using assms(1) by (auto simp: legal_traces_def)
qed

definition distinct_files :: "AssetCache \<Rightarrow> Manifest \<Rightarrow> bool" where
  "distinct_files c mf \<longleftrightarrow> inj_on (PathFor c) (set (manifest_assets mf))"

abbreviation queued_ids :: "ClientAssetManager \<Rightarrow> u32 set" where
  "queued_ids m \<equiv> (assetId \<circ> work_asset) ` set (mgr_queue m)"

definition queue_ok :: "ClientAssetManager \<Rightarrow> bool" where
  "queue_ok m \<longleftrightarrow> distinct (map (assetId \<circ> work_asset) (mgr_queue m)) \<and>
    (\<forall>i \<in> queued_ids m. fmlookup (mgr_states m) i = Some StateQueued)"

fun worker_ok :: "ClientAssetManager \<Rightarrow> Disk \<Rightarrow> Worker \<Rightarrow> bool" where
  "worker_ok m d (WorkerTook w) \<longleftrightarrow> work_generation w = mgr_generation m \<longrightarrow>
     assetId (work_asset w) \<notin> queued_ids m \<and> fmlookup (mgr_states m) (assetId (work_asset w)) = Some StateQueued"
| "worker_ok m d (WorkerReporting w us) \<longleftrightarrow> work_generation w = mgr_generation m \<longrightarrow>
     assetId (work_asset w) \<notin> queued_ids m \<and>
     ((\<exists>u \<in> set us. fst u = StateReady) \<longrightarrow> holds (PathFor (mgr_cache m) (work_asset w)) (work_asset w) d)"
| "worker_ok m d x \<longleftrightarrow> True"

definition files_ok :: "ClientAssetManager \<Rightarrow> Disk \<Rightarrow> bool" where
  "files_ok m d \<longleftrightarrow> (\<forall>mf a. rx_completed (mgr_receiver m) = Some mf \<longrightarrow> distinct_files (mgr_cache m) mf \<longrightarrow>
     a \<in> set (manifest_assets mf) \<longrightarrow> fmlookup (mgr_states m) (assetId a) = Some StateReady \<longrightarrow>
     holds (PathFor (mgr_cache m) a) a d)"

definition progress_ok :: "System \<Rightarrow> bool" where
  "progress_ok s \<longleftrightarrow> queue_ok (sys_manager s) \<and> worker_ok (sys_manager s) (sys_disk s) (sys_worker s) \<and>
    files_ok (sys_manager s) (sys_disk s)"

text \<open>A step that leaves queue, states, generation and disk alone keeps the invariant.\<close>

lemma progress_ok_frame:
  assumes "progress_ok s" and "mgr_queue (sys_manager s') = mgr_queue (sys_manager s)"
    and "mgr_states (sys_manager s') = mgr_states (sys_manager s)" and "mgr_generation (sys_manager s') = mgr_generation (sys_manager s)"
    and "mgr_cache (sys_manager s') = mgr_cache (sys_manager s)"
    and "rx_completed (mgr_receiver (sys_manager s')) = rx_completed (mgr_receiver (sys_manager s))"
    and "\<And>p a. holds p a (sys_disk s) \<Longrightarrow> holds p a (sys_disk s')"
    and "sys_worker s' = sys_worker s \<or> held (sys_worker s') = None"
  shows "progress_ok s'"
proof -
  have "worker_ok (sys_manager s') (sys_disk s') (sys_worker s')"
  proof (cases "held (sys_worker s') = None")
    case True
    then show ?thesis by (cases "sys_worker s'") simp_all
  next
    case False
    have "sys_worker s' = sys_worker s" by (rule disjE [OF assms(8)]) (use False in simp_all)
    then show ?thesis using assms by (cases "sys_worker s") (auto simp: progress_ok_def)
  qed
  moreover have "queue_ok (sys_manager s')" using assms by (simp add: progress_ok_def queue_ok_def)
  moreover have "files_ok (sys_manager s') (sys_disk s')"
    using assms unfolding progress_ok_def files_ok_def by simp
  ultimately show ?thesis by (simp add: progress_ok_def)
qed

text \<open>A session without a manifest, or one that just got it.\<close>

lemma progress_ok_fresh:
  assumes "mgr_queue (sys_manager s) = []" and "mgr_states (sys_manager s) = fmempty"
    and "\<And>w. held (sys_worker s) = Some w \<Longrightarrow> work_generation w \<noteq> mgr_generation (sys_manager s)"
  shows "progress_ok s"
  using assms by (cases "sys_worker s") (auto simp: progress_ok_def queue_ok_def files_ok_def)

lemma holds_cache_Initialize: "cache_Initialize c d = (b, d') \<Longrightarrow> holds p a d \<Longrightarrow> holds p a d'"
  by (auto simp: cache_Initialize_def holds_def fs_create_directories_nodes(1) split: prod.splits option.splits)

lemma HandleMessage_progress:
  assumes ok: "session_ok k s" and p: "progress_ok s" and s': "s' = s\<lparr>sys_manager := snd (HandleMessage message (sys_manager s))\<rparr>"
  shows "progress_ok s'"
proof -
  let ?m = "sys_manager s"
  have m: "manager_ok k ?m" "held_ok ?m (sys_worker s)" using ok by (simp_all add: session_ok_def)
  obtain result r where run: "receiver_Handle message (mgr_receiver ?m) = (result, r)" by (metis prod.exhaust)
  show ?thesis
  proof (cases "result = InputComplete")
    case False
    have same: "rx_completed r = rx_completed (mgr_receiver ?m)" by (rule manager_ok_begin(1) [OF m(1) run False])
    obtain es where "sys_manager s' = ?m\<lparr>mgr_receiver := r, mgr_events := mgr_events ?m @ es\<rparr>"
      using HandleMessage_incomplete [OF run False] s' by auto
    then show ?thesis using progress_ok_frame [OF p, of s'] same s' by auto
  next
    case True
    then obtain mf where mf: "rx_completed r = Some mf" "distinct (map assetId (manifest_assets mf))"
        "rx_completed (mgr_receiver ?m) = None" "mgr_queue ?m = []" "mgr_states ?m = fmempty" "\<exists>ms. r = receiver_run ms"
      using handle_complete [OF m(1)] run by blast
    define m1 where "m1 = manifest_announced r mf ?m"
    have eq: "sys_manager s' = QueueManifest mf m1"
      using HandleMessage_complete run True mf(1) s' by (simp add: m1_def)
    have m1: "mgr_states m1 = fmempty" "mgr_queue m1 = []" "mgr_generation m1 = mgr_generation ?m"
      using mf by (simp_all add: m1_def manifest_announced_def)
    note fresh = QueueManifest_fresh [OF mf(2) m1(1)]
    have "work_generation w \<noteq> mgr_generation (QueueManifest mf m1)" if "held (sys_worker s) = Some w" for w
      using m(2) that mf(3) fresh(5) m1(3) by (auto simp: held_ok_def in_session_def)
    then have "worker_ok (QueueManifest mf m1) (sys_disk s) (sys_worker s)" by (cases "sys_worker s") auto
    moreover have "queue_ok (QueueManifest mf m1)"
      using mf(2) m1(2) fresh(1,2) by (auto simp: queue_ok_def comp_def)
    moreover have "files_ok (QueueManifest mf m1) (sys_disk s)"
      using fresh(2) by (auto simp: files_ok_def split: if_splits)
    ultimately show ?thesis using eq s' by (simp add: progress_ok_def)
  qed
qed

lemma client_call_progress:
  assumes ok: "session_ok k s" and p: "progress_ok s" and call: "client_call call s = Some s'"
    and k: "call = CallResetSession \<longrightarrow> k + 2 < 2 ^ 64"
  shows "progress_ok s'"
proof -
  let ?m = "sys_manager s"
  have m: "manager_ok k ?m" "held_ok ?m (sys_worker s)" "\<not> mgr_initialized ?m \<longrightarrow> sys_worker s = WorkerAbsent"
    using ok by (simp_all add: session_ok_def)
  show ?thesis
  proof (cases call)
    case (CallHandleMessage message)
    then show ?thesis using HandleMessage_progress [OF ok p, of s' message] call by simp
  next
    case CallResetSession
    then have s': "s' = s\<lparr>sys_manager := ResetSession ?m\<rparr>" using call by simp
    note reset = ResetSession_ok [OF m(1,2)] 
    have "work_generation w \<noteq> mgr_generation (sys_manager s')" if "held (sys_worker s') = Some w" for w
      using reset(3,4) k CallResetSession m(2) that s' by (auto simp: held_ok_def)
    then show ?thesis by (intro progress_ok_fresh) (simp_all add: s' ResetSession_def Let_def)
  next
    case CallDrainEvents
    then have "s' = s\<lparr>sys_manager := snd (DrainEvents ?m)\<rparr>" using call by simp
    then show ?thesis using progress_ok_frame [OF p, of s'] by (simp add: DrainEvents_def)
  next
    case CallRequestStop
    then have s': "s' = s\<lparr>sys_manager := RequestStop ?m\<rparr>" using call by simp
    then show ?thesis using p by (cases "sys_worker s") (auto simp: progress_ok_def queue_ok_def files_ok_def RequestStop_def)
  next
    case CallInitialize
    obtain b d where init: "cache_Initialize (mgr_cache ?m) (sys_disk s) = (b, d)" by (metis prod.exhaust)
    note kept = holds_cache_Initialize [OF init]
    show ?thesis
    proof (cases "mgr_initialized ?m \<or> \<not> mgr_hasBackend ?m \<or> \<not> b")
      case True
      then have "s' = s \<or> s' = s\<lparr>sys_disk := d\<rparr>"
        using call CallInitialize init by (cases b) (auto simp: manager_Initialize_def Let_def)
      then show ?thesis using p progress_ok_frame [OF p, of s'] kept by auto
    next
      case False
      then have "sys_manager s' = ?m\<lparr>mgr_stopping := False, mgr_initialized := True\<rparr>" "sys_worker s' = WorkerWaiting" "sys_disk s' = d"
        using call CallInitialize init by (auto simp: manager_Initialize_def Let_def)
      then show ?thesis using progress_ok_frame [OF p, of s'] kept by simp
    qed
  next
    case CallJoin
    then have "sys_manager s' = ?m\<lparr>mgr_initialized := False\<rparr>" "sys_worker s' = WorkerAbsent" "sys_disk s' = sys_disk s"
      using call by (auto simp: Shutdown_join_def split: if_splits)
    then show ?thesis using progress_ok_frame [OF p, of s'] by simp
  qed
qed

context fetch_backends begin

lemma took_progress:
  assumes ok: "session_ok k s" and p: "progress_ok s" and w: "sys_worker s = WorkerTook w"
    and cur: "IsCurrentGeneration (work_generation w) (sys_manager s)" and fetch: "fetch \<in> backends"
    and run: "Process fetch (mgr_cache (sys_manager s)) (mgr_options (sys_manager s)) w (sys_disk s) = (us, d)"
    and s': "s' = s\<lparr>sys_worker := WorkerReporting w us, sys_disk := d\<rparr>"
  shows "progress_ok s'"
proof -
  let ?m = "sys_manager s" and ?c = "mgr_cache (sys_manager s)" and ?a = "work_asset w"
  have gen: "work_generation w = mgr_generation ?m" using cur by (simp add: IsCurrentGeneration_def)
  note out = Process_outcome [OF fetch, of ?c w "sys_disk s" "mgr_options ?m", unfolded run fst_conv snd_conv]
  have kept: "cache_kept ?c ?a (sys_disk s) d" using out by (simp add: outcome_def)
  have mine: "assetId ?a \<notin> queued_ids ?m" "fmlookup (mgr_states ?m) (assetId ?a) = Some StateQueued"
    using p w gen by (simp_all add: progress_ok_def)
  have "holds (PathFor ?c ?a) ?a d" if "u \<in> set us" "fst u = StateReady" for u
    using ready_last [OF conjunct2 [OF out] _ that] ready_updates_process [of fetch ?c "mgr_options ?m" w "sys_disk s"] run out
    by (simp add: outcome_def)
  then have "worker_ok ?m d (WorkerReporting w us)" using mine by auto
  moreover have "files_ok ?m d"
    unfolding files_ok_def
  proof (intro allI impI)
    fix mf b
    assume mf: "rx_completed (mgr_receiver ?m) = Some mf" "distinct_files ?c mf" "b \<in> set (manifest_assets mf)"
      and ready: "fmlookup (mgr_states ?m) (assetId b) = Some StateReady"
    have "held_ok ?m (WorkerTook w)" using ok w by (simp add: session_ok_def)
    then have "?a \<in> set (manifest_assets mf)" using gen mf(1) by (auto simp: held_ok_def in_session_def)
    moreover have "b \<noteq> ?a" using ready mine(2) by auto
    ultimately have "PathFor ?c b \<noteq> PathFor ?c ?a" using mf(2,3) by (auto simp: distinct_files_def inj_on_def)
    moreover have "holds (PathFor ?c b) b (sys_disk s)" using p mf ready by (simp add: progress_ok_def files_ok_def)
    ultimately show "holds (PathFor ?c b) b d" by (rule holds_kept [OF kept])
  qed
  ultimately show ?thesis using p s' by (simp add: progress_ok_def)
qed

end

lemma SetState_progress:
  assumes ok: "session_ok k s" and p: "progress_ok s" and w: "sys_worker s = WorkerReporting w (u # us)"
    and s': "s' = s\<lparr>sys_worker := WorkerReporting w us, sys_manager := SetState w u (sys_manager s)\<rparr>"
  shows "progress_ok s'"
proof (cases "work_generation w = mgr_generation (sys_manager s)")
  case False
  then have "SetState w u (sys_manager s) = sys_manager s" by (simp add: SetState_def split: prod.splits)
  then show ?thesis using p False s' by (simp add: progress_ok_def)
next
  case True
  let ?m = "sys_manager s" and ?i = "assetId (work_asset w)"
  have wk: "?i \<notin> queued_ids ?m"
      "(\<exists>v \<in> set (u # us). fst v = StateReady) \<Longrightarrow> holds (PathFor (mgr_cache ?m) (work_asset w)) (work_asset w) (sys_disk s)"
    using p w True by (simp_all add: progress_ok_def)
  obtain st kd e where u: "u = (st, kd, e)" by (metis prod_cases3)
  have states: "mgr_states (SetState w u ?m) = fmupd ?i st (mgr_states ?m)" using True by (simp add: SetState_def u)
  have q: "queue_ok ?m" "files_ok ?m (sys_disk s)" using p by (simp_all add: progress_ok_def)
  have "queue_ok (SetState w u ?m)"
    using q(1) wk(1) by (auto simp: queue_ok_def SetState_same states)
  moreover have "worker_ok (SetState w u ?m) (sys_disk s) (WorkerReporting w us)"
    using wk by (auto simp: SetState_same)
  moreover have "files_ok (SetState w u ?m) (sys_disk s)"
    unfolding files_ok_def SetState_same
  proof (intro allI impI)
    fix mf b
    assume mf: "rx_completed (mgr_receiver ?m) = Some mf" "distinct_files (mgr_cache ?m) mf" "b \<in> set (manifest_assets mf)"
      and ready: "fmlookup (mgr_states (SetState w u ?m)) (assetId b) = Some StateReady"
    show "holds (PathFor (mgr_cache ?m) b) b (sys_disk s)"
    proof (cases "assetId b = ?i")
      case False
      then show ?thesis using q(2) mf ready by (simp add: files_ok_def states)
    next
      case same: True
      have "held_ok ?m (WorkerReporting w (u # us))" using ok w by (simp add: session_ok_def)
      then have "work_asset w \<in> set (manifest_assets mf)" using True mf(1) by (auto simp: held_ok_def in_session_def)
      moreover obtain ms where "mgr_receiver ?m = receiver_run ms" using ok by (auto simp: session_ok_def manager_ok_def)
      then have "received_ok mf" using receiver_history [of ms] mf(1) by (simp add: history_def)
      ultimately have "b = work_asset w"
        using mf(3) same by (auto simp: received_ok_def distinct_map dest: inj_onD)
      moreover have "st = StateReady" using ready same by (simp add: states)
      ultimately show ?thesis using wk(2) by (simp add: u)
    qed
  qed
  ultimately show ?thesis using s' by (simp add: progress_ok_def)
qed

context fetch_backends begin

lemma worker_turn_progress:
  assumes ok: "session_ok k s" and p: "progress_ok s" and fetch: "fetch \<in> backends" and turn: "worker_turn fetch s = Some s'"
  shows "progress_ok s'"
proof -
  let ?m = "sys_manager s"
  show ?thesis
  proof (cases "sys_worker s")
    case WorkerWaiting
    show ?thesis
    proof (cases "mgr_stopping ?m")
      case True
      then have "sys_manager s' = ?m" "sys_worker s' = WorkerReturned" "sys_disk s' = sys_disk s"
        using turn WorkerWaiting by (auto simp: worker_turn_def)
      then show ?thesis using progress_ok_frame [OF p, of s'] by simp
    next
      case False
      then obtain w ws where q: "mgr_queue ?m = w # ws" "sys_manager s' = ?m\<lparr>mgr_queue := ws\<rparr>"
          "sys_worker s' = WorkerTook w" "sys_disk s' = sys_disk s"
        using turn WorkerWaiting by (cases "mgr_queue ?m") (auto simp: worker_turn_def)
      then show ?thesis using p by (auto simp: progress_ok_def queue_ok_def files_ok_def)
    qed
  next
    case (WorkerTook w)
    show ?thesis
    proof (cases "IsCurrentGeneration (work_generation w) ?m")
      case False
      then have "sys_manager s' = ?m" "sys_worker s' = WorkerWaiting" "sys_disk s' = sys_disk s"
        using turn WorkerTook by (auto simp: worker_turn_def)
      then show ?thesis using progress_ok_frame [OF p, of s'] by simp
    next
      case True
      obtain us d where run: "Process fetch (mgr_cache ?m) (mgr_options ?m) w (sys_disk s) = (us, d)" by (metis prod.exhaust)
      then have "s' = s\<lparr>sys_worker := WorkerReporting w us, sys_disk := d\<rparr>"
        using turn WorkerTook True by (auto simp: worker_turn_def Let_def)
      then show ?thesis by (rule took_progress [OF ok p WorkerTook True fetch run])
    qed
  next
    case (WorkerReporting w us)
    show ?thesis
    proof (cases us)
      case Nil
      then have "sys_manager s' = ?m" "sys_worker s' = WorkerWaiting" "sys_disk s' = sys_disk s"
        using turn WorkerReporting by (auto simp: worker_turn_def)
      then show ?thesis using progress_ok_frame [OF p, of s'] by simp
    next
      case (Cons u us')
      then have "s' = s\<lparr>sys_worker := WorkerReporting w us', sys_manager := SetState w u ?m\<rparr>"
        using turn WorkerReporting by (auto simp: worker_turn_def)
      then show ?thesis using SetState_progress [OF ok p] WorkerReporting Cons by blast
    qed
  qed (use turn in \<open>auto simp: worker_turn_def\<close>)
qed

lemma reachable_progress_ok:
  "reachable backends (start_system c b d) k s \<Longrightarrow> k + 1 < 2 ^ 64 \<Longrightarrow> progress_ok s"
proof (induction rule: reachable.induct)
  case start
  show ?case by (rule progress_ok_fresh) (simp_all add: start_system_def new_manager_def)
next
  case (client k s call s')
  have k: "k + 1 < 2 ^ 64" using client.prems by (cases "call = CallResetSession") simp_all
  then have "session_ok k s" by (rule reachable_session_ok [OF client.hyps(1)])
  moreover have "call = CallResetSession \<longrightarrow> k + 2 < 2 ^ 64" using client.prems by auto
  ultimately show ?case using client_call_progress client.IH [OF k] client.hyps(2) by blast
next
  case (worker k s fetch s')
  then show ?case using worker_turn_progress [OF reachable_session_ok] by blast
qed

end

section \<open>The worker settles every asset\<close>

fun worker_run :: "Fetch \<Rightarrow> nat \<Rightarrow> System \<Rightarrow> System" where
  "worker_run fetch 0 s = s"
| "worker_run fetch (Suc n) s = (case worker_turn fetch s of None \<Rightarrow> s | Some s' \<Rightarrow> worker_run fetch n s')"

lemma worker_run_Some: "worker_turn fetch s = Some s' \<Longrightarrow> worker_run fetch (Suc n) s = worker_run fetch n s'"
  by simp

lemma worker_run_add: "worker_run fetch (m + n) s = worker_run fetch n (worker_run fetch m s)"
proof (induction m arbitrary: s)
  case (Suc m)
  show ?case
  proof (cases "worker_turn fetch s")
    case None
    then have "worker_run fetch n s = s" by (cases n) simp_all
    then show ?thesis using None by simp
  qed (use Suc in simp)
qed simp

text \<open>What the turns on one item leave alone.\<close>

definition only_states :: "ClientAssetManager \<Rightarrow> ClientAssetManager \<Rightarrow> u32 set \<Rightarrow> bool" where
  "only_states m m' I \<longleftrightarrow> mgr_generation m' = mgr_generation m \<and> mgr_stopping m' = mgr_stopping m \<and>
    mgr_cache m' = mgr_cache m \<and> mgr_options m' = mgr_options m \<and> mgr_receiver m' = mgr_receiver m \<and>
    (\<forall>i. i \<notin> I \<longrightarrow> fmlookup (mgr_states m') i = fmlookup (mgr_states m) i)"

lemma report_run:
  assumes "sys_worker s = WorkerReporting w us" and "work_generation w = mgr_generation (sys_manager s)" and "us \<noteq> []"
  shows "\<exists>n s'. worker_run fetch n s = s' \<and> sys_worker s' = WorkerWaiting \<and>
    mgr_queue (sys_manager s') = mgr_queue (sys_manager s) \<and>
    only_states (sys_manager s) (sys_manager s') {assetId (work_asset w)} \<and>
    fmlookup (mgr_states (sys_manager s')) (assetId (work_asset w)) = Some (fst (last us))"
  using assms
proof (induction us arbitrary: s)
  case Nil
  then show ?case by simp
next
  case (Cons u us)
  define s1 where "s1 = s\<lparr>sys_worker := WorkerReporting w us, sys_manager := SetState w u (sys_manager s)\<rparr>"
  obtain st kd e where u: "u = (st, kd, e)" by (metis prod_cases3)
  have turn: "worker_turn fetch s = Some s1" using Cons.prems by (simp add: worker_turn_def s1_def)
  have first: "only_states (sys_manager s) (sys_manager s1) {assetId (work_asset w)}"
    "fmlookup (mgr_states (sys_manager s1)) (assetId (work_asset w)) = Some (fst u)"
    "mgr_queue (sys_manager s1) = mgr_queue (sys_manager s)" "mgr_generation (sys_manager s1) = mgr_generation (sys_manager s)"
    using Cons.prems(2) by (auto simp: s1_def only_states_def SetState_same) (simp_all add: SetState_def u)
  show ?case
  proof (cases us)
    case Nil
    define s2 where "s2 = s1\<lparr>sys_worker := WorkerWaiting\<rparr>"
    have "worker_turn fetch s1 = Some s2" using Nil by (simp add: worker_turn_def s1_def s2_def)
    then have "worker_run fetch 2 s = s2" using turn by (simp add: numeral_2_eq_2)
    then show ?thesis using first Nil by (intro exI [of _ 2] exI [of _ s2]) (simp add: s2_def)
  next
    case (Cons v vs)
    have "sys_worker s1 = WorkerReporting w us" by (simp add: s1_def)
    then obtain n s' where n: "worker_run fetch n s1 = s'" "sys_worker s' = WorkerWaiting"
      "mgr_queue (sys_manager s') = mgr_queue (sys_manager s1)"
      "only_states (sys_manager s1) (sys_manager s') {assetId (work_asset w)}"
      "fmlookup (mgr_states (sys_manager s')) (assetId (work_asset w)) = Some (fst (last us))"
      using Cons.IH [of s1] Cons.prems(2) first(4) Cons by auto
    have "worker_run fetch (Suc n) s = s'" using n(1) turn by simp
    moreover have "only_states (sys_manager s) (sys_manager s') {assetId (work_asset w)}"
      using n(4) first(1) by (simp add: only_states_def)
    ultimately show ?thesis using n first(3) Cons by (intro exI [of _ "Suc n"] exI [of _ s']) simp
  qed
qed

context fetch_backends begin

lemma legal_last:
  assumes "map kind_of us \<in> legal_traces" and "ready_updates us"
  shows "us \<noteq> []" and "fst (last us) \<in> {StateReady, StateFailed}"
proof -
  show ne: "us \<noteq> []" using assms(1) by (auto simp: legal_traces_def)
  have "kind_of (last us) = last (map kind_of us)" using ne by (simp add: last_map)
  then have "kind_of (last us) \<in> {EvReady, EvFailed}" using assms(1) by (auto simp: legal_traces_def)
  moreover have "fst (last us) = state_of (kind_of (last us))" using assms(2) ne by (simp add: ready_updates_def)
  ultimately show "fst (last us) \<in> {StateReady, StateFailed}" by auto
qed

lemma item_run:
  assumes fetch: "fetch \<in> backends" and s: "sys_worker s = WorkerWaiting" "\<not> mgr_stopping (sys_manager s)"
    "mgr_queue (sys_manager s) = w # ws" "work_generation w = mgr_generation (sys_manager s)"
  shows "\<exists>n s'. worker_run fetch n s = s' \<and> sys_worker s' = WorkerWaiting \<and> mgr_queue (sys_manager s') = ws \<and>
    only_states (sys_manager s) (sys_manager s') {assetId (work_asset w)} \<and>
    fmlookup (mgr_states (sys_manager s')) (assetId (work_asset w)) \<in> {Some StateReady, Some StateFailed}"
proof -
  let ?m = "(sys_manager s)\<lparr>mgr_queue := ws\<rparr>"
  define s1 where "s1 = s\<lparr>sys_worker := WorkerTook w, sys_manager := ?m\<rparr>"
  obtain us d where run: "Process fetch (mgr_cache ?m) (mgr_options ?m) w (sys_disk s) = (us, d)" by (metis prod.exhaust)
  define s2 where "s2 = s1\<lparr>sys_worker := WorkerReporting w us, sys_disk := d\<rparr>"
  have t1: "worker_turn fetch s = Some s1" using s by (simp add: worker_turn_def s1_def)
  have t2: "worker_turn fetch s1 = Some s2"
    using s run by (simp add: worker_turn_def s1_def s2_def IsCurrentGeneration_def)
  have last: "us \<noteq> []" "fst (last us) \<in> {StateReady, StateFailed}"
    using legal_last [of us] Process_outcome [OF fetch, of "mgr_cache ?m" w "sys_disk s" "mgr_options ?m"]
      ready_updates_process [of fetch "mgr_cache ?m" "mgr_options ?m" w "sys_disk s"] run by simp_all
  obtain n s' where n: "worker_run fetch n s2 = s'" "sys_worker s' = WorkerWaiting"
    "mgr_queue (sys_manager s') = mgr_queue (sys_manager s2)"
    "only_states (sys_manager s2) (sys_manager s') {assetId (work_asset w)}"
    "fmlookup (mgr_states (sys_manager s')) (assetId (work_asset w)) = Some (fst (last us))"
    using report_run [of s2 w us fetch] last(1) s(4) by (auto simp: s2_def s1_def)
  have "worker_run fetch (Suc (Suc n)) s = s'" using t1 t2 n(1) by simp
  moreover have "only_states (sys_manager s) (sys_manager s') {assetId (work_asset w)}"
    using n(4) by (simp add: only_states_def s2_def s1_def)
  ultimately show ?thesis using n last(2) by (intro exI [of _ "Suc (Suc n)"] exI [of _ s']) (auto simp: s2_def s1_def)
qed

lemma queue_run:
  assumes fetch: "fetch \<in> backends"
  shows "sys_worker s = WorkerWaiting \<Longrightarrow> \<not> mgr_stopping (sys_manager s) \<Longrightarrow>
    \<forall>w \<in> set (mgr_queue (sys_manager s)). work_generation w = mgr_generation (sys_manager s) \<Longrightarrow>
    \<exists>n s'. worker_run fetch n s = s' \<and> sys_worker s' = WorkerWaiting \<and> mgr_queue (sys_manager s') = [] \<and>
      only_states (sys_manager s) (sys_manager s') (queued_ids (sys_manager s)) \<and>
      (\<forall>i \<in> queued_ids (sys_manager s). fmlookup (mgr_states (sys_manager s')) i \<in> {Some StateReady, Some StateFailed})"
proof (induction "mgr_queue (sys_manager s)" arbitrary: s)
  case Nil
  have "only_states (sys_manager s) (sys_manager s) I" for I by (simp add: only_states_def)
  then show ?case using Nil by (intro exI [of _ 0] exI [of _ s]) simp
next
  case (Cons w ws)
  have gen: "work_generation w = mgr_generation (sys_manager s)" using Cons.prems(3) Cons.hyps(2) [symmetric] by simp
  obtain n s1 where n: "worker_run fetch n s = s1" "sys_worker s1 = WorkerWaiting" "mgr_queue (sys_manager s1) = ws"
    "only_states (sys_manager s) (sys_manager s1) {assetId (work_asset w)}"
    "fmlookup (mgr_states (sys_manager s1)) (assetId (work_asset w)) \<in> {Some StateReady, Some StateFailed}"
    using item_run [OF fetch Cons.prems(1,2) Cons.hyps(2) [symmetric] gen] by blast
  have prems: "\<not> mgr_stopping (sys_manager s1)"
    "\<forall>w \<in> set (mgr_queue (sys_manager s1)). work_generation w = mgr_generation (sys_manager s1)"
    using n(3,4) Cons.prems(2,3) Cons.hyps(2) [symmetric] by (simp_all add: only_states_def)
  obtain k s' where k: "worker_run fetch k s1 = s'" "sys_worker s' = WorkerWaiting" "mgr_queue (sys_manager s') = []"
      "only_states (sys_manager s1) (sys_manager s') (queued_ids (sys_manager s1))"
      "\<forall>i \<in> queued_ids (sys_manager s1). fmlookup (mgr_states (sys_manager s')) i \<in> {Some StateReady, Some StateFailed}"
    using Cons.hyps(1) [OF n(3) [symmetric] n(2) prems] by blast
  have ids: "queued_ids (sys_manager s) = insert (assetId (work_asset w)) (queued_ids (sys_manager s1))"
    using n(3) Cons.hyps(2) [symmetric] by simp
  have "worker_run fetch (n + k) s = s'" using n(1) k(1) by (simp add: worker_run_add)
  moreover have "only_states (sys_manager s) (sys_manager s') (queued_ids (sys_manager s))"
    unfolding ids using n(4) k(4) by (simp add: only_states_def)
  moreover have "\<forall>i \<in> queued_ids (sys_manager s). fmlookup (mgr_states (sys_manager s')) i \<in> {Some StateReady, Some StateFailed}"
  proof (rule ballI)
    fix i assume "i \<in> queued_ids (sys_manager s)"
    then show "fmlookup (mgr_states (sys_manager s')) i \<in> {Some StateReady, Some StateFailed}"
      using k(4,5) n(5) unfolding ids only_states_def by (cases "i \<in> queued_ids (sys_manager s1)") (blast, metis insertE)
  qed
  ultimately show ?case using k(2,3) by blast
qed

end

end
