(* ===== verification/ManagerReports.thy ===== *)
theory ManagerReports
  imports ManagerProgress
begin

text \<open>
  What the events that end an asset's download mean when the client drains them: the asset
  is in the state the event says, and an asset reported ready lies verified on disk.
\<close>

section \<open>Final events and states agree\<close>

abbreviation final_kinds :: "ClientAssetEventKind set" where
  "final_kinds \<equiv> {EvReady, EvFailed}"

definition settled :: "ClientAssetManager \<Rightarrow> bool" where
  "settled m \<longleftrightarrow> (\<forall>e \<in> set (mgr_events m). ev_kind e \<in> final_kinds \<longrightarrow>
     fmlookup (mgr_states m) (ev_assetId e) = Some (state_of (ev_kind e)))"

definition unsettled :: "ClientAssetManager \<Rightarrow> u32 \<Rightarrow> bool" where
  "unsettled m i \<longleftrightarrow> (\<forall>e \<in> set (mgr_events m). ev_kind e \<in> final_kinds \<longrightarrow> ev_assetId e \<noteq> i)"

definition final_last :: "Update list \<Rightarrow> bool" where
  "final_last us \<longleftrightarrow> ready_updates us \<and> (\<forall>u \<in> set (butlast us). kind_of u \<notin> final_kinds)"

fun reports_pending :: "ClientAssetManager \<Rightarrow> Worker \<Rightarrow> bool" where
  "reports_pending m (WorkerReporting w us) \<longleftrightarrow> final_last us \<and>
     (work_generation w = mgr_generation m \<longrightarrow> us \<noteq> [] \<longrightarrow> unsettled m (assetId (work_asset w)))"
| "reports_pending m x \<longleftrightarrow> True"

definition reports_ok :: "System \<Rightarrow> bool" where
  "reports_ok s \<longleftrightarrow> settled (sys_manager s) \<and> reports_pending (sys_manager s) (sys_worker s)"

lemma legal_final_last:
  assumes "map kind_of us \<in> legal_traces" and "ready_updates us"
  shows "final_last us"
proof -
  have "kind_of u \<notin> final_kinds" if "u \<in> set (butlast us)" for u
  proof -
    have "kind_of u \<in> set (butlast (map kind_of us))" using that by (simp add: map_butlast [symmetric])
    then show ?thesis using assms(1) by (auto simp: legal_traces_def)
  qed
  then show ?thesis using assms(2) by (simp add: final_last_def)
qed

lemma final_last_tl: "final_last (u # us) \<Longrightarrow> final_last us \<and> (us \<noteq> [] \<longrightarrow> kind_of u \<notin> final_kinds)"
  by (cases "us = []") (simp_all add: final_last_def ready_updates_def)

lemma unsettled_state:
  "settled m \<Longrightarrow> fmlookup (mgr_states m) i = Some StateQueued \<Longrightarrow> unsettled m i"
  by (auto simp: settled_def unsettled_def)

lemma settled_unknown: "settled m \<Longrightarrow> mgr_states m = fmempty \<Longrightarrow> e \<in> set (mgr_events m) \<Longrightarrow> ev_kind e \<notin> final_kinds"
  by (auto simp: settled_def)

lemma reports_frame:
  assumes "reports_ok s" and "mgr_states (sys_manager s') = mgr_states (sys_manager s)"
    and "mgr_generation (sys_manager s') = mgr_generation (sys_manager s)"
    and "\<forall>e \<in> set (mgr_events (sys_manager s')). ev_kind e \<in> final_kinds \<longrightarrow> e \<in> set (mgr_events (sys_manager s))"
    and "sys_worker s' = sys_worker s \<or> (\<forall>w us. sys_worker s' \<noteq> WorkerReporting w us)"
  shows "reports_ok s'"
proof -
  have "settled (sys_manager s')" using assms by (auto simp: reports_ok_def settled_def)
  moreover have "reports_pending (sys_manager s') (sys_worker s')"
  proof (cases "sys_worker s'")
    case (WorkerReporting w us)
    then have "sys_worker s = WorkerReporting w us" using assms(5) by auto
    then show ?thesis using assms WorkerReporting by (auto simp: reports_ok_def unsettled_def)
  qed simp_all
  ultimately show ?thesis by (simp add: reports_ok_def)
qed

lemma HandleMessage_reports:
  assumes ok: "session_ok k s" and r: "reports_ok s" and s': "s' = s\<lparr>sys_manager := snd (HandleMessage message (sys_manager s))\<rparr>"
  shows "reports_ok s'"
proof -
  let ?m = "sys_manager s"
  have m: "manager_ok k ?m" "held_ok ?m (sys_worker s)" using ok by (simp_all add: session_ok_def)
  obtain result q where run: "receiver_Handle message (mgr_receiver ?m) = (result, q)" by (metis prod.exhaust)
  show ?thesis
  proof (cases "result = InputComplete")
    case False
    obtain es where es: "sys_manager s' = ?m\<lparr>mgr_receiver := q, mgr_events := mgr_events ?m @ es\<rparr>"
      "\<forall>e \<in> set es. ev_kind e = EvManifestBegin"
      using HandleMessage_incomplete [OF run False] s' by auto
    have w: "sys_worker s' = sys_worker s" using s' by simp
    have old: "\<forall>e \<in> set (mgr_events (sys_manager s')). ev_kind e \<in> final_kinds \<longrightarrow> e \<in> set (mgr_events ?m)"
      using es by auto
    have "mgr_states (sys_manager s') = mgr_states ?m" "mgr_generation (sys_manager s') = mgr_generation ?m"
      using es(1) by simp_all
    then show ?thesis by (rule reports_frame [OF r _ _ old disjI1 [OF w]])
  next
    case True
    then obtain mf where mf: "rx_completed q = Some mf" "distinct (map assetId (manifest_assets mf))"
        "rx_completed (mgr_receiver ?m) = None" "mgr_queue ?m = []" "mgr_states ?m = fmempty" "\<exists>ms. q = receiver_run ms"
      using handle_complete [OF m(1)] run by blast
    define m1 where "m1 = manifest_announced q mf ?m"
    have eq: "sys_manager s' = QueueManifest mf m1"
      using HandleMessage_complete run True mf(1) s' by (simp add: m1_def)
    have m1: "mgr_states m1 = fmempty" "mgr_generation m1 = mgr_generation ?m"
      using mf by (simp_all add: m1_def manifest_announced_def)
    note fresh = QueueManifest_fresh [OF mf(2) m1(1)]
    have old: "ev_kind e \<notin> final_kinds" if "e \<in> set (mgr_events ?m)" for e
      using settled_unknown [of ?m e] r mf(5) that by (simp add: reports_ok_def)
    then have none: "ev_kind e \<notin> final_kinds" if "e \<in> set (mgr_events (sys_manager s'))" for e
      using that unfolding eq fresh(3)
      by (auto simp: m1_def manifest_announced_def manifest_event_def asset_event_def)
    have "reports_pending (sys_manager s') (sys_worker s)"
      using r none m1(2) fresh(5) eq by (cases "sys_worker s") (auto simp: reports_ok_def unsettled_def)
    then show ?thesis using none s' by (auto simp: reports_ok_def settled_def)
  qed
qed

lemma client_call_reports:
  assumes ok: "session_ok k s" and r: "reports_ok s" and call: "client_call call s = Some s'"
  shows "reports_ok s'"
proof (cases call)
  case (CallHandleMessage message)
  then show ?thesis using HandleMessage_reports [OF ok r, of s' message] call by simp
next
  case CallResetSession
  then have s': "s' = s\<lparr>sys_manager := ResetSession (sys_manager s)\<rparr>" using call by simp
  then show ?thesis using r
    by (cases "sys_worker s") (auto simp: reports_ok_def ResetSession_def Let_def settled_def unsettled_def)
next
  case CallDrainEvents
  then have "s' = s\<lparr>sys_manager := snd (DrainEvents (sys_manager s))\<rparr>" using call by simp
  then show ?thesis using reports_frame [OF r, of s'] by (simp add: DrainEvents_def)
next
  case CallRequestStop
  then have "s' = s\<lparr>sys_manager := RequestStop (sys_manager s)\<rparr>" using call by simp
  then show ?thesis using reports_frame [OF r, of s'] by (simp add: RequestStop_def)
next
  case CallInitialize
  then have "sys_manager s' = sys_manager s \<and> sys_worker s' = sys_worker s \<or>
      mgr_states (sys_manager s') = mgr_states (sys_manager s) \<and> mgr_generation (sys_manager s') = mgr_generation (sys_manager s) \<and>
      mgr_events (sys_manager s') = mgr_events (sys_manager s) \<and> sys_worker s' = WorkerWaiting"
    using call by (auto simp: manager_Initialize_def Let_def split: prod.splits bool.splits)
  then show ?thesis using reports_frame [OF r, of s'] by auto
next
  case CallJoin
  then have "sys_manager s' = (sys_manager s)\<lparr>mgr_initialized := False\<rparr>" "sys_worker s' = WorkerAbsent"
    using call by (auto simp: Shutdown_join_def split: if_splits)
  then show ?thesis using reports_frame [OF r, of s'] by simp
qed

lemma SetState_reports:
  assumes r: "reports_ok s" and w: "sys_worker s = WorkerReporting w (u # us)"
    and s': "s' = s\<lparr>sys_worker := WorkerReporting w us, sys_manager := SetState w u (sys_manager s)\<rparr>"
  shows "reports_ok s'"
proof -
  let ?m = "sys_manager s" and ?i = "assetId (work_asset w)"
  have f: "final_last (u # us)" using r w by (simp add: reports_ok_def)
  show ?thesis
  proof (cases "work_generation w = mgr_generation ?m")
    case False
    then have "SetState w u ?m = ?m" by (simp add: SetState_def split: prod.splits)
    then show ?thesis using r w s' final_last_tl [OF f] False by (simp add: reports_ok_def)
  next
    case True
    obtain st kd e where u: "u = (st, kd, e)" by (metis prod_cases3)
    have un: "unsettled ?m ?i" using r w True by (simp add: reports_ok_def)
    have st: "st = state_of kd" using f by (simp add: final_last_def ready_updates_def u)
    have states: "mgr_states (SetState w u ?m) = fmupd ?i st (mgr_states ?m)"
      and events: "mgr_events (SetState w u ?m) = mgr_events ?m @ [asset_event kd (work_revision w) ?i e]"
      using True by (simp_all add: SetState_def u)
    have "settled (SetState w u ?m)"
      using r un st by (auto simp: settled_def reports_ok_def states events unsettled_def asset_event_def)
    moreover have "us \<noteq> [] \<Longrightarrow> unsettled (SetState w u ?m) ?i"
      using un final_last_tl [OF f] by (auto simp: unsettled_def events [unfolded u] asset_event_def u)
    ultimately show ?thesis using s' final_last_tl [OF f] by (simp add: reports_ok_def)
  qed
qed

context fetch_backends begin

lemma worker_turn_reports:
  assumes r: "reports_ok s" and p: "progress_ok s" and fetch: "fetch \<in> backends" and turn: "worker_turn fetch s = Some s'"
  shows "reports_ok s'"
proof -
  let ?m = "sys_manager s"
  show ?thesis
  proof (cases "sys_worker s")
    case WorkerWaiting
    then have "mgr_states (sys_manager s') = mgr_states ?m" "mgr_generation (sys_manager s') = mgr_generation ?m"
      "mgr_events (sys_manager s') = mgr_events ?m" "\<forall>w us. sys_worker s' \<noteq> WorkerReporting w us"
      using turn by (auto simp: worker_turn_def Let_def split: if_splits list.splits)
    then show ?thesis using reports_frame [OF r, of s'] by simp
  next
    case (WorkerTook w)
    show ?thesis
    proof (cases "IsCurrentGeneration (work_generation w) ?m")
      case False
      then have "sys_manager s' = ?m" "sys_worker s' = WorkerWaiting" using turn WorkerTook by (auto simp: worker_turn_def)
      then show ?thesis using reports_frame [OF r, of s'] by simp
    next
      case True
      let ?a = "work_asset w"
      obtain us d where run: "Process fetch (mgr_cache ?m) (mgr_options ?m) w (sys_disk s) = (us, d)" by (metis prod.exhaust)
      then have s': "s' = s\<lparr>sys_worker := WorkerReporting w us, sys_disk := d\<rparr>"
        using turn WorkerTook True by (auto simp: worker_turn_def Let_def)
      have "map kind_of us \<in> legal_traces" "ready_updates us"
        using Process_outcome [OF fetch, of "mgr_cache ?m" w "sys_disk s" "mgr_options ?m"]
          ready_updates_process [of fetch "mgr_cache ?m" "mgr_options ?m" w "sys_disk s"] run by simp_all
      then have "final_last us" by (rule legal_final_last)
      moreover have "fmlookup (mgr_states ?m) (assetId ?a) = Some StateQueued"
        using p WorkerTook True by (simp add: progress_ok_def IsCurrentGeneration_def)
      then have "unsettled ?m (assetId ?a)" using unsettled_state r by (simp add: reports_ok_def)
      ultimately show ?thesis using r s' by (simp add: reports_ok_def)
    qed
  next
    case (WorkerReporting w us)
    show ?thesis
    proof (cases us)
      case Nil
      then have "sys_manager s' = ?m" "sys_worker s' = WorkerWaiting" using turn WorkerReporting by (auto simp: worker_turn_def)
      then show ?thesis using reports_frame [OF r, of s'] by simp
    next
      case (Cons u us')
      then have "s' = s\<lparr>sys_worker := WorkerReporting w us', sys_manager := SetState w u ?m\<rparr>"
        using turn WorkerReporting by (auto simp: worker_turn_def)
      then show ?thesis using SetState_reports [OF r] WorkerReporting Cons by blast
    qed
  qed (use turn in \<open>auto simp: worker_turn_def\<close>)
qed

lemma reachable_reports_ok:
  "reachable backends (start_system c b d) k s \<Longrightarrow> k + 1 < 2 ^ 64 \<Longrightarrow> reports_ok s"
proof (induction rule: reachable.induct)
  case start
  show ?case by (simp add: reports_ok_def settled_def start_system_def new_manager_def)
next
  case (client k s call s')
  have k: "k + 1 < 2 ^ 64" using client.prems by (cases "call = CallResetSession") simp_all
  then show ?case using client_call_reports [OF reachable_session_ok [OF client.hyps(1) k]] client.IH client.hyps(2) by blast
next
  case (worker k s fetch s')
  then show ?case using worker_turn_reports reachable_progress_ok by blast
qed

text \<open>A ready event that waits to be drained is about an asset that is verified on disk now.\<close>

lemma ready_event_verified:
  assumes reach: "reachable backends (start_system c b d) k s" and k: "k + 1 < 2 ^ 64"
    and e: "e \<in> set (mgr_events (sys_manager s))" "ev_kind e = EvReady"
  shows "\<exists>mf a. rx_completed (mgr_receiver (sys_manager s)) = Some mf \<and> ev_revision e = revision mf \<and>
    a \<in> set (manifest_assets mf) \<and> assetId a = ev_assetId e \<and> fmlookup (mgr_states (sys_manager s)) (assetId a) = Some StateReady \<and>
    (distinct_files (mgr_cache (sys_manager s)) mf \<longrightarrow> holds (PathFor (mgr_cache (sys_manager s)) a) a (sys_disk s))"
proof -
  let ?m = "sys_manager s"
  have "event_ok ?m e" using reachable_session_ok [OF reach k] e(1) by (simp add: session_ok_def manager_ok_def)
  then obtain mf a where mf: "rx_completed (mgr_receiver ?m) = Some mf" "ev_revision e = revision mf"
    "a \<in> set (manifest_assets mf)" "assetId a = ev_assetId e"
    using e(2) by (auto simp: event_ok_def)
  moreover have ready: "fmlookup (mgr_states ?m) (assetId a) = Some StateReady"
    using reachable_reports_ok [OF reach k] e mf(4) by (auto simp: reports_ok_def settled_def)
  moreover from ready have "distinct_files (mgr_cache ?m) mf \<longrightarrow> holds (PathFor (mgr_cache ?m) a) a (sys_disk s)"
    using reachable_progress_ok [OF reach k] mf(1,3) by (simp add: progress_ok_def files_ok_def)
  ultimately show ?thesis by blast
qed

end

end
