(* ===== verification/ClientHandshake.thy ===== *)
theory ClientHandshake
  imports PlayerCapabilities
begin

text \<open>
  The client's side of the handshake, \<^verbatim>\<open>client/src/protocol/handshake.cpp\<close>: a state
  machine driven by the connection, by the request for a greeting and by incoming packets.
  The lemmas are its invariant and the two facts the rest of the client relies on: a
  connection emits at most one greeting, and only an answer to it makes it compatible.
\<close>

section \<open>Definitions\<close>

datatype ClientHandshakeState = Disconnected | Connected | HelloSent | WelcomeReceived | Compatible | Rejected

datatype IncomingResult = IncomingIgnored | IncomingMalformed | IncomingWelcomeReceived | IncomingRejected

record HandshakeConfiguration =
  runtimeVersion :: RuntimeVersion
  sampVersion :: SampVersion
  capabilities :: CapabilityFlags

record ClientHandshake =
  configuration :: HandshakeConfiguration
  ch_state :: ClientHandshakeState
  ch_welcome :: "Welcome option"
  ch_rejection :: "Reject option"

definition new_ClientHandshake :: "HandshakeConfiguration \<Rightarrow> ClientHandshake" where
  "new_ClientHandshake c = \<lparr>configuration = c\<lparr>capabilities := capabilities c AND kDeclaredCapabilities\<rparr>,
     ch_state = Disconnected, ch_welcome = None, ch_rejection = None\<rparr>"

definition OnConnected :: "ClientHandshake \<Rightarrow> ClientHandshake" where
  "OnConnected h =
    (if ch_state h = Disconnected then h\<lparr>ch_state := Connected, ch_welcome := None, ch_rejection := None\<rparr> else h)"

definition OnDisconnected :: "ClientHandshake \<Rightarrow> ClientHandshake" where
  "OnDisconnected h = h\<lparr>ch_state := Disconnected, ch_welcome := None, ch_rejection := None\<rparr>"

definition TakeHello :: "ClientHandshake \<Rightarrow> bytes option \<times> ClientHandshake" where
  "TakeHello h =
    (if ch_state h \<noteq> Connected then (None, h)
     else
       let hello = \<lparr>hello_runtimeVersion = runtimeVersion (configuration h),
             hello_protocolVersion = kProtocolVersion,
             hello_sampVersion = sampVersion (configuration h),
             hello_capabilities = capabilities (configuration h)\<rparr>
       in case EncodePacket (HelloMsg hello) kProtocolVersion of
            Inl error \<Rightarrow> (None, h)
          | Inr encoded \<Rightarrow> (Some encoded, h\<lparr>ch_state := HelloSent\<rparr>))"

definition client_HandleIncoming :: "ByteView \<Rightarrow> ClientHandshake \<Rightarrow> IncomingResult \<times> ClientHandshake" where
  "client_HandleIncoming bytes h =
    (case DecodePacket bytes of
       Inl error \<Rightarrow> (IncomingMalformed, h)
     | Inr packet \<Rightarrow>
         if ch_state h \<noteq> HelloSent then (IncomingIgnored, h)
         else case packet_message packet of
             WelcomeMsg welcome \<Rightarrow>
               if welcome_acceptedProtocolVersion welcome \<noteq> kProtocolVersion \<or>
                  welcome_serverProtocolVersion welcome \<noteq> kProtocolVersion \<or>
                  \<not> AreCapabilitiesValid (welcome_negotiatedCapabilities welcome) \<or>
                  welcome_negotiatedCapabilities welcome AND NOT (capabilities (configuration h)) \<noteq> 0
               then (IncomingMalformed, h)
               else (IncomingWelcomeReceived, h\<lparr>ch_welcome := Some welcome, ch_state := WelcomeReceived\<rparr>)
           | RejectMsg reject \<Rightarrow> (IncomingRejected, h\<lparr>ch_rejection := Some reject, ch_state := Rejected\<rparr>)
           | _ \<Rightarrow> (IncomingIgnored, h))"

definition ConfirmWelcome :: "ClientHandshake \<Rightarrow> bool \<times> ClientHandshake" where
  "ConfirmWelcome h = (if ch_state h \<noteq> WelcomeReceived then (False, h) else (True, h\<lparr>ch_state := Compatible\<rparr>))"

section \<open>Invariant\<close>

lemma flags_subset_NOT: "a AND NOT b = 0 \<longleftrightarrow> flags_subset a b"
  by (auto simp: flags_subset_bits bit_eq_iff bit_and_iff bit_not_iff) (meson flags_bit_lt)

definition welcome_ok :: "HandshakeConfiguration \<Rightarrow> Welcome \<Rightarrow> bool" where
  "welcome_ok c w \<longleftrightarrow> welcome_acceptedProtocolVersion w = kProtocolVersion \<and>
     welcome_serverProtocolVersion w = kProtocolVersion \<and>
     flags_subset (welcome_negotiatedCapabilities w) (capabilities c)"

definition client_ok :: "ClientHandshake \<Rightarrow> bool" where
  "client_ok h \<longleftrightarrow>
     flags_subset (capabilities (configuration h)) kDeclaredCapabilities \<and>
     (case ch_welcome h of
        None \<Rightarrow> ch_state h \<notin> {WelcomeReceived, Compatible}
      | Some w \<Rightarrow> ch_state h \<in> {WelcomeReceived, Compatible} \<and> welcome_ok (configuration h) w) \<and>
     (ch_rejection h \<noteq> None \<longleftrightarrow> ch_state h = Rejected)"

text \<open>The greeting of a client, and the packet that carries it.\<close>

definition client_hello :: "ClientHandshake \<Rightarrow> Hello" where
  "client_hello h = \<lparr>hello_runtimeVersion = runtimeVersion (configuration h),
     hello_protocolVersion = kProtocolVersion, hello_sampVersion = sampVersion (configuration h),
     hello_capabilities = capabilities (configuration h)\<rparr>"

lemma TakeHello_cases:
  "TakeHello h = (if ch_state h = Connected \<and> message_valid (HelloMsg (client_hello h))
     then (Some (packet_bytes (HelloMsg (client_hello h))), h\<lparr>ch_state := HelloSent\<rparr>) else (None, h))"
  by (simp add: TakeHello_def client_hello_def EncodePacket_bytes)

lemma client_HandleIncoming_cases:
  "client_HandleIncoming bytes h =
    (case DecodePacket bytes of
       Inl error \<Rightarrow> (IncomingMalformed, h)
     | Inr packet \<Rightarrow>
         if ch_state h \<noteq> HelloSent then (IncomingIgnored, h)
         else case packet_message packet of
             WelcomeMsg welcome \<Rightarrow>
               if AreCapabilitiesValid (welcome_negotiatedCapabilities welcome) \<and> welcome_ok (configuration h) welcome
               then (IncomingWelcomeReceived, h\<lparr>ch_welcome := Some welcome, ch_state := WelcomeReceived\<rparr>)
               else (IncomingMalformed, h)
           | RejectMsg reject \<Rightarrow> (IncomingRejected, h\<lparr>ch_rejection := Some reject, ch_state := Rejected\<rparr>)
           | _ \<Rightarrow> (IncomingIgnored, h))"
  by (auto simp: client_HandleIncoming_def welcome_ok_def flags_subset_NOT split: sum.split Message.split)

section \<open>Sequences of events\<close>

datatype ClientEvent = ClientConnected | ClientDisconnected | ClientTakeHello | ClientIncoming ByteView | ClientConfirm

text \<open>One event: the packets handed out, and the new state.\<close>

primrec client_step :: "ClientEvent \<Rightarrow> ClientHandshake \<Rightarrow> bytes list \<times> ClientHandshake" where
  "client_step ClientConnected h = ([], OnConnected h)"
| "client_step ClientDisconnected h = ([], OnDisconnected h)"
| "client_step ClientTakeHello h =
     (case TakeHello h of (None, h) \<Rightarrow> ([], h) | (Some hello, h) \<Rightarrow> ([hello], h))"
| "client_step (ClientIncoming bytes) h = ([], snd (client_HandleIncoming bytes h))"
| "client_step ClientConfirm h = ([], snd (ConfirmWelcome h))"

primrec client_run :: "ClientEvent list \<Rightarrow> ClientHandshake \<Rightarrow> bytes list \<times> ClientHandshake" where
  "client_run [] h = ([], h)"
| "client_run (e # es) h =
    (let (out, h) = client_step e h; (outs, h) = client_run es h in (out @ outs, h))"

lemma client_step_ok:
  assumes "client_ok h"
  shows "client_ok (snd (client_step e h)) \<and> configuration (snd (client_step e h)) = configuration h"
proof (cases e)
  case (ClientIncoming bytes)
  then show ?thesis
    using assms
    by (auto simp: client_HandleIncoming_cases client_ok_def split: sum.split Message.split option.splits)
qed (use assms in \<open>auto simp: client_ok_def OnConnected_def OnDisconnected_def TakeHello_cases ConfirmWelcome_def
       split: option.splits\<close>)

lemma client_run_ok:
  "client_ok h \<Longrightarrow> client_ok (snd (client_run es h)) \<and> configuration (snd (client_run es h)) = configuration h"
  by (induction es arbitrary: h) (simp_all add: client_step_ok case_prod_beta Let_def)

lemma client_ok_new: "client_ok (new_ClientHandshake c)"
  by (simp add: client_ok_def new_ClientHandshake_def)

text \<open>Once a greeting is out, no other follows until the connection ends.\<close>

lemma client_step_output:
  "fst (client_step e h) = [] \<or> fst (client_step e h) = [packet_bytes (HelloMsg (client_hello h))] \<and>
     ch_state h = Connected \<and> ch_state (snd (client_step e h)) = HelloSent"
  by (cases e) (auto simp: TakeHello_cases)

lemma client_step_past_hello:
  "ch_state h \<notin> {Disconnected, Connected} \<Longrightarrow> e \<noteq> ClientDisconnected \<Longrightarrow>
    ch_state (snd (client_step e h)) \<notin> {Disconnected, Connected}"
  by (cases e) (auto simp: OnConnected_def TakeHello_cases client_HandleIncoming_cases ConfirmWelcome_def
      split: sum.split Message.split)

lemma client_run_past_hello:
  "ch_state h \<notin> {Disconnected, Connected} \<Longrightarrow> ClientDisconnected \<notin> set es \<Longrightarrow> fst (client_run es h) = []"
proof (induction es arbitrary: h)
  case (Cons e es)
  then show ?case
    using client_step_output [of e h] client_step_past_hello [of h e] by (auto simp: case_prod_beta Let_def)
qed simp

lemma client_hello_config: "configuration h = configuration h' \<Longrightarrow> client_hello h = client_hello h'"
  by (simp add: client_hello_def)

lemma client_step_config [simp]: "configuration (snd (client_step e h)) = configuration h"
  by (cases e) (auto simp: OnConnected_def OnDisconnected_def TakeHello_cases client_HandleIncoming_cases ConfirmWelcome_def
      split: sum.split Message.split)

lemma client_run_outputs:
  "ClientDisconnected \<notin> set es \<Longrightarrow>
    fst (client_run es h) = [] \<or> fst (client_run es h) = [packet_bytes (HelloMsg (client_hello h))]"
proof (induction es arbitrary: h)
  case (Cons e es)
  show ?case
  proof (cases "fst (client_step e h) = []")
    case True
    then show ?thesis
      using Cons.IH [of "snd (client_step e h)"] Cons.prems client_hello_config [OF client_step_config [of e h]]
      by (simp add: case_prod_beta Let_def)
  next
    case False
    then have out: "fst (client_step e h) = [packet_bytes (HelloMsg (client_hello h))]"
        "ch_state (snd (client_step e h)) = HelloSent"
      using client_step_output [of e h] by auto
    then show ?thesis
      using Cons.prems client_run_past_hello [of "snd (client_step e h)" es]
      by (simp add: case_prod_beta Let_def)
  qed
qed simp

section \<open>Properties\<close>

text \<open>
  In every reachable state of the client's handshake a stored welcome is there
  exactly in the two states after it, it names the protocol version of the client and
  grants no capability the client did not declare, and a stored rejection is there exactly
  in the rejected state.
\<close>

theorem client_invariant: "client_ok (snd (client_run es (new_ClientHandshake c)))"
  using client_run_ok [OF client_ok_new] by blast

text \<open>
  A connection emits at most one greeting: whatever events occur without a
  disconnection, the packets handed out are none or the single greeting with the
  configured version, build and capabilities.
\<close>

theorem one_hello_per_connection:
  assumes "ClientDisconnected \<notin> set es"
  shows "fst (client_run es h) = [] \<or> fst (client_run es h) = [packet_bytes (HelloMsg (client_hello h))]"
  using assms by (rule client_run_outputs)

definition sample_client :: ClientHandshake where
  "sample_client = new_ClientHandshake \<lparr>runtimeVersion = RuntimeVersion 0 3 1, sampVersion = SampVersion_R1, capabilities = 3\<rparr>"

theorem one_hello_per_connection_witness:
  "fst (client_run [ClientConnected, ClientTakeHello, ClientTakeHello] sample_client) =
     [packet_bytes (HelloMsg (client_hello sample_client))]"
proof -
  have "message_valid (HelloMsg (client_hello sample_client))"
    by (simp add: sample_client_def new_ClientHandshake_def client_hello_def AreCapabilitiesValid_subset)
  then have "fst (client_run [ClientConnected, ClientTakeHello, ClientTakeHello] sample_client) \<noteq> []"
    by (simp add: TakeHello_cases OnConnected_def sample_client_def new_ClientHandshake_def client_hello_def)
  then show ?thesis
    using one_hello_per_connection [of "[ClientConnected, ClientTakeHello, ClientTakeHello]" sample_client] by simp
qed

end
