(* ===== verification/ClientTransport.thy ===== *)
theory ClientTransport
  imports Protocol Version
begin

text \<open>
  The client's transport, the abstract class of \<^verbatim>\<open>client/include/custommodel/protocol/transport.hpp\<close>
  as a contract, and the unavailable implementation of \<^verbatim>\<open>client/src/protocol/transport.cpp\<close>.

  The state a call works on is a type variable: the callbacks a transport is given change
  the protocol context and, by sending, the host behind the transport.
\<close>

section \<open>The interface\<close>

datatype ConnectionEvent = EventConnected | EventDisconnected

text \<open>A handler is a null pointer or a function on the state of its context.\<close>

record 'w TransportCallbacks =
  cb_incoming :: "(ByteView \<Rightarrow> 'w \<Rightarrow> 'w) option"
  cb_connection :: "(ConnectionEvent \<Rightarrow> 'w \<Rightarrow> 'w) option"
  cb_pump :: "('w \<Rightarrow> 'w) option"

definition no_callbacks :: "'w TransportCallbacks" where
  "no_callbacks = \<lparr>cb_incoming = None, cb_connection = None, cb_pump = None\<rparr>"

text \<open>
  The contract of \<^verbatim>\<open>Send\<close> its callers rely on: a success hands the packet over once, a
  failure hands over nothing.
\<close>

locale client_transport =
  fixes send :: "ByteView \<Rightarrow> 'h \<Rightarrow> bool \<times> 'h"
    and sent :: "'h \<Rightarrow> bytes list"
  assumes send_log: "send view h = (ok, h') \<Longrightarrow> sent h' = (if ok then sent h @ [view_bytes view] else sent h)"
begin

lemma sent_grows: "\<exists>more. sent (snd (send view h)) = sent h @ more"
  using send_log [OF prod.collapse [symmetric], of view h] by (cases "fst (send view h)") auto

end

section \<open>The unavailable transport\<close>

definition NoTransport_Initialize :: "'w TransportCallbacks \<Rightarrow> 'h \<Rightarrow> bool \<times> 'h" where
  "NoTransport_Initialize callbacks h = (False, h)"

definition NoTransport_Shutdown :: "'h \<Rightarrow> 'h" where
  "NoTransport_Shutdown h = h"

definition NoTransport_Send :: "ByteView \<Rightarrow> 'h \<Rightarrow> bool \<times> 'h" where
  "NoTransport_Send bytes h = (False, h)"

definition NoTransport_DispatchIncoming :: "ByteView \<Rightarrow> 'h \<Rightarrow> bool \<times> 'h" where
  "NoTransport_DispatchIncoming bytes h = (False, h)"

definition NoTransport_IsAvailable :: bool where
  "NoTransport_IsAvailable = False"

interpretation no_transport: client_transport NoTransport_Send sent for sent
  by unfold_locales (simp add: NoTransport_Send_def)

end
