(* ===== verification/PeImage.thy ===== *)
theory PeImage
  imports ByteIO
begin

text \<open>
  The Portable Executable header parser of \<^verbatim>\<open>shared/src/pe_image.cpp\<close>, which the
  client runs over the mapped game module. Its \<^verbatim>\<open>Read\<close> leaves the variable at zero
  when the bytes are out of range and its result is ignored at every call, so the point of
  the development is that no call can fail.
\<close>

section \<open>Definitions\<close>

datatype PeImageKind = Pe32 | Pe32Plus

record PeImageInfo =
  kind :: PeImageKind
  entryPointRva :: u32
  sizeOfImage :: u32

datatype PeParseError = NullInput | TruncatedDosHeader | InvalidDosSignature | TruncatedNtHeaders
  | InvalidNtSignature | TruncatedOptionalHeader | UnsupportedOptionalHeader | InvalidImageSize

definition kDosSignatureOffset :: nat where "kDosSignatureOffset = 0x00"
definition kNtHeaderOffsetField :: nat where "kNtHeaderOffsetField = 0x3C"
definition kDosHeaderMinimumSize :: nat where "kDosHeaderMinimumSize = 0x40"
definition kCoffHeaderSize :: nat where "kCoffHeaderSize = 20"
definition kOptionalHeaderMagicOffset :: nat where "kOptionalHeaderMagicOffset = 0"
definition kEntryPointOffset :: nat where "kEntryPointOffset = 16"
definition kImageSizeOffset :: nat where "kImageSizeOffset = 56"
definition kRequiredOptionalHeaderSize :: nat where "kRequiredOptionalHeaderSize = 60"
definition kDosSignature :: u16 where "kDosSignature = 0x5A4D"
definition kNtSignature :: u32 where "kNtSignature = 0x00004550"
definition kPe32Magic :: u16 where "kPe32Magic = 0x010B"
definition kPe32PlusMagic :: u16 where "kPe32PlusMagic = 0x020B"

lemmas pe_offsets = kDosSignatureOffset_def kNtHeaderOffsetField_def kDosHeaderMinimumSize_def
  kCoffHeaderSize_def kOptionalHeaderMagicOffset_def kEntryPointOffset_def kImageSizeOffset_def
  kRequiredOptionalHeaderSize_def

lemmas pe_signatures = kDosSignature_def kNtSignature_def kPe32Magic_def kPe32PlusMagic_def

definition CanRead :: "nat \<Rightarrow> nat \<Rightarrow> nat \<Rightarrow> bool" where
  "CanRead offset len limit \<longleftrightarrow> offset \<le> limit \<and> len \<le> limit - offset"

text \<open>
  \<^verbatim>\<open>memcpy\<close> into an integer on the little-endian machines the client runs on, and the
  \<^verbatim>\<open>Read\<close> template at its two types: the success flag with the value of the variable.
\<close>

definition le16 :: "bytes \<Rightarrow> nat \<Rightarrow> u16" where
  "le16 bs i = push_bit 8 (ucast (bs ! (i + 1))) OR ucast (bs ! i)"

definition le32 :: "bytes \<Rightarrow> nat \<Rightarrow> u32" where
  "le32 bs i = push_bit 24 (ucast (bs ! (i + 3))) OR push_bit 16 (ucast (bs ! (i + 2))) OR
     push_bit 8 (ucast (bs ! (i + 1))) OR ucast (bs ! i)"

definition Read16 :: "bytes \<Rightarrow> nat \<Rightarrow> bool \<times> u16" where
  "Read16 bs offset = (if \<not> CanRead offset 2 (length bs) then (False, 0) else (True, le16 bs offset))"

definition Read32 :: "bytes \<Rightarrow> nat \<Rightarrow> bool \<times> u32" where
  "Read32 bs offset = (if \<not> CanRead offset 4 (length bs) then (False, 0) else (True, le32 bs offset))"

definition ParsePeImage :: "ByteView \<Rightarrow> PeParseError + PeImageInfo" where
  "ParsePeImage view =
    (if view_is_null view then Inl NullInput
     else if view_size view < kDosHeaderMinimumSize then Inl TruncatedDosHeader
     else
       let data = view_bytes view;
           dosSignature = snd (Read16 data kDosSignatureOffset)
       in if dosSignature \<noteq> kDosSignature then Inl InvalidDosSignature
       else
         let ntOffset = unat (snd (Read32 data kNtHeaderOffsetField))
         in if \<not> CanRead ntOffset (4 + kCoffHeaderSize) (view_size view) then Inl TruncatedNtHeaders
         else
           let ntSignature = snd (Read32 data ntOffset)
           in if ntSignature \<noteq> kNtSignature then Inl InvalidNtSignature
           else
             let coffOffset = ntOffset + 4;
                 optionalHeaderSize = unat (snd (Read16 data (coffOffset + 16)))
             in if optionalHeaderSize < kRequiredOptionalHeaderSize then Inl TruncatedOptionalHeader
             else
               let optionalOffset = coffOffset + kCoffHeaderSize
               in if \<not> CanRead optionalOffset optionalHeaderSize (view_size view) then Inl TruncatedOptionalHeader
               else
                 let optionalMagic = snd (Read16 data (optionalOffset + kOptionalHeaderMagicOffset))
                 in if optionalMagic \<noteq> kPe32Magic \<and> optionalMagic \<noteq> kPe32PlusMagic
                    then Inl UnsupportedOptionalHeader
                    else
                      let image = \<lparr>kind = (if optionalMagic = kPe32Magic then Pe32 else Pe32Plus),
                            entryPointRva = snd (Read32 data (optionalOffset + kEntryPointOffset)),
                            sizeOfImage = snd (Read32 data (optionalOffset + kImageSizeOffset))\<rparr>
                      in if sizeOfImage image = 0 then Inl InvalidImageSize else Inr image)"

section \<open>The header as the format describes it\<close>

text \<open>
  \<open>pe_header bs nt os img\<close>: the module at \<open>bs\<close> has its NT headers at \<open>nt\<close> and an
  optional header of \<open>os\<close> bytes, all of it inside \<open>bs\<close>, which says what \<open>img\<close> says.
\<close>

definition pe_header :: "bytes \<Rightarrow> nat \<Rightarrow> nat \<Rightarrow> PeImageInfo \<Rightarrow> bool" where
  "pe_header bs nt os img \<longleftrightarrow>
     64 \<le> length bs \<and> le16 bs 0 = 0x5A4D \<and> unat (le32 bs 60) = nt \<and>
     nt + 24 + os \<le> length bs \<and> le32 bs nt = 0x4550 \<and>
     unat (le16 bs (nt + 20)) = os \<and> 60 \<le> os \<and>
     (case kind img of Pe32 \<Rightarrow> le16 bs (nt + 24) = 0x10B | Pe32Plus \<Rightarrow> le16 bs (nt + 24) = 0x20B) \<and>
     le32 bs (nt + 40) = entryPointRva img \<and> le32 bs (nt + 80) = sizeOfImage img \<and>
     sizeOfImage img \<noteq> 0"

lemma Read16_inside: "offset + 2 \<le> length bs \<Longrightarrow> Read16 bs offset = (True, le16 bs offset)"
  by (simp add: Read16_def CanRead_def)

lemma Read32_inside: "offset + 4 \<le> length bs \<Longrightarrow> Read32 bs offset = (True, le32 bs offset)"
  by (simp add: Read32_def CanRead_def)

lemma CanRead_iff: "CanRead offset len limit \<longleftrightarrow> offset + len \<le> limit"
  by (auto simp: CanRead_def)

text \<open>The parser with every read replaced by the bytes it reads.\<close>

definition parse_headers :: "bytes \<Rightarrow> nat \<Rightarrow> nat \<Rightarrow> PeParseError + PeImageInfo" where
  "parse_headers bs nt os =
    (if le16 bs 0 \<noteq> kDosSignature then Inl InvalidDosSignature
     else if length bs < nt + 24 then Inl TruncatedNtHeaders
     else if le32 bs nt \<noteq> kNtSignature then Inl InvalidNtSignature
     else if os < 60 \<or> length bs < nt + 24 + os then Inl TruncatedOptionalHeader
     else if le16 bs (nt + 24) \<noteq> kPe32Magic \<and> le16 bs (nt + 24) \<noteq> kPe32PlusMagic then Inl UnsupportedOptionalHeader
     else if le32 bs (nt + 80) = 0 then Inl InvalidImageSize
     else Inr \<lparr>kind = (if le16 bs (nt + 24) = kPe32Magic then Pe32 else Pe32Plus),
            entryPointRva = le32 bs (nt + 40), sizeOfImage = le32 bs (nt + 80)\<rparr>)"

lemma ParsePeImage_inside:
  assumes "64 \<le> length bs"
  shows "ParsePeImage (View bs) = parse_headers bs (unat (le32 bs 60)) (unat (le16 bs (unat (le32 bs 60) + 20)))"
proof -
  define nt os where "nt = unat (le32 bs 60)" and "os = unat (le16 bs (nt + 20))"
  have dos: "Read16 bs 0 = (True, le16 bs 0)" "Read32 bs 60 = (True, le32 bs 60)"
    using assms by (simp_all add: Read16_inside Read32_inside)
  have nt: "Read32 bs nt = (True, le32 bs nt)" "Read16 bs (nt + 20) = (True, le16 bs (nt + 20))"
    if "nt + 24 \<le> length bs"
    using that by (simp_all add: Read16_inside Read32_inside)
  have opt: "Read16 bs (nt + 24) = (True, le16 bs (nt + 24))" "Read32 bs (nt + 40) = (True, le32 bs (nt + 40))"
    "Read32 bs (nt + 80) = (True, le32 bs (nt + 80))"
    if "60 \<le> os" "nt + 24 + os \<le> length bs"
    using that by (simp_all add: Read16_inside Read32_inside)
  note start = ParsePeImage_def Let_def pe_offsets CanRead_iff dos parse_headers_def
  consider "\<not> nt + 24 \<le> length bs" | "nt + 24 \<le> length bs" "\<not> (60 \<le> os \<and> nt + 24 + os \<le> length bs)"
    | "nt + 24 \<le> length bs" "60 \<le> os" "nt + 24 + os \<le> length bs"
    by blast
  then show ?thesis
  proof cases
    case 1
    then show ?thesis
      using assms by (simp add: start flip: nt_def)
  next
    case 2
    then show ?thesis
      using assms nt by (simp add: start flip: nt_def) (simp add: os_def [symmetric] add.commute add.left_commute; arith)
  next
    case 3
    then show ?thesis
      using assms nt opt by (simp add: start flip: nt_def) (simp add: os_def [symmetric] add.commute add.left_commute)
  qed
qed

text \<open>
  Claim C37. The parser accepts exactly the modules whose headers lie completely inside the
  bytes it was given and carry the two signatures and a known optional header with a
  nonzero image size, and it reports the fields found there. In particular no unchecked
  read of an accepted module falls outside the buffer.
\<close>

theorem ParsePeImage_correct:
  "ParsePeImage view = Inr img \<longleftrightarrow> (\<exists>bs nt os. view = View bs \<and> pe_header bs nt os img)"
proof (cases view)
  case (View bs)
  show ?thesis
  proof (cases "64 \<le> length bs")
    case True
    then show ?thesis
      by (cases img; cases "kind img")
        (auto simp: View ParsePeImage_inside parse_headers_def pe_header_def pe_signatures)
  next
    case False
    then show ?thesis
      by (simp add: View ParsePeImage_def pe_header_def kDosHeaderMinimumSize_def)
  qed
qed (simp add: ParsePeImage_def)

fun ToString_PeParseError :: "PeParseError \<Rightarrow> string" where
  "ToString_PeParseError NullInput = ''null input''"
| "ToString_PeParseError TruncatedDosHeader = ''truncated DOS header''"
| "ToString_PeParseError InvalidDosSignature = ''invalid DOS signature''"
| "ToString_PeParseError TruncatedNtHeaders = ''truncated NT headers''"
| "ToString_PeParseError InvalidNtSignature = ''invalid NT signature''"
| "ToString_PeParseError TruncatedOptionalHeader = ''truncated optional header''"
| "ToString_PeParseError UnsupportedOptionalHeader = ''unsupported optional header''"
| "ToString_PeParseError InvalidImageSize = ''invalid image size''"

end
