(* ===== verification/Module.thy ===== *)
theory Module
  imports PeImage Version
begin

text \<open>
  Module inspection and the compatibility table of the client:
  \<^verbatim>\<open>client/src/core/module.cpp\<close> and \<^verbatim>\<open>client/src/samp/compatibility.cpp\<close>. The memory of
  the process is a parameter: what \<^verbatim>\<open>VirtualQuery\<close> answers for an address, the byte
  behind it, and the handle of a loaded module. Addresses have the 32 bits of the client.
\<close>

section \<open>Definitions\<close>

record MemoryRegion =
  BaseAddress :: u32
  AllocationBase :: u32
  RegionSize :: u32
  Committed :: bool
  Protect :: u32

record AddressSpace =
  VirtualQuery :: "u32 \<Rightarrow> MemoryRegion option"
  byte_at :: "u32 \<Rightarrow> u8"
  GetModuleHandle :: "string \<Rightarrow> u32"

definition PAGE_NOACCESS :: u32 where "PAGE_NOACCESS = 0x01"
definition PAGE_GUARD :: u32 where "PAGE_GUARD = 0x100"
definition PAGE_EXECUTE :: u32 where "PAGE_EXECUTE = 0x10"
definition PAGE_EXECUTE_READ :: u32 where "PAGE_EXECUTE_READ = 0x20"
definition PAGE_EXECUTE_READWRITE :: u32 where "PAGE_EXECUTE_READWRITE = 0x40"
definition PAGE_EXECUTE_WRITECOPY :: u32 where "PAGE_EXECUTE_WRITECOPY = 0x80"

definition kUintptrMax :: u32 where "kUintptrMax = 0xFFFFFFFF"

definition usable :: "MemoryRegion \<Rightarrow> bool" where
  "usable r \<longleftrightarrow> Committed r \<and> Protect r AND (PAGE_GUARD OR PAGE_NOACCESS) = 0"

record ModuleInfo =
  base :: u32
  imageSize :: u32
  module_entryPointRva :: u32
  isPe32 :: bool

definition Contains :: "ModuleInfo \<Rightarrow> u32 \<Rightarrow> u32 \<Rightarrow> bool" where
  "Contains m address len =
    (if base m = 0 \<or> imageSize m = 0 \<or> address < base m then False
     else let offset = address - base m
          in if offset \<ge> imageSize m then False
             else len \<noteq> 0 \<and> len \<le> imageSize m - offset)"

text \<open>
  The walk over the regions of an address range, with the test each region has to pass.
  It is the loop of \<^verbatim>\<open>IsAccessible\<close> and of \<^verbatim>\<open>IsReadable\<close> in the transport.
\<close>

function walk_regions :: "AddressSpace \<Rightarrow> (MemoryRegion \<Rightarrow> bool) \<Rightarrow> u32 \<Rightarrow> u32 \<Rightarrow> bool" where
  "walk_regions memory passes limit current =
    (if current < limit
     then case VirtualQuery memory current of
         None \<Rightarrow> False
       | Some r \<Rightarrow>
           if \<not> passes r then False
           else if RegionSize r > kUintptrMax - BaseAddress r then False
           else let next = BaseAddress r + RegionSize r
                in if next \<le> current then False else walk_regions memory passes limit next
     else True)"
  by pat_completeness auto
termination
  by (relation "measure (\<lambda>(memory, passes, limit, current). unat limit - unat current)")
    (auto simp: word_less_nat_alt word_le_nat_alt)

declare walk_regions.simps [simp del]

definition IsAccessible :: "AddressSpace \<Rightarrow> ModuleInfo \<Rightarrow> u32 \<Rightarrow> u32 \<Rightarrow> bool" where
  "IsAccessible memory m address len =
    (if \<not> Contains m address len then False
     else walk_regions memory (\<lambda>r. usable r \<and> AllocationBase r = base m) (address + len) address)"

definition IsExecutable :: "AddressSpace \<Rightarrow> ModuleInfo \<Rightarrow> u32 \<Rightarrow> bool" where
  "IsExecutable memory m address =
    (if \<not> Contains m address 1 then False
     else case VirtualQuery memory address of
         None \<Rightarrow> False
       | Some r \<Rightarrow>
           if \<not> usable r \<or> AllocationBase r \<noteq> base m then False
           else let protection = Protect r AND 0xFF
                in protection = PAGE_EXECUTE \<or> protection = PAGE_EXECUTE_READ \<or>
                   protection = PAGE_EXECUTE_READWRITE \<or> protection = PAGE_EXECUTE_WRITECOPY)"

definition ResolveRva :: "ModuleInfo \<Rightarrow> u32 \<Rightarrow> u32 \<Rightarrow> u32 option" where
  "ResolveRva m rva len =
    (if rva = 0 \<or> rva > kUintptrMax - base m then None
     else let address = base m + rva
          in if \<not> Contains m address len then None else Some address)"

text \<open>The bytes of an address range.\<close>

definition bytes_at :: "AddressSpace \<Rightarrow> u32 \<Rightarrow> nat \<Rightarrow> bytes" where
  "bytes_at memory address n = map (\<lambda>i. byte_at memory (address + of_nat i)) [0..<n]"

definition FindLoadedModule :: "AddressSpace \<Rightarrow> string \<Rightarrow> string + ModuleInfo" where
  "FindLoadedModule memory name =
    (if name = [] then Inl ''module name is empty''
     else let handle = GetModuleHandle memory name
     in if handle = 0 then Inl ''module is not loaded''
     else case VirtualQuery memory handle of
       None \<Rightarrow> Inl ''VirtualQuery failed for the module header''
     | Some r \<Rightarrow>
         if \<not> usable r then Inl ''module header memory is not accessible''
         else if AllocationBase r \<noteq> handle then Inl ''module header does not belong to the expected allocation''
         else if handle < BaseAddress r \<or> handle - BaseAddress r \<ge> RegionSize r
         then Inl ''module base is outside its header memory region''
         else
           let headerSize = RegionSize r - (handle - BaseAddress r)
           in case ParsePeImage (View (bytes_at memory handle (unat headerSize))) of
                Inl error \<Rightarrow> Inl (ToString_PeParseError error)
              | Inr img \<Rightarrow>
                  if sizeOfImage img > kUintptrMax - handle
                  then Inl ''module image range overflows the address space''
                  else Inr \<lparr>base = handle, imageSize = sizeOfImage img,
                         module_entryPointRva = entryPointRva img, isPe32 = kind img = Pe32\<rparr>)"

section \<open>The compatibility table\<close>

record SampAddresses =
  netGamePointerRva :: u32
  getRakClientRva :: u32
  rpcHandlerRva :: u32

datatype AddressMapping = NetGame | GetRakClient | RpcHandler

record SampCompatibility =
  compat_version :: SampVersion
  addresses :: SampAddresses

definition no_addresses :: SampAddresses where
  "no_addresses = \<lparr>netGamePointerRva = 0, getRakClientRva = 0, rpcHandlerRva = 0\<rparr>"

definition kCompatibility :: "SampCompatibility list" where
  "kCompatibility =
    [\<lparr>compat_version = SampVersion_R1,
      addresses = \<lparr>netGamePointerRva = 0x21A0F8, getRakClientRva = 0x1A40, rpcHandlerRva = 0\<rparr>\<rparr>,
     \<lparr>compat_version = SampVersion_R2, addresses = no_addresses\<rparr>,
     \<lparr>compat_version = SampVersion_R3_1,
      addresses = \<lparr>netGamePointerRva = 0x26E8DC, getRakClientRva = 0x1A40, rpcHandlerRva = 0\<rparr>\<rparr>,
     \<lparr>compat_version = SampVersion_R4, addresses = no_addresses\<rparr>,
     \<lparr>compat_version = SampVersion_R4Family, addresses = no_addresses\<rparr>]"

fun HasMapping :: "SampCompatibility \<Rightarrow> AddressMapping \<Rightarrow> bool" where
  "HasMapping c NetGame \<longleftrightarrow> netGamePointerRva (addresses c) \<noteq> 0"
| "HasMapping c GetRakClient \<longleftrightarrow> getRakClientRva (addresses c) \<noteq> 0"
| "HasMapping c RpcHandler \<longleftrightarrow> rpcHandlerRva (addresses c) \<noteq> 0"

definition HasAllMappings :: "SampCompatibility \<Rightarrow> AddressMapping list \<Rightarrow> bool" where
  "HasAllMappings c mappings = list_all (HasMapping c) mappings"

definition FindCompatibility :: "SampVersion \<Rightarrow> SampCompatibility option" where
  "FindCompatibility version = find (\<lambda>c. compat_version c = version) kCompatibility"

section \<open>Lemmas\<close>

text \<open>
  The documented behaviour of \<^verbatim>\<open>VirtualQuery\<close> the code relies on: the region it answers
  begins at or below the address that was asked for.
\<close>

definition query_starts_below :: "AddressSpace \<Rightarrow> bool" where
  "query_starts_below memory \<longleftrightarrow> (\<forall>a r. VirtualQuery memory a = Some r \<longrightarrow> BaseAddress r \<le> a)"

definition covered :: "AddressSpace \<Rightarrow> (MemoryRegion \<Rightarrow> bool) \<Rightarrow> u32 \<Rightarrow> bool" where
  "covered memory passes x \<longleftrightarrow> (\<exists>a r. VirtualQuery memory a = Some r \<and> passes r \<and>
     BaseAddress r \<le> x \<and> unat x < unat (BaseAddress r) + unat (RegionSize r))"

lemma no_wrap:
  assumes "\<not> (n :: u32) > kUintptrMax - b"
  shows "unat (b + n) = unat b + unat n"
proof -
  have "unat n \<le> unat (kUintptrMax - b)" using assms by (simp add: word_le_nat_alt not_less)
  also have "\<dots> = 4294967295 - unat b"
  proof -
    have "b \<le> kUintptrMax" using unsigned_less [of b, where ?'a = nat] by (simp add: word_le_nat_alt kUintptrMax_def)
    then show ?thesis by (simp add: unat_sub kUintptrMax_def)
  qed
  finally have "unat b + unat n < 4294967296" using unsigned_less [of b, where ?'a = nat] by simp
  then show ?thesis by (simp add: unat_word_ariths)
qed

lemma walk_regions_covered:
  assumes below: "query_starts_below memory"
  shows "walk_regions memory passes limit current \<Longrightarrow> current \<le> x \<Longrightarrow> x < limit \<Longrightarrow> covered memory passes x"
  using below
proof (induction memory passes limit current rule: walk_regions.induct)
  case (1 memory passes limit current)
  have less: "current < limit" using "1.prems"(2,3) by (rule order.strict_trans1)
  obtain r where r: "VirtualQuery memory current = Some r" "passes r" "\<not> RegionSize r > kUintptrMax - BaseAddress r"
    "\<not> BaseAddress r + RegionSize r \<le> current" "walk_regions memory passes limit (BaseAddress r + RegionSize r)"
    using "1.prems"(1) less
    by (subst (asm) walk_regions.simps) (auto simp: Let_def split: option.splits if_splits)
  show ?case
  proof (cases "x < BaseAddress r + RegionSize r")
    case True
    have "BaseAddress r \<le> current" using "1.prems"(4) r(1) by (simp add: query_starts_below_def)
    then have "BaseAddress r \<le> x" using "1.prems"(2) by simp
    moreover have "unat x < unat (BaseAddress r) + unat (RegionSize r)"
      using True no_wrap [OF r(3)] by (simp add: word_less_nat_alt)
    ultimately show ?thesis using r(1,2) unfolding covered_def by blast
  next
    case False
    then show ?thesis using "1.IH" [OF less r(1)] r "1.prems" by auto
  qed
qed

lemma Contains_iff:
  "Contains m address len \<longleftrightarrow> base m \<noteq> 0 \<and> base m \<le> address \<and> len \<noteq> 0 \<and>
     unat (address - base m) + unat len \<le> unat (imageSize m)"
proof (cases "base m \<noteq> 0 \<and> imageSize m \<noteq> 0 \<and> base m \<le> address \<and> address - base m < imageSize m")
  case True
  have "unat (imageSize m - (address - base m)) = unat (imageSize m) - unat (address - base m)"
    by (rule unat_sub) (use True in \<open>simp add: less_imp_le\<close>)
  then have "len \<le> imageSize m - (address - base m) \<longleftrightarrow> unat len \<le> unat (imageSize m) - unat (address - base m)"
    by (simp only: word_le_nat_alt)
  moreover have "unat (address - base m) < unat (imageSize m)" using True by (simp add: word_less_nat_alt)
  ultimately show ?thesis using True by (auto simp: Contains_def Let_def)
next
  case False
  have "unat len = 0 \<Longrightarrow> len = 0" by (simp add: unat_eq_0)
  then show ?thesis using False
    by (auto simp: Contains_def Let_def word_less_nat_alt word_le_nat_alt not_le not_less)
qed

text \<open>A module the lookup returns does not wrap around the address space.\<close>

definition module_ok :: "ModuleInfo \<Rightarrow> bool" where
  "module_ok m \<longleftrightarrow> base m \<noteq> 0 \<and> imageSize m \<noteq> 0 \<and> unat (base m) + unat (imageSize m) < 2 ^ 32"


lemma FindLoadedModule_ok:
  assumes "FindLoadedModule memory name = Inr m"
  shows "module_ok m"
proof -
  obtain view img where img: "base m \<noteq> 0" "imageSize m = sizeOfImage img" "\<not> sizeOfImage img > kUintptrMax - base m"
    and parsed: "ParsePeImage view = Inr img"
  proof -
    have "\<exists>view img. base m \<noteq> 0 \<and> imageSize m = sizeOfImage img \<and> \<not> sizeOfImage img > kUintptrMax - base m \<and>
      ParsePeImage view = Inr img"
      using assms by (fastforce simp: FindLoadedModule_def Let_def split: if_splits option.splits sum.splits)
    then show ?thesis using that by blast
  qed
  have "sizeOfImage img \<noteq> 0" using parsed by (auto simp: ParsePeImage_def Let_def split: if_splits)
  moreover have "unat (base m + sizeOfImage img) = unat (base m) + unat (sizeOfImage img)" using no_wrap [OF img(3)] .
  ultimately show ?thesis
    using img(1,2) unsigned_less [of "base m + sizeOfImage img", where ?'a = nat] by (simp add: module_ok_def)
qed

lemma IsAccessible_covered:
  assumes m: "module_ok m" and below: "query_starts_below memory" and acc: "IsAccessible memory m address len"
    and x: "address \<le> x" "unat x < unat address + unat len"
  shows "covered memory (\<lambda>r. usable r \<and> AllocationBase r = base m) x"
proof -
  have c: "Contains m address len" and w: "walk_regions memory (\<lambda>r. usable r \<and> AllocationBase r = base m) (address + len) address"
    using acc by (simp_all add: IsAccessible_def split: if_splits)
  have "unat (address - base m) = unat address - unat (base m)" and "base m \<le> address"
    using c unat_sub [of "base m" address] by (simp_all add: Contains_iff)
  then have "unat address + unat len \<le> unat (base m) + unat (imageSize m)"
    using c unfolding Contains_iff word_le_nat_alt by linarith
  then have "unat address + unat len < 2 ^ 32" using m by (simp add: module_ok_def)
  then have "unat (address + len) = unat address + unat len" by (simp add: unat_word_ariths)
  then show ?thesis using walk_regions_covered [OF below w x(1)] x(2) by (simp add: word_less_nat_alt)
qed

lemma ResolveRva_inside:
  assumes "ResolveRva m rva len = Some address"
  shows "Contains m address len \<and> unat address = unat (base m) + unat rva \<and> rva \<noteq> 0"
proof -
  have "\<not> rva > kUintptrMax - base m" "rva \<noteq> 0" "Contains m address len" "address = base m + rva"
    using assms by (auto simp: ResolveRva_def Let_def split: if_splits)
  then show ?thesis using no_wrap [of "base m" rva] by simp
qed

text \<open>Which builds the client can hook: those with both mappings in the table.\<close>

lemma hookable_builds:
  "(\<exists>c. FindCompatibility v = Some c \<and> HasAllMappings c [NetGame, GetRakClient]) \<longleftrightarrow> v \<in> {SampVersion_R1, SampVersion_R3_1}"
  by (auto simp: FindCompatibility_def kCompatibility_def HasAllMappings_def no_addresses_def)

lemma compatibility_covers_builds: "b \<in> set KnownSampBuilds \<Longrightarrow> FindCompatibility (build_version b) \<noteq> None"
  by (auto simp: KnownSampBuilds_def FindCompatibility_def kCompatibility_def)

section \<open>Properties\<close>

text \<open>
  Claim C34. When the lookup returns a module and an address range of it is found
  accessible, the range lies inside the image and every byte of it lies in a committed,
  accessible region of that module. The walk over the regions always ends, and it relies
  only on \<^verbatim>\<open>VirtualQuery\<close> answering a region that does not begin above the address.
\<close>

theorem accessible_range_sound:
  assumes "query_starts_below memory" and "FindLoadedModule memory name = Inr m"
    and "IsAccessible memory m address len"
  shows "unat (base m) \<le> unat address \<and> unat address + unat len \<le> unat (base m) + unat (imageSize m) \<and>
    (\<forall>i < unat len. covered memory (\<lambda>r. usable r \<and> AllocationBase r = base m) (address + of_nat i))"
proof -
  have m: "module_ok m" by (rule FindLoadedModule_ok [OF assms(2)])
  have c: "Contains m address len" using assms(3) by (simp add: IsAccessible_def split: if_splits)
  have sub: "unat (address - base m) = unat address - unat (base m)" "unat (base m) \<le> unat address"
    using c unat_sub [of "base m" address] by (simp_all add: Contains_iff word_le_nat_alt)
  then have range: "unat address + unat len \<le> unat (base m) + unat (imageSize m)"
    using c unfolding Contains_iff by linarith
  have "covered memory (\<lambda>r. usable r \<and> AllocationBase r = base m) (address + of_nat i)" if "i < unat len" for i
  proof (rule IsAccessible_covered [OF m assms(1,3)])
    have "unat address + i < 4294967296" using that range m by (simp add: module_ok_def)
    then have "unat (address + of_nat i) = unat address + i"
      by (simp add: unat_word_ariths unat_of_nat take_bit_eq_mod mod_add_right_eq)
    then show "address \<le> address + of_nat i" "unat (address + of_nat i) < unat address + unat len"
      using that by (simp_all add: word_le_nat_alt)
  qed
  then show ?thesis using range sub(2) by blast
qed

text \<open>A process with one module, mapped at \<open>0x400000\<close>, whose entry point is that of SA-MP 0.3.7 R3-1.\<close>

definition sample_byte :: "nat \<Rightarrow> u8" where
  "sample_byte i =
    (case map_of [(0, 0x4D), (1, 0x5A), (60, 0x40), (64, 0x50), (65, 0x45), (84, 0xE0), (88, 0x0B), (89, 0x01),
       (104, 0xD0), (105, 0xC4), (106, 0x0C), (146, 0x01)] i of None \<Rightarrow> 0 | Some b \<Rightarrow> b)"

definition sample_space :: AddressSpace where
  "sample_space = \<lparr>
     VirtualQuery = (\<lambda>a. if 0x400000 \<le> a \<and> a < 0x410000
       then Some \<lparr>BaseAddress = 0x400000, AllocationBase = 0x400000, RegionSize = 0x10000,
                  Committed = True, Protect = PAGE_EXECUTE_READ\<rparr> else None),
     byte_at = (\<lambda>a. sample_byte (unat (a - 0x400000))),
     GetModuleHandle = (\<lambda>name. if name = ''samp.dll'' then 0x400000 else 0)\<rparr>"

lemma length_bytes_at [simp]: "length (bytes_at memory a n) = n"
  by (simp add: bytes_at_def)

lemma nth_bytes_at [simp]: "i < n \<Longrightarrow> bytes_at memory a n ! i = byte_at memory (a + of_nat i)"
  by (simp add: bytes_at_def)

lemma sample_module:
  "FindLoadedModule sample_space ''samp.dll'' =
    Inr \<lparr>base = 0x400000, imageSize = 0x10000, module_entryPointRva = 0x0CC4D0, isPe32 = True\<rparr>"
proof -
  let ?bs = "bytes_at sample_space 0x400000 65536"
  have byte: "?bs ! i = sample_byte i" if "i < 65536" for i
  proof -
    have "unat (of_nat i :: u32) = i" using that by (simp add: unat_of_nat)
    then show ?thesis using that by (simp add: sample_space_def)
  qed
  have at: "le32 ?bs 60 = 64" "le16 ?bs 84 = 224" "le16 ?bs 0 = 0x5A4D" "le32 ?bs 64 = 0x4550"
    "le16 ?bs 88 = 0x10B" "le32 ?bs 104 = 0x0CC4D0" "le32 ?bs 144 = 0x10000"
    by (simp_all add: le16_def le32_def byte sample_byte_def del: nth_bytes_at)
  have "ParsePeImage (View ?bs) = Inr \<lparr>kind = Pe32, entryPointRva = 0x0CC4D0, sizeOfImage = 0x10000\<rparr>"
    by (subst ParsePeImage_inside) (simp_all add: at parse_headers_def pe_signatures)
  then show ?thesis
    by (simp add: FindLoadedModule_def sample_space_def usable_def PAGE_EXECUTE_READ_def PAGE_GUARD_def
        PAGE_NOACCESS_def kUintptrMax_def Let_def)
qed

lemma sample_space_below: "query_starts_below sample_space"
  by (simp add: query_starts_below_def sample_space_def)

theorem accessible_range_sound_witness:
  "(\<exists>m :: ModuleInfo. unat (base m) \<le> unat (0x400100 :: u32) \<and>
     unat (0x400100 :: u32) + unat (16 :: u32) \<le> unat (base m) + unat (imageSize m)) \<and>
   covered sample_space (\<lambda>r. usable r \<and> AllocationBase r = 0x400000) 0x400105"
proof -
  let ?m = "\<lparr>base = 0x400000, imageSize = 0x10000, module_entryPointRva = 0x0CC4D0, isPe32 = True\<rparr> :: ModuleInfo"
  have "IsAccessible sample_space ?m 0x400100 16"
    by (simp add: IsAccessible_def Contains_def walk_regions.simps sample_space_def usable_def PAGE_EXECUTE_READ_def
        PAGE_GUARD_def PAGE_NOACCESS_def kUintptrMax_def Let_def)
  note sound = accessible_range_sound [OF sample_space_below sample_module this]
  then have "covered sample_space (\<lambda>r. usable r \<and> AllocationBase r = base ?m) (0x400100 + of_nat 5)"
    by (intro sound [THEN conjunct2, THEN conjunct2, rule_format]) simp
  then show ?thesis using sound by (auto intro!: exI [of _ ?m])
qed

end
