(* ===== verification/Logger.thy ===== *)
theory Logger
  imports Text FileSystem
begin

text \<open>
  The client's log, \<^verbatim>\<open>client/src/core/logger.cpp\<close>. The clock, the answers of the file
  calls and how much of a line a write puts into the file are parameters; the state is the
  file handle, the text in the file and the lines given to the debugger.
\<close>

section \<open>Definitions\<close>

record SystemTime =
  wYear :: u16
  wMonth :: u16
  wDay :: u16
  wHour :: u16
  wMinute :: u16
  wSecond :: u16

record LogEnvironment =
  LocalTime :: "string list \<Rightarrow> SystemTime"
  CreateFile :: "path \<Rightarrow> bool"
  CreateDirectories :: "path \<Rightarrow> bool"
  WriteFile :: "string \<Rightarrow> string \<Rightarrow> nat"

record Logger =
  log_environment :: LogEnvironment
  log_open :: bool
  log_file :: string
  log_debug :: "string list"

definition new_Logger :: "LogEnvironment \<Rightarrow> Logger" where
  "new_Logger env = \<lparr>log_environment = env, log_open = False, log_file = [], log_debug = []\<rparr>"

definition crlf :: string where
  "crlf = [char_of (13 :: nat), char_of (10 :: nat)]"

text \<open>\<^verbatim>\<open>%0nu\<close>: a decimal number of at least \<open>n\<close> digits.\<close>

definition padded :: "nat \<Rightarrow> u16 \<Rightarrow> string" where
  "padded n v = (let digits = to_string (unat v) in replicate (n - length digits) CHR ''0'' @ digits)"

definition time_prefix :: "SystemTime \<Rightarrow> string" where
  "time_prefix t = padded 4 (wYear t) @ ''-'' @ padded 2 (wMonth t) @ ''-'' @ padded 2 (wDay t) @ '' '' @
     padded 2 (wHour t) @ '':'' @ padded 2 (wMinute t) @ '':'' @ padded 2 (wSecond t) @ '' ''"

definition OutputDebugString :: "string \<Rightarrow> Logger \<Rightarrow> Logger" where
  "OutputDebugString line l = l\<lparr>log_debug := log_debug l @ [line]\<rparr>"

definition WriteUnlocked :: "string \<Rightarrow> Logger \<Rightarrow> Logger" where
  "WriteUnlocked text l =
    (if \<not> log_open l \<or> text = [] then l
     else l\<lparr>log_file := log_file l @ take (WriteFile (log_environment l) (log_file l) text) text\<rparr>)"

definition log_line :: "SystemTime \<Rightarrow> string \<Rightarrow> string \<Rightarrow> string \<Rightarrow> string" where
  "log_line time tag level message =
     time_prefix time @ ''['' @ tag @ ''] '' @ level @ message @ crlf"

definition Write :: "string \<Rightarrow> string \<Rightarrow> string \<Rightarrow> Logger \<Rightarrow> Logger" where
  "Write tag level message l =
    (let line = log_line (LocalTime (log_environment l) (log_debug l)) tag level message
     in OutputDebugString line (WriteUnlocked line l))"

definition Info :: "string \<Rightarrow> Logger \<Rightarrow> Logger" where
  "Info message = Write ''CustomModel'' [] message"

definition Debug :: "string \<Rightarrow> Logger \<Rightarrow> Logger" where
  "Debug message = Write ''CustomModel:debug'' [] message"

definition Error :: "string \<Rightarrow> Logger \<Rightarrow> Logger" where
  "Error message = Write ''CustomModel'' ''error: '' message"

text \<open>The path of the module is missing when the system call fails or truncates it.\<close>

definition LogPath :: "path option \<Rightarrow> path option" where
  "LogPath module =
    (case module of None \<Rightarrow> None
     | Some p \<Rightarrow> Some (butlast p @ [''CustomModel'', ''logs'', ''custommodel.log'']))"

definition Open :: "path option \<Rightarrow> Logger \<Rightarrow> bool \<times> Logger" where
  "Open module l =
    (case LogPath module of
       None \<Rightarrow> (False, OutputDebugString (''[CustomModel] could not resolve the ASI path'' @ [char_of (10 :: nat)]) l)
     | Some p \<Rightarrow>
         if \<not> CreateDirectories (log_environment l) (butlast p)
         then (False, OutputDebugString (''[CustomModel] could not create the log directory'' @ [char_of (10 :: nat)]) l)
         else let opened = CreateFile (log_environment l) p; l = l\<lparr>log_open := opened\<rparr>
              in if \<not> opened
                 then (False, OutputDebugString (''[CustomModel] could not open the log file'' @ [char_of (10 :: nat)]) l)
                 else (True, l))"

text \<open>The lock may be held by a thread that no longer runs; then nothing is done.\<close>

definition ShutdownFromLoaderLock :: "bool \<Rightarrow> Logger \<Rightarrow> Logger" where
  "ShutdownFromLoaderLock lockTaken l =
    (if \<not> lockTaken then l
     else if log_open l then (WriteUnlocked (''[CustomModel] shutting down'' @ crlf) l)\<lparr>log_open := False\<rparr>
     else l)"

section \<open>Lemmas\<close>

text \<open>Logging changes the log only, and whole lines reach the debugger.\<close>

lemma Write_debug:
  "log_debug (Write tag level message l) =
     log_debug l @ [log_line (LocalTime (log_environment l) (log_debug l)) tag level message]"
  by (simp add: Write_def OutputDebugString_def WriteUnlocked_def Let_def)

lemma Write_frame [simp]:
  "log_environment (Write tag level message l) = log_environment l"
  "log_open (Write tag level message l) = log_open l"
  by (simp_all add: Write_def OutputDebugString_def WriteUnlocked_def Let_def)

text \<open>When writes are complete, the file of an open log is what the debugger has seen since.\<close>

definition complete_writes :: "LogEnvironment \<Rightarrow> bool" where
  "complete_writes env \<longleftrightarrow> (\<forall>before line. length line \<le> WriteFile env before line)"

lemma log_line_nonempty [simp]: "log_line time tag level message \<noteq> []"
  by (simp add: log_line_def)

lemma Write_file:
  "complete_writes (log_environment l) \<Longrightarrow> log_open l \<Longrightarrow>
    log_file (Write tag level message l) =
      log_file l @ log_line (LocalTime (log_environment l) (log_debug l)) tag level message"
  by (simp add: Write_def OutputDebugString_def WriteUnlocked_def Let_def complete_writes_def)

lemma time_prefix_length: "19 \<le> length (time_prefix t)"
proof -
  have "n \<le> length (padded n v)" for n v by (simp add: padded_def Let_def)
  from this [of 4 "wYear t"] this [of 2 "wMonth t"] this [of 2 "wDay t"] this [of 2 "wHour t"]
    this [of 2 "wMinute t"] this [of 2 "wSecond t"]
  show ?thesis by (simp add: time_prefix_def)
qed

end
