(* ===== verification/RakNetTransport.thy ===== *)
theory RakNetTransport
  imports ClientTransport TransportFrame Module Logger
begin

text \<open>
  The RakNet transport of the client, \<^verbatim>\<open>client/src/samp/raknet_transport.cpp\<close>: it finds the
  RakNet client inside SA-MP's module, replaces the receive entry of its method table by a
  hook, takes the protocol's packets out of the stream the game reads and tells the runtime
  about the connection.

  The process around it is the state: its memory, which the code reads and writes, and the
  rest, which only the functions at the addresses found in SA-MP's module know. These
  functions, \<^verbatim>\<open>VirtualProtect\<close> and \<^verbatim>\<open>Sleep\<close> are parameters; what other threads do
  happens inside them. The calls of \<^verbatim>\<open>SendRaw\<close> are kept as a trace.
\<close>

section \<open>The process\<close>

record 'r Process =
  space :: AddressSpace
  rak :: 'r

record 'r Host =
  process :: "'r Process"
  raw_sends :: "(bytes \<times> bool) list"
  host_log :: Logger

record 'r RakCode =
  call_GetRakClient :: "u32 \<Rightarrow> u32 \<Rightarrow> 'r Process \<Rightarrow> u32 \<times> 'r Process"
  call_SendRaw :: "u32 \<Rightarrow> u32 \<Rightarrow> bytes \<Rightarrow> 'r Process \<Rightarrow> bool \<times> 'r Process"
  call_Receive :: "u32 \<Rightarrow> u32 \<Rightarrow> 'r Process \<Rightarrow> u32 \<times> 'r Process"
  call_Deallocate :: "u32 \<Rightarrow> u32 \<Rightarrow> u32 \<Rightarrow> 'r Process \<Rightarrow> 'r Process"
  call_IsConnected :: "u32 \<Rightarrow> u32 \<Rightarrow> 'r Process \<Rightarrow> bool \<times> 'r Process"
  VirtualProtect :: "u32 \<Rightarrow> u32 \<Rightarrow> 'r Process \<Rightarrow> u32 option \<times> 'r Process"
  Sleep :: "'r Process \<Rightarrow> 'r Process"
  hook_address :: u32

definition on_process :: "('r Process \<Rightarrow> 'a \<times> 'r Process) \<Rightarrow> 'r Host \<times> 'c \<Rightarrow> 'a \<times> ('r Host \<times> 'c)" where
  "on_process f w = (case w of (h, c) \<Rightarrow> case f (process h) of (x, p) \<Rightarrow> (x, (h\<lparr>process := p\<rparr>, c)))"

abbreviation memory_of :: "'r Host \<times> 'c \<Rightarrow> AddressSpace" where
  "memory_of w \<equiv> space (process (fst w))"

text \<open>A pointer read from and written to memory, and the interlocked exchange on it.\<close>

definition read_word :: "AddressSpace \<Rightarrow> u32 \<Rightarrow> u32" where
  "read_word memory a = le32 (bytes_at memory a 4) 0"

definition write_word :: "u32 \<Rightarrow> u32 \<Rightarrow> AddressSpace \<Rightarrow> AddressSpace" where
  "write_word a v memory = memory\<lparr>byte_at := (\<lambda>x. if x - a < 4 then ucast (drop_bit (8 * unat (x - a)) v)
     else byte_at memory x)\<rparr>"

definition InterlockedCompareExchange :: "u32 \<Rightarrow> u32 \<Rightarrow> u32 \<Rightarrow> 'r Process \<Rightarrow> u32 \<times> 'r Process" where
  "InterlockedCompareExchange slot new expected p =
    (let previous = read_word (space p) slot
     in (previous, if previous = expected then p\<lparr>space := write_word slot new (space p)\<rparr> else p))"

section \<open>Helpers\<close>

definition kDisconnectionNotification :: u8 where "kDisconnectionNotification = 32"
definition kConnectionLost :: u8 where "kConnectionLost = 33"
definition kSendRawIndex :: u32 where "kSendRawIndex = 7"
definition kReceiveIndex :: u32 where "kReceiveIndex = 8"
definition kDeallocatePacketIndex :: u32 where "kDeallocatePacketIndex = 9"
definition kIsConnectedIndex :: u32 where "kIsConnectedIndex = 18"
definition kRakClientVtableEntriesNeeded :: u32 where "kRakClientVtableEntriesNeeded = kIsConnectedIndex + 1"
definition kResolveAttempts :: nat where "kResolveAttempts = 600"
definition kMaximumConsumedPacketsPerCall :: nat where "kMaximumConsumedPacketsPerCall = 64"
definition PAGE_READWRITE :: u32 where "PAGE_READWRITE = 0x04"
definition sizeof_pointer :: u32 where "sizeof_pointer = 4"
definition sizeof_RakPacket :: u32 where "sizeof_RakPacket = 21"

definition IsReadable :: "AddressSpace \<Rightarrow> u32 \<Rightarrow> u32 \<Rightarrow> bool" where
  "IsReadable memory pointer len =
    (if pointer = 0 \<or> len = 0 then False
     else if len > kUintptrMax - pointer then False
     else walk_regions memory (\<lambda>r. usable r \<and> Protect r AND 0xFF \<noteq> PAGE_EXECUTE) (pointer + len) pointer)"

definition VtableFunction :: "AddressSpace \<Rightarrow> u32 \<Rightarrow> u32 \<Rightarrow> u32" where
  "VtableFunction memory vtable index = read_word memory (vtable + sizeof_pointer * index)"

text \<open>The members of the packed \<^verbatim>\<open>RakPacket\<close> the code reads.\<close>

definition packet_len :: "AddressSpace \<Rightarrow> u32 \<Rightarrow> u32" where
  "packet_len memory packet = read_word memory (packet + 8)"

definition packet_data :: "AddressSpace \<Rightarrow> u32 \<Rightarrow> u32" where
  "packet_data memory packet = read_word memory (packet + 16)"

section \<open>State\<close>

record 'w SampRakNetTransport =
  rn_version :: SampVersion
  rn_module :: ModuleInfo
  rn_callbacks :: "'w TransportCallbacks"
  rn_rakClient :: u32
  rn_vtable :: u32
  rn_receiveSlot :: u32
  rn_sendFunction :: u32
  rn_originalReceive :: u32
  rn_deallocateFunction :: u32
  rn_isConnectedFunction :: u32
  rn_initialized :: bool
  rn_connected :: bool
  rn_awaitingDisconnectedState :: bool
  rn_connectedEventPending :: bool
  rn_connectedEventSent :: bool
  rn_active :: bool

definition no_module :: ModuleInfo where
  "no_module = \<lparr>base = 0, imageSize = 0, module_entryPointRva = 0, isPe32 = False\<rparr>"

definition new_RakNetTransport :: "SampVersion \<Rightarrow> 'w SampRakNetTransport" where
  "new_RakNetTransport version = \<lparr>rn_version = version, rn_module = no_module, rn_callbacks = no_callbacks,
     rn_rakClient = 0, rn_vtable = 0, rn_receiveSlot = 0, rn_sendFunction = 0, rn_originalReceive = 0,
     rn_deallocateFunction = 0, rn_isConnectedFunction = 0, rn_initialized = False, rn_connected = False,
     rn_awaitingDisconnectedState = False, rn_connectedEventPending = False, rn_connectedEventSent = False,
     rn_active = False\<rparr>"

section \<open>Sending\<close>

definition kSendPreviewByteLimit :: nat where "kSendPreviewByteLimit = 16"

text \<open>The buffer of the preview holds 48 characters, and what does not fit with its terminator is dropped.\<close>

fun preview_loop :: "nat \<Rightarrow> bytes \<Rightarrow> string \<Rightarrow> string" where
  "preview_loop index [] preview = preview"
| "preview_loop index (b # bs) preview =
    (let written = (if index = 0 then hex_byte b else CHR '' '' # hex_byte b)
     in if length written \<ge> kSendPreviewByteLimit * 3 - length preview then preview
        else preview_loop (index + 1) bs (preview @ written))"

definition HexPreview :: "ByteView \<Rightarrow> string" where
  "HexPreview bytes =
    (let preview = preview_loop 0 (take kSendPreviewByteLimit (view_bytes bytes)) []
     in if preview = [] then ''<none>'' else preview)"

definition kIntegerMax :: nat where "kIntegerMax = 2147483647"

text \<open>The raw buffer is the frame itself; an empty or oversized one is refused.\<close>

definition MakeRakNetRawSendBuffer :: "ByteView \<Rightarrow> bytes option" where
  "MakeRakNetRawSendBuffer bytes =
    (if view_is_null bytes \<or> view_size bytes = 0 \<or> view_size bytes > kIntegerMax then None
     else Some (view_bytes bytes))"

definition log_send :: "nat \<Rightarrow> bytes \<Rightarrow> Logger \<Rightarrow> Logger" where
  "log_send n frame l =
     Debug (''preview='' @ HexPreview (View frame))
       (Debug (''RakNet Send length='' @ to_string (length frame))
         (Debug (''transport bytes='' @ to_string (length frame))
           (Debug (''CMOD bytes='' @ to_string n) l)))"

definition RakNet_Send :: "'r RakCode \<Rightarrow> 'w SampRakNetTransport \<Rightarrow> ByteView \<Rightarrow> 'r Host \<Rightarrow> bool \<times> 'r Host" where
  "RakNet_Send code t bytes h =
    (if \<not> rn_initialized t \<or> rn_rakClient t = 0 \<or> rn_sendFunction t = 0 \<or> isl (DecodePacket bytes)
     then (False, h)
     else case Encode bytes of
       None \<Rightarrow> (False, h)
     | Some frame \<Rightarrow>
         (case MakeRakNetRawSendBuffer (View frame) of
            None \<Rightarrow> (False, h)
          | Some raw \<Rightarrow>
              let h = h\<lparr>host_log := log_send (view_size bytes) frame (host_log h)\<rparr>
              in case call_SendRaw code (rn_sendFunction t) (rn_rakClient t) raw (process h) of
                   (ok, p) \<Rightarrow> (ok, h\<lparr>process := p, raw_sends := raw_sends h @ [(raw, ok)]\<rparr>)))"

section \<open>Connection events and receiving\<close>

definition notify :: "'w SampRakNetTransport \<Rightarrow> ConnectionEvent \<Rightarrow> 'w \<Rightarrow> 'w" where
  "notify t e w = (case cb_connection (rn_callbacks t) of None \<Rightarrow> w | Some f \<Rightarrow> f e w)"

definition ObserveConnection ::
  "'r RakCode \<Rightarrow> u32 \<Rightarrow> ('r Host \<times> 'c) SampRakNetTransport \<Rightarrow> 'r Host \<times> 'c \<Rightarrow>
    ('r Host \<times> 'c) SampRakNetTransport \<times> 'r Host \<times> 'c" where
  "ObserveConnection code self t w =
    (case on_process (call_IsConnected code (rn_isConnectedFunction t) self) w of
       (connected, w) \<Rightarrow>
         if rn_awaitingDisconnectedState t
         then if connected then (t, w) else (t\<lparr>rn_awaitingDisconnectedState := False\<rparr>, w)
         else if connected = rn_connected t then (t, w)
         else
           let notifyDisconnected = rn_connectedEventSent t \<and> \<not> connected;
               t = t\<lparr>rn_connected := connected, rn_connectedEventPending := False, rn_connectedEventSent := False\<rparr>
           in if notifyDisconnected then (t, notify t EventDisconnected w) else (t, w))"

definition NotifyConnectedIfPending :: "'w SampRakNetTransport \<Rightarrow> 'w \<Rightarrow> 'w SampRakNetTransport \<times> 'w" where
  "NotifyConnectedIfPending t w =
    (if \<not> rn_connected t \<or> \<not> rn_connectedEventPending t \<or> rn_connectedEventSent t then (t, w)
     else let t = t\<lparr>rn_connectedEventPending := False, rn_connectedEventSent := True\<rparr>
          in (t, notify t EventConnected w))"

definition NotifyDisconnected :: "'w SampRakNetTransport \<Rightarrow> 'w \<Rightarrow> 'w SampRakNetTransport \<times> 'w" where
  "NotifyDisconnected t w =
    (if \<not> rn_connected t then (t, w)
     else
       let sent = rn_connectedEventSent t;
           t = t\<lparr>rn_connected := False, rn_awaitingDisconnectedState := True,
                  rn_connectedEventPending := False, rn_connectedEventSent := False\<rparr>
       in if sent then (t, notify t EventDisconnected w) else (t, w))"

definition RakNet_DispatchIncoming :: "ByteView \<Rightarrow> 'w SampRakNetTransport \<Rightarrow> 'w \<Rightarrow> bool \<times> 'w" where
  "RakNet_DispatchIncoming bytes t w =
    (if \<not> rn_initialized t then (False, w)
     else case cb_incoming (rn_callbacks t) of None \<Rightarrow> (False, w) | Some f \<Rightarrow> (True, f bytes w))"

text \<open>
  The loop of \<^verbatim>\<open>Receive\<close>, with the number of packets it may still consume.
\<close>

fun receive_loop ::
  "'r RakCode \<Rightarrow> u32 \<Rightarrow> nat \<Rightarrow> ('r Host \<times> 'c) SampRakNetTransport \<Rightarrow> 'r Host \<times> 'c \<Rightarrow>
    u32 \<times> ('r Host \<times> 'c) SampRakNetTransport \<times> 'r Host \<times> 'c" where
  "receive_loop code self 0 t w = (0, t, w)"
| "receive_loop code self (Suc n) t w =
    (case on_process (call_Receive code (rn_originalReceive t) self) w of
      (packet, w) \<Rightarrow>
    case NotifyConnectedIfPending t w of
      (t, w) \<Rightarrow>
        if packet = 0 \<or> \<not> IsReadable (memory_of w) packet sizeof_RakPacket then (packet, t, w)
        else
          let t = (if rn_connected t \<and> \<not> rn_connectedEventSent t then t\<lparr>rn_connectedEventPending := True\<rparr> else t);
              data = packet_data (memory_of w) packet;
              len = packet_len (memory_of w) packet
          in if data = 0 \<or> len = 0 \<or> \<not> IsReadable (memory_of w) data (min len 5) then (packet, t, w)
          else if byte_at (memory_of w) data = kDisconnectionNotification \<or>
                  byte_at (memory_of w) data = kConnectionLost
          then (case NotifyDisconnected t w of (t, w) \<Rightarrow> (packet, t, w))
          else
            let inspected = Inspect (View (bytes_at (memory_of w) data (unat len)))
            in if frame_kind inspected = Unrelated then (packet, t, w)
            else
              let w = (if unat len \<le> kMaximumFrameSize \<and> IsReadable (memory_of w) data len
                       then snd (RakNet_DispatchIncoming (protocolBytes inspected) t w) else w);
                  w = snd (on_process (\<lambda>p. ((), call_Deallocate code (rn_deallocateFunction t) self packet p)) w)
              in receive_loop code self n t w)"

definition Receive ::
  "'r RakCode \<Rightarrow> u32 \<Rightarrow> ('r Host \<times> 'c) SampRakNetTransport \<Rightarrow> 'r Host \<times> 'c \<Rightarrow>
    u32 \<times> ('r Host \<times> 'c) SampRakNetTransport \<times> 'r Host \<times> 'c" where
  "Receive code self t w =
    (if self \<noteq> rn_rakClient t
     then (case on_process (call_Receive code (rn_originalReceive t) self) w of (packet, w) \<Rightarrow> (packet, t, w))
     else
       case ObserveConnection code self t w of
         (t, w) \<Rightarrow>
           let w = (case cb_pump (rn_callbacks t) of
                      Some f \<Rightarrow> if rn_connectedEventSent t then f w else w
                    | None \<Rightarrow> w)
           in receive_loop code self kMaximumConsumedPacketsPerCall t w)"

definition ReceiveHook ::
  "'r RakCode \<Rightarrow> u32 \<Rightarrow> ('r Host \<times> 'c) SampRakNetTransport \<Rightarrow> 'r Host \<times> 'c \<Rightarrow>
    u32 \<times> ('r Host \<times> 'c) SampRakNetTransport \<times> 'r Host \<times> 'c" where
  "ReceiveHook code self t w =
    (if \<not> rn_active t \<or> rn_originalReceive t = 0 then (0, t, w) else Receive code self t w)"

section \<open>Finding the RakNet client and installing the hook\<close>

definition ResolveRakClient ::
  "'r RakCode \<Rightarrow> SampCompatibility \<Rightarrow> 'w SampRakNetTransport \<Rightarrow> 'r Process \<Rightarrow> bool \<times> 'w SampRakNetTransport \<times> 'r Process" where
  "ResolveRakClient code compatibility t p =
    (case (ResolveRva (rn_module t) (netGamePointerRva (addresses compatibility)) sizeof_pointer,
           ResolveRva (rn_module t) (getRakClientRva (addresses compatibility)) 1) of
       (Some netGameSlot, Some getRakClientAddress) \<Rightarrow>
         if \<not> IsAccessible (space p) (rn_module t) netGameSlot sizeof_pointer \<or>
            \<not> IsExecutable (space p) (rn_module t) getRakClientAddress
         then (False, t, p)
         else
           let netGame = read_word (space p) netGameSlot
           in if \<not> IsReadable (space p) netGame sizeof_pointer then (False, t, p)
           else case call_GetRakClient code getRakClientAddress netGame p of (rakClient, p) \<Rightarrow>
             if \<not> IsReadable (space p) rakClient sizeof_pointer then (False, t, p)
             else
               let vtable = read_word (space p) rakClient;
                   vtableSize = kRakClientVtableEntriesNeeded * sizeof_pointer
               in if \<not> Contains (rn_module t) vtable vtableSize \<or>
                     \<not> IsAccessible (space p) (rn_module t) vtable vtableSize
               then (False, t, p)
               else
                 let send = VtableFunction (space p) vtable kSendRawIndex;
                     receive = VtableFunction (space p) vtable kReceiveIndex;
                     deallocate = VtableFunction (space p) vtable kDeallocatePacketIndex;
                     isConnected = VtableFunction (space p) vtable kIsConnectedIndex
                 in if \<not> IsExecutable (space p) (rn_module t) send \<or> \<not> IsExecutable (space p) (rn_module t) receive \<or>
                       \<not> IsExecutable (space p) (rn_module t) deallocate \<or>
                       \<not> IsExecutable (space p) (rn_module t) isConnected
                 then (False, t, p)
                 else (True, t\<lparr>rn_rakClient := rakClient, rn_vtable := vtable, rn_sendFunction := send,
                        rn_originalReceive := receive, rn_deallocateFunction := deallocate,
                        rn_isConnectedFunction := isConnected\<rparr>, p)
     | _ \<Rightarrow> (False, t, p))"

text \<open>The attempts of \<^verbatim>\<open>Initialize\<close>, with the number that is left.\<close>

fun resolve_loop ::
  "'r RakCode \<Rightarrow> SampCompatibility \<Rightarrow> nat \<Rightarrow> 'w SampRakNetTransport \<Rightarrow> 'r Process \<Rightarrow> 'w SampRakNetTransport \<times> 'r Process" where
  "resolve_loop code compatibility 0 t p = (t, p)"
| "resolve_loop code compatibility (Suc n) t p =
    (case ResolveRakClient code compatibility t p of
       (True, t, p) \<Rightarrow> (t, p)
     | (False, t, p) \<Rightarrow> resolve_loop code compatibility n t (Sleep code p))"

definition InstallReceiveHook ::
  "'r RakCode \<Rightarrow> 'w SampRakNetTransport \<Rightarrow> 'r Process \<Rightarrow> bool \<times> 'w SampRakNetTransport \<times> 'r Process" where
  "InstallReceiveHook code t p =
    (if rn_vtable t = 0 \<or> rn_originalReceive t = 0 then (False, t, p)
     else
       let slot = rn_vtable t + sizeof_pointer * kReceiveIndex
       in case VirtualProtect code slot PAGE_READWRITE p of
         (None, p) \<Rightarrow> (False, t, p)
       | (Some oldProtection, p) \<Rightarrow>
           let t = t\<lparr>rn_active := True\<rparr>
           in case InterlockedCompareExchange slot (hook_address code) (rn_originalReceive t) p of (previous, p) \<Rightarrow>
              case VirtualProtect code slot oldProtection p of (restored, p) \<Rightarrow>
                if previous \<noteq> rn_originalReceive t then (False, t\<lparr>rn_active := False\<rparr>, p)
                else if restored = None
                then (let p = snd (InterlockedCompareExchange slot (rn_originalReceive t) (hook_address code) p);
                          p = snd (VirtualProtect code slot oldProtection p)
                      in (False, t\<lparr>rn_active := False\<rparr>, p))
                else (True, t\<lparr>rn_receiveSlot := slot\<rparr>, p))"

definition RestoreReceiveHook ::
  "'r RakCode \<Rightarrow> 'w SampRakNetTransport \<Rightarrow> 'r Process \<Rightarrow> bool \<times> 'w SampRakNetTransport \<times> 'r Process" where
  "RestoreReceiveHook code t p =
    (if rn_receiveSlot t = 0 \<or> rn_originalReceive t = 0 then (True, t, p)
     else case VirtualProtect code (rn_receiveSlot t) PAGE_READWRITE p of
       (None, p) \<Rightarrow> (False, t, p)
     | (Some oldProtection, p) \<Rightarrow>
         case InterlockedCompareExchange (rn_receiveSlot t) (rn_originalReceive t) (hook_address code) p of
           (previous, p) \<Rightarrow>
             let p = snd (VirtualProtect code (rn_receiveSlot t) oldProtection p)
             in if previous \<noteq> hook_address code \<and> previous \<noteq> rn_originalReceive t then (False, t, p)
                else (True, t\<lparr>rn_receiveSlot := 0\<rparr>, p))"

definition hook_not_restored :: string where
  "hook_not_restored = ''[CustomModel] Receive hook could not be restored; transport remains active'' @ [char_of (10 :: nat)]"

definition RakNet_Shutdown ::
  "'r RakCode \<Rightarrow> 'w SampRakNetTransport \<Rightarrow> 'r Host \<Rightarrow> 'w SampRakNetTransport \<times> 'r Host" where
  "RakNet_Shutdown code t h =
    (case RestoreReceiveHook code t (process h) of
       (False, t, p) \<Rightarrow> (t, h\<lparr>process := p, host_log := OutputDebugString hook_not_restored (host_log h)\<rparr>)
     | (True, t, p) \<Rightarrow>
         (t\<lparr>rn_active := False, rn_initialized := False, rn_connected := False, rn_awaitingDisconnectedState := False,
            rn_connectedEventPending := False, rn_connectedEventSent := False, rn_rakClient := 0, rn_vtable := 0,
            rn_sendFunction := 0, rn_originalReceive := 0, rn_deallocateFunction := 0, rn_isConnectedFunction := 0,
            rn_callbacks := no_callbacks\<rparr>, h\<lparr>process := p\<rparr>))"

text \<open>The part of \<^verbatim>\<open>Initialize\<close> behind its guards: the attempts, then the hook.\<close>

definition hook_client ::
  "'r RakCode \<Rightarrow> SampCompatibility \<Rightarrow> 'w SampRakNetTransport \<Rightarrow> 'r Host \<Rightarrow> bool \<times> 'w SampRakNetTransport \<times> 'r Host" where
  "hook_client code compatibility t h =
    (case resolve_loop code compatibility kResolveAttempts t (process h) of
       (t, p) \<Rightarrow>
         let h = h\<lparr>process := p\<rparr>; t = t\<lparr>rn_initialized := rn_rakClient t \<noteq> 0\<rparr>
         in if \<not> rn_initialized t
            then (case RakNet_Shutdown code t h of (t, h) \<Rightarrow> (False, t, h))
            else case InstallReceiveHook code t (process h) of
              (False, t, p) \<Rightarrow> (case RakNet_Shutdown code t (h\<lparr>process := p\<rparr>) of (t, h) \<Rightarrow> (False, t, h))
            | (True, t, p) \<Rightarrow>
                (True, t, h\<lparr>process := p, host_log := Info ''transport initialized''
                   (Info ''RakClient resolved'' (host_log h))\<rparr>))"

definition RakNet_Initialize ::
  "'r RakCode \<Rightarrow> 'w TransportCallbacks \<Rightarrow> 'w SampRakNetTransport \<Rightarrow> 'r Host \<Rightarrow> bool \<times> 'w SampRakNetTransport \<times> 'r Host" where
  "RakNet_Initialize code callbacks t h =
    (if rn_initialized t \<or> cb_incoming callbacks = None \<or> cb_connection callbacks = None then (False, t, h)
     else case FindLoadedModule (space (process h)) ''samp.dll'' of
       Inl error \<Rightarrow> (False, t, h)
     | Inr m \<Rightarrow>
         if module_entryPointRva m = 0 then (False, t, h)
         else case (FindSampBuild_entryPoint (module_entryPointRva m), FindCompatibility (rn_version t)) of
           (Some build, Some compatibility) \<Rightarrow>
             if build_version build \<noteq> rn_version t \<or> \<not> HasAllMappings compatibility [NetGame, GetRakClient]
             then (False, t, h)
             else hook_client code compatibility (t\<lparr>rn_module := m, rn_callbacks := callbacks\<rparr>) h
         | _ \<Rightarrow> (False, t, h))"

definition RakNet_IsAvailable :: "'w SampRakNetTransport \<Rightarrow> bool" where
  "RakNet_IsAvailable t \<longleftrightarrow>
    (rn_version t = SampVersion_R1 \<or> rn_version t = SampVersion_R3_1) \<and>
    (case FindCompatibility (rn_version t) of None \<Rightarrow> False
     | Some compatibility \<Rightarrow> HasAllMappings compatibility [NetGame, GetRakClient])"

text \<open>The two static transports, and the selection by build; \<open>None\<close> is the unavailable transport.\<close>

definition FindRakNetTransport :: "SampVersion \<Rightarrow> 'w SampRakNetTransport option" where
  "FindRakNetTransport version =
    (if version = SampVersion_R1 then Some (new_RakNetTransport SampVersion_R1)
     else if version = SampVersion_R3_1 then Some (new_RakNetTransport SampVersion_R3_1)
     else None)"

section \<open>The transport as an implementation of the interface\<close>

text \<open>The packets handed over: the accepted frames without the packet id in front.\<close>

definition raw_sent :: "'r Host \<Rightarrow> bytes list" where
  "raw_sent h = map (\<lambda>(raw, ok). tl raw) (filter snd (raw_sends h))"

lemma RakNet_Send_cases:
  assumes "RakNet_Send code t bytes h = (ok, h')"
  obtains (nothing) "\<not> ok" "h' = h"
  | (called) packet bs where "bytes = View bs" "DecodePacket bytes = Inr packet" "length bs \<le> kMaximumPacketSize"
      "rn_initialized t" "raw_sends h' = raw_sends h @ [(kRakNetPacketId # bs, ok)]"
proof (cases "isl (DecodePacket bytes) \<or> Encode bytes = None \<or> \<not> rn_initialized t \<or> rn_rakClient t = 0 \<or> rn_sendFunction t = 0")
  case True
  then have "RakNet_Send code t bytes h = (False, h)" by (auto simp: RakNet_Send_def split: option.splits)
  then have "\<not> ok" "h' = h" using assms by simp_all
  then show thesis by (rule nothing)
next
  case False
  then obtain packet frame where d: "DecodePacket bytes = Inr packet" and f: "Encode bytes = Some frame"
    by (cases "DecodePacket bytes") auto
  then obtain bs where bs: "bytes = View bs" "length bs \<le> kMaximumPacketSize" "frame = kRakNetPacketId # bs"
    by (cases bytes) (auto simp: Encode_def HasProtocolMagic_def split: if_splits)
  have raw: "MakeRakNetRawSendBuffer (View frame) = Some frame"
    using bs by (simp add: MakeRakNetRawSendBuffer_def kIntegerMax_def kMaximumPacketSize_def)
  let ?l = "h\<lparr>host_log := log_send (view_size bytes) frame (host_log h)\<rparr>"
  obtain b p where c: "call_SendRaw code (rn_sendFunction t) (rn_rakClient t) frame (process ?l) = (b, p)"
    by (metis prod.exhaust)
  have "RakNet_Send code t bytes h = (b, ?l\<lparr>process := p, raw_sends := raw_sends ?l @ [(frame, b)]\<rparr>)"
    using False f raw c by (simp add: RakNet_Send_def Let_def)
  then have "raw_sends h' = raw_sends h @ [(kRakNetPacketId # bs, ok)]" using assms bs(3) by auto
  then show thesis using called bs d False by blast
qed

interpretation raknet: client_transport "RakNet_Send code t" raw_sent for code and t :: "'w SampRakNetTransport"
  by unfold_locales (auto elim!: RakNet_Send_cases simp: raw_sent_def)

end
