(* ===== verification/ClientRuntime.thy ===== *)
theory ClientRuntime
  imports ManagerReports ClientHandshake RakNetTransport
begin

text \<open>
  The callbacks of the client's runtime, the first half of \<^verbatim>\<open>client/src/core/runtime.cpp\<close>:
  what the transport's events do to the handshake and the asset manager, and what they
  make the client send and log. The transport is the function its packets are sent with.
\<close>

section \<open>State\<close>

text \<open>
  The context behind the callbacks. A null transport is \<open>False\<close>; an asset manager comes
  with its worker and the disk they own.
\<close>

record ProtocolContext =
  ctx_handshake :: "ClientHandshake option"
  ctx_transport :: bool
  ctx_assets :: "System option"
  ctx_malformedPacketLogged :: bool

type_synonym 'r Sender = "ByteView \<Rightarrow> 'r Host \<Rightarrow> bool \<times> 'r Host"
type_synonym 'r RuntimeWorld = "'r Host \<times> ProtocolContext"

definition log_with :: "(Logger \<Rightarrow> Logger) \<Rightarrow> 'r Host \<Rightarrow> 'r Host" where
  "log_with f h = h\<lparr>host_log := f (host_log h)\<rparr>"

definition on_assets :: "(ClientAssetManager \<Rightarrow> ClientAssetManager) \<Rightarrow> ProtocolContext \<Rightarrow> ProtocolContext" where
  "on_assets f c = c\<lparr>ctx_assets := map_option (\<lambda>s. s\<lparr>sys_manager := f (sys_manager s)\<rparr>) (ctx_assets c)\<rparr>"

section \<open>Reports\<close>

definition SendAssetReport :: "'r Sender \<Rightarrow> bool \<Rightarrow> Message \<Rightarrow> 'r Host \<Rightarrow> 'r Host" where
  "SendAssetReport send transport message h =
    (if \<not> transport then h
     else case EncodePacket message kProtocolVersion of
       Inl error \<Rightarrow> log_with (Error ''asset status send failed'') h
     | Inr encoded \<Rightarrow>
         (case send (View encoded) h of
            (True, h) \<Rightarrow> h
          | (False, h) \<Rightarrow> log_with (Error ''asset status send failed'') h))"

definition asset_line :: "ClientAssetEvent \<Rightarrow> string \<Rightarrow> string" where
  "asset_line e what = ''asset '' @ to_string (unat (ev_assetId e)) @ what"

definition report_event :: "'r Sender \<Rightarrow> bool \<Rightarrow> ClientAssetEvent \<Rightarrow> 'r Host \<Rightarrow> 'r Host" where
  "report_event send transport e h =
    (case ev_kind e of
       EvManifestBegin \<Rightarrow>
         log_with (Info (''manifest contains '' @ to_string (unat (ev_assetCount e)) @ '' assets''))
           (log_with (Info (''manifest revision '' @ to_string (unat (ev_revision e)) @ '' received'')) h)
     | EvManifestComplete \<Rightarrow> h
     | EvCacheHit \<Rightarrow> log_with (Info (asset_line e '' cache hit'')) h
     | EvQueued \<Rightarrow> log_with (Info (asset_line e '' queued'')) h
     | EvDownloading \<Rightarrow> log_with (Info (asset_line e '' downloading'')) h
     | EvVerifying \<Rightarrow> log_with (Info (asset_line e '' verifying'')) h
     | EvVerified \<Rightarrow> log_with (Info (asset_line e '' verified'')) h
     | EvReady \<Rightarrow>
         SendAssetReport send transport
           (AssetReadyMsg \<lparr>ready_manifestRevision = ev_revision e, ready_assetId = ev_assetId e\<rparr>)
           (log_with (Info (asset_line e '' ready'')) h)
     | EvFailed \<Rightarrow>
         SendAssetReport send transport
           (AssetErrorMsg \<lparr>error_manifestRevision = ev_revision e, error_assetId = ev_assetId e, error_reason = ev_error e\<rparr>)
           (log_with (Info (asset_line e ('' failed: '' @ ToString_AssetErrorReason (ev_error e)))) h))"

definition PumpAssetResults :: "'r Sender \<Rightarrow> 'r RuntimeWorld \<Rightarrow> 'r RuntimeWorld" where
  "PumpAssetResults send w =
    (case w of (h, c) \<Rightarrow>
      case (ctx_assets c, ctx_handshake c) of
        (Some s, Some handshake) \<Rightarrow>
          if ch_state handshake \<noteq> Compatible then (h, c)
          else (case DrainEvents (sys_manager s) of
            (events, m) \<Rightarrow>
              (fold (report_event send (ctx_transport c)) events h, c\<lparr>ctx_assets := Some (s\<lparr>sys_manager := m\<rparr>)\<rparr>))
      | _ \<Rightarrow> (h, c))"

section \<open>Incoming packets\<close>

definition drop_malformed :: "'r RuntimeWorld \<Rightarrow> 'r RuntimeWorld" where
  "drop_malformed w =
    (case w of (h, c) \<Rightarrow>
      if ctx_malformedPacketLogged c then (h, c)
      else (log_with (Error ''malformed CustomModel packet dropped'') h, c\<lparr>ctx_malformedPacketLogged := True\<rparr>))"

fun is_handshake_message :: "Message \<Rightarrow> bool" where
  "is_handshake_message (WelcomeMsg _) = True"
| "is_handshake_message (RejectMsg _) = True"
| "is_handshake_message _ = False"

definition rejection_line :: "RejectReason \<Rightarrow> Logger \<Rightarrow> Logger" where
  "rejection_line reason l =
    (if reason = UnsupportedProtocol then Info ''CustomModel handshake rejected: unsupported protocol'' l
     else if reason = UnsupportedClientRuntime then Info ''CustomModel handshake rejected: unsupported client runtime'' l
     else if reason = UnsupportedSampBuild then Info ''CustomModel handshake rejected: unsupported SA-MP build'' l
     else if reason = MalformedHandshake then Info ''CustomModel handshake rejected: malformed handshake'' l
     else if reason = UnsupportedCapabilities then Info ''CustomModel handshake rejected: unsupported capabilities'' l
     else l)"

text \<open>A message that is not of the handshake goes to the asset manager, then results are pumped.\<close>

definition handle_asset_message :: "'r Sender \<Rightarrow> Message \<Rightarrow> System \<Rightarrow> 'r RuntimeWorld \<Rightarrow> 'r RuntimeWorld" where
  "handle_asset_message send message s w =
    (case w of (h, c) \<Rightarrow>
      case HandleMessage message (sys_manager s) of
        (result, m) \<Rightarrow>
          let c = c\<lparr>ctx_assets := Some (s\<lparr>sys_manager := m\<rparr>)\<rparr>;
              h = (if result = InputInvalidManifest \<or> result = InputInvalidOrder
                then (let h = log_with (Error ''invalid asset manifest sequence dropped'') h
                  in case message of
                    ManifestAssetMsg item \<Rightarrow>
                      SendAssetReport send (ctx_transport c) (AssetErrorMsg \<lparr>error_manifestRevision = item_manifestRevision item,
                        error_assetId = assetId (item_asset item), error_reason = AssetErrorReason_InvalidManifest\<rparr>) h
                  | _ \<Rightarrow> h)
                else h)
          in PumpAssetResults send (h, c))"

definition handle_handshake_packet :: "ByteView \<Rightarrow> ClientHandshake \<Rightarrow> 'r RuntimeWorld \<Rightarrow> 'r RuntimeWorld" where
  "handle_handshake_packet bytes handshake w =
    (case w of (h, c) \<Rightarrow>
      case client_HandleIncoming bytes handshake of
        (result, handshake) \<Rightarrow>
          let c = c\<lparr>ctx_handshake := Some handshake\<rparr>
          in case result of
            IncomingWelcomeReceived \<Rightarrow>
              let h = log_with (Info ''Welcome received'') h
              in (case ConfirmWelcome handshake of
                   (True, handshake) \<Rightarrow> (log_with (Info ''handshake complete'') h, c\<lparr>ctx_handshake := Some handshake\<rparr>)
                 | (False, handshake) \<Rightarrow> (h, c\<lparr>ctx_handshake := Some handshake\<rparr>))
          | IncomingRejected \<Rightarrow>
              (case ch_rejection handshake of
                 Some rejection \<Rightarrow> (log_with (rejection_line (reject_reason rejection)) h, c)
               | None \<Rightarrow> (log_with (Info ''CustomModel handshake rejected'') h, c))
          | IncomingMalformed \<Rightarrow> drop_malformed (h, c)
          | IncomingIgnored \<Rightarrow> (h, c))"

definition HandleIncomingProtocol :: "'r Sender \<Rightarrow> ByteView \<Rightarrow> 'r RuntimeWorld \<Rightarrow> 'r RuntimeWorld" where
  "HandleIncomingProtocol send bytes w =
    (case w of (h, c) \<Rightarrow>
      case ctx_handshake c of
        None \<Rightarrow> (h, c)
      | Some handshake \<Rightarrow>
          (case DecodePacket bytes of
             Inl error \<Rightarrow> drop_malformed (h, c)
           | Inr packet \<Rightarrow>
               if is_handshake_message (packet_message packet) then handle_handshake_packet bytes handshake (h, c)
               else if ch_state handshake \<noteq> Compatible then (h, c)
               else case ctx_assets c of
                 None \<Rightarrow> (h, c)
               | Some s \<Rightarrow> handle_asset_message send (packet_message packet) s (h, c)))"

section \<open>Connection events\<close>

definition send_hello :: "'r Sender \<Rightarrow> ClientHandshake \<Rightarrow> 'r RuntimeWorld \<Rightarrow> 'r RuntimeWorld" where
  "send_hello send handshake w =
    (case w of (h, c) \<Rightarrow>
      case TakeHello handshake of
        (hello, handshake) \<Rightarrow>
          let c = c\<lparr>ctx_handshake := Some handshake\<rparr>
          in case hello of
            None \<Rightarrow> (log_with (Error ''could not encode Hello'') h, c)
          | Some hello \<Rightarrow>
              (case send (View hello) h of
                 (False, h) \<Rightarrow> (log_with (Error ''Hello send failed'') h, c)
               | (True, h) \<Rightarrow> (log_with (Info ''Hello sent'') h, c)))"

definition HandleConnectionEvent :: "'r Sender \<Rightarrow> ConnectionEvent \<Rightarrow> 'r RuntimeWorld \<Rightarrow> 'r RuntimeWorld" where
  "HandleConnectionEvent send event w =
    (case w of (h, c) \<Rightarrow>
      case ctx_handshake c of
        None \<Rightarrow> (h, c)
      | Some handshake \<Rightarrow>
          if \<not> ctx_transport c then (h, c)
          else let c = on_assets ResetSession c
          in if event = EventDisconnected
             then (log_with (Info ''RakNet connection closed'') h,
               c\<lparr>ctx_handshake := Some (OnDisconnected handshake), ctx_malformedPacketLogged := False\<rparr>)
             else send_hello send (OnConnected handshake) (log_with (Info ''RakNet connection established'') h, c))"

text \<open>The callbacks the runtime gives to the transport.\<close>

definition runtime_callbacks :: "'r Sender \<Rightarrow> 'r RuntimeWorld TransportCallbacks" where
  "runtime_callbacks send = \<lparr>cb_incoming = Some (HandleIncomingProtocol send),
     cb_connection = Some (HandleConnectionEvent send), cb_pump = Some (PumpAssetResults send)\<rparr>"

section \<open>What is sent\<close>

text \<open>A transport on a host, whose log does not touch what was sent.\<close>

locale host_transport = client_transport send sent
  for send :: "'r Sender" and sent :: "'r Host \<Rightarrow> bytes list" +
  assumes log_silent [simp]: "sent (h\<lparr>host_log := l\<rparr>) = sent h"
begin

lemma log_with_sent [simp]: "sent (log_with f h) = sent h"
  by (simp add: log_with_def)

text \<open>A report puts its packet on the wire or nothing.\<close>

lemma SendAssetReport_sent:
  "\<exists>b. sent (SendAssetReport send transport message h) =
    sent h @ (if b \<and> transport \<and> message_valid message then [packet_bytes message] else [])"
proof (cases "transport \<and> message_valid message")
  case True
  obtain ok h1 where s: "send (View (packet_bytes message)) h = (ok, h1)" by (metis prod.exhaust)
  have "sent (SendAssetReport send transport message h) = sent h1"
    using True s by (cases ok) (simp_all add: SendAssetReport_def EncodePacket_bytes)
  then show ?thesis using send_log [OF s] True by (intro exI [of _ ok]) simp
next
  case False
  then have "sent (SendAssetReport send transport message h) = sent h"
    by (auto simp: SendAssetReport_def EncodePacket_bytes)
  then show ?thesis using False by auto
qed

end

interpretation raknet_host: host_transport "RakNet_Send code t" raw_sent for code and t :: "'w SampRakNetTransport"
  by unfold_locales (simp add: raw_sent_def)

interpretation unavailable_host: host_transport NoTransport_Send raw_sent
  by unfold_locales (simp add: raw_sent_def)

end
