(* ===== verification/ManagerProperties.thy ===== *)
theory ManagerProperties
  imports ManagerProgress
begin

text \<open>
  What the asset manager guarantees over the WinHTTP backend, with a sample session that
  reaches a ready asset.
\<close>

section \<open>The cache directory\<close>

lemma cache_Initialize_frame: "cache_Initialize c d = (b, d') \<Longrightarrow> frame P d d'"
  by (auto simp: cache_Initialize_def split: prod.splits option.splits
      intro: frame_create_directories frame_trans)

lemma cache_sound_frame: "cache_sound c d \<Longrightarrow> frame {} d d' \<Longrightarrow> cache_sound c d'"
  unfolding cache_sound_def frame_def by (metis Node.distinct(1) empty_iff option.inject)

lemma QueueManifest_cache: "mgr_cache (QueueManifest mf m) = mgr_cache m"
proof -
  have "mgr_cache (fold (queue_asset r) as m) = mgr_cache m" for r as
    by (induction as rule: rev_induct) (simp_all add: queue_asset_def)
  then show ?thesis by (simp add: QueueManifest_def)
qed

lemma HandleMessage_cache: "mgr_cache (snd (HandleMessage message m)) = mgr_cache m"
proof -
  obtain result r where run: "receiver_Handle message (mgr_receiver m) = (result, r)" by (metis prod.exhaust)
  show ?thesis
  proof (cases "result = InputComplete")
    case False
    then show ?thesis using HandleMessage_incomplete [OF run] by auto
  next
    case True
    then show ?thesis using HandleMessage_complete [of message m r] complete_result [of message "mgr_receiver m" r] run
      by (simp add: QueueManifest_cache manifest_announced_def)
  qed
qed

lemma client_call_cache:
  assumes "client_call call s = Some s'"
  shows "mgr_cache (sys_manager s') = mgr_cache (sys_manager s) \<and> frame {} (sys_disk s) (sys_disk s')"
proof (cases call)
  case CallInitialize
  obtain b d where "cache_Initialize (mgr_cache (sys_manager s)) (sys_disk s) = (b, d)" by (metis prod.exhaust)
  then show ?thesis using assms CallInitialize cache_Initialize_frame
    by (cases b) (auto simp: manager_Initialize_def Let_def)
qed (use assms in \<open>auto simp: HandleMessage_cache ResetSession_def Let_def DrainEvents_def RequestStop_def
  Shutdown_join_def split: if_splits\<close>)

context fetch_backends begin

lemmas item_outcome = Process_outcome

lemma worker_turn_cache:
  assumes turn: "worker_turn fetch s = Some s'" and fetch: "fetch \<in> backends" and sound: "cache_sound (mgr_cache (sys_manager s)) (sys_disk s)"
  shows "mgr_cache (sys_manager s') = mgr_cache (sys_manager s) \<and> cache_sound (mgr_cache (sys_manager s)) (sys_disk s')"
proof (cases "sys_worker s")
  case WorkerWaiting
  then show ?thesis using turn sound by (cases "mgr_queue (sys_manager s)") (auto simp: worker_turn_def Let_def split: if_splits)
next
  case (WorkerTook w)
  show ?thesis
  proof (cases "IsCurrentGeneration (work_generation w) (sys_manager s)")
    case False
    then show ?thesis using turn sound WorkerTook by (auto simp: worker_turn_def)
  next
    case True
    let ?c = "mgr_cache (sys_manager s)"
    obtain us d where run: "Process fetch ?c (mgr_options (sys_manager s)) w (sys_disk s) = (us, d)" by (metis prod.exhaust)
    then have "cache_kept ?c (work_asset w) (sys_disk s) d"
      using Process_outcome [OF fetch, of ?c w "sys_disk s" "mgr_options (sys_manager s)"] by (simp add: outcome_def)
    then have "cache_sound ?c d" by (rule cache_sound_kept [OF sound])
    then show ?thesis using turn WorkerTook True run by (auto simp: worker_turn_def Let_def)
  qed
next
  case (WorkerReporting w us)
  then show ?thesis using turn sound by (cases us) (auto simp: worker_turn_def SetState_same)
qed (use turn in \<open>auto simp: worker_turn_def\<close>)

lemma reachable_cache:
  assumes "reachable backends (start_system c b d) k s" and "cache_sound c d"
  shows "mgr_cache (sys_manager s) = c \<and> cache_sound c (sys_disk s)"
  using assms(1)
proof (induction rule: reachable.induct)
  case start
  show ?case using assms(2) by (simp add: start_system_def new_manager_def)
next
  case (client k s call s')
  then show ?case using client_call_cache [of call s s'] cache_sound_frame by auto
next
  case (worker k s fetch s')
  then show ?case using worker_turn_cache [of fetch s s'] by auto
qed

end

section \<open>Properties\<close>

text \<open>
  Claim C20. Sessions do not leak into each other. Whatever the network does and however
  the two threads are scheduled, every event the client drains is about the manifest of
  the current session, and an asset has a state only when that manifest names it: a
  download that was running when the connection dropped is never reported afterwards.
  The bound on the number of reconnects is what keeps the 64-bit generation from wrapping.
\<close>

theorem session_isolation:
  assumes "reachable (range winhttp_backend) (start_system c b d) k s" and "k + 1 < 2 ^ 64"
  shows "(\<forall>e \<in> set (fst (DrainEvents (sys_manager s))). event_ok (sys_manager s) e) \<and>
    (\<forall>i. GetState i (sys_manager s) \<noteq> StateUnknown \<longrightarrow>
      (\<exists>mf. rx_completed (mgr_receiver (sys_manager s)) = Some mf \<and> i \<in> assetId ` set (manifest_assets mf)))"
  using reachable_session_ok [OF assms]
  by (auto simp: session_ok_def manager_ok_def DrainEvents_def GetState_def state_ok_def split: option.splits)


text \<open>
  Claim C22. The client never puts anything into the cache that does not have the digest its
  name says: a cache that is sound at the start is sound in every reachable state.
\<close>

theorem cache_stays_sound:
  assumes "reachable (range winhttp_backend) (start_system c b d) k s" and "cache_sound c d"
  shows "cache_sound c (sys_disk s)"
  using winhttp.reachable_cache [OF assms] by simp


text \<open>
  A work item whose generation is current reports one of six sequences of
  events, each ending in ready or failed; it touches only its cache file and its temporary
  file, and after ready the cache file is verified.
\<close>

theorem work_item_outcome:
  "map kind_of (fst (Process (winhttp_backend env) c options w d)) \<in> legal_traces \<and>
    outcome c (work_asset w) d (Process (winhttp_backend env) c options w d)"
  using winhttp.item_outcome [of "winhttp_backend env"] by blast

text \<open>A session: the manifest of one asset that the cache already holds.\<close>

definition sample_session_manifest :: Manifest where
  "sample_session_manifest = \<lparr>revision = 1, manifest_assets = [cached_asset], totalDownloadSize = 1\<rparr>"

lemma cached_asset_valid: "IsAssetDescriptionValid cached_asset"
proof -
  have "IsLogicalNameValid ''a''" and "IsDownloadUrlValid ''http://a/b''" and "IsAssetTypeValid AssetType_Dff" by code_simp+
  then show ?thesis by (simp add: IsAssetDescriptionValid_def cached_asset_def asset_limits)
qed

definition sample_start :: System where
  "sample_start = start_system sample_cache True (disk_with (PathFor sample_cache cached_asset) [7])"

definition sample_manager :: ClientAssetManager where
  "sample_manager = fold (\<lambda>message m. snd (HandleMessage message m)) (manifest_messages sample_session_manifest)
     (new_manager sample_cache True)"

lemma reachable_messages:
  "reachable backends start k s \<Longrightarrow>
    reachable backends start k (s\<lparr>sys_manager := fold (\<lambda>message m. snd (HandleMessage message m)) ms (sys_manager s)\<rparr>)"
proof (induction ms rule: rev_induct)
  case (snoc message ms)
  from reachable.client [OF snoc.IH [OF snoc.prems], of "CallHandleMessage message"] show ?case by simp
qed simp

lemma reachable_run: "fetch \<in> backends \<Longrightarrow> reachable backends start k s \<Longrightarrow> reachable backends start k (worker_run fetch n s)"
  by (induction n arbitrary: s) (auto split: option.splits intro: reachable.worker)

lemma sample_manager_queue:
  "mgr_queue sample_manager = [\<lparr>work_generation = 1, work_revision = 1, work_asset = cached_asset\<rparr>]"
  "rx_completed (mgr_receiver sample_manager) = Some sample_session_manifest" "mgr_generation sample_manager = 1"
  "mgr_stopping sample_manager = False" "mgr_cache sample_manager = sample_cache" "mgr_initialized sample_manager = False"
  "mgr_hasBackend sample_manager = True"
proof -
  have bytes: "SerializedAssetBytes cached_asset \<le> 2206" by (rule SerializedAssetBytes_le [OF cached_asset_valid])
  then have room: "\<not> SerializedAssetBytes cached_asset > kMaximumManifestBytes - 20"
    "\<not> 20 + SerializedAssetBytes cached_asset + 20 > kMaximumManifestBytes" by (simp_all add: asset_limits)
  have fields: "assetId cached_asset = 1" "fileSize cached_asset = 1" by (simp_all add: cached_asset_def)
  have sizes: "sum_sizes [cached_asset] 0 = Some 1" by (simp add: fields asset_limits)
  note eval = sample_manager_def sample_session_manifest_def manifest_messages_def item_messages_def new_manager_def
    new_receiver_def HandleMessage_def handle_begin_def handle_asset_def handle_end_def fail_def QueueManifest_def
    queue_asset_def Let_def cached_asset_valid empty_manifest_def kMaximumAssetsPerManifest_def
    kMaximumTotalDownloadSize_def manifest_event_def room fields
  show "mgr_queue sample_manager = [\<lparr>work_generation = 1, work_revision = 1, work_asset = cached_asset\<rparr>]"
    "rx_completed (mgr_receiver sample_manager) = Some sample_session_manifest" "mgr_generation sample_manager = 1"
    "mgr_stopping sample_manager = False" "mgr_cache sample_manager = sample_cache" "mgr_initialized sample_manager = False"
    "mgr_hasBackend sample_manager = True"
    using room by (simp_all add: eval)
qed


text \<open>Initialisation of a usable disk.\<close>

lemma create_directories_quiet:
  assumes "faults d = []" and "\<And>q. prefix q p \<Longrightarrow> \<not> is_regular (node_at q d)"
  shows "\<exists>d'. fs_create_directories p d = (Some (), d') \<and> faults d' = []"
  using create_directories_loop_quiet [OF assms(1), of p "[]"] assms(2) by (simp add: fs_create_directories_def)

lemma cache_Initialize_quiet:
  assumes "faults d = []"
    and free: "\<And>q. prefix q (root c @ [''sha256'']) \<or> prefix q (root c @ [''tmp'']) \<Longrightarrow> \<not> is_regular (node_at q d)"
  obtains d' where "cache_Initialize c d = (True, d')" "faults d' = []"
    "\<And>q. \<not> prefix q (root c @ [''sha256'']) \<Longrightarrow> \<not> prefix q (root c @ [''tmp'']) \<Longrightarrow> node_at q d' = node_at q d"
proof -
  obtain d1 where d1: "fs_create_directories (root c @ [''sha256'']) d = (Some (), d1)" "faults d1 = []"
    using create_directories_quiet [OF assms(1)] free by blast
  have "\<not> is_regular (node_at q d1)" if "prefix q (root c @ [''tmp''])" for q
    using fs_create_directories_nodes(2) [OF d1(1), of q] free [of q] that by auto
  then obtain d2 where d2: "fs_create_directories (root c @ [''tmp'']) d1 = (Some (), d2)" "faults d2 = []"
    using create_directories_quiet [OF d1(2)] by blast
  show thesis
  proof (rule that)
    show "cache_Initialize c d = (True, d2)" by (simp add: cache_Initialize_def d1 d2)
  qed (use d2 fs_create_directories_nodes(3) [OF d1(1)] fs_create_directories_nodes(3) [OF d2(1)] in auto)
qed

lemma sample_disk_initialized:
  obtains d' where "cache_Initialize sample_cache (disk_with (PathFor sample_cache cached_asset) [7]) = (True, d')"
    "fst (Lookup sample_cache cached_asset d') = Hit"
proof -
  let ?p = "PathFor sample_cache cached_asset" and ?c = "sample_cache"
  let ?d = "disk_with ?p [7]"
  note disk = node_at_disk_with [OF path_components(1) [of ?c cached_asset], where bs = "[7]"]
  have sha: "prefix q (butlast ?p)" if "prefix q (root ?c @ [''sha256''])" for q
  proof (rule prefix_order.trans [OF that])
    show "prefix (root ?c @ [''sha256'']) (butlast ?p)" by (simp add: PathFor_def Let_def butlast_append)
  qed
  have free: "\<not> is_regular (node_at q ?d)" if "prefix q (root ?c @ [''sha256'']) \<or> prefix q (root ?c @ [''tmp''])" for q
  proof (cases "prefix q (root ?c @ [''sha256''])")
    case True
    then show ?thesis using disk(5) sha by blast
  next
    case False
    then have q: "q = root ?c @ [''tmp'']" using that by (auto simp: prefix_snoc)
    have "\<not> prefix q ?p" by (simp add: q PathFor_def Let_def)
    then show ?thesis using disk(4) by simp
  qed
  obtain d' where d': "cache_Initialize ?c ?d = (True, d')" "faults d' = []"
    "\<And>q. \<not> prefix q (root ?c @ [''sha256'']) \<Longrightarrow> \<not> prefix q (root ?c @ [''tmp'']) \<Longrightarrow> node_at q d' = node_at q ?d"
    using cache_Initialize_quiet [OF disk(2) free] by blast
  have long: "node_at q d' = node_at q ?d" if "length q > Suc (length (root ?c))" for q
    by (rule d'(3)) (use that in \<open>auto dest: prefix_length_le simp del: prefix_snoc\<close>)
  have "holds ?p cached_asset d'"
    using disk(1) long [of ?p] by (simp add: holds_def content_ok_def cached_asset_def PathFor_def Let_def)
  moreover have "\<not> has_child ?p d'"
  proof (rule not_has_childI)
    have "\<not> prefix (?p @ [x]) ?p" for x by (auto dest: prefix_length_le)
    then show "node_at (?p @ [x]) d' = None" for x
      using long [of "?p @ [x]"] disk(4) by (simp add: PathFor_def Let_def)
  qed
  ultimately show thesis using that d'(1) Lookup_quiet [OF d'(2)] by fastforce
qed

lemma sample_ready_state:
  obtains s where "reachable (range winhttp_backend) sample_start 0 s"
    "rx_completed (mgr_receiver (sys_manager s)) = Some sample_session_manifest"
    "GetState 1 (sys_manager s) = StateReady" "mgr_cache (sys_manager s) = sample_cache"
proof -
  let ?F = "range winhttp_backend" and ?f = "winhttp_backend sample_server"
  define s1 where "s1 = sample_start\<lparr>sys_manager := sample_manager\<rparr>"
  have r1: "reachable ?F sample_start 0 s1"
    using reachable_messages [OF reachable.start, of ?F sample_start "manifest_messages sample_session_manifest"]
    by (simp add: s1_def sample_manager_def sample_start_def start_system_def)
  obtain d' where d': "cache_Initialize sample_cache (disk_with (PathFor sample_cache cached_asset) [7]) = (True, d')"
    "fst (Lookup sample_cache cached_asset d') = Hit" by (rule sample_disk_initialized)
  define m where "m = sample_manager\<lparr>mgr_stopping := False, mgr_initialized := True\<rparr>"
  define s2 where "s2 = s1\<lparr>sys_disk := d', sys_manager := m, sys_worker := WorkerWaiting\<rparr>"
  have "client_call CallInitialize s1 = Some s2"
    using d'(1) sample_manager_queue
    by (simp add: manager_Initialize_def Let_def s1_def s2_def m_def sample_start_def start_system_def)
  from reachable.client [OF r1 this] have r2: "reachable ?F sample_start 0 s2" by simp
  let ?w = "\<lparr>work_generation = 1, work_revision = 1, work_asset = cached_asset\<rparr>"
  define s3 where "s3 = s2\<lparr>sys_worker := WorkerTook ?w, sys_manager := m\<lparr>mgr_queue := []\<rparr>\<rparr>"
  have t3: "worker_turn ?f s2 = Some s3"
    using sample_manager_queue by (simp add: worker_turn_def s2_def s3_def m_def)
  obtain d4 where "Lookup sample_cache cached_asset d' = (Hit, d4)" using d'(2) by (metis prod.collapse)
  then have run: "Process ?f sample_cache (mgr_options m) ?w d' = ([update_to StateReady EvCacheHit, update_to StateReady EvReady], d4)"
    by (simp add: Process_def)
  define s4 where "s4 = s3\<lparr>sys_worker := WorkerReporting ?w [update_to StateReady EvCacheHit, update_to StateReady EvReady], sys_disk := d4\<rparr>"
  have t4: "worker_turn ?f s3 = Some s4"
    using run sample_manager_queue by (simp add: worker_turn_def s3_def s4_def s2_def m_def IsCurrentGeneration_def)
  have "work_generation ?w = mgr_generation (sys_manager s4)" "sys_worker s4 = WorkerReporting ?w [update_to StateReady EvCacheHit, update_to StateReady EvReady]"
    using sample_manager_queue by (simp_all add: s4_def s3_def m_def)
  then obtain n s' where n: "worker_run ?f n s4 = s'" "only_states (sys_manager s4) (sys_manager s') {assetId cached_asset}"
    "fmlookup (mgr_states (sys_manager s')) (assetId cached_asset) = Some StateReady"
    using report_run [of s4 ?w "[update_to StateReady EvCacheHit, update_to StateReady EvReady]" ?f] by (auto simp: update_to_def)
  have "reachable ?F sample_start 0 s4" using r2 t3 t4 by (blast intro: reachable.worker)
  then have "reachable ?F sample_start 0 s'" using reachable_run [of ?f ?F sample_start 0 s4 n] n(1) by simp
  moreover have "assetId cached_asset = 1" by (simp add: cached_asset_def)
  moreover have "mgr_receiver (sys_manager s') = mgr_receiver sample_manager" "mgr_cache (sys_manager s') = sample_cache"
    using n(2) sample_manager_queue by (simp_all add: only_states_def s4_def s3_def m_def)
  ultimately show thesis using that [of s'] n(3) sample_manager_queue(2) by (simp add: GetState_def)
qed


theorem session_isolation_witness:
  "list_all (event_ok sample_manager) (fst (DrainEvents sample_manager))"
proof -
  let ?s = "sample_start\<lparr>sys_manager := sample_manager\<rparr>"
  have "reachable (range winhttp_backend) sample_start 0 ?s"
    using reachable_messages [OF reachable.start, of "range winhttp_backend" sample_start "manifest_messages sample_session_manifest"]
    by (simp add: sample_manager_def sample_start_def start_system_def)
  from session_isolation [OF this [unfolded sample_start_def]] show ?thesis by (simp add: list_all_iff)
qed

theorem cache_stays_sound_witness:
  "\<exists>s :: System. GetState 1 (sys_manager s) = StateReady \<and> cache_sound sample_cache (sys_disk s)"
proof -
  obtain s where s: "reachable (range winhttp_backend) sample_start 0 s" "GetState 1 (sys_manager s) = StateReady"
    by (rule sample_ready_state) 
  have "cache_sound sample_cache (disk_with (PathFor sample_cache cached_asset) [7])"
    unfolding cache_sound_def
  proof (intro allI impI)
    fix a bs assume file_at: "node_at (PathFor sample_cache a) (disk_with (PathFor sample_cache cached_asset) [7]) = Some (RegularFile bs)"
    let ?p = "PathFor sample_cache cached_asset"
    note disk = node_at_disk_with [OF path_components(1) [of sample_cache cached_asset], where bs = "[7]"]
    have "prefix (PathFor sample_cache a) ?p" using disk(4) file_at by fastforce
    then have same: "PathFor sample_cache a = ?p" by (auto simp: PathFor_def Let_def)
    then have "bs = [7]" using file_at disk(1) by simp
    then show "digest_of bs = sha256 a" using PathFor_digest [OF same] by (simp add: cached_asset_def)
  qed
  then show ?thesis using cache_stays_sound [OF s(1) [unfolded sample_start_def]] s(2) by blast
qed


end
