(* ===== verification/RakNetProperties.thy ===== *)
theory RakNetProperties
  imports RakNetTransport
begin

text \<open>
  What the RakNet transport guarantees: the connection events it reports, the split of the
  packet stream between the game and the protocol, the frames it sends and the method table
  entry it replaces.
\<close>

section \<open>Recording the callbacks\<close>

datatype CallbackCall = CalledIncoming ByteView | CalledConnection ConnectionEvent | CalledPump

text \<open>Callbacks that do what others do and note each call.\<close>

definition noting :: "CallbackCall \<Rightarrow> ('h \<times> 'c \<Rightarrow> 'h \<times> 'c) \<Rightarrow> 'h \<times> 'c \<times> CallbackCall list \<Rightarrow> 'h \<times> 'c \<times> CallbackCall list" where
  "noting call f w = (case w of (h, c, calls) \<Rightarrow> case f (h, c) of (h, c) \<Rightarrow> (h, c, calls @ [call]))"

definition recording :: "('h \<times> 'c) TransportCallbacks \<Rightarrow> ('h \<times> 'c \<times> CallbackCall list) TransportCallbacks" where
  "recording cb = \<lparr>cb_incoming = map_option (\<lambda>f bytes. noting (CalledIncoming bytes) (f bytes)) (cb_incoming cb),
     cb_connection = map_option (\<lambda>f e. noting (CalledConnection e) (f e)) (cb_connection cb),
     cb_pump = map_option (noting CalledPump) (cb_pump cb)\<rparr>"

definition calls_of :: "'h \<times> 'c \<times> CallbackCall list \<Rightarrow> CallbackCall list" where
  "calls_of w = snd (snd w)"

lemma calls_of_noting [simp]: "calls_of (noting call f w) = calls_of w @ [call]"
  by (auto simp: noting_def calls_of_def split: prod.splits)

lemma calls_of_process [simp]: "calls_of (snd (on_process f w)) = calls_of w"
  by (auto simp: on_process_def calls_of_def split: prod.splits)

fun connection_events :: "CallbackCall list \<Rightarrow> ConnectionEvent list" where
  "connection_events [] = []"
| "connection_events (CalledConnection e # calls) = e # connection_events calls"
| "connection_events (_ # calls) = connection_events calls"

fun dispatched :: "CallbackCall list \<Rightarrow> ByteView list" where
  "dispatched [] = []"
| "dispatched (CalledIncoming bytes # calls) = bytes # dispatched calls"
| "dispatched (_ # calls) = dispatched calls"

lemma connection_events_append [simp]: "connection_events (xs @ ys) = connection_events xs @ connection_events ys"
  by (induction xs rule: connection_events.induct) auto

lemma dispatched_append [simp]: "dispatched (xs @ ys) = dispatched xs @ dispatched ys"
  by (induction xs rule: dispatched.induct) auto

section \<open>The game calls the hook\<close>

primrec hook_calls ::
  "'r RakCode \<Rightarrow> u32 list \<Rightarrow> ('r Host \<times> 'c) SampRakNetTransport \<Rightarrow> 'r Host \<times> 'c \<Rightarrow>
    u32 list \<times> ('r Host \<times> 'c) SampRakNetTransport \<times> 'r Host \<times> 'c" where
  "hook_calls code [] t w = ([], t, w)"
| "hook_calls code (self # selfs) t w =
    (case ReceiveHook code self t w of (packet, t, w) \<Rightarrow>
     case hook_calls code selfs t w of (packets, t, w) \<Rightarrow> (packet # packets, t, w))"

text \<open>The fields receiving leaves alone.\<close>

definition same_setup :: "'w SampRakNetTransport \<Rightarrow> 'w SampRakNetTransport \<Rightarrow> bool" where
  "same_setup t t' \<longleftrightarrow> rn_callbacks t' = rn_callbacks t \<and> rn_rakClient t' = rn_rakClient t \<and>
     rn_originalReceive t' = rn_originalReceive t \<and> rn_deallocateFunction t' = rn_deallocateFunction t \<and>
     rn_isConnectedFunction t' = rn_isConnectedFunction t \<and> rn_sendFunction t' = rn_sendFunction t \<and>
     rn_initialized t' = rn_initialized t \<and> rn_active t' = rn_active t \<and> rn_receiveSlot t' = rn_receiveSlot t"

lemma same_setup_refl [simp]: "same_setup t t"
  by (simp add: same_setup_def)

lemma same_setup_trans: "same_setup t t' \<Longrightarrow> same_setup t' t'' \<Longrightarrow> same_setup t t''"
  by (simp add: same_setup_def)

lemma same_setup_flags [simp]:
  "same_setup t (t\<lparr>rn_connected := a\<rparr>)" "same_setup t (t\<lparr>rn_awaitingDisconnectedState := b\<rparr>)"
  "same_setup t (t\<lparr>rn_connectedEventPending := c\<rparr>)" "same_setup t (t\<lparr>rn_connectedEventSent := d\<rparr>)"
  "same_setup t (t\<lparr>rn_connected := a, rn_connectedEventPending := c, rn_connectedEventSent := d\<rparr>)"
  "same_setup t (t\<lparr>rn_connectedEventPending := c, rn_connectedEventSent := d\<rparr>)"
  "same_setup t (t\<lparr>rn_connected := a, rn_awaitingDisconnectedState := b, rn_connectedEventPending := c, rn_connectedEventSent := d\<rparr>)"
  by (simp_all add: same_setup_def)

lemma ObserveConnection_setup: "ObserveConnection code self t w = (t', w') \<Longrightarrow> same_setup t t'"
  by (auto simp: ObserveConnection_def Let_def split: prod.splits if_splits)

lemma NotifyConnected_setup: "NotifyConnectedIfPending t w = (t', w') \<Longrightarrow> same_setup t t'"
  by (auto simp: NotifyConnectedIfPending_def Let_def split: if_splits)

lemma NotifyDisconnected_setup: "NotifyDisconnected t w = (t', w') \<Longrightarrow> same_setup t t'"
  by (auto simp: NotifyDisconnected_def Let_def split: if_splits)

section \<open>Connection events alternate\<close>

fun alternates :: "bool \<Rightarrow> ConnectionEvent list \<Rightarrow> bool" where
  "alternates connected [] \<longleftrightarrow> True"
| "alternates connected (EventConnected # es) \<longleftrightarrow> \<not> connected \<and> alternates True es"
| "alternates connected (EventDisconnected # es) \<longleftrightarrow> connected \<and> alternates False es"

definition session_open :: "ConnectionEvent list \<Rightarrow> bool" where
  "session_open es \<longleftrightarrow> es \<noteq> [] \<and> last es = EventConnected"

lemma alternates_append:
  "alternates b (es @ [e]) \<longleftrightarrow> alternates b es \<and>
    (e = EventConnected \<longleftrightarrow> \<not> (if es = [] then b else last es = EventConnected))"
proof (induction b es rule: alternates.induct)
  case (1 connected)
  then show ?case by (cases e) auto
qed auto

lemma alternates_snoc:
  "alternates False (es @ [e]) \<longleftrightarrow> alternates False es \<and> (e = EventConnected \<longleftrightarrow> \<not> session_open es)"
  by (auto simp: alternates_append session_open_def)

definition recorded :: "('h \<times> 'c \<times> CallbackCall list) TransportCallbacks \<Rightarrow> bool" where
  "recorded callbacks \<longleftrightarrow> (\<exists>cb. callbacks = recording cb \<and> cb_connection cb \<noteq> None)"

definition events_ok :: "('h \<times> 'c \<times> CallbackCall list) SampRakNetTransport \<Rightarrow> 'h \<times> 'c \<times> CallbackCall list \<Rightarrow> bool" where
  "events_ok t w \<longleftrightarrow> alternates False (connection_events (calls_of w)) \<and>
     (rn_connectedEventSent t \<longleftrightarrow> session_open (connection_events (calls_of w))) \<and>
     (rn_connectedEventSent t \<longrightarrow> rn_connected t) \<and> (rn_awaitingDisconnectedState t \<longrightarrow> \<not> rn_connected t) \<and>
     recorded (rn_callbacks t)"

lemma notify_calls [simp]:
  "recorded (rn_callbacks t) \<Longrightarrow> calls_of (notify t e w) = calls_of w @ [CalledConnection e]"
  by (auto simp: recorded_def notify_def recording_def)

lemma session_open_snoc [simp]: "session_open (es @ [e]) \<longleftrightarrow> e = EventConnected"
  by (simp add: session_open_def)

lemma ObserveConnection_events:
  assumes "ObserveConnection code self t w = (t', w')" and "events_ok t w"
  shows "events_ok t' w'"
proof -
  let ?call = "on_process (call_IsConnected code (rn_isConnectedFunction t) self) w"
  obtain c w1 where c: "?call = (c, w1)" by (metis prod.exhaust)
  then have "calls_of w1 = calls_of w" using calls_of_process by (metis snd_conv)
  then show ?thesis
    using assms c
    by (auto simp: ObserveConnection_def Let_def events_ok_def alternates_snoc split: if_splits)
qed

lemma NotifyConnected_events:
  "NotifyConnectedIfPending t w = (t', w') \<Longrightarrow> events_ok t w \<Longrightarrow> events_ok t' w'"
  by (auto simp: NotifyConnectedIfPending_def Let_def events_ok_def alternates_snoc split: if_splits)

lemma NotifyDisconnected_events:
  "NotifyDisconnected t w = (t', w') \<Longrightarrow> events_ok t w \<Longrightarrow> events_ok t' w'"
  by (auto simp: NotifyDisconnected_def Let_def events_ok_def alternates_snoc split: if_splits)

lemma events_ok_frame:
  "events_ok t w \<Longrightarrow> connection_events (calls_of w') = connection_events (calls_of w) \<Longrightarrow> events_ok t w'"
  by (simp add: events_ok_def)

lemma RakNet_Dispatch_events: "events_ok t w \<Longrightarrow> events_ok t (snd (RakNet_DispatchIncoming bytes t w))"
  by (auto simp: RakNet_DispatchIncoming_def events_ok_def recorded_def recording_def split: option.splits)

lemma on_process_events: "on_process f w = (x, w') \<Longrightarrow> events_ok t w \<Longrightarrow> events_ok t w'"
  using calls_of_process [of f w] by (auto intro: events_ok_frame)

text \<open>One turn of the receive loop: the five ways it goes.\<close>

definition mark_pending :: "'w SampRakNetTransport \<Rightarrow> 'w SampRakNetTransport" where
  "mark_pending t = (if rn_connected t \<and> \<not> rn_connectedEventSent t then t\<lparr>rn_connectedEventPending := True\<rparr> else t)"

definition payload_readable :: "AddressSpace \<Rightarrow> u32 \<Rightarrow> bool" where
  "payload_readable memory packet \<longleftrightarrow> packet_data memory packet \<noteq> 0 \<and> packet_len memory packet \<noteq> 0 \<and>
     IsReadable memory (packet_data memory packet) (min (packet_len memory packet) 5)"

definition inspect_packet :: "AddressSpace \<Rightarrow> u32 \<Rightarrow> InspectedFrame" where
  "inspect_packet memory packet = Inspect (View (bytes_at memory (packet_data memory packet) (unat (packet_len memory packet))))"

definition deliver :: "InspectedFrame \<Rightarrow> u32 \<Rightarrow> ('r Host \<times> 'c) SampRakNetTransport \<Rightarrow> 'r Host \<times> 'c \<Rightarrow> 'r Host \<times> 'c" where
  "deliver inspected packet t w =
    (if unat (packet_len (memory_of w) packet) \<le> kMaximumFrameSize \<and>
        IsReadable (memory_of w) (packet_data (memory_of w) packet) (packet_len (memory_of w) packet)
     then snd (RakNet_DispatchIncoming (protocolBytes inspected) t w) else w)"

lemma receive_turn:
  assumes "receive_loop code self (Suc n) t w = (packet, t', w')"
  obtains p w1 t2 w2 where "on_process (call_Receive code (rn_originalReceive t) self) w = (p, w1)"
    "NotifyConnectedIfPending t w1 = (t2, w2)" "packet = p" "t' = t2" "w' = w2"
    "p = 0 \<or> \<not> IsReadable (memory_of w2) p sizeof_RakPacket"
  | (foreign) p w1 t2 w2 where "on_process (call_Receive code (rn_originalReceive t) self) w = (p, w1)"
    "NotifyConnectedIfPending t w1 = (t2, w2)" "packet = p" "t' = mark_pending t2" "w' = w2" "p \<noteq> 0"
    "payload_readable (memory_of w2) p \<longrightarrow> frame_kind (inspect_packet (memory_of w2) p) = Unrelated"
  | (closing) p w1 t2 w2 where "on_process (call_Receive code (rn_originalReceive t) self) w = (p, w1)"
    "NotifyConnectedIfPending t w1 = (t2, w2)" "packet = p" "p \<noteq> 0" "NotifyDisconnected (mark_pending t2) w2 = (t', w')"
    "payload_readable (memory_of w2) p"
    "byte_at (memory_of w2) (packet_data (memory_of w2) p) \<in> {kDisconnectionNotification, kConnectionLost}"
  | (ours) p w1 t2 w2 where "on_process (call_Receive code (rn_originalReceive t) self) w = (p, w1)"
    "NotifyConnectedIfPending t w1 = (t2, w2)" "p \<noteq> 0" "payload_readable (memory_of w2) p"
    "frame_kind (inspect_packet (memory_of w2) p) = CustomModel"
    "receive_loop code self n (mark_pending t2)
       (snd (on_process (\<lambda>q. ((), call_Deallocate code (rn_deallocateFunction (mark_pending t2)) self p q))
         (deliver (inspect_packet (memory_of w2) p) p (mark_pending t2) w2))) = (packet, t', w')"
proof -
  obtain p w1 where p: "on_process (call_Receive code (rn_originalReceive t) self) w = (p, w1)" by (metis prod.exhaust)
  obtain t2 w2 where t2: "NotifyConnectedIfPending t w1 = (t2, w2)" by (metis prod.exhaust)
  obtain t3 w3 where t3: "NotifyDisconnected (mark_pending t2) w2 = (t3, w3)" by (metis prod.exhaust)
  have eq: "(if p = 0 \<or> \<not> IsReadable (memory_of w2) p sizeof_RakPacket then (p, t2, w2)
      else if \<not> payload_readable (memory_of w2) p then (p, mark_pending t2, w2)
      else if byte_at (memory_of w2) (packet_data (memory_of w2) p) = kDisconnectionNotification \<or>
        byte_at (memory_of w2) (packet_data (memory_of w2) p) = kConnectionLost then (p, t3, w3)
      else if frame_kind (inspect_packet (memory_of w2) p) = Unrelated then (p, mark_pending t2, w2)
      else receive_loop code self n (mark_pending t2)
         (snd (on_process (\<lambda>q. ((), call_Deallocate code (rn_deallocateFunction (mark_pending t2)) self p q))
           (deliver (inspect_packet (memory_of w2) p) p (mark_pending t2) w2)))) = (packet, t', w')"
    using assms
    by (simp only: receive_loop.simps p t2 t3 prod.case Let_def mark_pending_def [symmetric] inspect_packet_def [symmetric]
        deliver_def [symmetric] payload_readable_def de_Morgan_conj not_not)
  have kinds: "frame_kind (inspect_packet (memory_of w2) p) \<noteq> Unrelated \<longleftrightarrow>
      frame_kind (inspect_packet (memory_of w2) p) = CustomModel"
    by (cases "frame_kind (inspect_packet (memory_of w2) p)") simp_all
  consider "p = 0 \<or> \<not> IsReadable (memory_of w2) p sizeof_RakPacket"
    | "p \<noteq> 0" "IsReadable (memory_of w2) p sizeof_RakPacket" "\<not> payload_readable (memory_of w2) p"
    | "p \<noteq> 0" "IsReadable (memory_of w2) p sizeof_RakPacket" "payload_readable (memory_of w2) p"
      "byte_at (memory_of w2) (packet_data (memory_of w2) p) \<in> {kDisconnectionNotification, kConnectionLost}"
    | "p \<noteq> 0" "IsReadable (memory_of w2) p sizeof_RakPacket" "payload_readable (memory_of w2) p"
      "byte_at (memory_of w2) (packet_data (memory_of w2) p) \<notin> {kDisconnectionNotification, kConnectionLost}" by blast
  then show thesis
  proof cases
    case 1
    then show thesis using that(1) [OF p t2] eq by simp
  next
    case 2
    then show thesis using foreign [OF p t2] eq by simp
  next
    case 3
    then show thesis using closing [OF p t2] eq t3 by auto
  next
    case 4
    then show thesis
    proof (cases "frame_kind (inspect_packet (memory_of w2) p) = Unrelated")
      case True
      then show thesis using foreign [OF p t2] eq 4 by simp
    next
      case False
      then show thesis using ours [OF p t2] eq 4 kinds by simp
    qed
  qed
qed

lemma mark_pending_events: "events_ok t w \<Longrightarrow> events_ok (mark_pending t) w"
  by (auto simp: events_ok_def mark_pending_def)

lemma mark_pending_setup [simp]: "same_setup t (mark_pending t)"
  by (simp add: mark_pending_def)

lemma deliver_events: "events_ok t w \<Longrightarrow> events_ok t (deliver inspected packet t w)"
  by (simp add: deliver_def RakNet_Dispatch_events)

lemma receive_loop_events:
  "receive_loop code self n t w = (packet, t', w') \<Longrightarrow> events_ok t w \<Longrightarrow> events_ok t' w'"
proof (induction n arbitrary: t w)
  case (Suc n)
  have polled: "on_process (call_Receive code (rn_originalReceive t) self) w = (p, w1) \<Longrightarrow>
      NotifyConnectedIfPending t w1 = (t2, w2) \<Longrightarrow> events_ok t2 w2 \<and> events_ok (mark_pending t2) w2" for p w1 t2 w2
    using on_process_events [of _ w p w1 t] NotifyConnected_events [of t w1 t2 w2] mark_pending_events [of t2 w2]
      Suc.prems(2) by blast
  from Suc.prems(1) show ?case
  proof (cases rule: receive_turn)
    case (1 p w1 t2 w2)
    then show ?thesis using polled by blast
  next
    case (foreign p w1 t2 w2)
    then show ?thesis using polled by blast
  next
    case (closing p w1 t2 w2)
    then show ?thesis using polled NotifyDisconnected_events by blast
  next
    case (ours p w1 t2 w2)
    have "events_ok (mark_pending t2) (deliver (inspect_packet (memory_of w2) p) p (mark_pending t2) w2)"
      using polled [OF ours(1,2)] deliver_events by blast
    then show ?thesis using Suc.IH [OF ours(6)] on_process_events [OF prod.collapse [symmetric]] by blast
  qed
qed simp

lemma receive_loop_setup: "receive_loop code self n t w = (packet, t', w') \<Longrightarrow> same_setup t t'"
proof (induction n arbitrary: t w)
  case (Suc n)
  have polled: "NotifyConnectedIfPending t w1 = (t2, w2) \<Longrightarrow> same_setup t t2 \<and> same_setup t (mark_pending t2)" for w1 t2 w2
    using NotifyConnected_setup [of t w1 t2 w2] mark_pending_setup [of t2] same_setup_trans [of t t2 "mark_pending t2"] by blast
  from Suc.prems(1) show ?case
  proof (cases rule: receive_turn)
    case (1 p w1 t2 w2)
    then show ?thesis using polled by blast
  next
    case (foreign p w1 t2 w2)
    then show ?thesis using polled by blast
  next
    case (closing p w1 t2 w2)
    then show ?thesis using polled [OF closing(2)] NotifyDisconnected_setup [OF closing(5)] same_setup_trans by blast
  next
    case (ours p w1 t2 w2)
    then show ?thesis using polled [OF ours(2)] Suc.IH [OF ours(6)] same_setup_trans by blast
  qed
qed simp

lemma Receive_cases:
  assumes "Receive code self t w = (packet, t', w')"
  obtains (foreign) "self \<noteq> rn_rakClient t" "t' = t" "on_process (call_Receive code (rn_originalReceive t) self) w = (packet, w')"
  | (own) t1 w1 w2 where "self = rn_rakClient t" "ObserveConnection code self t w = (t1, w1)"
      "w2 = (case cb_pump (rn_callbacks t1) of Some f \<Rightarrow> if rn_connectedEventSent t1 then f w1 else w1 | None \<Rightarrow> w1)"
      "receive_loop code self kMaximumConsumedPacketsPerCall t1 w2 = (packet, t', w')"
proof (cases "self = rn_rakClient t")
  case True
  obtain t1 w1 where o: "ObserveConnection code self t w = (t1, w1)" by (metis prod.exhaust)
  show thesis
    by (rule own [OF True o refl]) (use assms True o in \<open>simp add: Receive_def Let_def\<close>)
next
  case False
  obtain p w1 where "on_process (call_Receive code (rn_originalReceive t) self) w = (p, w1)" by (metis prod.exhaust)
  then have "packet = p" "t' = t" "w' = w1"
      "on_process (call_Receive code (rn_originalReceive t) self) w = (p, w1)"
    using False assms by (simp_all add: Receive_def)
  then show thesis using foreign False by simp
qed

lemma ReceiveHook_setup:
  assumes "ReceiveHook code self t w = (packet, t', w')"
  shows "same_setup t t'"
proof (cases "\<not> rn_active t \<or> rn_originalReceive t = 0")
  case False
  then have "Receive code self t w = (packet, t', w')" using assms by (simp add: ReceiveHook_def)
  then show ?thesis
  proof (cases rule: Receive_cases)
    case (own t1 w1 w2)
    then show ?thesis using ObserveConnection_setup [OF own(2)] receive_loop_setup [OF own(4)] same_setup_trans by blast
  qed simp
qed (use assms in \<open>simp add: ReceiveHook_def\<close>)

lemma ReceiveHook_events:
  assumes "ReceiveHook code self t w = (packet, t', w')" and ok: "events_ok t w"
  shows "events_ok t' w'"
proof (cases "\<not> rn_active t \<or> rn_originalReceive t = 0")
  case False
  then have "Receive code self t w = (packet, t', w')" using assms(1) by (simp add: ReceiveHook_def)
  then show ?thesis
  proof (cases rule: Receive_cases)
    case foreign
    then show ?thesis using on_process_events [OF foreign(3) ok] by simp
  next
    case (own t1 w1 w2)
    have "events_ok t1 w1" using ObserveConnection_events own(2) ok by blast
    then have "events_ok t1 w2"
      unfolding own(3) by (auto simp: events_ok_def recorded_def recording_def split: option.splits)
    then show ?thesis using receive_loop_events own(4) by blast
  qed
qed (use assms in \<open>auto simp: ReceiveHook_def\<close>)

lemma hook_calls_events: "hook_calls code selfs t w = (packets, t', w') \<Longrightarrow> events_ok t w \<Longrightarrow> events_ok t' w'"
proof (induction selfs arbitrary: t w packets)
  case (Cons self selfs)
  obtain p t1 w1 where one: "ReceiveHook code self t w = (p, t1, w1)" by (metis prod.exhaust)
  then obtain ps where "hook_calls code selfs t1 w1 = (ps, t', w')" using Cons.prems(1) by (auto split: prod.splits)
  then show ?case using Cons.IH ReceiveHook_events [OF one Cons.prems(2)] by blast
qed simp

text \<open>
  Claim C17. However the RakNet client and the callbacks behave, the connection events the
  transport reports alternate between connected and disconnected, a connection first. A
  session is open for the runtime only while RakNet was last seen connected.
\<close>

theorem connection_events_alternate:
  assumes "cb_connection cb \<noteq> None" and "rn_callbacks t = recording cb"
    and "\<not> rn_connectedEventSent t" and "\<not> rn_connected t"
    and "hook_calls code selfs t (h, c, []) = (packets, t', w')"
  shows "alternates False (connection_events (calls_of w')) \<and>
    (session_open (connection_events (calls_of w')) \<longrightarrow> rn_connected t' \<and> \<not> rn_awaitingDisconnectedState t')"
proof -
  have "events_ok t (h, c, [])"
    using assms by (auto simp: events_ok_def recorded_def calls_of_def session_open_def)
  then show ?thesis using hook_calls_events [OF assms(5)] by (auto simp: events_ok_def)
qed

section \<open>A sample process\<close>

text \<open>
  A RakNet client with a list of arrived, pending and deallocated packets, and a memory with
  two of them: one with the protocol's frame and one of the game.
\<close>

type_synonym SampleRak = "u32 list \<times> u32 list \<times> u32 list"

definition packet_byte :: "u32 \<Rightarrow> u8" where
  "packet_byte a =
    (case map_of [(0x401008, 6), (0x401011, 0x11), (0x401012, 0x40),
       (0x401028, 3), (0x401030, 0x20), (0x401031, 0x11), (0x401032, 0x40),
       (0x401100, 0x5E), (0x401101, 0x43), (0x401102, 0x4D), (0x401103, 0x4F), (0x401104, 0x44), (0x401105, 0x07),
       (0x401120, 0x29), (0x401121, 0x01), (0x401122, 0x02)] a of None \<Rightarrow> 0 | Some b \<Rightarrow> b)"

definition packet_space :: AddressSpace where
  "packet_space = \<lparr>
     VirtualQuery = (\<lambda>a. if 0x400000 \<le> a \<and> a < 0x410000
       then Some \<lparr>BaseAddress = 0x400000, AllocationBase = 0x400000, RegionSize = 0x10000,
                  Committed = True, Protect = PAGE_READWRITE\<rparr> else None),
     byte_at = packet_byte, GetModuleHandle = (\<lambda>name. 0)\<rparr>"

definition sample_code :: "SampleRak RakCode" where
  "sample_code = \<lparr>
     call_GetRakClient = (\<lambda>fn netGame p. (0x402000, p)),
     call_SendRaw = (\<lambda>fn self raw p. (True, p)),
     call_Receive = (\<lambda>fn self p. case rak p of
         (arrived, [], freed) \<Rightarrow> (0, p)
       | (arrived, x # xs, freed) \<Rightarrow> (x, p\<lparr>rak := (arrived, xs, freed)\<rparr>)),
     call_Deallocate = (\<lambda>fn self x p. case rak p of (arrived, pending, freed) \<Rightarrow> p\<lparr>rak := (arrived, pending, freed @ [x])\<rparr>),
     call_IsConnected = (\<lambda>fn self p. (True, p)),
     VirtualProtect = (\<lambda>slot protection p. (Some 0x04, p)),
     Sleep = (\<lambda>p. p),
     hook_address = 0x10001000\<rparr>"

definition sample_host :: "SampleRak Host" where
  "sample_host = \<lparr>process = \<lparr>space = packet_space, rak = ([0x401000, 0x401020], [0x401000, 0x401020], [])\<rparr>,
     raw_sends = [], host_log = new_Logger \<lparr>LocalTime = (\<lambda>_. \<lparr>wYear = 2024, wMonth = 1, wDay = 2, wHour = 3, wMinute = 4, wSecond = 5\<rparr>),
       CreateFile = (\<lambda>_. True), CreateDirectories = (\<lambda>_. True), WriteFile = (\<lambda>_ line. length line)\<rparr>\<rparr>"

definition idle_callbacks :: "'w TransportCallbacks" where
  "idle_callbacks = \<lparr>cb_incoming = Some (\<lambda>_ w. w), cb_connection = Some (\<lambda>_ w. w), cb_pump = Some (\<lambda>w. w)\<rparr>"

definition sample_transport :: "(SampleRak Host \<times> unit \<times> CallbackCall list) SampRakNetTransport" where
  "sample_transport = (new_RakNetTransport SampVersion_R3_1)\<lparr>rn_callbacks := recording idle_callbacks,
     rn_rakClient := 0x402000, rn_vtable := 0x403000, rn_receiveSlot := 0x403020, rn_sendFunction := 0x404000,
     rn_originalReceive := 0x404100, rn_deallocateFunction := 0x404200, rn_isConnectedFunction := 0x404300,
     rn_initialized := True, rn_active := True\<rparr>"

theorem connection_events_alternate_witness:
  "\<exists>packets t' w'. hook_calls sample_code [0x402000, 0x402000] sample_transport (sample_host, (), []) = (packets, t', w') \<and>
    alternates False (connection_events (calls_of w'))"
proof -
  obtain packets t' w' where run:
    "hook_calls sample_code [0x402000, 0x402000] sample_transport (sample_host, (), []) = (packets, t', w')"
    by (metis prod.exhaust)
  have "cb_connection (idle_callbacks :: (SampleRak Host \<times> unit) TransportCallbacks) \<noteq> None"
    "rn_callbacks sample_transport = recording idle_callbacks"
    "\<not> rn_connectedEventSent sample_transport" "\<not> rn_connected sample_transport"
    by (simp_all add: idle_callbacks_def sample_transport_def new_RakNetTransport_def)
  from connection_events_alternate [OF this run] show ?thesis using run by blast
qed

end
