(* ===== verification/RakNetHook.thy ===== *)
theory RakNetHook
  imports RakNetProperties
begin

text \<open>
  The method table entry the transport replaces: installing the hook changes that one entry
  and only when it holds what was found there, taking it back restores the memory, and a
  foreign hook is never overwritten.
\<close>

section \<open>Words in memory\<close>

unbundle bit_operations_syntax

lemma byte_write_word: "byte_at (write_word a v memory) x =
    (if x - a < 4 then ucast (drop_bit (8 * unat (x - a)) v) else byte_at memory x)"
  by (simp add: write_word_def)

lemma bytes4: "bytes_at memory a 4 = [byte_at memory a, byte_at memory (a + 1), byte_at memory (a + 2), byte_at memory (a + 3)]"
  by (simp add: bytes_at_def upt_rec)

lemma read_word_bytes: "read_word memory a = push_bit 24 (ucast (byte_at memory (a + 3))) OR
    push_bit 16 (ucast (byte_at memory (a + 2))) OR push_bit 8 (ucast (byte_at memory (a + 1))) OR ucast (byte_at memory a)"
  by (simp add: read_word_def le32_def bytes4)

lemma join_bytes: "push_bit 24 (ucast (ucast (drop_bit 24 v) :: u8)) OR push_bit 16 (ucast (ucast (drop_bit 16 v) :: u8)) OR
    push_bit 8 (ucast (ucast (drop_bit 8 v) :: u8)) OR ucast (ucast v :: u8) = (v :: u32)" (is "?joined = v")
proof (rule bit_word_eqI)
  fix n
  assume "n < LENGTH(32)"
  then have "24 \<le> n \<and> n - 24 < 8 \<or> 16 \<le> n \<and> n - 16 < 8 \<or> 8 \<le> n \<and> n - 8 < 8 \<or> n < 8" by auto
  then show "bit ?joined n = bit v n"
    using \<open>n < LENGTH(32)\<close> by (elim disjE conjE) (auto simp: bit_simps)
qed

lemma read_write_word [simp]: "read_word (write_word a v memory) a = v"
  by (simp add: read_word_bytes byte_write_word join_bytes)

lemma split_word:
  "ucast (read_word memory a) = byte_at memory a"
  "ucast (drop_bit 8 (read_word memory a)) = byte_at memory (a + 1)"
  "ucast (drop_bit 16 (read_word memory a)) = byte_at memory (a + 2)"
  "ucast (drop_bit 24 (read_word memory a)) = byte_at memory (a + 3)"
proof -
  show "ucast (read_word memory a) = byte_at memory a"
    unfolding read_word_bytes by (rule bit_word_eqI) (auto simp: bit_simps dest: bit_imp_le_length)
  show "ucast (drop_bit 8 (read_word memory a)) = byte_at memory (a + 1)"
    unfolding read_word_bytes by (rule bit_word_eqI) (auto simp: bit_simps dest: bit_imp_le_length)
  show "ucast (drop_bit 16 (read_word memory a)) = byte_at memory (a + 2)"
    unfolding read_word_bytes by (rule bit_word_eqI) (auto simp: bit_simps dest: bit_imp_le_length)
  show "ucast (drop_bit 24 (read_word memory a)) = byte_at memory (a + 3)"
    unfolding read_word_bytes by (rule bit_word_eqI) (auto simp: bit_simps dest: bit_imp_le_length)
qed

lemma less_4: "(d :: u32) < 4 \<Longrightarrow> d = 0 \<or> d = 1 \<or> d = 2 \<or> d = 3"
proof -
  assume "d < 4"
  then have "unat d < 4" by (simp add: word_less_nat_alt)
  then have "unat d = 0 \<or> unat d = 1 \<or> unat d = 2 \<or> unat d = 3" by linarith
  moreover have "d = of_nat (unat d)" by simp
  ultimately show ?thesis by fastforce
qed

lemma write_read [simp]: "byte_at (write_word a (read_word memory a) memory) = byte_at memory"
proof
  fix x
  show "byte_at (write_word a (read_word memory a) memory) x = byte_at memory x"
  proof (cases "x - a < 4")
    case True
    then consider "x = a" | "x = a + 1" | "x = a + 2" | "x = a + 3"
      using less_4 [of "x - a"] by (auto simp: algebra_simps)
    then show ?thesis by cases (simp_all add: byte_write_word split_word)
  next
    case False
    then show ?thesis by (simp add: byte_write_word)
  qed
qed

lemma write_twice [simp]: "byte_at (write_word a v (write_word a u memory)) = byte_at (write_word a v memory)"
  by (rule ext) (simp add: byte_write_word)

section \<open>The steps on the table\<close>

text \<open>
  The documented behaviour of \<^verbatim>\<open>VirtualProtect\<close> the code relies on: it changes the
  protection of a page and not its content, and nothing else writes to the table meanwhile.
\<close>

definition protect_keeps_bytes :: "'r RakCode \<Rightarrow> bool" where
  "protect_keeps_bytes code \<longleftrightarrow>
     (\<forall>slot protection p. byte_at (space (snd (VirtualProtect code slot protection p))) = byte_at (space p))"

lemma protect_bytes:
  "protect_keeps_bytes code \<Longrightarrow> VirtualProtect code slot protection p = (r, p') \<Longrightarrow> byte_at (space p') = byte_at (space p)"
  unfolding protect_keeps_bytes_def by (metis snd_conv)

lemma read_word_same: "byte_at m = byte_at m' \<Longrightarrow> read_word m a = read_word m' a"
  by (simp add: read_word_bytes)

lemma write_word_same: "byte_at m = byte_at m' \<Longrightarrow> byte_at (write_word a v m) = byte_at (write_word a v m')"
  by (rule ext) (simp add: byte_write_word)

lemma exchange_cases:
  assumes "InterlockedCompareExchange slot new expected p = (previous, p')"
  shows "previous = read_word (space p) slot"
    and "byte_at (space p') = (if previous = expected then byte_at (write_word slot new (space p)) else byte_at (space p))"
  using assms by (auto simp: InterlockedCompareExchange_def Let_def)

definition receive_entry :: "'w SampRakNetTransport \<Rightarrow> u32" where
  "receive_entry t = rn_vtable t + sizeof_pointer * kReceiveIndex"

lemma InstallReceiveHook_cases:
  assumes keeps: "protect_keeps_bytes code" and run: "InstallReceiveHook code t p = (ok, t', p')"
  shows "if ok
    then t' = t\<lparr>rn_active := True, rn_receiveSlot := receive_entry t\<rparr> \<and>
      rn_originalReceive t = read_word (space p) (receive_entry t) \<and> rn_originalReceive t \<noteq> 0 \<and>
      byte_at (space p') = byte_at (write_word (receive_entry t) (hook_address code) (space p))
    else (t' = t \<or> t' = t\<lparr>rn_active := False\<rparr>) \<and> byte_at (space p') = byte_at (space p)"
proof (cases "rn_vtable t = 0 \<or> rn_originalReceive t = 0")
  case True
  then show ?thesis using run by (auto simp: InstallReceiveHook_def)
next
  case False
  let ?slot = "receive_entry t"
  obtain r p1 where v1: "VirtualProtect code ?slot PAGE_READWRITE p = (r, p1)" by (metis prod.exhaust)
  have b1: "byte_at (space p1) = byte_at (space p)" using protect_bytes [OF keeps v1] .
  show ?thesis
  proof (cases r)
    case None
    then have "ok = False" "t' = t" "p' = p1"
      using run False v1 by (auto simp: InstallReceiveHook_def receive_entry_def Let_def)
    then show ?thesis using b1 by simp
  next
    case (Some old)
    obtain previous p2 where x: "InterlockedCompareExchange ?slot (hook_address code) (rn_originalReceive t) p1 = (previous, p2)"
      by (metis prod.exhaust)
    obtain restored p3 where v2: "VirtualProtect code ?slot old p2 = (restored, p3)" by (metis prod.exhaust)
    have b3: "byte_at (space p3) = byte_at (space p2)" using protect_bytes [OF keeps v2] .
    have prev: "previous = read_word (space p) ?slot" using exchange_cases(1) [OF x] read_word_same [OF b1] by simp
    have b2: "byte_at (space p2) = (if previous = rn_originalReceive t
        then byte_at (write_word ?slot (hook_address code) (space p)) else byte_at (space p))"
      using exchange_cases(2) [OF x] write_word_same [OF b1] b1 by simp
    obtain swapped p4 where x2: "InterlockedCompareExchange ?slot (rn_originalReceive t) (hook_address code) p3 = (swapped, p4)"
      by (metis prod.exhaust)
    obtain r5 p5 where v3: "VirtualProtect code ?slot old p4 = (r5, p5)" by (metis prod.exhaust)
    have run': "(if previous \<noteq> rn_originalReceive t then (False, t\<lparr>rn_active := False\<rparr>, p3)
        else if restored = None then (False, t\<lparr>rn_active := False\<rparr>, p5)
        else (True, t\<lparr>rn_active := True, rn_receiveSlot := ?slot\<rparr>, p3)) = (ok, t', p')"
      using run False v1 Some x v2 x2 v3
      by (simp add: InstallReceiveHook_def receive_entry_def Let_def split: if_splits)
    consider "previous \<noteq> rn_originalReceive t" | "previous = rn_originalReceive t" "restored = None"
      | "previous = rn_originalReceive t" "restored \<noteq> None" by blast
    then show ?thesis
    proof cases
      case 1
      then show ?thesis using run' b2 b3 by auto
    next
      case 2
      then have m3: "byte_at (space p3) = byte_at (write_word ?slot (hook_address code) (space p))" using b2 b3 by simp
      have swapped: "swapped = hook_address code"
        using exchange_cases(1) [OF x2] read_word_same [OF m3, of ?slot] by simp
      have "byte_at (space p4) = byte_at (write_word ?slot (rn_originalReceive t) (write_word ?slot (hook_address code) (space p)))"
        using exchange_cases(2) [OF x2] swapped write_word_same [OF m3] by simp
      also have "\<dots> = byte_at (space p)" using 2(1) prev write_read [of ?slot "space p"] by simp
      finally have "byte_at (space p5) = byte_at (space p)" using protect_bytes [OF keeps v3] by simp
      then show ?thesis using run' 2 by auto
    next
      case 3
      then show ?thesis using run' b2 b3 prev False by auto
    qed
  qed
qed

lemma RestoreReceiveHook_cases:
  assumes keeps: "protect_keeps_bytes code" and run: "RestoreReceiveHook code t p = (ok, t', p')"
    and hooked: "rn_receiveSlot t \<noteq> 0" "rn_originalReceive t \<noteq> 0"
  shows "if read_word (space p) (rn_receiveSlot t) \<in> {hook_address code, rn_originalReceive t} \<and>
      fst (VirtualProtect code (rn_receiveSlot t) PAGE_READWRITE p) \<noteq> None
    then ok \<and> t' = t\<lparr>rn_receiveSlot := 0\<rparr> \<and>
      byte_at (space p') = byte_at (write_word (rn_receiveSlot t) (rn_originalReceive t) (space p))
    else \<not> ok \<and> t' = t \<and> byte_at (space p') = byte_at (space p)"
proof -
  let ?slot = "rn_receiveSlot t"
  obtain r p1 where v1: "VirtualProtect code ?slot PAGE_READWRITE p = (r, p1)" by (metis prod.exhaust)
  have b1: "byte_at (space p1) = byte_at (space p)" using protect_bytes [OF keeps v1] .
  show ?thesis
  proof (cases r)
    case None
    then have "(ok, t', p') = (False, t, p1)" using run hooked v1 by (simp add: RestoreReceiveHook_def)
    then show ?thesis using b1 v1 None by simp
  next
    case (Some old)
    obtain previous p2 where x: "InterlockedCompareExchange ?slot (rn_originalReceive t) (hook_address code) p1 = (previous, p2)"
      by (metis prod.exhaust)
    obtain r3 p3 where v2: "VirtualProtect code ?slot old p2 = (r3, p3)" by (metis prod.exhaust)
    have b3: "byte_at (space p3) = byte_at (space p2)" using protect_bytes [OF keeps v2] .
    have prev: "previous = read_word (space p) ?slot" using exchange_cases(1) [OF x] read_word_same [OF b1] by simp
    have b2: "byte_at (space p2) = (if previous = hook_address code
        then byte_at (write_word ?slot (rn_originalReceive t) (space p)) else byte_at (space p))"
      using exchange_cases(2) [OF x] write_word_same [OF b1] b1 by simp
    have run': "(if previous \<noteq> hook_address code \<and> previous \<noteq> rn_originalReceive t then (False, t, p3)
        else (True, t\<lparr>rn_receiveSlot := 0\<rparr>, p3)) = (ok, t', p')"
      using run by (simp add: RestoreReceiveHook_def Let_def hooked v1 Some x v2 split: if_splits)
    have "previous = rn_originalReceive t \<Longrightarrow> byte_at (write_word ?slot (rn_originalReceive t) (space p)) = byte_at (space p)"
      using prev write_read [of ?slot "space p"] by simp
    then show ?thesis using run' b2 b3 prev v1 Some by (auto split: if_splits)
  qed
qed

section \<open>Initialising and shutting down\<close>

definition found_client :: "'w SampRakNetTransport \<Rightarrow> 'w SampRakNetTransport \<Rightarrow> bool" where
  "found_client t t' \<longleftrightarrow> Contains (rn_module t) (rn_vtable t') 76 \<and> Contains (rn_module t) (rn_originalReceive t') 1 \<and>
     rn_rakClient t' \<noteq> 0 \<and>
     (\<exists>client table send receive free connected. t' = t\<lparr>rn_rakClient := client, rn_vtable := table, rn_sendFunction := send,
        rn_originalReceive := receive, rn_deallocateFunction := free, rn_isConnectedFunction := connected\<rparr>)"

lemma ResolveRakClient_cases:
  assumes run: "ResolveRakClient code compatibility t p = (ok, t', p')"
  shows "if ok then found_client t t' else t' = t"
proof (cases ok)
  case False
  have split: "fst (if b then (False, t, p1) else x) = False \<Longrightarrow> (fst x = False \<Longrightarrow> fst (snd x) = t) \<Longrightarrow>
      fst (snd (if b then (False, t, p1) else x)) = t" for b p1 and x :: "bool \<times> 'a SampRakNetTransport \<times> 'b Process"
    by (cases b) auto
  obtain slot where slot: "ResolveRva (rn_module t) (netGamePointerRva (addresses compatibility)) sizeof_pointer = slot" by simp
  obtain fn where fn: "ResolveRva (rn_module t) (getRakClientRva (addresses compatibility)) 1 = fn" by simp
  have "fst (ResolveRakClient code compatibility t p) = False" using run False by simp
  then have "fst (snd (ResolveRakClient code compatibility t p)) = t"
    unfolding ResolveRakClient_def slot fn Let_def
    by (cases slot; cases fn) (auto simp: split_beta simp del: de_Morgan_conj de_Morgan_disj intro: split split: if_split_asm)
  then show ?thesis using run False by simp
next
  case True
  obtain slot fn where r: "ResolveRva (rn_module t) (netGamePointerRva (addresses compatibility)) sizeof_pointer = Some slot"
    "ResolveRva (rn_module t) (getRakClientRva (addresses compatibility)) 1 = Some fn"
    using run True by (auto simp: ResolveRakClient_def split: option.splits)
  obtain client p1 where c: "call_GetRakClient code fn (read_word (space p) slot) p = (client, p1)" by (metis prod.exhaust)
  let ?table = "read_word (space p1) client"
  have run': "ResolveRakClient code compatibility t p = (True, t', p')" using run True by simp
  have g: "IsReadable (space p1) client sizeof_pointer" "Contains (rn_module t) ?table 76"
    "IsExecutable (space p1) (rn_module t) (VtableFunction (space p1) ?table kReceiveIndex)"
    using run' unfolding ResolveRakClient_def r
    by (simp_all add: Let_def c kRakClientVtableEntriesNeeded_def kIsConnectedIndex_def sizeof_pointer_def split: if_split_asm)
  have t': "t' = t\<lparr>rn_rakClient := client, rn_vtable := ?table, rn_sendFunction := VtableFunction (space p1) ?table kSendRawIndex,
      rn_originalReceive := VtableFunction (space p1) ?table kReceiveIndex,
      rn_deallocateFunction := VtableFunction (space p1) ?table kDeallocatePacketIndex,
      rn_isConnectedFunction := VtableFunction (space p1) ?table kIsConnectedIndex\<rparr>"
    using run' unfolding ResolveRakClient_def r by (auto simp: Let_def c split: if_split_asm)
  have "client \<noteq> 0" using g(1) by (auto simp: IsReadable_def)
  moreover have "Contains (rn_module t) (rn_originalReceive t') 1"
    using g(3) t' by (simp add: IsExecutable_def split: if_split_asm)
  moreover have "Contains (rn_module t) (rn_vtable t') 76" "rn_rakClient t' = client" using g(2) t' by simp_all
  moreover have "\<exists>client table send receive free connected. t' = t\<lparr>rn_rakClient := client, rn_vtable := table, rn_sendFunction := send,
      rn_originalReceive := receive, rn_deallocateFunction := free, rn_isConnectedFunction := connected\<rparr>"
    by (intro exI, rule t')
  ultimately show ?thesis unfolding found_client_def using True by simp
qed

lemma resolve_loop_cases:
  "resolve_loop code compatibility n t p = (t', p') \<Longrightarrow> t' = t \<or> found_client t t'"
proof (induction n arbitrary: p)
  case (Suc n)
  obtain ok t1 p1 where r: "ResolveRakClient code compatibility t p = (ok, t1, p1)" by (metis prod.exhaust)
  note c = ResolveRakClient_cases [OF r]
  show ?case
  proof (cases ok)
    case True
    then show ?thesis using Suc.prems r c by simp
  next
    case False
    then show ?thesis using Suc.prems Suc.IH r c by simp
  qed
qed simp

lemma RakNet_Shutdown_unhooked:
  assumes "rn_receiveSlot t = 0" and "RakNet_Shutdown code t h = (t', h')"
  shows "t' = (new_RakNetTransport (rn_version t))\<lparr>rn_module := rn_module t\<rparr>"
  using assms by (auto simp: RakNet_Shutdown_def RestoreReceiveHook_def new_RakNetTransport_def)

lemma found_client_fields:
  assumes "found_client t t'"
  shows "rn_version t' = rn_version t" "rn_module t' = rn_module t" "rn_callbacks t' = rn_callbacks t"
    "rn_receiveSlot t' = rn_receiveSlot t" "rn_active t' = rn_active t" "rn_rakClient t' \<noteq> 0"
    "Contains (rn_module t) (rn_vtable t') 76" "Contains (rn_module t) (rn_originalReceive t') 1"
  using assms by (auto simp: found_client_def)

lemma RakNet_Initialize_cases:
  obtains "RakNet_Initialize code callbacks t h = (False, t, h)"
  | m compatibility where "cb_incoming callbacks \<noteq> None" "cb_connection callbacks \<noteq> None"
      "RakNet_Initialize code callbacks t h = hook_client code compatibility (t\<lparr>rn_module := m, rn_callbacks := callbacks\<rparr>) h"
proof (cases "rn_initialized t \<or> cb_incoming callbacks = None \<or> cb_connection callbacks = None")
  case True
  then show thesis by (intro that(1)) (simp add: RakNet_Initialize_def)
next
  case False
  show thesis
  proof (cases "FindLoadedModule (space (process h)) ''samp.dll''")
    case (Inl e)
    then show thesis using False by (intro that(1)) (simp add: RakNet_Initialize_def)
  next
    case (Inr m)
    let ?r = "RakNet_Initialize code callbacks t h"
    have "?r = (False, t, h) \<or>
        (\<exists>compatibility. ?r = hook_client code compatibility (t\<lparr>rn_module := m, rn_callbacks := callbacks\<rparr>) h)"
      using False Inr by (simp add: RakNet_Initialize_def split: option.split) blast
    then show thesis using that False by blast
  qed
qed

section \<open>Properties\<close>

text \<open>The attempt to hook, on a fresh transport.\<close>

lemma hook_client_outcome:
  fixes t :: "'w SampRakNetTransport"
  assumes "protect_keeps_bytes code"
    and run: "hook_client code compatibility ((new_RakNetTransport version)\<lparr>rn_module := m, rn_callbacks := callbacks\<rparr>) h = (ok, t, h')"
  shows "if ok
    then rn_active t \<and> rn_initialized t \<and> rn_callbacks t = callbacks \<and> rn_receiveSlot t = receive_entry t \<and>
      Contains (rn_module t) (rn_vtable t) 76 \<and> Contains (rn_module t) (rn_originalReceive t) 1 \<and>
      rn_originalReceive t \<noteq> 0 \<and> read_word (space (process h')) (rn_receiveSlot t) = hook_address code
    else t\<lparr>rn_module := no_module\<rparr> = new_RakNetTransport version"
proof -
  let ?t = "new_RakNetTransport version :: 'w SampRakNetTransport"
  let ?t0 = "?t\<lparr>rn_module := m, rn_callbacks := callbacks\<rparr>"
  obtain t1 p1 where l: "resolve_loop code compatibility kResolveAttempts ?t0 (process h) = (t1, p1)" by (metis prod.exhaust)
  have z: "rn_rakClient ?t0 = 0" "rn_receiveSlot ?t0 = 0" "rn_version ?t0 = version" "\<not> rn_active ?t0"
    by (simp_all add: new_RakNetTransport_def)
  have reset: ?thesis if "rn_receiveSlot u = 0" "rn_version u = version" "RakNet_Shutdown code u g = (t, h')" "\<not> ok" for u g
    using RakNet_Shutdown_unhooked [OF that(1,3)] that(2,4) by (simp add: new_RakNetTransport_def)
  show ?thesis
  proof (cases "rn_rakClient t1 = 0")
    case True
    then have t1: "t1 = ?t0" using resolve_loop_cases [OF l] found_client_fields(6) by blast
    obtain u g where s: "RakNet_Shutdown code (t1\<lparr>rn_initialized := False\<rparr>) (h\<lparr>process := p1\<rparr>) = (u, g)" by (metis prod.exhaust)
    have "(ok, t, h') = (False, u, g)" using run by (simp add: hook_client_def l True s Let_def)
    then show ?thesis using s t1 z by (intro reset [of "t1\<lparr>rn_initialized := False\<rparr>"]) simp_all
  next
    case False
    then have f: "found_client ?t0 t1" using resolve_loop_cases [OF l] z(1) by auto
    note ff = found_client_fields [OF f]
    let ?t2 = "t1\<lparr>rn_initialized := True\<rparr>"
    obtain ok3 t3 p3 where i: "InstallReceiveHook code ?t2 p1 = (ok3, t3, p3)" by (metis prod.exhaust)
    note c = InstallReceiveHook_cases [OF assms(1) i]
    show ?thesis
    proof (cases ok3)
      case True
      then have "ok" "t = t3" "process h' = p3" using run by (auto simp: hook_client_def l False i Let_def)
      moreover have "byte_at (space p3) = byte_at (write_word (receive_entry ?t2) (hook_address code) (space p1))"
        using c True by simp
      then have "read_word (space p3) (receive_entry ?t2) = hook_address code"
        using read_word_same [of "space p3" "write_word (receive_entry ?t2) (hook_address code) (space p1)"] by simp
      ultimately show ?thesis using c True ff by (auto simp: receive_entry_def)
    next
      case False
      obtain u g where s: "RakNet_Shutdown code t3 (h\<lparr>process := p3\<rparr>) = (u, g)" by (metis prod.exhaust)
      have "(ok, t, h') = (False, u, g)" using run \<open>rn_rakClient t1 \<noteq> 0\<close> False by (simp add: hook_client_def l i s Let_def)
      then have "RakNet_Shutdown code t3 (h\<lparr>process := p3\<rparr>) = (t, h')" "\<not> ok" using s by simp_all
      moreover have "rn_receiveSlot t3 = 0" "rn_version t3 = version" using c False ff z by auto
      ultimately show ?thesis using reset by blast
    qed
  qed
qed


text \<open>
  Claim C16. Shutting a hooked transport down never destroys somebody else's hook: when the
  entry still holds the hook or the original function and the page can be made writable,
  the original is back in the entry and the transport is as new; otherwise memory and
  transport are unchanged, so that a foreign hook that calls this one keeps working.
\<close>

theorem hook_removed:
  assumes "protect_keeps_bytes code" and "rn_receiveSlot t \<noteq> 0" and "rn_originalReceive t \<noteq> 0"
    and "RakNet_Shutdown code t h = (t', h')"
  shows "if read_word (space (process h)) (rn_receiveSlot t) \<in> {hook_address code, rn_originalReceive t} \<and>
      fst (VirtualProtect code (rn_receiveSlot t) PAGE_READWRITE (process h)) \<noteq> None
    then t' = (new_RakNetTransport (rn_version t))\<lparr>rn_module := rn_module t\<rparr> \<and>
      byte_at (space (process h')) = byte_at (write_word (rn_receiveSlot t) (rn_originalReceive t) (space (process h)))
    else t' = t \<and> byte_at (space (process h')) = byte_at (space (process h))"
proof -
  obtain ok u p where r: "RestoreReceiveHook code t (process h) = (ok, u, p)" by (metis prod.exhaust)
  note c = RestoreReceiveHook_cases [OF assms(1) r assms(2,3)]
  show ?thesis
  proof (cases ok)
    case True
    then have "t' = (new_RakNetTransport (rn_version t))\<lparr>rn_module := rn_module t\<rparr>" "process h' = p"
      using assms(4) r c by (auto simp: RakNet_Shutdown_def new_RakNetTransport_def split: if_split_asm)
    then show ?thesis using c True by (auto split: if_split_asm)
  next
    case False
    then have "t' = u" "process h' = p" using assms(4) r by (auto simp: RakNet_Shutdown_def)
    then show ?thesis using c False by (auto split: if_split_asm)
  qed
qed

text \<open>
  Claim C19. What the transport hands to RakNet is a frame: a call reaches RakNet only for an
  encoded packet of an initialised transport, with one id byte before the packet, and the
  receiving side's inspection gives back exactly that packet; every other call is refused
  and changes nothing.
\<close>

theorem sends_are_frames:
  "case RakNet_Send code t bytes h of (ok, h') \<Rightarrow>
    (ok = False \<and> h' = h) \<or>
    (\<exists>frame packet. raw_sends h' = raw_sends h @ [(frame, ok)] \<and> rn_initialized t \<and>
      Inspect (View frame) = \<lparr>frame_kind = CustomModel, protocolBytes = bytes\<rparr> \<and> DecodePacket bytes = Inr packet \<and>
      length frame \<le> kMaximumFrameSize)"
proof -
  obtain ok h' where run: "RakNet_Send code t bytes h = (ok, h')" by (metis prod.exhaust)
  then show ?thesis
  proof (cases rule: RakNet_Send_cases)
    case nothing
    then show ?thesis using run by simp
  next
    case (called packet bs)
    then have "bs = packet_bytes (packet_message packet)" using DecodePacket_dest by blast
    then have "Inspect (View (kRakNetPacketId # bs)) = \<lparr>frame_kind = CustomModel, protocolBytes = bytes\<rparr>"
      using Inspect_packet_bytes called(1) by simp
    then have "\<exists>frame packet. raw_sends h' = raw_sends h @ [(frame, ok)] \<and> rn_initialized t \<and>
      Inspect (View frame) = \<lparr>frame_kind = CustomModel, protocolBytes = bytes\<rparr> \<and> DecodePacket bytes = Inr packet \<and>
      length frame \<le> kMaximumFrameSize"
      using called
      by (intro exI [of _ "kRakNetPacketId # bs"] exI [of _ packet]) (simp add: kMaximumFrameSize_def kPrefixSize_def)
    then show ?thesis using run by simp
  qed
qed

section \<open>Witnesses\<close>

text \<open>
  A process with SA-MP 0.3.7 R3-1 mapped at \<open>0x400000\<close>: the header, the pointer to the
  game's network object, the RakNet client at \<open>0x402000\<close> and its method table.
\<close>

definition game_byte :: "nat \<Rightarrow> u8" where
  "game_byte i =
    (case map_of [(0, 0x4D), (1, 0x5A), (60, 0x40), (64, 0x50), (65, 0x45), (84, 0xE0), (88, 0x0B), (89, 0x01),
       (104, 0xD0), (105, 0xC4), (106, 0x0C), (146, 0x30),
       (0x26E8DE, 0x50), (0x2001, 0x30), (0x2002, 0x40),
       (0x301D, 0x40), (0x301E, 0x40), (0x3021, 0x41), (0x3022, 0x40),
       (0x3025, 0x42), (0x3026, 0x40), (0x3049, 0x43), (0x304A, 0x40)] i of None \<Rightarrow> 0 | Some b \<Rightarrow> b)"

definition game_space :: AddressSpace where
  "game_space = \<lparr>
     VirtualQuery = (\<lambda>a. if 0x400000 \<le> a \<and> a < 0x700000
       then Some \<lparr>BaseAddress = 0x400000, AllocationBase = 0x400000, RegionSize = 0x300000,
                  Committed = True, Protect = PAGE_EXECUTE_READWRITE\<rparr> else None),
     byte_at = (\<lambda>a. game_byte (unat (a - 0x400000))),
     GetModuleHandle = (\<lambda>name. if name = ''samp.dll'' then 0x400000 else 0)\<rparr>"

definition game_module :: ModuleInfo where
  "game_module = \<lparr>base = 0x400000, imageSize = 0x300000, module_entryPointRva = 0x0CC4D0, isPe32 = True\<rparr>"

lemma game_module: "FindLoadedModule game_space ''samp.dll'' = Inr game_module"
proof -
  let ?bs = "bytes_at game_space 0x400000 0x300000"
  have byte: "?bs ! i = game_byte i" if "i < 0x300000" for i
  proof -
    have "unat (of_nat i :: u32) = i" using that by (simp add: unat_of_nat)
    then show ?thesis using that by (simp add: game_space_def)
  qed
  have at: "le32 ?bs 60 = 64" "le16 ?bs 84 = 224" "le16 ?bs 0 = 0x5A4D" "le32 ?bs 64 = 0x4550"
    "le16 ?bs 88 = 0x10B" "le32 ?bs 104 = 0xCC4D0" "le32 ?bs 144 = 0x300000"
    by (simp_all add: le16_def le32_def byte game_byte_def del: nth_bytes_at)
  have "ParsePeImage (View ?bs) = Inr \<lparr>kind = Pe32, entryPointRva = 0xCC4D0, sizeOfImage = 0x300000\<rparr>"
    by (subst ParsePeImage_inside) (simp_all add: at parse_headers_def pe_signatures)
  then show ?thesis
    by (simp add: FindLoadedModule_def game_space_def game_module_def usable_def PAGE_EXECUTE_READWRITE_def PAGE_GUARD_def
        PAGE_NOACCESS_def kUintptrMax_def Let_def)
qed

lemma game_words: "read_word game_space 0x66E8DC = 0x500000" "read_word game_space 0x402000 = 0x403000"
  "read_word game_space 0x40301C = 0x404000" "read_word game_space 0x403020 = 0x404100"
  "read_word game_space 0x403024 = 0x404200" "read_word game_space 0x403048 = 0x404300"
  by (simp_all add: read_word_bytes game_space_def game_byte_def)

lemmas game_pages = usable_def PAGE_EXECUTE_READWRITE_def PAGE_EXECUTE_READ_def PAGE_EXECUTE_WRITECOPY_def PAGE_EXECUTE_def
  PAGE_GUARD_def PAGE_NOACCESS_def kUintptrMax_def

lemma game_access:
  "IsExecutable game_space game_module 0x401A40" "IsExecutable game_space game_module 0x404000"
  "IsExecutable game_space game_module 0x404100" "IsExecutable game_space game_module 0x404200"
  "IsExecutable game_space game_module 0x404300"
  "IsAccessible game_space game_module 0x66E8DC 4" "IsAccessible game_space game_module 0x403000 76"
  "Contains game_module 0x403000 76"
  "IsReadable game_space 0x500000 4" "IsReadable game_space 0x402000 4"
  by (simp_all add: IsExecutable_def IsAccessible_def IsReadable_def Contains_def game_module_def game_space_def
      walk_regions.simps game_pages Let_def)

lemma game_resolves:
  assumes "rn_module t = game_module" and "space p = game_space" and "FindCompatibility SampVersion_R3_1 = Some c"
  shows "ResolveRakClient sample_code c t p = (True, t\<lparr>rn_rakClient := 0x402000, rn_vtable := 0x403000, rn_sendFunction := 0x404000,
    rn_originalReceive := 0x404100, rn_deallocateFunction := 0x404200, rn_isConnectedFunction := 0x404300\<rparr>, p)"
proof -
  have c: "netGamePointerRva (addresses c) = 0x26E8DC" "getRakClientRva (addresses c) = 0x1A40"
    using assms(3) by (auto simp: FindCompatibility_def kCompatibility_def)
  have r: "ResolveRva game_module 0x26E8DC 4 = Some 0x66E8DC" "ResolveRva game_module 0x1A40 1 = Some 0x401A40"
    by (simp_all add: ResolveRva_def game_module_def Contains_def kUintptrMax_def Let_def)
  have k: "call_GetRakClient sample_code a b q = (0x402000, q)" for a b q by (simp add: sample_code_def)
  show ?thesis
    by (simp add: ResolveRakClient_def assms(1,2) c r k game_words game_access sizeof_pointer_def Let_def VtableFunction_def
        kSendRawIndex_def kReceiveIndex_def kDeallocatePacketIndex_def kIsConnectedIndex_def kRakClientVtableEntriesNeeded_def)
qed

lemma resolve_loop_first:
  "ResolveRakClient code c t p = (True, t', p') \<Longrightarrow> 0 < n \<Longrightarrow> resolve_loop code c n t p = (t', p')"
  by (cases n) simp_all

definition game_host :: "SampleRak Host" where
  "game_host = sample_host\<lparr>process := (process sample_host)\<lparr>space := game_space\<rparr>\<rparr>"

lemma sample_keeps_bytes: "protect_keeps_bytes sample_code"
  by (simp add: protect_keeps_bytes_def sample_code_def)

lemma game_hooked_with:
  fixes callbacks :: "'w TransportCallbacks" and h :: "SampleRak Host"
  assumes s: "space (process h) = game_space" and cb: "cb_incoming callbacks \<noteq> None" "cb_connection callbacks \<noteq> None"
  shows "\<exists>t h'. RakNet_Initialize sample_code callbacks (new_RakNetTransport SampVersion_R3_1) h = (True, t, h')"
proof -
  obtain c where c: "FindCompatibility SampVersion_R3_1 = Some c" "HasAllMappings c [NetGame, GetRakClient]"
    using hookable_builds [of SampVersion_R3_1] by blast
  obtain b where b: "FindSampBuild_entryPoint 0x0CC4D0 = Some b" "build_version b = SampVersion_R3_1"
    by (simp add: FindSampBuild_entryPoint_def KnownSampBuilds_def)
  let ?t = "(new_RakNetTransport SampVersion_R3_1)\<lparr>rn_module := game_module, rn_callbacks := callbacks\<rparr>"
  have m: "rn_module ?t = game_module" by simp
  note l = resolve_loop_first [OF game_resolves [OF m s c(1)], of kResolveAttempts]
  have "0 < kResolveAttempts" by (simp add: kResolveAttempts_def)
  then have "\<exists>t h'. hook_client sample_code c ?t h = (True, t, h')"
    using l s by (simp add: hook_client_def InstallReceiveHook_def InterlockedCompareExchange_def Let_def sample_code_def
        sizeof_pointer_def kReceiveIndex_def game_words)
  then show ?thesis
    using b c cb by (simp add: RakNet_Initialize_def s game_module new_RakNetTransport_def) (simp add: game_module_def)
qed

lemma game_hooked:
  "\<exists>t h'. RakNet_Initialize sample_code (idle_callbacks :: (SampleRak Host \<times> unit) TransportCallbacks)
    (new_RakNetTransport SampVersion_R3_1) game_host = (True, t, h')"
  by (intro game_hooked_with) (simp_all add: game_host_def idle_callbacks_def)


theorem hook_removed_witness:
  "\<exists>t' h'. RakNet_Shutdown sample_code sample_transport
      (sample_host\<lparr>process := (process sample_host)\<lparr>space := write_word 0x403020 0x10001000 packet_space\<rparr>\<rparr>) = (t', h') \<and>
    t' = (new_RakNetTransport SampVersion_R3_1)\<lparr>rn_module := no_module\<rparr> \<and>
    byte_at (space (process h')) = byte_at (write_word 0x403020 0x404100 packet_space)"
proof -
  let ?h = "sample_host\<lparr>process := (process sample_host)\<lparr>space := write_word 0x403020 0x10001000 packet_space\<rparr>\<rparr>"
  obtain t' h' where run: "RakNet_Shutdown sample_code sample_transport ?h = (t', h')" by (metis prod.exhaust)
  have f: "rn_receiveSlot sample_transport = 0x403020" "rn_originalReceive sample_transport = 0x404100"
    "rn_version sample_transport = SampVersion_R3_1" "rn_module sample_transport = no_module"
    by (simp_all add: sample_transport_def new_RakNetTransport_def)
  have v: "hook_address sample_code = 0x10001000" "fst (VirtualProtect sample_code a b p) \<noteq> None" for a b p
    by (simp_all add: sample_code_def)
  have "rn_receiveSlot sample_transport \<noteq> 0" "rn_originalReceive sample_transport \<noteq> 0" by (simp_all add: f)
  from hook_removed [OF sample_keeps_bytes this run] have
    "t' = (new_RakNetTransport SampVersion_R3_1)\<lparr>rn_module := no_module\<rparr>"
    "byte_at (space (process h')) = byte_at (write_word 0x403020 0x404100 packet_space)"
    using v by (simp_all add: f)
  then show ?thesis using run by blast
qed

end
