(* ===== verification/RuntimeProperties.thy ===== *)
theory RuntimeProperties
  imports ClientRuntime ManagerProperties RakNetHook "HOL-Library.Sublist"
begin

text \<open>
  The client as a whole: in every interleaving of the transport's callbacks, the worker
  thread and the rest of the process, the handshake gates the asset manager, and what the
  client reports to the server is true.
\<close>

section \<open>Runs of the client\<close>

datatype RuntimeCall = Incoming ByteView | Connection ConnectionEvent | Pump

fun runtime_call :: "'r Sender \<Rightarrow> RuntimeCall \<Rightarrow> 'r RuntimeWorld \<Rightarrow> 'r RuntimeWorld" where
  "runtime_call send (Incoming bytes) w = HandleIncomingProtocol send bytes w"
| "runtime_call send (Connection e) w = HandleConnectionEvent send e w"
| "runtime_call send Pump w = PumpAssetResults send w"

fun connection_steps :: "RuntimeCall \<Rightarrow> nat" where
  "connection_steps (Connection e) = 1"
| "connection_steps _ = 0"

text \<open>
  Whatever callbacks come in whatever order, whatever the worker and the network do and
  whatever else happens in the process. The number counts the connection events.
\<close>

inductive runs :: "'r Sender \<Rightarrow> Fetch set \<Rightarrow> 'r RuntimeWorld \<Rightarrow> nat \<Rightarrow> 'r RuntimeWorld \<Rightarrow> bool"
  for send backends w0 where
  initial: "runs send backends w0 0 w0"
| callback: "runs send backends w0 k w \<Longrightarrow> runs send backends w0 (k + connection_steps call) (runtime_call send call w)"
| worker: "runs send backends w0 k (h, c) \<Longrightarrow> ctx_assets c = Some s \<Longrightarrow> fetch \<in> backends \<Longrightarrow>
    worker_turn fetch s = Some s' \<Longrightarrow> runs send backends w0 k (h, c\<lparr>ctx_assets := Some s'\<rparr>)"
| elsewhere: "runs send backends w0 k (h, c) \<Longrightarrow> runs send backends w0 k (h\<lparr>process := p\<rparr>, c)"

text \<open>The context as the runtime's initialisation leaves it.\<close>

definition runtime_start :: "HandshakeConfiguration \<Rightarrow> AssetCache \<Rightarrow> Disk \<Rightarrow> 'r Host \<Rightarrow> 'r RuntimeWorld" where
  "runtime_start cfg cache disk h =
    (h, \<lparr>ctx_handshake = Some (new_ClientHandshake cfg), ctx_transport = True,
         ctx_assets = Some (snd (manager_Initialize (start_system cache True disk))), ctx_malformedPacketLogged = False\<rparr>)"

section \<open>The invariant\<close>

definition idle :: "ClientAssetManager \<Rightarrow> bool" where
  "idle m \<longleftrightarrow> mgr_receiver m = receiver_run [] \<and> mgr_queue m = [] \<and> mgr_events m = [] \<and> mgr_states m = fmempty"

definition runtime_ok :: "HandshakeConfiguration \<Rightarrow> AssetCache \<Rightarrow> Disk \<Rightarrow> Fetch set \<Rightarrow> nat \<Rightarrow> ProtocolContext \<Rightarrow> bool" where
  "runtime_ok cfg cache disk backends k c \<longleftrightarrow>
     (\<exists>hs s j. ctx_handshake c = Some hs \<and> ctx_assets c = Some s \<and> client_ok hs \<and>
       configuration hs = configuration (new_ClientHandshake cfg) \<and>
       j \<le> k \<and> reachable backends (start_system cache True disk) j s \<and>
       (ch_state hs \<noteq> Compatible \<longrightarrow> idle (sys_manager s)))"

lemma idle_ResetSession: "idle (ResetSession m)"
  using receiver_Reset_new [of "mgr_receiver m"] by (simp add: idle_def ResetSession_def Let_def)

lemma idle_worker:
  assumes "session_ok k s" and "idle (sys_manager s)" and "worker_turn fetch s = Some s'"
  shows "idle (sys_manager s')"
proof -
  let ?m = "sys_manager s"
  have none: "rx_completed (mgr_receiver ?m) = None"
    using assms(2) by (simp add: idle_def receiver_run_def new_receiver_def)
  show ?thesis
  proof (cases "sys_worker s")
    case (WorkerReporting w us)
    have "work_generation w \<noteq> mgr_generation ?m"
      using assms(1) none WorkerReporting by (auto simp: session_ok_def held_ok_def in_session_def)
    then have "SetState w u ?m = ?m" for u by (simp add: SetState_def split: prod.splits)
    then show ?thesis using assms(2,3) WorkerReporting by (cases us) (auto simp: worker_turn_def)
  next
    case (WorkerTook w)
    have "sys_manager s' = ?m"
      using assms(3) WorkerTook by (auto simp: worker_turn_def Let_def split: if_splits prod.splits)
    then show ?thesis using assms(2) by simp
  next
    case WorkerWaiting
    have "sys_manager s' = ?m"
      using assms(2,3) WorkerWaiting by (auto simp: worker_turn_def Let_def idle_def split: if_splits)
    then show ?thesis using assms(2) by simp
  qed (use assms(3) in \<open>simp_all add: worker_turn_def\<close>)
qed

text \<open>The effect of the callbacks on the context does not depend on the host.\<close>

lemma Pump_context:
  "snd (PumpAssetResults send (h, c)) =
    (case (ctx_assets c, ctx_handshake c) of
       (Some s, Some hs) \<Rightarrow> if ch_state hs = Compatible
         then c\<lparr>ctx_assets := Some (s\<lparr>sys_manager := snd (DrainEvents (sys_manager s))\<rparr>)\<rparr> else c
     | _ \<Rightarrow> c)"
  by (auto simp: PumpAssetResults_def split: option.splits prod.splits)

lemma Pump_ok:
  assumes "runtime_ok cfg cache disk backends k c"
  shows "runtime_ok cfg cache disk backends k (snd (PumpAssetResults send (h, c)))"
proof -
  obtain hs s j where c: "ctx_handshake c = Some hs" "ctx_assets c = Some s" "client_ok hs"
    "configuration hs = configuration (new_ClientHandshake cfg)" "j \<le> k"
    "reachable backends (start_system cache True disk) j s" "ch_state hs \<noteq> Compatible \<longrightarrow> idle (sys_manager s)"
    using assms by (auto simp: runtime_ok_def)
  show ?thesis
  proof (cases "ch_state hs = Compatible")
    case True
    have "reachable backends (start_system cache True disk) j (s\<lparr>sys_manager := snd (DrainEvents (sys_manager s))\<rparr>)"
      using reachable.client [OF c(6), of CallDrainEvents] by simp
    then show ?thesis using c True by (auto simp: Pump_context runtime_ok_def)
  next
    case False
    then show ?thesis using assms c by (simp add: Pump_context)
  qed
qed

lemma drop_malformed_context:
  "ctx_handshake (snd (drop_malformed (h, c))) = ctx_handshake c \<and> ctx_assets (snd (drop_malformed (h, c))) = ctx_assets c"
  by (simp add: drop_malformed_def)

lemma runtime_ok_same:
  "runtime_ok cfg cache disk backends k c \<Longrightarrow> ctx_handshake c' = ctx_handshake c \<Longrightarrow> ctx_assets c' = ctx_assets c \<Longrightarrow>
    runtime_ok cfg cache disk backends k c'"
  by (simp add: runtime_ok_def)

lemma asset_message_context:
  "snd (handle_asset_message send message s (h, c)) =
    snd (PumpAssetResults send (h', c\<lparr>ctx_assets := Some (s\<lparr>sys_manager := snd (HandleMessage message (sys_manager s))\<rparr>)\<rparr>))"
proof -
  obtain result m where m: "HandleMessage message (sys_manager s) = (result, m)" by (metis prod.exhaust)
  show ?thesis by (simp add: handle_asset_message_def m Pump_context Let_def)
qed

lemma handshake_packet_context:
  "\<exists>hs' b. snd (handle_handshake_packet bytes hs (h, c)) = c\<lparr>ctx_handshake := Some hs', ctx_malformedPacketLogged := b\<rparr> \<and>
    (client_ok hs \<longrightarrow> client_ok hs') \<and> configuration hs' = configuration hs \<and>
    (ch_state hs' \<noteq> Compatible \<longrightarrow> ch_state hs \<noteq> Compatible)"
proof -
  obtain result hs1 where i: "client_HandleIncoming bytes hs = (result, hs1)" by (metis prod.exhaust)
  have one: "(client_ok hs \<longrightarrow> client_ok hs1) \<and> configuration hs1 = configuration hs"
    using client_step_ok [of hs "ClientIncoming bytes"] i
    by (auto simp: client_HandleIncoming_cases split: sum.split_asm Message.split_asm if_split_asm)
  have keep: "ch_state hs1 \<noteq> Compatible \<longrightarrow> ch_state hs \<noteq> Compatible"
    using i by (auto simp: client_HandleIncoming_cases split: sum.split_asm Message.split_asm if_split_asm)
  obtain b hs2 where w: "ConfirmWelcome hs1 = (b, hs2)" by (metis prod.exhaust)
  have two: "(client_ok hs1 \<longrightarrow> client_ok hs2) \<and> configuration hs2 = configuration hs1 \<and>
      (ch_state hs2 \<noteq> Compatible \<longrightarrow> ch_state hs1 \<noteq> Compatible)"
    using client_step_ok [of hs1 ClientConfirm] w by (auto simp: ConfirmWelcome_def split: if_split_asm)
  let ?c = "c\<lparr>ctx_handshake := Some hs1\<rparr>"
  have "snd (handle_handshake_packet bytes hs (h, c)) \<in>
      {c\<lparr>ctx_handshake := Some hs2\<rparr>, ?c, ?c\<lparr>ctx_malformedPacketLogged := True\<rparr>}"
    by (simp add: handle_handshake_packet_def i w drop_malformed_def Let_def
        split: IncomingResult.split option.split bool.split)
  then show ?thesis
  proof (elim insertE emptyE)
    assume "snd (handle_handshake_packet bytes hs (h, c)) = c\<lparr>ctx_handshake := Some hs2\<rparr>"
    then show ?thesis using one two keep
      by (intro exI [of _ hs2] exI [of _ "ctx_malformedPacketLogged c"]) simp
  next
    assume "snd (handle_handshake_packet bytes hs (h, c)) = ?c"
    then show ?thesis using one keep
      by (intro exI [of _ hs1] exI [of _ "ctx_malformedPacketLogged c"]) simp
  next
    assume "snd (handle_handshake_packet bytes hs (h, c)) = ?c\<lparr>ctx_malformedPacketLogged := True\<rparr>"
    then show ?thesis using one keep
      by (intro exI [of _ hs1] exI [of _ True]) simp
  qed
qed

lemma Incoming_ok:
  assumes "runtime_ok cfg cache disk backends k c"
  shows "runtime_ok cfg cache disk backends k (snd (HandleIncomingProtocol send bytes (h, c)))"
proof -
  obtain hs s j where c: "ctx_handshake c = Some hs" "ctx_assets c = Some s" "client_ok hs"
    "configuration hs = configuration (new_ClientHandshake cfg)" "j \<le> k"
    "reachable backends (start_system cache True disk) j s" "ch_state hs \<noteq> Compatible \<longrightarrow> idle (sys_manager s)"
    using assms by (auto simp: runtime_ok_def)
  show ?thesis
  proof (cases "DecodePacket bytes")
    case (Inl e)
    then have "HandleIncomingProtocol send bytes (h, c) = drop_malformed (h, c)"
      using c by (simp add: HandleIncomingProtocol_def)
    then show ?thesis using runtime_ok_same [OF assms] drop_malformed_context by metis
  next
    case (Inr packet)
    consider (handshake) "is_handshake_message (packet_message packet)"
      | (closed) "\<not> is_handshake_message (packet_message packet)" "ch_state hs \<noteq> Compatible"
      | (assets) "\<not> is_handshake_message (packet_message packet)" "ch_state hs = Compatible" by blast
    then show ?thesis
    proof cases
      case handshake
      then have "HandleIncomingProtocol send bytes (h, c) = handle_handshake_packet bytes hs (h, c)"
        using c Inr by (simp add: HandleIncomingProtocol_def)
      then obtain hs' b where "snd (HandleIncomingProtocol send bytes (h, c)) = c\<lparr>ctx_handshake := Some hs', ctx_malformedPacketLogged := b\<rparr>"
        "client_ok hs'" "configuration hs' = configuration hs" "ch_state hs' \<noteq> Compatible \<longrightarrow> ch_state hs \<noteq> Compatible"
        using handshake_packet_context [of bytes hs h c] c(3) by auto
      then show ?thesis using c unfolding runtime_ok_def by auto
    next
      case closed
      then show ?thesis using assms c Inr by (simp add: HandleIncomingProtocol_def)
    next
      case assets
      let ?s = "s\<lparr>sys_manager := snd (HandleMessage (packet_message packet) (sys_manager s))\<rparr>"
      have "HandleIncomingProtocol send bytes (h, c) = handle_asset_message send (packet_message packet) s (h, c)"
        using assets c Inr by (simp add: HandleIncomingProtocol_def)
      moreover have "reachable backends (start_system cache True disk) j ?s"
        using reachable.client [OF c(6), of "CallHandleMessage (packet_message packet)"] by simp
      then have "runtime_ok cfg cache disk backends k (c\<lparr>ctx_assets := Some ?s\<rparr>)"
        using c assets(2) by (auto simp: runtime_ok_def)
      then have "runtime_ok cfg cache disk backends k (snd (PumpAssetResults send (h, c\<lparr>ctx_assets := Some ?s\<rparr>)))"
        by (rule Pump_ok)
      ultimately show ?thesis by (simp add: asset_message_context [where h' = h])
    qed
  qed
qed

lemma send_hello_context: "snd (send_hello send hs (h, c)) = c\<lparr>ctx_handshake := Some (snd (TakeHello hs))\<rparr>"
  by (simp add: send_hello_def Let_def split: prod.splits option.splits bool.splits)

lemma Connection_context:
  assumes "ctx_handshake c = Some hs" and "ctx_transport c"
  shows "snd (HandleConnectionEvent send e (h, c)) =
    (if e = EventDisconnected
     then (on_assets ResetSession c)\<lparr>ctx_handshake := Some (OnDisconnected hs), ctx_malformedPacketLogged := False\<rparr>
     else (on_assets ResetSession c)\<lparr>ctx_handshake := Some (snd (TakeHello (OnConnected hs)))\<rparr>)"
  using assms by (simp add: HandleConnectionEvent_def send_hello_context Let_def)

lemma Connection_ok:
  assumes "runtime_ok cfg cache disk backends k c"
  shows "runtime_ok cfg cache disk backends (k + 1) (snd (HandleConnectionEvent send e (h, c)))"
proof -
  obtain hs s j where c: "ctx_handshake c = Some hs" "ctx_assets c = Some s" "client_ok hs"
    "configuration hs = configuration (new_ClientHandshake cfg)" "j \<le> k"
    "reachable backends (start_system cache True disk) j s" "ch_state hs \<noteq> Compatible \<longrightarrow> idle (sys_manager s)"
    using assms by (auto simp: runtime_ok_def)
  show ?thesis
  proof (cases "ctx_transport c")
    case False
    then have "snd (HandleConnectionEvent send e (h, c)) = c" using c by (simp add: HandleConnectionEvent_def)
    then show ?thesis using c unfolding runtime_ok_def by (auto intro: le_SucI)
  next
    case True
    let ?s = "s\<lparr>sys_manager := ResetSession (sys_manager s)\<rparr>"
    have r: "reachable backends (start_system cache True disk) (j + 1) ?s"
      using reachable.client [OF c(6), of CallResetSession] by simp
    have a: "ctx_assets (on_assets ResetSession c) = Some ?s" using c(2) by (simp add: on_assets_def)
    have hs: "client_ok (OnDisconnected hs) \<and> configuration (OnDisconnected hs) = configuration hs"
      "client_ok (snd (TakeHello (OnConnected hs))) \<and> configuration (snd (TakeHello (OnConnected hs))) = configuration hs"
      using client_step_ok [OF c(3), of ClientDisconnected] client_step_ok [OF c(3), of ClientConnected]
        client_step_ok [of "OnConnected hs" ClientTakeHello]
      by (auto split: prod.splits option.splits)
    have "\<exists>hs'. ctx_handshake (snd (HandleConnectionEvent send e (h, c))) = Some hs' \<and> client_ok hs' \<and>
        configuration hs' = configuration hs"
      using hs Connection_context [OF c(1) True, of send e h] by simp
    moreover have "ctx_assets (snd (HandleConnectionEvent send e (h, c))) = Some ?s"
      using a Connection_context [OF c(1) True, of send e h] by simp
    ultimately show ?thesis using c(4,5) r idle_ResetSession [of "sys_manager s"]
      unfolding runtime_ok_def by (auto intro!: exI [of _ "j + 1"])
  qed
qed

lemma runs_ok:
  assumes "runs send backends (runtime_start cfg cache disk h0) k w" and "k + 1 < 2 ^ 64"
  shows "runtime_ok cfg cache disk backends k (snd w)"
  using assms
proof (induction rule: runs.induct)
  case initial
  let ?s = "snd (manager_Initialize (start_system cache True disk))"
  have "client_call CallInitialize (start_system cache True disk) = Some ?s" by simp
  from reachable.client [OF reachable.start this]
  have "reachable backends (start_system cache True disk) 0 ?s" by simp
  moreover have "mgr_receiver (sys_manager ?s) = new_receiver \<and> mgr_queue (sys_manager ?s) = [] \<and>
      mgr_events (sys_manager ?s) = [] \<and> mgr_states (sys_manager ?s) = fmempty"
    by (auto simp: manager_Initialize_def Let_def start_system_def new_manager_def split: prod.splits bool.splits)
  then have "idle (sys_manager ?s)" by (simp add: idle_def receiver_run_def)
  moreover have "client_ok (new_ClientHandshake cfg)"
    by (auto simp: client_ok_def new_ClientHandshake_def flags_subset_def)
  ultimately show ?case by (simp add: runtime_start_def runtime_ok_def)
next
  case (callback k w call)
  obtain h c where w: "w = (h, c)" by (metis prod.exhaust)
  have "runtime_ok cfg cache disk backends k c" using callback w by simp
  then show ?case
    using Incoming_ok Connection_ok Pump_ok by (cases call) (simp_all add: w)
next
  case (worker k h c s fetch s')
  then obtain hs j where c: "ctx_handshake c = Some hs" "client_ok hs"
    "configuration hs = configuration (new_ClientHandshake cfg)" "j \<le> k"
    "reachable backends (start_system cache True disk) j s" "ch_state hs \<noteq> Compatible \<longrightarrow> idle (sys_manager s)"
    by (auto simp: runtime_ok_def)
  have "reachable backends (start_system cache True disk) j s'" using reachable.worker c(5) worker.hyps by blast
  moreover have "session_ok j s" using reachable_session_ok [OF c(5)] c(4) worker.prems by simp
  then have "ch_state hs \<noteq> Compatible \<longrightarrow> idle (sys_manager s')" using idle_worker worker.hyps(4) c(6) by blast
  ultimately show ?case using c(1-4) by (auto simp: runtime_ok_def)
next
  case (elsewhere k h c p)
  then show ?case by simp
qed

section \<open>What a callback sends\<close>

fun report_of :: "ClientAssetEvent \<Rightarrow> Message option" where
  "report_of e =
    (if ev_kind e = EvReady
     then Some (AssetReadyMsg \<lparr>ready_manifestRevision = ev_revision e, ready_assetId = ev_assetId e\<rparr>)
     else if ev_kind e = EvFailed
     then Some (AssetErrorMsg \<lparr>error_manifestRevision = ev_revision e, error_assetId = ev_assetId e, error_reason = ev_error e\<rparr>)
     else None)"

declare report_of.simps [simp del]

definition reports :: "ClientAssetEvent list \<Rightarrow> Message list" where
  "reports es = filter message_valid (List.map_filter report_of es)"

lemma reports_simps [simp]:
  "reports [] = []"
  "reports (e # es) = (case report_of e of None \<Rightarrow> [] | Some m \<Rightarrow> if message_valid m then [m] else []) @ reports es"
  by (simp_all add: reports_def List.map_filter_simps split: option.split)

text \<open>A sender that takes every packet.\<close>

definition accepts :: "'r Sender \<Rightarrow> bool" where
  "accepts send \<longleftrightarrow> (\<forall>m h. message_valid m \<longrightarrow> fst (send (View (packet_bytes m)) h))"

context host_transport begin

lemma SendAssetReport_accepted:
  assumes "accepts send" and "transport" and "message_valid message"
  shows "sent (SendAssetReport send transport message h) = sent h @ [packet_bytes message]"
proof -
  obtain ok h1 where s: "send (View (packet_bytes message)) h = (ok, h1)" by (metis prod.exhaust)
  then have ok: "ok" using assms(1,3) unfolding accepts_def by (metis fst_conv)
  then show ?thesis using assms s send_log [OF s] by (simp add: SendAssetReport_def EncodePacket_bytes)
qed

lemma report_event_shape:
  "\<exists>h'. sent h' = sent h \<and> report_event send transport e h =
    (case report_of e of None \<Rightarrow> h' | Some m \<Rightarrow> SendAssetReport send transport m h')"
proof (cases "ev_kind e")
  case EvReady
  then show ?thesis
    by (intro exI [of _ "log_with (Info (asset_line e '' ready'')) h"]) (simp add: report_event_def report_of.simps)
next
  case EvFailed
  then show ?thesis
    by (intro exI [of _ "log_with (Info (asset_line e ('' failed: '' @ ToString_AssetErrorReason (ev_error e)))) h"])
      (simp add: report_event_def report_of.simps)
qed (auto simp: report_event_def report_of.simps)

lemma report_event_sent:
  "\<exists>new. sent (report_event send transport e h) = sent h @ map packet_bytes new \<and> subseq new (reports [e]) \<and>
    (accepts send \<longrightarrow> transport \<longrightarrow> new = reports [e])"
proof -
  obtain h' where h': "sent h' = sent h"
    "report_event send transport e h = (case report_of e of None \<Rightarrow> h' | Some m \<Rightarrow> SendAssetReport send transport m h')"
    using report_event_shape by blast
  show ?thesis
  proof (cases "report_of e")
    case None
    then show ?thesis using h' by (intro exI [of _ "[]"]) simp
  next
    case (Some m)
    obtain b where b: "sent (SendAssetReport send transport m h') =
        sent h' @ (if b \<and> transport \<and> message_valid m then [packet_bytes m] else [])"
      using SendAssetReport_sent by blast
    have "accepts send \<Longrightarrow> transport \<Longrightarrow> message_valid m \<Longrightarrow> b"
      using SendAssetReport_accepted [of transport m h'] b by (cases b) auto
    then show ?thesis using h' Some b
      by (intro exI [of _ "if b \<and> transport \<and> message_valid m then [m] else []"]) auto
  qed
qed

lemma fold_reports_sent:
  "\<exists>new. sent (fold (report_event send transport) es h) = sent h @ map packet_bytes new \<and> subseq new (reports es) \<and>
    (accepts send \<longrightarrow> transport \<longrightarrow> new = reports es)"
proof (induction es arbitrary: h)
  case (Cons e es)
  obtain one where one: "sent (report_event send transport e h) = sent h @ map packet_bytes one" "subseq one (reports [e])"
    "accepts send \<longrightarrow> transport \<longrightarrow> one = reports [e]" using report_event_sent by blast
  obtain rest where rest: "sent (fold (report_event send transport) es (report_event send transport e h)) =
      sent (report_event send transport e h) @ map packet_bytes rest" "subseq rest (reports es)"
    "accepts send \<longrightarrow> transport \<longrightarrow> rest = reports es" using Cons.IH by blast
  have "subseq (one @ rest) (reports [e] @ reports es)" using one(2) rest(2) by (rule list_emb_append_mono)
  then show ?case using one rest by (intro exI [of _ "one @ rest"]) simp
qed simp

lemma Pump_sent:
  assumes "ctx_handshake c = Some hs" and "ctx_assets c = Some s"
  shows "\<exists>new. sent (fst (PumpAssetResults send (h, c))) = sent h @ map packet_bytes new \<and>
    subseq new (if ch_state hs = Compatible then reports (mgr_events (sys_manager s)) else []) \<and>
    (accepts send \<longrightarrow> ctx_transport c \<longrightarrow> ch_state hs = Compatible \<longrightarrow> new = reports (mgr_events (sys_manager s)))"
proof (cases "ch_state hs = Compatible")
  case True
  then have "fst (PumpAssetResults send (h, c)) = fold (report_event send (ctx_transport c)) (mgr_events (sys_manager s)) h"
    using assms by (simp add: PumpAssetResults_def DrainEvents_def)
  then show ?thesis using fold_reports_sent [of "ctx_transport c" "mgr_events (sys_manager s)" h] True by simp
next
  case False
  then show ?thesis using assms by (simp add: PumpAssetResults_def)
qed

lemma asset_message_sent:
  "\<exists>h1 errors. handle_asset_message send message s (h, c) =
      PumpAssetResults send (h1, c\<lparr>ctx_assets := Some (s\<lparr>sys_manager := snd (HandleMessage message (sys_manager s))\<rparr>)\<rparr>) \<and>
    sent h1 = sent h @ map packet_bytes errors \<and> list_all (\<lambda>m. \<exists>e. m = AssetErrorMsg e \<and> message_valid m) errors"
proof -
  obtain result m where m: "HandleMessage message (sys_manager s) = (result, m)" by (metis prod.exhaust)
  let ?h = "log_with (Error ''invalid asset manifest sequence dropped'') h"
  let ?e = "\<lambda>item. AssetErrorMsg \<lparr>error_manifestRevision = item_manifestRevision item,
    error_assetId = assetId (item_asset item), error_reason = AssetErrorReason_InvalidManifest\<rparr>"
  define h1 where "h1 = (if result = InputInvalidManifest \<or> result = InputInvalidOrder
    then case message of ManifestAssetMsg item \<Rightarrow> SendAssetReport send (ctx_transport c) (?e item) ?h | _ \<Rightarrow> ?h
    else h)"
  have eq: "handle_asset_message send message s (h, c) =
      PumpAssetResults send (h1, c\<lparr>ctx_assets := Some (s\<lparr>sys_manager := snd (HandleMessage message (sys_manager s))\<rparr>)\<rparr>)"
    by (simp add: handle_asset_message_def m Let_def h1_def split: Message.split)
  have "\<exists>errors. sent h1 = sent h @ map packet_bytes errors \<and> list_all (\<lambda>m. \<exists>e. m = AssetErrorMsg e \<and> message_valid m) errors"
  proof (cases "\<exists>item. message = ManifestAssetMsg item \<and> (result = InputInvalidManifest \<or> result = InputInvalidOrder)")
    case True
    then obtain item where item: "message = ManifestAssetMsg item" "h1 = SendAssetReport send (ctx_transport c) (?e item) ?h"
      by (auto simp: h1_def)
    obtain b where "sent h1 = sent ?h @ (if b \<and> ctx_transport c \<and> message_valid (?e item) then [packet_bytes (?e item)] else [])"
      using SendAssetReport_sent item(2) by blast
    then show ?thesis
      by (intro exI [of _ "if b \<and> ctx_transport c \<and> message_valid (?e item) then [?e item] else []"]) auto
  next
    case False
    then have "h1 = h \<or> h1 = ?h" by (auto simp: h1_def split: Message.split)
    then show ?thesis by (intro exI [of _ "[]"]) auto
  qed
  then show ?thesis using eq by blast
qed

lemma handshake_packet_sent: "sent (fst (handle_handshake_packet bytes hs (h, c))) = sent h"
  by (simp add: handle_handshake_packet_def drop_malformed_def Let_def
      split: prod.split IncomingResult.split option.split bool.split)

lemma drop_malformed_sent: "sent (fst (drop_malformed (h, c))) = sent h"
  by (simp add: drop_malformed_def)

lemma TakeHello_packet:
  "TakeHello hs = (hello, hs') \<Longrightarrow> (case hello of None \<Rightarrow> hs' = hs
     | Some p \<Rightarrow> p = packet_bytes (HelloMsg (client_hello hs)) \<and> message_valid (HelloMsg (client_hello hs)) \<and>
         hs' = hs\<lparr>ch_state := HelloSent\<rparr> \<and> ch_state hs = Connected)"
  by (auto simp: TakeHello_cases split: if_split_asm)

lemma send_hello_sent:
  "\<exists>new. sent (fst (send_hello send hs (h, c))) = sent h @ map packet_bytes new \<and>
    (new = [] \<or> new = [HelloMsg (client_hello hs)] \<and> message_valid (HelloMsg (client_hello hs)) \<and> ch_state hs = Connected) \<and>
    (accepts send \<longrightarrow> ch_state hs = Connected \<longrightarrow> message_valid (HelloMsg (client_hello hs)) \<longrightarrow> new = [HelloMsg (client_hello hs)])"
proof -
  obtain hello hs' where t: "TakeHello hs = (hello, hs')" by (metis prod.exhaust)
  show ?thesis
  proof (cases hello)
    case None
    then have "\<not> (ch_state hs = Connected \<and> message_valid (HelloMsg (client_hello hs)))"
      using t by (auto simp: TakeHello_cases split: if_split_asm)
    then show ?thesis using None t by (intro exI [of _ "[]"]) (auto simp: send_hello_def)
  next
    case (Some p)
    then have p: "p = packet_bytes (HelloMsg (client_hello hs))" "message_valid (HelloMsg (client_hello hs))" "ch_state hs = Connected"
      using TakeHello_packet [OF t] by simp_all
    obtain ok h1 where s: "send (View p) h = (ok, h1)" by (metis prod.exhaust)
    have e: "sent (fst (send_hello send hs (h, c))) = sent h1"
      using t Some s by (cases ok) (simp_all add: send_hello_def)
    have "accepts send \<Longrightarrow> ok" using p s unfolding accepts_def by (metis fst_conv)
    then show ?thesis using e send_log [OF s] p
      by (intro exI [of _ "if ok then [HelloMsg (client_hello hs)] else []"]) auto
  qed
qed

end

section \<open>Everything the client says is true\<close>

text \<open>What makes a message true in the state after the callback that sent it.\<close>

fun justified :: "ProtocolContext \<Rightarrow> Message \<Rightarrow> bool" where
  "justified c (HelloMsg hello) \<longleftrightarrow>
     (\<exists>hs. ctx_handshake c = Some hs \<and> ch_state hs = HelloSent \<and> hello = client_hello hs)"
| "justified c (AssetReadyMsg r) \<longleftrightarrow>
     (\<exists>hs s mf a. ctx_handshake c = Some hs \<and> ch_state hs = Compatible \<and> ctx_assets c = Some s \<and>
       rx_completed (mgr_receiver (sys_manager s)) = Some mf \<and> revision mf = ready_manifestRevision r \<and>
       a \<in> set (manifest_assets mf) \<and> assetId a = ready_assetId r \<and> GetState (assetId a) (sys_manager s) = StateReady \<and>
       (distinct_files (mgr_cache (sys_manager s)) mf \<longrightarrow> holds (PathFor (mgr_cache (sys_manager s)) a) a (sys_disk s)))"
| "justified c (AssetErrorMsg e) \<longleftrightarrow> (\<exists>hs. ctx_handshake c = Some hs \<and> ch_state hs = Compatible)"
| "justified c m \<longleftrightarrow> False"

lemma reports_origin: "m \<in> set (reports es) \<Longrightarrow> message_valid m \<and> (\<exists>e \<in> set es. report_of e = Some m)"
  by (induction es) (auto split: option.splits if_splits)

lemma pumped_justified:
  assumes reach: "reachable (range winhttp_backend) (start_system cache True disk) j s" and j: "j + 1 < 2 ^ 64"
    and c: "ctx_handshake c = Some hs" "ch_state hs = Compatible" "ctx_assets c = Some s"
    and m: "m \<in> set (reports (mgr_events (sys_manager s)))"
  shows "justified (snd (PumpAssetResults send (h, c))) m"
proof -
  let ?s = "s\<lparr>sys_manager := snd (DrainEvents (sys_manager s))\<rparr>"
  have after: "ctx_handshake (snd (PumpAssetResults send (h, c))) = Some hs" "ctx_assets (snd (PumpAssetResults send (h, c))) = Some ?s"
    using c by (simp_all add: Pump_context)
  obtain e where e: "e \<in> set (mgr_events (sys_manager s))" "report_of e = Some m" using reports_origin [OF m] by blast
  show ?thesis
  proof (cases "ev_kind e = EvReady")
    case True
    then have "m = AssetReadyMsg \<lparr>ready_manifestRevision = ev_revision e, ready_assetId = ev_assetId e\<rparr>"
      using e(2) by (simp add: report_of.simps)
    moreover obtain mf a where "rx_completed (mgr_receiver (sys_manager s)) = Some mf" "ev_revision e = revision mf"
      "a \<in> set (manifest_assets mf)" "assetId a = ev_assetId e" "fmlookup (mgr_states (sys_manager s)) (assetId a) = Some StateReady"
      "distinct_files (mgr_cache (sys_manager s)) mf \<longrightarrow> holds (PathFor (mgr_cache (sys_manager s)) a) a (sys_disk s)"
      using winhttp.ready_event_verified [OF reach j e(1) True] by blast
    ultimately show ?thesis using after c(2) by (auto simp: DrainEvents_def GetState_def)
  next
    case False
    then show ?thesis using after c(2) e(2) by (auto simp: report_of.simps split: if_splits)
  qed
qed

lemma subseq_in: "subseq xs ys \<Longrightarrow> x \<in> set xs \<Longrightarrow> x \<in> set ys"
  by (auto elim: list_emb_set)

context host_transport begin

lemma Pump_justified:
  assumes ok: "runtime_ok cfg cache disk (range winhttp_backend) k c" and k: "k + 1 < 2 ^ 64"
  shows "\<exists>new. sent (fst (PumpAssetResults send (h, c))) = sent h @ map packet_bytes new \<and>
    list_all (\<lambda>m. message_valid m \<and> justified (snd (PumpAssetResults send (h, c))) m) new"
proof -
  obtain hs s j where c: "ctx_handshake c = Some hs" "ctx_assets c = Some s" "j \<le> k"
    "reachable (range winhttp_backend) (start_system cache True disk) j s"
    using ok by (auto simp: runtime_ok_def)
  obtain new where new: "sent (fst (PumpAssetResults send (h, c))) = sent h @ map packet_bytes new"
    "subseq new (if ch_state hs = Compatible then reports (mgr_events (sys_manager s)) else [])"
    using Pump_sent [OF c(1,2)] by blast
  have "message_valid m \<and> justified (snd (PumpAssetResults send (h, c))) m" if "m \<in> set new" for m
  proof -
    have m: "m \<in> set (if ch_state hs = Compatible then reports (mgr_events (sys_manager s)) else [])"
      using subseq_in [OF new(2) that] .
    then have "ch_state hs = Compatible" "m \<in> set (reports (mgr_events (sys_manager s)))" by (auto split: if_splits)
    then show ?thesis using pumped_justified [OF c(4) _ c(1) _ c(2)] reports_origin c(3) k by auto
  qed
  then show ?thesis using new(1) by (auto simp: list_all_iff)
qed

lemma call_justified:
  assumes ok: "runtime_ok cfg cache disk (range winhttp_backend) k c" and k: "k + 1 < 2 ^ 64"
  shows "\<exists>new. sent (fst (runtime_call send call (h, c))) = sent h @ map packet_bytes new \<and>
    list_all (\<lambda>m. message_valid m \<and> justified (snd (runtime_call send call (h, c))) m) new"
proof -
  obtain hs s j where c: "ctx_handshake c = Some hs" "ctx_assets c = Some s" "client_ok hs" "j \<le> k"
    "reachable (range winhttp_backend) (start_system cache True disk) j s"
    using ok by (auto simp: runtime_ok_def)
  show ?thesis
  proof (cases call)
    case Pump
    then show ?thesis using Pump_justified [OF ok k] by simp
  next
    case (Connection e)
    show ?thesis
    proof (cases "ctx_transport c \<and> e = EventConnected")
      case True
      let ?h = "log_with (Info ''RakNet connection established'') h" and ?c = "on_assets ResetSession c"
      have eq: "HandleConnectionEvent send e (h, c) = send_hello send (OnConnected hs) (?h, ?c)"
        using True c by (simp add: HandleConnectionEvent_def Let_def)
      obtain new where new: "sent (fst (send_hello send (OnConnected hs) (?h, ?c))) = sent ?h @ map packet_bytes new"
        "new = [] \<or> new = [HelloMsg (client_hello (OnConnected hs))] \<and> message_valid (HelloMsg (client_hello (OnConnected hs))) \<and>
          ch_state (OnConnected hs) = Connected"
        using send_hello_sent by blast
      have "snd (send_hello send (OnConnected hs) (?h, ?c)) = ?c\<lparr>ctx_handshake := Some (snd (TakeHello (OnConnected hs)))\<rparr>"
        by (rule send_hello_context)
      then show ?thesis using new eq Connection by (intro exI [of _ new]) (auto simp: TakeHello_cases client_hello_def)
    next
      case False
      then have "sent (fst (HandleConnectionEvent send e (h, c))) = sent h"
        using c by (cases e) (auto simp: HandleConnectionEvent_def Let_def)
      then show ?thesis using Connection by (intro exI [of _ "[]"]) simp
    qed
  next
    case (Incoming bytes)
    show ?thesis
    proof (cases "\<exists>packet. DecodePacket bytes = Inr packet \<and> \<not> is_handshake_message (packet_message packet) \<and> ch_state hs = Compatible")
      case True
      then obtain packet where p: "DecodePacket bytes = Inr packet" "\<not> is_handshake_message (packet_message packet)" "ch_state hs = Compatible"
        by blast
      let ?s = "s\<lparr>sys_manager := snd (HandleMessage (packet_message packet) (sys_manager s))\<rparr>" and ?c = "c\<lparr>ctx_assets :=
          Some (s\<lparr>sys_manager := snd (HandleMessage (packet_message packet) (sys_manager s))\<rparr>)\<rparr>"
      obtain h1 errors where a: "handle_asset_message send (packet_message packet) s (h, c) = PumpAssetResults send (h1, ?c)"
        "sent h1 = sent h @ map packet_bytes errors" "list_all (\<lambda>m. \<exists>e. m = AssetErrorMsg e \<and> message_valid m) errors"
        using asset_message_sent by blast
      have eq: "HandleIncomingProtocol send bytes (h, c) = PumpAssetResults send (h1, ?c)"
        using p c a(1) by (simp add: HandleIncomingProtocol_def)
      have "reachable (range winhttp_backend) (start_system cache True disk) j ?s"
        using reachable.client [OF c(5), of "CallHandleMessage (packet_message packet)"] by simp
      then have "runtime_ok cfg cache disk (range winhttp_backend) k ?c"
        using ok c p(3) unfolding runtime_ok_def by auto
      from Pump_justified [OF this k, of h1] obtain new where new:
        "sent (fst (PumpAssetResults send (h1, ?c))) = sent h1 @ map packet_bytes new"
        "list_all (\<lambda>m. message_valid m \<and> justified (snd (PumpAssetResults send (h1, ?c))) m) new" by blast
      have "ctx_handshake (snd (PumpAssetResults send (h1, ?c))) = Some hs" using c(1) p(3) by (simp add: Pump_context)
      then have "list_all (\<lambda>m. message_valid m \<and> justified (snd (PumpAssetResults send (h1, ?c))) m) errors"
        using a(3) p(3) by (auto simp: list_all_iff)
      then show ?thesis using new a(2) eq Incoming by (intro exI [of _ "errors @ new"]) simp
    next
      case False
      then have "sent (fst (HandleIncomingProtocol send bytes (h, c))) = sent h"
        using c by (auto simp: HandleIncomingProtocol_def drop_malformed_sent handshake_packet_sent split: sum.splits if_splits)
      then show ?thesis using Incoming by (intro exI [of _ "[]"]) simp
    qed
  qed
qed

end

section \<open>Properties\<close>


text \<open>
  Claim C18. The handshake gates the assets. In every reachable state of the client an asset
  manager that is not behind a completed handshake is idle, with no manifest begun, nothing
  queued and no state; and a completed handshake has stored a welcome for this protocol
  version whose capabilities are within the client's.
\<close>

theorem handshake_gates_assets:
  assumes "runs send backends (runtime_start cfg cache disk h0) k (h, c)" and "k + 1 < 2 ^ 64"
  shows "\<exists>hs s. ctx_handshake c = Some hs \<and> ctx_assets c = Some s \<and>
    (if ch_state hs = Compatible
     then \<exists>w. ch_welcome hs = Some w \<and> welcome_ok (configuration (new_ClientHandshake cfg)) w
     else rx_state (mgr_receiver (sys_manager s)) = Idle \<and> mgr_queue (sys_manager s) = [] \<and>
       mgr_events (sys_manager s) = [] \<and> (\<forall>i. GetState i (sys_manager s) = StateUnknown))"
proof -
  obtain hs s where c: "ctx_handshake c = Some hs" "ctx_assets c = Some s" "client_ok hs"
    "configuration hs = configuration (new_ClientHandshake cfg)" "ch_state hs \<noteq> Compatible \<longrightarrow> idle (sys_manager s)"
    using runs_ok [OF assms] by (auto simp: runtime_ok_def)
  have "ch_state hs = Compatible \<Longrightarrow> \<exists>w. ch_welcome hs = Some w \<and> welcome_ok (configuration hs) w"
    using c(3) by (auto simp: client_ok_def split: option.splits)
  then show ?thesis using c
    by (auto simp: idle_def receiver_run_def new_receiver_def GetState_def)
qed

text \<open>
  The results that wait are reported completely, in order and once: on a
  compatible connection whose transport takes every packet, pumping sends exactly the
  reports of the drained ready and failed events, nothing stays behind, and pumping again
  sends nothing.
\<close>

theorem results_reported_once:
  assumes "ctx_handshake c = Some hs" and "ch_state hs = Compatible" and "ctx_assets c = Some s" and "ctx_transport c"
    and "accepts (RakNet_Send code t)" and "PumpAssetResults (RakNet_Send code t) (h, c) = (h1, c1)"
  shows "raw_sent h1 = raw_sent h @ map packet_bytes (reports (mgr_events (sys_manager s))) \<and>
    raw_sent (fst (PumpAssetResults (RakNet_Send code t) (h1, c1))) = raw_sent h1"
proof -
  let ?s = "s\<lparr>sys_manager := snd (DrainEvents (sys_manager s))\<rparr>"
  have one: "raw_sent h1 = raw_sent h @ map packet_bytes (reports (mgr_events (sys_manager s)))"
    using raknet_host.Pump_sent [OF assms(1,3), of code t h] assms(2,4,5,6) by auto
  have "c1 = c\<lparr>ctx_assets := Some ?s\<rparr>"
    using Pump_context [of "RakNet_Send code t" h c] assms by simp
  then have "ctx_handshake c1 = Some hs" "ctx_assets c1 = Some ?s" "mgr_events (sys_manager ?s) = []"
    using assms(1) by (simp_all add: DrainEvents_def)
  then have "raw_sent (fst (PumpAssetResults (RakNet_Send code t) (h1, c1))) = raw_sent h1"
    using raknet_host.Pump_sent [of c1 hs ?s code t h1] by (auto simp: assms(2))
  then show ?thesis using one by simp
qed

text \<open>
  A new connection greets the server: from the disconnected state, with a valid
  configuration and a transport that takes every packet, the connected event sends exactly
  one packet, the configured greeting, waits for the answer and starts with an empty session.
\<close>

theorem connect_sends_hello:
  assumes "ctx_handshake c = Some hs" and "ch_state hs = Disconnected" and "ctx_transport c"
    and "message_valid (HelloMsg (client_hello hs))" and "accepts (RakNet_Send code t)"
    and "HandleConnectionEvent (RakNet_Send code t) EventConnected (h, c) = (h1, c1)"
  shows "raw_sent h1 = raw_sent h @ [packet_bytes (HelloMsg (client_hello hs))] \<and>
    ctx_handshake c1 = Some (hs\<lparr>ch_state := HelloSent, ch_welcome := None, ch_rejection := None\<rparr>) \<and>
    ctx_assets c1 = map_option (\<lambda>s. s\<lparr>sys_manager := ResetSession (sys_manager s)\<rparr>) (ctx_assets c)"
proof -
  let ?h = "log_with (Info ''RakNet connection established'') h" and ?hs = "OnConnected hs"
  have hs: "?hs = hs\<lparr>ch_state := Connected, ch_welcome := None, ch_rejection := None\<rparr>"
    using assms(2) by (simp add: OnConnected_def)
  then have hello: "client_hello ?hs = client_hello hs" by (simp add: client_hello_def)
  have run: "send_hello (RakNet_Send code t) ?hs (?h, on_assets ResetSession c) = (h1, c1)"
    using assms(1,3,6) by (simp add: HandleConnectionEvent_def Let_def)
  have "raw_sent h1 = raw_sent h @ [packet_bytes (HelloMsg (client_hello hs))]"
    using raknet_host.send_hello_sent [of code t ?hs ?h "on_assets ResetSession c"] run hs hello assms(4,5) by auto
  moreover have "c1 = (on_assets ResetSession c)\<lparr>ctx_handshake := Some (snd (TakeHello ?hs))\<rparr>"
    using send_hello_context [of "RakNet_Send code t" ?hs ?h "on_assets ResetSession c"] run by simp
  moreover have "snd (TakeHello ?hs) = ?hs\<lparr>ch_state := HelloSent\<rparr>"
    using hs hello assms(4) by (simp add: TakeHello_cases)
  ultimately show ?thesis using hs by (simp add: on_assets_def)
qed

section \<open>Witnesses\<close>

definition runtime_transport :: "SampleRak RuntimeWorld SampRakNetTransport" where
  "runtime_transport = (new_RakNetTransport SampVersion_R3_1)\<lparr>rn_rakClient := 0x402000, rn_sendFunction := 0x404000,
     rn_initialized := True\<rparr>"

abbreviation sample_send :: "SampleRak Sender" where
  "sample_send \<equiv> RakNet_Send sample_code runtime_transport"

definition sample_configuration :: HandshakeConfiguration where
  "sample_configuration = \<lparr>runtimeVersion = kRuntimeVersion, sampVersion = SampVersion_R3_1, capabilities = kDeclaredCapabilities\<rparr>"

lemma sample_accepts: "accepts sample_send"
  unfolding accepts_def
proof (intro allI impI)
  fix m and h :: "SampleRak Host"
  assume m: "message_valid m"
  have "length (packet_bytes m) \<le> 2230" using packet_length [OF m] by simp
  then have "MakeRakNetRawSendBuffer (View (kRakNetPacketId # packet_bytes m)) = Some (kRakNetPacketId # packet_bytes m)"
    by (simp add: MakeRakNetRawSendBuffer_def kIntegerMax_def)
  then show "fst (sample_send (View (packet_bytes m)) h)"
    using DecodePacket_packet_bytes [OF m] Encode_packet [OF m]
    by (simp add: RakNet_Send_def runtime_transport_def sample_code_def Let_def)
qed


theorem handshake_gates_assets_witness:
  "\<exists>s :: System. ctx_assets (snd (runtime_start sample_configuration sample_cache empty_disk sample_host)) = Some s \<and>
    rx_state (mgr_receiver (sys_manager s)) = Idle \<and> GetState 7 (sys_manager s) = StateUnknown"
proof -
  obtain h c where start: "runtime_start sample_configuration sample_cache empty_disk sample_host = (h, c)" by (metis prod.exhaust)
  have "runs sample_send (range winhttp_backend) (runtime_start sample_configuration sample_cache empty_disk sample_host) 0 (h, c)"
    using runs.initial [of sample_send "range winhttp_backend" "(h, c)"] start by simp
  moreover have "ctx_handshake c = Some (new_ClientHandshake sample_configuration)"
    "ch_state (new_ClientHandshake sample_configuration) = Disconnected"
    using start by (auto simp: runtime_start_def new_ClientHandshake_def)
  ultimately show ?thesis using handshake_gates_assets [of sample_send "range winhttp_backend"] start by fastforce
qed

definition ready_context :: ProtocolContext where
  "ready_context = \<lparr>ctx_handshake = Some ((new_ClientHandshake sample_configuration)\<lparr>ch_state := Compatible\<rparr>),
     ctx_transport = True,
     ctx_assets = Some (start_system sample_cache True empty_disk \<lparr>sys_manager :=
       (new_manager sample_cache True)\<lparr>mgr_events := [asset_event EvReady 5 7 AssetErrorReason_InternalError]\<rparr>\<rparr>),
     ctx_malformedPacketLogged = False\<rparr>"

theorem results_reported_once_witness:
  "raw_sent (fst (PumpAssetResults sample_send (sample_host, ready_context))) =
    [packet_bytes (AssetReadyMsg \<lparr>ready_manifestRevision = 5, ready_assetId = 7\<rparr>)]"
proof -
  obtain h1 c1 where run: "PumpAssetResults sample_send (sample_host, ready_context) = (h1, c1)" by (metis prod.exhaust)
  let ?s = "start_system sample_cache True empty_disk \<lparr>sys_manager :=
       (new_manager sample_cache True)\<lparr>mgr_events := [asset_event EvReady 5 7 AssetErrorReason_InternalError]\<rparr>\<rparr>"
  have "reports (mgr_events (sys_manager ?s)) = [AssetReadyMsg \<lparr>ready_manifestRevision = 5, ready_assetId = 7\<rparr>]"
    by (simp add: report_of.simps asset_event_def)
  moreover have "raw_sent sample_host = []" by (simp add: raw_sent_def sample_host_def)
  moreover have "ctx_handshake ready_context = Some ((new_ClientHandshake sample_configuration)\<lparr>ch_state := Compatible\<rparr>)"
    "ch_state ((new_ClientHandshake sample_configuration)\<lparr>ch_state := Compatible\<rparr>) = Compatible"
    "ctx_assets ready_context = Some ?s" "ctx_transport ready_context" by (simp_all add: ready_context_def)
  note results_reported_once [OF this sample_accepts run]
  ultimately show ?thesis using run by simp
qed

theorem connect_sends_hello_witness:
  "raw_sent (fst (HandleConnectionEvent sample_send EventConnected
      (runtime_start sample_configuration sample_cache empty_disk sample_host))) =
    [packet_bytes (HelloMsg (client_hello (new_ClientHandshake sample_configuration)))]"
proof -
  obtain h c where start: "runtime_start sample_configuration sample_cache empty_disk sample_host = (h, c)" by (metis prod.exhaust)
  obtain h1 c1 where run: "HandleConnectionEvent sample_send EventConnected (h, c) = (h1, c1)" by (metis prod.exhaust)
  have "message_valid (HelloMsg (client_hello (new_ClientHandshake sample_configuration)))" by code_simp
  moreover have "ctx_handshake c = Some (new_ClientHandshake sample_configuration)" "ctx_transport c" "h = sample_host"
    "ch_state (new_ClientHandshake sample_configuration) = Disconnected"
    using start by (auto simp: runtime_start_def new_ClientHandshake_def)
  moreover have "raw_sent sample_host = []" by (simp add: raw_sent_def sample_host_def)
  ultimately show ?thesis using connect_sends_hello [OF _ _ _ _ sample_accepts run] start run by simp
qed

end
