(* ===== verification/RakNetInvariant.thy ===== *)
theory RakNetInvariant
  imports RakNetProperties
begin

text \<open>
  What a call of the hook keeps: a property of the world around the transport that the
  callbacks keep, and that the rest of the process cannot break, holds after the call. The
  property may count connection events; a call causes at most 66.
\<close>

locale hook_invariant =
  fixes callbacks :: "('r Host \<times> 'c) TransportCallbacks"
    and P :: "nat \<Rightarrow> 'r Host \<times> 'c \<Rightarrow> bool"
  assumes mono: "P i w \<Longrightarrow> i \<le> j \<Longrightarrow> P j w"
    and process: "P j (h, c) \<Longrightarrow> P j (h\<lparr>process := p\<rparr>, c)"
    and incoming: "cb_incoming callbacks = Some f \<Longrightarrow> P j w \<Longrightarrow> P j (f bytes w)"
    and connection: "cb_connection callbacks = Some g \<Longrightarrow> P j w \<Longrightarrow> P (j + 1) (g e w)"
    and pump: "cb_pump callbacks = Some k \<Longrightarrow> P j w \<Longrightarrow> P j (k w)"
begin

lemma on_process: "P j w \<Longrightarrow> on_process f w = (x, w') \<Longrightarrow> P j w'"
  using process by (auto simp: on_process_def split: prod.splits)

lemma notified: "P j w \<Longrightarrow> rn_callbacks t = callbacks \<Longrightarrow> P (j + 1) (notify t e w)"
  using connection mono [of j w "j + 1"] by (auto simp: notify_def split: option.split)

lemma connected:
  assumes "NotifyConnectedIfPending t w = (t', w')" and "P j w" and "rn_callbacks t = callbacks"
  shows "P (j + 1) w'"
proof -
  have "w' = w \<or> (\<exists>u. w' = notify u EventConnected w \<and> rn_callbacks u = callbacks)"
    using assms(1,3) by (auto simp: NotifyConnectedIfPending_def Let_def split: if_split_asm)
  then show ?thesis using notified [OF assms(2)] mono [OF assms(2), of "j + 1"] by auto
qed

lemma disconnected:
  assumes "NotifyDisconnected t w = (t', w')" and "P j w" and "rn_callbacks t = callbacks"
  shows "P (j + 1) w'"
proof -
  have "w' = w \<or> (\<exists>u. w' = notify u EventDisconnected w \<and> rn_callbacks u = callbacks)"
    using assms(1,3) by (auto simp: NotifyDisconnected_def Let_def split: if_split_asm)
  then show ?thesis using notified [OF assms(2)] mono [OF assms(2), of "j + 1"] by auto
qed

lemma delivered: "P j w \<Longrightarrow> rn_callbacks t = callbacks \<Longrightarrow> P j (deliver inspected packet t w)"
  using incoming by (auto simp: deliver_def RakNet_DispatchIncoming_def split: option.split)

lemma receive_loop_keeps:
  "receive_loop code self n t w = (packet, t', w') \<Longrightarrow> P j w \<Longrightarrow> rn_callbacks t = callbacks \<Longrightarrow> P (j + n + 1) w'"
proof (induction n arbitrary: t w j)
  case 0
  then show ?case using mono [of j w "j + 1"] by simp
next
  case (Suc n)
  have polled: "P (j + 1) w2 \<and> rn_callbacks (mark_pending t2) = callbacks"
    if "on_process (call_Receive code (rn_originalReceive t) self) w = (p, w1)" "NotifyConnectedIfPending t w1 = (t2, w2)"
    for p w1 t2 w2
    using connected [OF that(2) on_process [OF Suc.prems(2) that(1)] Suc.prems(3)]
      NotifyConnected_setup [OF that(2)] mark_pending_setup [of t2] Suc.prems(3)
    by (simp add: same_setup_def)
  from Suc.prems(1) show ?case
  proof (cases rule: receive_turn)
    case (1 p w1 t2 w2)
    then show ?thesis using polled [OF 1(1,2)] mono [of "j + 1" w2] by simp
  next
    case (foreign p w1 t2 w2)
    then show ?thesis using polled [OF foreign(1,2)] mono [of "j + 1" w2] by simp
  next
    case (closing p w1 t2 w2)
    note pl = polled [OF closing(1,2)]
    have "P (j + 1 + 1) w'" using disconnected [OF closing(5)] pl by blast
    then show ?thesis using mono [of "j + 1 + 1" w'] by simp
  next
    case (ours p w1 t2 w2)
    note pl = polled [OF ours(1,2)]
    have "P (j + 1) (deliver (inspect_packet (memory_of w2) p) p (mark_pending t2) w2)"
      using delivered pl by blast
    then have "P (j + 1) (snd (RakNetTransport.on_process
        (\<lambda>q. ((), call_Deallocate code (rn_deallocateFunction (mark_pending t2)) self p q))
          (deliver (inspect_packet (memory_of w2) p) p (mark_pending t2) w2)))"
      using on_process [OF _ prod.collapse [symmetric]] by blast
    then have "P (j + 1 + n + 1) w'" using Suc.IH [OF ours(6)] pl by blast
    then show ?thesis by simp
  qed
qed

lemma ReceiveHook_keeps:
  assumes call: "ReceiveHook code self t w = (packet, t', w')" and start: "P j w" and cb: "rn_callbacks t = callbacks"
  shows "P (j + 66) w'"
proof (cases "\<not> rn_active t \<or> rn_originalReceive t = 0")
  case True
  then show ?thesis using call start mono [OF start, of "j + 66"] by (simp add: ReceiveHook_def)
next
  case False
  then have "Receive code self t w = (packet, t', w')" using call by (simp add: ReceiveHook_def)
  then show ?thesis
  proof (cases rule: Receive_cases)
    case foreign
    then show ?thesis using on_process [OF start foreign(3)] mono [of j w' "j + 66"] by simp
  next
    case (own t1 w1 w2)
    have cb1: "rn_callbacks t1 = callbacks" using ObserveConnection_setup [OF own(2)] cb by (simp add: same_setup_def)
    let ?f = "call_IsConnected code (rn_isConnectedFunction t) self"
    obtain b v where o: "RakNetTransport.on_process ?f w = (b, v)" by (metis prod.exhaust)
    have v: "P j v" using on_process [OF start o] .
    have "w1 = v \<or> (\<exists>u. w1 = notify u EventDisconnected v \<and> rn_callbacks u = callbacks)"
      using own(2) o cb by (auto simp: ObserveConnection_def Let_def split: if_split_asm)
    then have w1: "P (j + 1) w1" using notified [OF v] mono [OF v, of "j + 1"] by auto
    have "w2 = w1 \<or> (\<exists>k. cb_pump callbacks = Some k \<and> w2 = k w1)"
      unfolding own(3) cb1 by (auto split: option.split)
    then have "P (j + 1) w2" using w1 pump [OF _ w1] by auto
    from receive_loop_keeps [OF own(4) this cb1] show ?thesis
      by (simp add: kMaximumConsumedPacketsPerCall_def add.commute)
  qed
qed

end

end
