(* ===== verification/RuntimeLifecycle.thy ===== *)
theory RuntimeLifecycle
  imports RuntimeProperties RakNetInvariant
begin

text \<open>
  The client's life, the second half of \<^verbatim>\<open>client/src/core/runtime.cpp\<close>: initialisation,
  which composes the module lookup, the handshake, the asset manager and the transport, the
  calls of the game, and the shutdown under the loader lock.
\<close>

section \<open>Definitions\<close>

datatype RuntimeState = RuntimeDormant | RuntimeInitializing | RuntimeReady | RuntimeDisabled | RuntimeShuttingDown

text \<open>
  The process's one client. The selected transport is \<open>None\<close> when it is the unavailable
  one; the disk is here as long as no asset manager owns it.
\<close>

record 'r Client =
  cl_state :: RuntimeState
  cl_host :: "'r Host"
  cl_context :: ProtocolContext
  cl_transport :: "'r RuntimeWorld SampRakNetTransport option"
  cl_disk :: Disk

definition no_context :: ProtocolContext where
  "no_context = \<lparr>ctx_handshake = None, ctx_transport = False, ctx_assets = None, ctx_malformedPacketLogged = False\<rparr>"

definition compare_exchange :: "RuntimeState \<Rightarrow> RuntimeState \<Rightarrow> 'r Client \<Rightarrow> 'r Client" where
  "compare_exchange expected desired cl = (if cl_state cl = expected then cl\<lparr>cl_state := desired\<rparr> else cl)"

definition cl_log :: "(Logger \<Rightarrow> Logger) \<Rightarrow> 'r Client \<Rightarrow> 'r Client" where
  "cl_log f cl = cl\<lparr>cl_host := log_with f (cl_host cl)\<rparr>"

definition RuntimeHex :: "u32 \<Rightarrow> string" where
  "RuntimeHex value = ''0x'' @ digits_in 16 (unat value)"

definition ModuleDirectory :: "path option \<Rightarrow> path" where
  "ModuleDirectory module = (case module of None \<Rightarrow> [] | Some p \<Rightarrow> butlast p)"

definition Disable :: "string \<Rightarrow> 'r Client \<Rightarrow> 'r Client" where
  "Disable reason cl =
    compare_exchange RuntimeInitializing RuntimeDisabled
      (cl_log (Info ''custom model functionality disabled'') (cl_log (Info reason) cl))"

definition transport_available :: "'w SampRakNetTransport option \<Rightarrow> bool" where
  "transport_available t = (case t of None \<Rightarrow> NoTransport_IsAvailable | Some t \<Rightarrow> RakNet_IsAvailable t)"

text \<open>The asset manager exists after this when the transport can be used and its cache can.\<close>

definition create_assets :: "path option \<Rightarrow> bool \<Rightarrow> 'r Client \<Rightarrow> 'r Client" where
  "create_assets module backend cl =
    (if \<not> transport_available (cl_transport cl) then cl
     else
       let directory = ModuleDirectory module
       in if directory = [] \<or> \<not> backend then cl
          else case manager_Initialize (start_system \<lparr>root = directory @ [''CustomModel'', ''cache'']\<rparr> True (cl_disk cl)) of
            (True, s) \<Rightarrow> cl\<lparr>cl_context := (cl_context cl)\<lparr>ctx_assets := Some s\<rparr>\<rparr>
          | (False, s) \<Rightarrow> cl_log (Error ''asset subsystem initialization failed'') (cl\<lparr>cl_disk := sys_disk s\<rparr>))"

text \<open>
  The callbacks are functions of the program; the transport they send through is the one
  the context points to when they run, so the model takes its current state.
\<close>

definition callbacks_of :: "'r RakCode \<Rightarrow> 'r RuntimeWorld SampRakNetTransport \<Rightarrow> 'r RuntimeWorld TransportCallbacks" where
  "callbacks_of code t = runtime_callbacks (RakNet_Send code t)"

definition initialize_transport :: "'r RakCode \<Rightarrow> 'r Client \<Rightarrow> bool \<times> 'r Client" where
  "initialize_transport code cl =
    (case cl_transport cl of
       None \<Rightarrow> (fst (NoTransport_Initialize (no_callbacks :: 'r RuntimeWorld TransportCallbacks) (cl_host cl)), cl)
     | Some t \<Rightarrow>
         (case RakNet_Initialize code (callbacks_of code t) t (cl_host cl) of
            (ok, t, h) \<Rightarrow> (ok, cl\<lparr>cl_transport := Some t, cl_host := h\<rparr>)))"

definition shutdown_transport :: "'r RakCode \<Rightarrow> 'r Client \<Rightarrow> 'r Client" where
  "shutdown_transport code cl =
    (case cl_transport cl of
       None \<Rightarrow> cl
     | Some t \<Rightarrow> (case RakNet_Shutdown code t (cl_host cl) of (t, h) \<Rightarrow> cl\<lparr>cl_transport := Some t, cl_host := h\<rparr>))"

text \<open>
  Giving up on the transport. The manager that is stopped and deleted here has an empty
  queue, so that its worker returns without touching the disk.
\<close>

definition without_transport :: "'r RakCode \<Rightarrow> 'r Client \<Rightarrow> 'r Client" where
  "without_transport code cl =
    (let cl = shutdown_transport code (cl_log (Info ''SA-MP transport unavailable for this build'') cl)
     in cl\<lparr>cl_disk := (case ctx_assets (cl_context cl) of None \<Rightarrow> cl_disk cl | Some s \<Rightarrow> sys_disk s),
           cl_context := (cl_context cl)\<lparr>ctx_transport := False, ctx_assets := None\<rparr>\<rparr>)"

definition start_protocol :: "'r RakCode \<Rightarrow> path option \<Rightarrow> bool \<Rightarrow> SampVersion \<Rightarrow> 'r Client \<Rightarrow> 'r Client" where
  "start_protocol code module backend version cl =
    (let cl = cl\<lparr>cl_transport := FindRakNetTransport version,
           cl_context := (cl_context cl)\<lparr>ctx_handshake := Some (new_ClientHandshake
             \<lparr>runtimeVersion = kRuntimeVersion, sampVersion = version, capabilities = kDeclaredCapabilities\<rparr>),
             ctx_transport := True\<rparr>\<rparr>;
         cl = create_assets module backend cl
     in if \<not> transport_available (cl_transport cl) \<or> ctx_assets (cl_context cl) = None
        then without_transport code cl
        else case initialize_transport code cl of
          (True, cl) \<Rightarrow> cl
        | (False, cl) \<Rightarrow> without_transport code cl)"

definition InitializeImpl :: "'r RakCode \<Rightarrow> path option \<Rightarrow> bool \<Rightarrow> 'r Client \<Rightarrow> 'r Client" where
  "InitializeImpl code module backend cl =
    (let cl = cl_log (Info ''initializing'') (cl_log (\<lambda>l. snd (Open module l)) cl)
     in if cl_state cl \<noteq> RuntimeInitializing then cl
     else case FindLoadedModule (space (process (cl_host cl))) ''samp.dll'' of
       Inl error \<Rightarrow> Disable ''unsupported SA-MP build'' (cl_log (Error (''samp.dll detection failed: '' @ error)) cl)
     | Inr m \<Rightarrow>
         let cl = cl_log (Info (''samp.dll PE entry point RVA: '' @ RuntimeHex (module_entryPointRva m)))
               (cl_log (Info (''samp.dll base: '' @ RuntimeHex (base m))) (cl_log (Info ''samp.dll found'') cl))
         in if \<not> isPe32 m then Disable ''unsupported non-PE32 samp.dll'' cl
         else case FindSampBuild_entryPoint (module_entryPointRva m) of
           None \<Rightarrow> Disable ''unsupported SA-MP build'' cl
         | Some build \<Rightarrow>
             let cl = cl_log (Info (build_name build @ '' detected'')) cl
             in case FindCompatibility (build_version build) of
               None \<Rightarrow> Disable ''no compatibility registry entry for the detected SA-MP build'' cl
             | Some compatibility \<Rightarrow>
                 compare_exchange RuntimeInitializing RuntimeReady
                   (start_protocol code module backend (build_version build)
                     (cl_log (Info ''CustomModel protocol initialized'') (cl_log (Info ''compatibility layer initialized'') cl))))"

definition Initialize :: "'r RakCode \<Rightarrow> path option \<Rightarrow> bool \<Rightarrow> 'r Client \<Rightarrow> 'r Client" where
  "Initialize code module backend cl =
    (if cl_state cl \<noteq> RuntimeDormant then cl
     else InitializeImpl code module backend (cl\<lparr>cl_state := RuntimeInitializing\<rparr>))"

definition RequestShutdownFromLoaderLock :: "'r RakCode \<Rightarrow> 'r Client \<Rightarrow> 'r Client" where
  "RequestShutdownFromLoaderLock code cl =
    (let cl = cl\<lparr>cl_state := RuntimeShuttingDown\<rparr>;
         cl = (if ctx_transport (cl_context cl) then shutdown_transport code cl else cl);
         c = (cl_context cl)\<lparr>ctx_transport := False\<rparr>
     in cl\<lparr>cl_context := on_assets RequestStop (c\<lparr>ctx_handshake := map_option OnDisconnected (ctx_handshake c)\<rparr>)\<rparr>)"

text \<open>
  The entry point of the library. The initialisation runs on a thread of its own, when it
  could be created; the log closes with the process unless another thread holds its lock.
\<close>

datatype DllReason = DLL_PROCESS_ATTACH | DLL_PROCESS_DETACH | DLL_OTHER

definition DllMain :: "'r RakCode \<Rightarrow> DllReason \<Rightarrow> bool \<Rightarrow> bool \<Rightarrow> 'r Client \<Rightarrow> bool \<times> 'r Client" where
  "DllMain code reason scheduled lockTaken cl =
    (case reason of
       DLL_PROCESS_ATTACH \<Rightarrow>
         (True, if scheduled then cl
           else cl_log (OutputDebugString (''[CustomModel] failed to schedule initialization'' @ [char_of (10 :: nat)])) cl)
     | DLL_PROCESS_DETACH \<Rightarrow> (True, cl_log (ShutdownFromLoaderLock lockTaken) (RequestShutdownFromLoaderLock code cl))
     | DLL_OTHER \<Rightarrow> (True, cl))"

text \<open>The game calls the method table entry the transport has hooked.\<close>

definition current :: "'r RakCode \<Rightarrow> 'r RuntimeWorld SampRakNetTransport \<Rightarrow> 'r RuntimeWorld SampRakNetTransport" where
  "current code t = (if cb_incoming (rn_callbacks t) = None then t else t\<lparr>rn_callbacks := callbacks_of code t\<rparr>)"

definition game_receives :: "'r RakCode \<Rightarrow> u32 \<Rightarrow> 'r Client \<Rightarrow> u32 \<times> 'r Client" where
  "game_receives code self cl =
    (case cl_transport cl of
       None \<Rightarrow> (0, cl)
     | Some t \<Rightarrow>
         (case ReceiveHook code self (current code t) (cl_host cl, cl_context cl) of
            (packet, t, h, c) \<Rightarrow> (packet, cl\<lparr>cl_transport := Some t, cl_host := h, cl_context := c\<rparr>)))"

section \<open>The life of the client\<close>

text \<open>What can happen to the client once it exists, and a sequence of it.\<close>

datatype ClientAction = GameReceives u32 | WorkerTurns Fetch | Detaches bool | Initializes "path option" bool

fun client_action :: "'r RakCode \<Rightarrow> ClientAction \<Rightarrow> 'r Client \<Rightarrow> 'r Client" where
  "client_action code (GameReceives self) cl = snd (game_receives code self cl)"
| "client_action code (WorkerTurns fetch) cl =
     (case ctx_assets (cl_context cl) of
        None \<Rightarrow> cl
      | Some s \<Rightarrow> (case worker_turn fetch s of
            None \<Rightarrow> cl
          | Some s' \<Rightarrow> cl\<lparr>cl_context := (cl_context cl)\<lparr>ctx_assets := Some s'\<rparr>\<rparr>))"
| "client_action code (Detaches lockTaken) cl = snd (DllMain code DLL_PROCESS_DETACH False lockTaken cl)"
| "client_action code (Initializes module backend) cl = Initialize code module backend cl"

definition new_client :: "'r Host \<Rightarrow> Disk \<Rightarrow> 'r Client" where
  "new_client h d = \<lparr>cl_state = RuntimeDormant, cl_host = h, cl_context = no_context, cl_transport = None, cl_disk = d\<rparr>"


lemma cl_log_fields [simp]:
  "cl_state (cl_log f cl) = cl_state cl" "cl_context (cl_log f cl) = cl_context cl" "cl_transport (cl_log f cl) = cl_transport cl"
  "cl_disk (cl_log f cl) = cl_disk cl" "process (cl_host (cl_log f cl)) = process (cl_host cl)"
  "raw_sends (cl_host (cl_log f cl)) = raw_sends (cl_host cl)"
  by (simp_all add: cl_log_def log_with_def)

lemma compare_exchange_fields [simp]:
  "cl_host (compare_exchange a b cl) = cl_host cl" "cl_context (compare_exchange a b cl) = cl_context cl"
  "cl_transport (compare_exchange a b cl) = cl_transport cl" "cl_disk (compare_exchange a b cl) = cl_disk cl"
  "cl_state (compare_exchange a b cl) = (if cl_state cl = a then b else cl_state cl)"
  by (simp_all add: compare_exchange_def)

lemma Disable_fields [simp]:
  "cl_context (Disable reason cl) = cl_context cl" "cl_transport (Disable reason cl) = cl_transport cl"
  "cl_state (Disable reason cl) = (if cl_state cl = RuntimeInitializing then RuntimeDisabled else cl_state cl)"
  "raw_sends (cl_host (Disable reason cl)) = raw_sends (cl_host cl)"
  by (simp_all add: Disable_def)

section \<open>Starting the protocol\<close>

lemma InstallReceiveHook_setup:
  assumes "InstallReceiveHook code t p = (ok, t', p')"
  shows "rn_callbacks t' = rn_callbacks t \<and> rn_initialized t' = rn_initialized t \<and> rn_rakClient t' = rn_rakClient t"
  using assms by (auto simp: InstallReceiveHook_def Let_def split: if_splits prod.splits option.splits)

lemma hook_client_setup:
  assumes run: "hook_client code c t h = (True, t', h')"
  shows "rn_callbacks t' = rn_callbacks t \<and> rn_initialized t'"
proof -
  obtain t1 p1 where r: "resolve_loop code c kResolveAttempts t (process h) = (t1, p1)" by (metis prod.exhaust)
  have cb: "rn_callbacks t1 = rn_callbacks t" using resolve_loop_cases [OF r] found_client_fields(3) by auto
  let ?t = "t1\<lparr>rn_initialized := True\<rparr>"
  obtain ok t2 p2 where i: "InstallReceiveHook code ?t p1 = (ok, t2, p2)" by (metis prod.exhaust)
  have found: "rn_rakClient t1 \<noteq> 0"
    using run by (auto simp: hook_client_def r Let_def split: if_splits prod.splits)
  then have "ok \<and> t' = t2"
    using run by (cases ok) (auto simp: hook_client_def r i Let_def split: prod.splits)
  then show ?thesis using InstallReceiveHook_setup [OF i] cb by simp
qed

lemma RakNet_Initialize_setup:
  assumes "RakNet_Initialize code callbacks t h = (True, t', h')"
  shows "rn_callbacks t' = callbacks \<and> rn_initialized t'"
  using RakNet_Initialize_cases [of code callbacks t h]
proof cases
  case (2 m compatibility)
  then have "hook_client code compatibility (t\<lparr>rn_module := m, rn_callbacks := callbacks\<rparr>) h = (True, t', h')"
    using assms by simp
  from hook_client_setup [OF this] show ?thesis by simp
qed (use assms in simp)

lemma create_assets_cases:
  obtains (none) l where "create_assets module backend cl = cl\<lparr>cl_host := l, cl_disk := cl_disk (create_assets module backend cl)\<rparr>"
      "process l = process (cl_host cl)" "raw_sends l = raw_sends (cl_host cl)"
  | (created) cache where "create_assets module backend cl = cl\<lparr>cl_context := (cl_context cl)\<lparr>ctx_assets :=
      Some (snd (manager_Initialize (start_system cache True (cl_disk cl))))\<rparr>\<rparr>" "root cache = ModuleDirectory module @ [''CustomModel'', ''cache'']"
proof -
  let ?cache = "\<lparr>root = ModuleDirectory module @ [''CustomModel'', ''cache'']\<rparr>"
  obtain ok s where m: "manager_Initialize (start_system ?cache True (cl_disk cl)) = (ok, s)" by (metis prod.exhaust)
  consider "create_assets module backend cl = cl" | "create_assets module backend cl = cl\<lparr>cl_context := (cl_context cl)\<lparr>ctx_assets := Some s\<rparr>\<rparr>"
    | "create_assets module backend cl = cl_log (Error ''asset subsystem initialization failed'') (cl\<lparr>cl_disk := sys_disk s\<rparr>)"
  proof -
    have "create_assets module backend cl =
        (if \<not> transport_available (cl_transport cl) \<or> ModuleDirectory module = [] \<or> \<not> backend then cl
         else if ok then cl\<lparr>cl_context := (cl_context cl)\<lparr>ctx_assets := Some s\<rparr>\<rparr>
         else cl_log (Error ''asset subsystem initialization failed'') (cl\<lparr>cl_disk := sys_disk s\<rparr>))"
      using m by (cases ok) (simp_all add: create_assets_def Let_def)
    then show thesis using that by (metis (full_types))
  qed
  then show thesis
  proof cases
    case 1
    then show thesis by (intro none [of "cl_host cl"]) simp_all
  next
    case 2
    then show thesis by (intro created [of ?cache]) (simp_all add: m)
  next
    case 3
    then show thesis
      by (intro none [of "log_with (Error ''asset subsystem initialization failed'') (cl_host cl)"])
        (simp_all add: cl_log_def log_with_def)
  qed
qed


text \<open>A transport has all the runtime's callbacks or none.\<close>

definition wired :: "'w SampRakNetTransport \<Rightarrow> bool" where
  "wired t \<longleftrightarrow> rn_callbacks t = no_callbacks \<or> cb_incoming (rn_callbacks t) \<noteq> None"

lemma RestoreReceiveHook_setup:
  assumes "RestoreReceiveHook code t p = (ok, t', p')"
  shows "rn_callbacks t' = rn_callbacks t"
  using assms by (auto simp: RestoreReceiveHook_def Let_def split: if_splits prod.splits option.splits)

lemma RakNet_Shutdown_setup:
  assumes "RakNet_Shutdown code t h = (t', h')"
  shows "rn_callbacks t' \<in> {rn_callbacks t, no_callbacks}" and "raw_sends h' = raw_sends h"
proof -
  obtain ok u p where r: "RestoreReceiveHook code t (process h) = (ok, u, p)" by (metis prod.exhaust)
  show "rn_callbacks t' \<in> {rn_callbacks t, no_callbacks}" "raw_sends h' = raw_sends h"
    using assms RestoreReceiveHook_setup [OF r] by (cases ok; auto simp: RakNet_Shutdown_def r)+
qed

lemma hook_client_wired:
  assumes run: "hook_client code c t h = (ok, t', h')"
  shows "rn_callbacks t' \<in> {rn_callbacks t, no_callbacks}" and "raw_sends h' = raw_sends h"
proof -
  obtain t1 p1 where r: "resolve_loop code c kResolveAttempts t (process h) = (t1, p1)" by (metis prod.exhaust)
  have cb: "rn_callbacks t1 = rn_callbacks t" using resolve_loop_cases [OF r] found_client_fields(3) by auto
  let ?t = "t1\<lparr>rn_initialized := rn_rakClient t1 \<noteq> 0\<rparr>" and ?h = "h\<lparr>process := p1\<rparr>"
  obtain t2 h2 where s1: "RakNet_Shutdown code ?t ?h = (t2, h2)" by (metis prod.exhaust)
  obtain hooked t3 p3 where i: "InstallReceiveHook code ?t p1 = (hooked, t3, p3)" by (metis prod.exhaust)
  obtain t4 h4 where s2: "RakNet_Shutdown code t3 (h\<lparr>process := p3\<rparr>) = (t4, h4)" by (metis prod.exhaust)
  have run': "(if rn_rakClient t1 = 0 then (False, t2, h2)
      else if \<not> hooked then (False, t4, h4)
      else (True, t3, h\<lparr>process := p3, host_log := Info ''transport initialized'' (Info ''RakClient resolved'' (host_log h))\<rparr>)) = (ok, t', h')"
    using run r s1 i s2 by (cases hooked) (simp_all add: hook_client_def Let_def split: if_splits)
  show "rn_callbacks t' \<in> {rn_callbacks t, no_callbacks}" "raw_sends h' = raw_sends h"
    using run' cb RakNet_Shutdown_setup [OF s1] RakNet_Shutdown_setup [OF s2] InstallReceiveHook_setup [OF i]
    by (auto split: if_split_asm)
qed

lemma RakNet_Initialize_wired:
  assumes "RakNet_Initialize code callbacks t h = (ok, t', h')" and "wired t"
  shows "wired t' \<and> raw_sends h' = raw_sends h"
  using RakNet_Initialize_cases [of code callbacks t h]
proof cases
  case (2 m compatibility)
  then have "hook_client code compatibility (t\<lparr>rn_module := m, rn_callbacks := callbacks\<rparr>) h = (ok, t', h')"
    using assms by simp
  from hook_client_wired [OF this] show ?thesis using 2(1) by (auto simp: wired_def)
qed (use assms in simp)

definition client_wired :: "'r Client \<Rightarrow> bool" where
  "client_wired cl \<longleftrightarrow> (\<forall>t. cl_transport cl = Some t \<longrightarrow> wired t)"

lemma shutdown_transport_fields:
  "cl_state (shutdown_transport code cl) = cl_state cl" "cl_context (shutdown_transport code cl) = cl_context cl"
  "cl_disk (shutdown_transport code cl) = cl_disk cl"
  "raw_sends (cl_host (shutdown_transport code cl)) = raw_sends (cl_host cl)"
  "client_wired cl \<Longrightarrow> client_wired (shutdown_transport code cl)"
proof -
  show "cl_state (shutdown_transport code cl) = cl_state cl" "cl_context (shutdown_transport code cl) = cl_context cl"
    "cl_disk (shutdown_transport code cl) = cl_disk cl"
    by (simp_all add: shutdown_transport_def split: option.split prod.split)
  show "raw_sends (cl_host (shutdown_transport code cl)) = raw_sends (cl_host cl)"
    using RakNet_Shutdown_setup(2) by (auto simp: shutdown_transport_def split: option.split prod.split)
  show "client_wired cl \<Longrightarrow> client_wired (shutdown_transport code cl)"
    using RakNet_Shutdown_setup(1) by (fastforce simp: shutdown_transport_def client_wired_def wired_def split: option.split prod.split)
qed

lemma without_transport_fields:
  "cl_state (without_transport code cl) = cl_state cl" "ctx_transport (cl_context (without_transport code cl)) = False"
  "ctx_assets (cl_context (without_transport code cl)) = None"
  "ctx_handshake (cl_context (without_transport code cl)) = ctx_handshake (cl_context cl)"
  "raw_sends (cl_host (without_transport code cl)) = raw_sends (cl_host cl)"
  "client_wired cl \<Longrightarrow> client_wired (without_transport code cl)"
  using shutdown_transport_fields(5) [of "cl_log (Info ''SA-MP transport unavailable for this build'') cl" code]
  by (simp_all add: without_transport_def Let_def shutdown_transport_fields client_wired_def)


definition runtime_configuration :: "SampVersion \<Rightarrow> HandshakeConfiguration" where
  "runtime_configuration version =
    \<lparr>runtimeVersion = kRuntimeVersion, sampVersion = version, capabilities = kDeclaredCapabilities\<rparr>"

text \<open>The client runs: its transport is hooked and its context is the runtime's first one.\<close>

definition started :: "'r RakCode \<Rightarrow> path option \<Rightarrow> SampVersion \<Rightarrow> Disk \<Rightarrow> 'r Client \<Rightarrow> bool" where
  "started code module version disk cl \<longleftrightarrow>
    (\<exists>t cache. cl_transport cl = Some t \<and> rn_initialized t \<and> cb_incoming (rn_callbacks t) \<noteq> None \<and>
       root cache = ModuleDirectory module @ [''CustomModel'', ''cache''] \<and>
       (cl_host cl, cl_context cl) = runtime_start (runtime_configuration version) cache disk (cl_host cl))"

lemma initialize_transport_cases:
  assumes "initialize_transport code cl = (ok, cl')" and "client_wired cl"
  shows "cl_context cl' = cl_context cl" and "cl_state cl' = cl_state cl" and "client_wired cl'"
    and "raw_sends (cl_host cl') = raw_sends (cl_host cl)"
    and "ok \<Longrightarrow> \<exists>t. cl_transport cl' = Some t \<and> rn_initialized t \<and> cb_incoming (rn_callbacks t) \<noteq> None"
proof -
  have "cl_context cl' = cl_context cl \<and> cl_state cl' = cl_state cl \<and> client_wired cl' \<and>
    raw_sends (cl_host cl') = raw_sends (cl_host cl) \<and>
    (ok \<longrightarrow> (\<exists>t. cl_transport cl' = Some t \<and> rn_initialized t \<and> cb_incoming (rn_callbacks t) \<noteq> None))"
  proof (cases "cl_transport cl")
    case None
    then show ?thesis using assms by (simp add: initialize_transport_def NoTransport_Initialize_def)
  next
    case (Some t)
    obtain b u h where i: "RakNet_Initialize code (callbacks_of code t) t (cl_host cl) = (b, u, h)" by (metis prod.exhaust)
    have cl': "ok = b" "cl' = cl\<lparr>cl_transport := Some u, cl_host := h\<rparr>"
      using assms(1) by (simp_all add: initialize_transport_def Some i)
    have "wired t" using assms(2) Some by (simp add: client_wired_def)
    note w = RakNet_Initialize_wired [OF i this]
    have "b \<Longrightarrow> rn_callbacks u = callbacks_of code t \<and> rn_initialized u"
      using RakNet_Initialize_setup [of code "callbacks_of code t" t "cl_host cl" u h] i by simp
    then show ?thesis using cl' w by (auto simp: client_wired_def callbacks_of_def runtime_callbacks_def)
  qed
  then show "cl_context cl' = cl_context cl" "cl_state cl' = cl_state cl" "client_wired cl'"
    "raw_sends (cl_host cl') = raw_sends (cl_host cl)"
    "ok \<Longrightarrow> \<exists>t. cl_transport cl' = Some t \<and> rn_initialized t \<and> cb_incoming (rn_callbacks t) \<noteq> None" by blast+
qed

lemma new_transport_wired: "FindRakNetTransport version = Some t \<Longrightarrow> wired t"
  by (auto simp: FindRakNetTransport_def new_RakNetTransport_def wired_def split: if_split_asm)

lemma start_protocol_cases:
  assumes run: "start_protocol code module backend version cl = cl'" and fresh: "cl_context cl = no_context"
  shows "cl_state cl' = cl_state cl" and "client_wired cl'" and "raw_sends (cl_host cl') = raw_sends (cl_host cl)"
    and "ctx_handshake (cl_context cl') = Some (new_ClientHandshake (runtime_configuration version))"
    and "if ctx_transport (cl_context cl') then started code module version (cl_disk cl) cl'
      else ctx_assets (cl_context cl') = None"
proof -
  let ?hs = "new_ClientHandshake (runtime_configuration version)"
  let ?one = "cl\<lparr>cl_transport := FindRakNetTransport version,
    cl_context := (cl_context cl)\<lparr>ctx_handshake := Some ?hs, ctx_transport := True\<rparr>\<rparr>"
  have wired: "client_wired ?one" using new_transport_wired by (auto simp: client_wired_def)
  define two where "two = create_assets module backend ?one"
  have two: "cl_state two = cl_state cl \<and> client_wired two \<and> raw_sends (cl_host two) = raw_sends (cl_host cl) \<and>
      ctx_handshake (cl_context two) = Some ?hs \<and>
      (ctx_assets (cl_context two) = None \<or>
        (\<exists>cache. cl_context two = snd (runtime_start (runtime_configuration version) cache (cl_disk cl) (cl_host cl)) \<and>
          root cache = ModuleDirectory module @ [''CustomModel'', ''cache'']))"
  proof (cases rule: create_assets_cases [of module backend ?one])
    case (none l)
    have "ctx_assets (cl_context two) = None" "cl_state two = cl_state cl" "cl_transport two = cl_transport ?one"
      "cl_host two = l" "ctx_handshake (cl_context two) = Some ?hs"
      unfolding two_def by (subst none(1), simp add: fresh no_context_def)+
    then show ?thesis using none(3) wired by (simp add: client_wired_def)
  next
    case (created cache)
    have "cl_context two = snd (runtime_start (runtime_configuration version) cache (cl_disk cl) (cl_host cl))"
      "cl_state two = cl_state cl" "cl_transport two = cl_transport ?one"
      "cl_host two = cl_host cl" "ctx_handshake (cl_context two) = Some ?hs"
      unfolding two_def created(1) by (simp_all add: fresh no_context_def runtime_start_def)
    then show ?thesis using created(2) wired by (auto simp: client_wired_def)
  qed
  have run': "(if \<not> transport_available (cl_transport two) \<or> ctx_assets (cl_context two) = None then without_transport code two
      else case initialize_transport code two of (True, cl) \<Rightarrow> cl | (False, cl) \<Rightarrow> without_transport code cl) = cl'"
    using run unfolding start_protocol_def two_def runtime_configuration_def Let_def .
  obtain ok three where i: "initialize_transport code two = (ok, three)" by (metis prod.exhaust)
  have w2: "client_wired two" using two by simp
  note three = initialize_transport_cases [OF i w2]
  have "cl_state cl' = cl_state cl \<and> client_wired cl' \<and> raw_sends (cl_host cl') = raw_sends (cl_host cl) \<and>
    ctx_handshake (cl_context cl') = Some ?hs \<and>
    (if ctx_transport (cl_context cl') then started code module version (cl_disk cl) cl'
      else ctx_assets (cl_context cl') = None)"
  proof (cases "\<not> transport_available (cl_transport two) \<or> ctx_assets (cl_context two) = None")
    case True
    then have "cl' = without_transport code two" using run' by simp
    then show ?thesis using two without_transport_fields [where code = code and cl = two] by simp
  next
    case usable: False
    show ?thesis
    proof (cases ok)
      case True
      then have cl': "cl' = three" using run' usable by (auto simp: i)
      obtain cache where c: "cl_context two = snd (runtime_start (runtime_configuration version) cache (cl_disk cl) (cl_host cl))"
        "root cache = ModuleDirectory module @ [''CustomModel'', ''cache'']" using two usable by blast
      have "started code module version (cl_disk cl) cl'"
        using three(1,5) True c unfolding started_def cl' by (auto simp: runtime_start_def)
      then show ?thesis using two three cl' c(1) by (simp add: runtime_start_def)
    next
      case False
      then have "cl' = without_transport code three" using run' usable by (auto simp: i)
      then show ?thesis using two three without_transport_fields [where code = code and cl = three] by simp
    qed
  qed
  then show "cl_state cl' = cl_state cl" "client_wired cl'" "raw_sends (cl_host cl') = raw_sends (cl_host cl)"
    "ctx_handshake (cl_context cl') = Some ?hs"
    "if ctx_transport (cl_context cl') then started code module version (cl_disk cl) cl'
      else ctx_assets (cl_context cl') = None" by blast+
qed


text \<open>A build of the table is always in the compatibility registry.\<close>

lemma known_build_compatible: "FindSampBuild_entryPoint rva = Some b \<Longrightarrow> FindCompatibility (build_version b) \<noteq> None"
  using compatibility_covers_builds [of b] by (auto simp: FindSampBuild_entryPoint_def find_Some_iff)

lemma InitializeImpl_cases:
  fixes cl :: "'r Client" and code module backend
  assumes "cl_state cl = RuntimeInitializing" and "cl_context cl = no_context"
  defines "after \<equiv> InitializeImpl code module backend cl"
  obtains (disabled) "cl_state after = RuntimeDisabled" "cl_context after = no_context" "cl_transport after = cl_transport cl"
      "raw_sends (cl_host after) = raw_sends (cl_host cl)"
      "\<nexists>m b. FindLoadedModule (space (process (cl_host cl))) ''samp.dll'' = Inr m \<and> isPe32 m \<and>
        FindSampBuild_entryPoint (module_entryPointRva m) = Some b"
  | (ready) m b cl1 where "FindLoadedModule (space (process (cl_host cl))) ''samp.dll'' = Inr m" "isPe32 m"
      "FindSampBuild_entryPoint (module_entryPointRva m) = Some b"
      "after = compare_exchange RuntimeInitializing RuntimeReady (start_protocol code module backend (build_version b) cl1)"
      "cl_state cl1 = RuntimeInitializing" "cl_context cl1 = no_context" "cl_disk cl1 = cl_disk cl"
      "raw_sends (cl_host cl1) = raw_sends (cl_host cl)" "process (cl_host cl1) = process (cl_host cl)"
proof (cases "FindLoadedModule (space (process (cl_host cl))) ''samp.dll''")
  case (Inl e)
  then show thesis
    by (intro disabled) (simp_all add: after_def InitializeImpl_def assms Let_def)
next
  case (Inr m)
  consider "\<not> isPe32 m" | "isPe32 m" "FindSampBuild_entryPoint (module_entryPointRva m) = None"
    | b where "isPe32 m" "FindSampBuild_entryPoint (module_entryPointRva m) = Some b" by fastforce
  then show thesis
  proof cases
    case 1
    then show thesis using Inr by (intro disabled) (simp_all add: after_def InitializeImpl_def assms Let_def)
  next
    case 2
    then show thesis using Inr by (intro disabled) (simp_all add: after_def InitializeImpl_def assms Let_def)
  next
    case (3 b)
    obtain c where "FindCompatibility (build_version b) = Some c" using known_build_compatible [OF 3(2)] by blast
    then show thesis
      by (intro ready [OF Inr 3]) (use Inr 3 in \<open>simp add: after_def InitializeImpl_def assms Let_def\<close>, simp_all add: assms)
  qed
qed

lemma Initialize_started:
  fixes code module backend and h :: "'r Host" and d
  defines "cl \<equiv> Initialize code module backend (new_client h d)"
  assumes "ctx_transport (cl_context cl)"
  shows "\<exists>version. started code module version d cl"
proof -
  let ?new = "(new_client h d :: 'r Client)\<lparr>cl_state := RuntimeInitializing\<rparr>"
  have cl: "cl = InitializeImpl code module backend ?new" by (simp add: cl_def Initialize_def new_client_def)
  have f: "cl_state ?new = RuntimeInitializing" "cl_context ?new = no_context" by (simp_all add: new_client_def)
  from f show ?thesis
  proof (cases rule: InitializeImpl_cases [where code = code and module = module and backend = backend])
    case disabled
    then show ?thesis using assms(2) cl by (simp add: no_context_def)
  next
    case (ready m b cl1)
    note p = start_protocol_cases(5) [OF refl ready(6), of code module backend "build_version b"]
    have "ctx_transport (cl_context (start_protocol code module backend (build_version b) cl1))"
      using assms(2) by (simp add: cl ready(4))
    then have "started code module (build_version b) d (start_protocol code module backend (build_version b) cl1)"
      using p ready(7) by (simp add: new_client_def)
    then have "started code module (build_version b) d cl" by (simp add: cl ready(4) started_def)
    then show ?thesis by blast
  qed
qed


end
