(* ===== verification/RuntimeShutdown.thy ===== *)
theory RuntimeShutdown
  imports RuntimeLifecycle
begin

text \<open>
  The client inside the game, from its initialisation on: what the game's calls through the
  hook and the worker do is a run of the runtime's callbacks, and nothing is sent after the
  shutdown.
\<close>

section \<open>A call of the hook is a run of callbacks\<close>

definition within_runs :: "'r Sender \<Rightarrow> Fetch set \<Rightarrow> 'r RuntimeWorld \<Rightarrow> nat \<Rightarrow> 'r RuntimeWorld \<Rightarrow> bool" where
  "within_runs send backends w0 j w \<longleftrightarrow> (\<exists>i \<le> j. runs send backends w0 i w)"

lemma within_runs_call:
  assumes "within_runs send backends w0 j w"
  shows "within_runs send backends w0 (j + connection_steps call) (runtime_call send call w)"
proof -
  obtain i where i: "i \<le> j" "runs send backends w0 i w" using assms by (auto simp: within_runs_def)
  from runs.callback [OF i(2), of call] i(1) show ?thesis
    unfolding within_runs_def by (intro exI [of _ "i + connection_steps call"]) simp
qed

interpretation run_of_hook: hook_invariant "runtime_callbacks send" "within_runs send backends w0"
  for send :: "'r Sender" and backends w0
proof unfold_locales
  show "within_runs send backends w0 i w \<Longrightarrow> i \<le> j \<Longrightarrow> within_runs send backends w0 j w" for i j w
    unfolding within_runs_def by (meson le_trans)
  show "within_runs send backends w0 j (h, c) \<Longrightarrow> within_runs send backends w0 j (h\<lparr>process := p\<rparr>, c)" for j h c p
    unfolding within_runs_def using runs.elsewhere by blast
  show "cb_incoming (runtime_callbacks send) = Some f \<Longrightarrow> within_runs send backends w0 j w \<Longrightarrow> within_runs send backends w0 j (f bytes w)" for f bytes j w
    using within_runs_call [of send backends w0 j w "Incoming bytes"] by (auto simp: runtime_callbacks_def)
  show "cb_connection (runtime_callbacks send) = Some f \<Longrightarrow> within_runs send backends w0 j w \<Longrightarrow> within_runs send backends w0 (j + 1) (f e w)" for f e j w
    using within_runs_call [of send backends w0 j w "Connection e"] by (auto simp: runtime_callbacks_def)
  show "cb_pump (runtime_callbacks send) = Some f \<Longrightarrow> within_runs send backends w0 j w \<Longrightarrow> within_runs send backends w0 j (f w)" for f j w
    using within_runs_call [of send backends w0 j w Pump] by (auto simp: runtime_callbacks_def)
qed

lemma RakNet_Send_same:
  "rn_initialized t' = rn_initialized t \<Longrightarrow> rn_rakClient t' = rn_rakClient t \<Longrightarrow> rn_sendFunction t' = rn_sendFunction t \<Longrightarrow>
    RakNet_Send code t' = RakNet_Send code t"
  by (intro ext) (simp only: RakNet_Send_def)

lemma RakNet_Send_setup: "same_setup t t' \<Longrightarrow> RakNet_Send code t' = RakNet_Send code t"
  by (intro RakNet_Send_same) (simp_all add: same_setup_def)

section \<open>The running client\<close>

lemma current_setup:
  "RakNet_Send code (current code t) = RakNet_Send code t"
  "wired t \<Longrightarrow> rn_callbacks (current code t) = (if cb_incoming (rn_callbacks t) = None then no_callbacks else callbacks_of code t)"
  by (auto simp: current_def wired_def no_callbacks_def intro!: RakNet_Send_same)

lemma game_receives_cases:
  assumes t: "cl_transport cl = Some t" and run: "game_receives code self cl = (packet, cl')"
  obtains u where "ReceiveHook code self (current code t) (cl_host cl, cl_context cl) = (packet, u, cl_host cl', cl_context cl')"
    "cl_transport cl' = Some u" "rn_callbacks u = rn_callbacks (current code t)" "RakNet_Send code u = RakNet_Send code t"
    "cl_state cl' = cl_state cl"
proof -
  obtain p u h c where r: "ReceiveHook code self (current code t) (cl_host cl, cl_context cl) = (p, u, h, c)"
    by (metis prod.exhaust)
  note same = ReceiveHook_setup [OF r]
  have "rn_callbacks u = rn_callbacks (current code t)" using same by (simp add: same_setup_def)
  moreover have "RakNet_Send code u = RakNet_Send code t"
    using RakNet_Send_setup [OF same, of code] current_setup(1) [of code t] by simp
  ultimately show thesis using run by (intro that [of u]) (auto simp: game_receives_def t r)
qed

definition running :: "'r RakCode \<Rightarrow> Fetch set \<Rightarrow> 'r RuntimeWorld \<Rightarrow> nat \<Rightarrow> 'r Client \<Rightarrow> bool" where
  "running code backends w0 j cl \<longleftrightarrow>
    (\<exists>t. cl_transport cl = Some t \<and> wired t \<and> cb_incoming (rn_callbacks t) \<noteq> None \<and>
       within_runs (RakNet_Send code t) backends w0 j (cl_host cl, cl_context cl))"

lemma running_receives:
  assumes "running code backends w0 j cl"
  shows "running code backends w0 (j + 66) (snd (game_receives code self cl))"
proof -
  obtain t where t: "cl_transport cl = Some t" "wired t" "cb_incoming (rn_callbacks t) \<noteq> None"
    "within_runs (RakNet_Send code t) backends w0 j (cl_host cl, cl_context cl)"
    using assms by (auto simp: running_def)
  obtain packet cl' where g: "game_receives code self cl = (packet, cl')" by (metis prod.exhaust)
  from t(1) g obtain u where u:
    "ReceiveHook code self (current code t) (cl_host cl, cl_context cl) = (packet, u, cl_host cl', cl_context cl')"
    "cl_transport cl' = Some u" "rn_callbacks u = rn_callbacks (current code t)" "RakNet_Send code u = RakNet_Send code t"
    by (rule game_receives_cases)
  have cb: "rn_callbacks (current code t) = runtime_callbacks (RakNet_Send code t)"
    using current_setup(2) [OF t(2), of code] t(3) by (simp add: callbacks_of_def)
  have "within_runs (RakNet_Send code t) backends w0 (j + 66) (cl_host cl', cl_context cl')"
    using run_of_hook.ReceiveHook_keeps [OF u(1) t(4) cb] .
  then show ?thesis using u cb by (auto simp: running_def g wired_def runtime_callbacks_def)
qed

lemma running_worker:
  assumes "running code backends w0 j cl" and "fetch \<in> backends"
  shows "running code backends w0 j (client_action code (WorkerTurns fetch) cl)"
proof (cases "ctx_assets (cl_context cl)")
  case None
  then show ?thesis using assms(1) by simp
next
  case (Some s)
  show ?thesis
  proof (cases "worker_turn fetch s")
    case None
    then show ?thesis using assms(1) Some by simp
  next
    case (Some s')
    obtain t i where t: "cl_transport cl = Some t" "wired t" "cb_incoming (rn_callbacks t) \<noteq> None"
      "i \<le> j" "runs (RakNet_Send code t) backends w0 i (cl_host cl, cl_context cl)"
      using assms(1) by (auto simp: running_def within_runs_def)
    from runs.worker [OF t(5) \<open>ctx_assets _ = _\<close> assms(2) Some] t(4)
    have "within_runs (RakNet_Send code t) backends w0 j (cl_host cl, (cl_context cl)\<lparr>ctx_assets := Some s'\<rparr>)"
      by (auto simp: within_runs_def)
    then show ?thesis using t \<open>ctx_assets _ = _\<close> Some by (simp add: running_def)
  qed
qed

lemma running_actions:
  assumes "running code backends w0 j cl" and "set actions \<subseteq> range GameReceives \<union> WorkerTurns ` backends"
  shows "running code backends w0 (j + 66 * length actions) (fold (client_action code) actions cl)"
  using assms
proof (induction actions arbitrary: j cl)
  case (Cons a actions)
  have "running code backends w0 (j + 66) (client_action code a cl)"
  proof (cases a)
    case (WorkerTurns fetch)
    then have "running code backends w0 j (client_action code a cl)"
      using running_worker [OF Cons.prems(1)] Cons.prems(2) by auto
    then show ?thesis unfolding running_def using run_of_hook.mono by (meson le_add1)
  qed (use running_receives [OF Cons.prems(1)] Cons.prems(2) in auto)
  from Cons.IH [OF this] show ?case using Cons.prems(2) by (simp add: algebra_simps)
qed simp


text \<open>
  Claim C6. The running client refines the abstract runs of its callbacks. After an
  initialisation that leaves a transport, any sequence of calls of the game through the
  hook and of turns of the worker is a run of the runtime's callbacks from the runtime's
  first state, with at most 66 connection events for a call; so what holds in every run
  holds of the client inside the game.
\<close>

theorem client_refines_runs:
  assumes "Initialize code module backend (new_client h d) = cl" and "ctx_transport (cl_context cl)"
    and "set actions \<subseteq> range GameReceives \<union> WorkerTurns ` backends"
    and "fold (client_action code) actions cl = cl'"
  shows "\<exists>t version cache j. cl_transport cl' = Some t \<and> j \<le> 66 * length actions \<and>
    runs (RakNet_Send code t) backends (runtime_start (runtime_configuration version) cache d (cl_host cl)) j
      (cl_host cl', cl_context cl')"
proof -
  have "\<exists>version. started code module version d cl"
    using Initialize_started [of code module backend h d] assms(1,2) by simp
  then obtain version t cache where t: "cl_transport cl = Some t" "cb_incoming (rn_callbacks t) \<noteq> None"
    "(cl_host cl, cl_context cl) = runtime_start (runtime_configuration version) cache d (cl_host cl)"
    unfolding started_def by blast
  let ?w = "runtime_start (runtime_configuration version) cache d (cl_host cl)"
  have "within_runs (RakNet_Send code t) backends ?w 0 (cl_host cl, cl_context cl)"
    unfolding t(3) within_runs_def using runs.initial by blast
  then have "running code backends ?w 0 cl" using t by (auto simp: running_def wired_def)
  from running_actions [OF this assms(3)] assms(4) show ?thesis
    unfolding running_def within_runs_def by (auto 4 5)
qed

section \<open>After the shutdown\<close>

definition silent :: "(bytes \<times> bool) list \<Rightarrow> 'r RuntimeWorld \<Rightarrow> bool" where
  "silent sent w \<longleftrightarrow> raw_sends (fst w) = sent \<and> \<not> ctx_transport (snd w) \<and>
     (case ctx_handshake (snd w) of None \<Rightarrow> True | Some hs \<Rightarrow> ch_state hs = Disconnected) \<and>
     (case ctx_assets (snd w) of None \<Rightarrow> True
      | Some s \<Rightarrow> mgr_stopping (sys_manager s) \<and> mgr_queue (sys_manager s) = [])"

lemma silent_pump: "silent sent w \<Longrightarrow> PumpAssetResults send w = w"
  by (auto simp: silent_def PumpAssetResults_def split: prod.splits option.splits)

lemma silent_connection: "silent sent w \<Longrightarrow> HandleConnectionEvent send e w = w"
  by (auto simp: silent_def HandleConnectionEvent_def split: prod.splits option.splits)

lemma silent_malformed: "silent sent w \<Longrightarrow> silent sent (drop_malformed w)"
  by (auto simp: silent_def drop_malformed_def log_with_def split: prod.splits)

lemma silent_incoming:
  assumes "silent sent w"
  shows "silent sent (HandleIncomingProtocol send bytes w)"
proof -
  obtain h c where w: "w = (h, c)" by (metis prod.exhaust)
  show ?thesis
  proof (cases "ctx_handshake c")
    case None
    then show ?thesis using assms w by (simp add: HandleIncomingProtocol_def)
  next
    case (Some hs)
    then have d: "ch_state hs = Disconnected" using assms w by (simp add: silent_def)
    show ?thesis
    proof (cases "DecodePacket bytes")
      case (Inl e)
      then show ?thesis using silent_malformed [OF assms] w Some by (simp add: HandleIncomingProtocol_def)
    next
      case (Inr packet)
      have "client_HandleIncoming bytes hs = (IncomingIgnored, hs)" using d Inr by (simp add: client_HandleIncoming_def)
      moreover have "c\<lparr>ctx_handshake := Some hs\<rparr> = c" using Some by simp
      ultimately have "HandleIncomingProtocol send bytes w = w"
        using w Some Inr d by (simp add: HandleIncomingProtocol_def handle_handshake_packet_def)
      then show ?thesis using assms by simp
    qed
  qed
qed

interpretation silent_hook: hook_invariant
  "if wired then runtime_callbacks send else (no_callbacks :: 'r RuntimeWorld TransportCallbacks)" "\<lambda>_. silent sent"
  for wired and send :: "'r Sender" and sent
proof unfold_locales
  show "silent sent (h, c) \<Longrightarrow> silent sent (h\<lparr>process := p\<rparr>, c)" for h :: "'r Host" and c p
    by (simp add: silent_def)
qed (auto simp: runtime_callbacks_def no_callbacks_def silent_pump silent_connection silent_incoming split: if_split_asm)


lemma silent_receives:
  fixes code self cl
  assumes "silent sent (cl_host cl, cl_context cl)" and "client_wired cl"
  defines "cl' \<equiv> snd (game_receives code self cl)"
  shows "silent sent (cl_host cl', cl_context cl') \<and> client_wired cl' \<and> cl_state cl' = cl_state cl"
proof (cases "cl_transport cl")
  case None
  then show ?thesis using assms by (simp add: cl'_def game_receives_def)
next
  case (Some t)
  have "game_receives code self cl = (fst (game_receives code self cl), cl')" by (simp add: cl'_def)
  with Some obtain u where u:
    "ReceiveHook code self (current code t) (cl_host cl, cl_context cl) = (fst (game_receives code self cl), u, cl_host cl', cl_context cl')"
    "cl_transport cl' = Some u" "rn_callbacks u = rn_callbacks (current code t)" "cl_state cl' = cl_state cl"
    by (rule game_receives_cases)
  have "wired t" using assms(2) Some by (simp add: client_wired_def)
  from current_setup(2) [OF this, of code] have cb: "rn_callbacks (current code t) =
      (if cb_incoming (rn_callbacks t) \<noteq> None then runtime_callbacks (RakNet_Send code t) else no_callbacks)"
    by (simp add: callbacks_of_def)
  have "silent sent (cl_host cl', cl_context cl')"
    using silent_hook.ReceiveHook_keeps [OF u(1) assms(1) cb] .
  moreover have "wired u" using u(3) cb by (simp add: wired_def runtime_callbacks_def)
  ultimately show ?thesis using u by (simp add: client_wired_def)
qed

text \<open>The clients the process can have: every step keeps these facts.\<close>

definition client_sound :: "'r Client \<Rightarrow> bool" where
  "client_sound cl \<longleftrightarrow> client_wired cl \<and> cl_state cl \<noteq> RuntimeInitializing \<and>
     (cl_state cl = RuntimeDormant \<longrightarrow> cl_context cl = no_context \<and> cl_transport cl = None)"

lemma shutdown_silent:
  fixes code cl scheduled lockTaken
  assumes "client_wired cl"
  defines "cl' \<equiv> snd (DllMain code DLL_PROCESS_DETACH scheduled lockTaken cl)"
  shows "silent (raw_sends (cl_host cl)) (cl_host cl', cl_context cl') \<and> client_wired cl' \<and> cl_state cl' = RuntimeShuttingDown"
proof -
  have "client_wired (cl\<lparr>cl_state := RuntimeShuttingDown\<rparr>)" using assms(1) by (simp add: client_wired_def)
  note f = shutdown_transport_fields [where code = code and cl = "cl\<lparr>cl_state := RuntimeShuttingDown\<rparr>"]
    shutdown_transport_fields(5) [OF this, of code]
  have w: "client_wired cl'"
    using f(6) assms(1) by (auto simp: cl'_def DllMain_def RequestShutdownFromLoaderLock_def Let_def client_wired_def)
  have "cl_state cl' = RuntimeShuttingDown" "raw_sends (cl_host cl') = raw_sends (cl_host cl)"
    using f(1,4) by (simp_all add: cl'_def DllMain_def RequestShutdownFromLoaderLock_def Let_def)
  moreover have "ctx_transport (cl_context cl') = False"
    "ctx_handshake (cl_context cl') = map_option OnDisconnected (ctx_handshake (cl_context cl))"
    "ctx_assets (cl_context cl') = map_option (\<lambda>s. s\<lparr>sys_manager := RequestStop (sys_manager s)\<rparr>) (ctx_assets (cl_context cl))"
    using f(2) by (simp_all add: cl'_def DllMain_def RequestShutdownFromLoaderLock_def Let_def on_assets_def)
  ultimately show ?thesis
    using w by (simp add: silent_def OnDisconnected_def RequestStop_def split: option.split)
qed


lemma Initialize_sound:
  assumes "client_sound cl"
  shows "client_sound (Initialize code module backend cl) \<and>
    (cl_state cl \<noteq> RuntimeDormant \<longrightarrow> Initialize code module backend cl = cl)"
proof (cases "cl_state cl = RuntimeDormant")
  case False
  then show ?thesis using assms by (simp add: Initialize_def)
next
  case True
  let ?new = "cl\<lparr>cl_state := RuntimeInitializing\<rparr>"
  have f: "cl_state ?new = RuntimeInitializing" "cl_context ?new = no_context" "cl_transport ?new = None"
    using assms True by (simp_all add: client_sound_def)
  have i: "Initialize code module backend cl = InitializeImpl code module backend ?new" using True by (simp add: Initialize_def)
  from f(1,2) show ?thesis
  proof (cases rule: InitializeImpl_cases [where code = code and module = module and backend = backend])
    case disabled
    then show ?thesis using True f i by (simp add: client_sound_def client_wired_def)
  next
    case (ready m b cl1)
    note p = start_protocol_cases [OF refl ready(6), of code module backend "build_version b"]
    show ?thesis using True p(1,2) ready(5) by (simp add: i ready(4) client_sound_def client_wired_def)
  qed
qed

lemma worker_silent:
  assumes "silent sent (cl_host cl, cl_context cl)"
  shows "silent sent (cl_host cl, cl_context (client_action code (WorkerTurns fetch) cl))"
proof (cases "ctx_assets (cl_context cl)")
  case (Some s)
  then have s: "mgr_stopping (sys_manager s)" "mgr_queue (sys_manager s) = []" using assms by (simp_all add: silent_def)
  have "mgr_stopping (sys_manager s') \<and> mgr_queue (sys_manager s') = []" if "worker_turn fetch s = Some s'" for s'
    using that s by (auto simp: worker_turn_def SetState_def IsCurrentGeneration_def Let_def
        split: Worker.split_asm list.split_asm prod.splits if_split_asm)
  then show ?thesis using assms Some by (auto simp: silent_def split: option.splits)
qed (use assms in simp)

lemma receives_wired:
  assumes "client_wired cl"
  shows "client_wired (snd (game_receives code self cl)) \<and> cl_state (snd (game_receives code self cl)) = cl_state cl \<and>
    (cl_transport cl = None \<longrightarrow> snd (game_receives code self cl) = cl)"
proof (cases "cl_transport cl")
  case None
  then show ?thesis using assms by (simp add: game_receives_def)
next
  case (Some t)
  obtain packet cl' where g: "game_receives code self cl = (packet, cl')" by (metis prod.exhaust)
  from Some g obtain u where u: "cl_transport cl' = Some u" "rn_callbacks u = rn_callbacks (current code t)" "cl_state cl' = cl_state cl"
    by (rule game_receives_cases)
  have "wired t" using assms Some by (simp add: client_wired_def)
  from current_setup(2) [OF this, of code] have "wired u"
    using u(2) by (simp add: wired_def callbacks_of_def runtime_callbacks_def)
  then show ?thesis using u Some by (simp add: g client_wired_def)
qed

lemma worker_fields:
  "cl_state (client_action code (WorkerTurns fetch) cl) = cl_state cl"
  "cl_host (client_action code (WorkerTurns fetch) cl) = cl_host cl"
  "cl_transport (client_action code (WorkerTurns fetch) cl) = cl_transport cl"
  "ctx_assets (cl_context cl) = None \<Longrightarrow> client_action code (WorkerTurns fetch) cl = cl"
  by (simp_all split: option.split)

lemma action_sound:
  assumes ok: "client_sound cl"
  shows "client_sound (client_action code a cl)"
proof (cases a)
  case (GameReceives self)
  then show ?thesis using receives_wired [of cl code self] ok by (auto simp: client_sound_def)
next
  case (WorkerTurns fetch)
  show ?thesis
  proof (cases "ctx_assets (cl_context cl)")
    case None
    then show ?thesis using ok WorkerTurns worker_fields(4) by metis
  next
    case (Some s)
    then have "cl_state cl \<noteq> RuntimeDormant" using ok by (auto simp: client_sound_def no_context_def)
    then show ?thesis
      using ok worker_fields(1,3) [of code fetch cl] unfolding WorkerTurns
      by (simp add: client_sound_def client_wired_def del: client_action.simps)
  qed
next
  case (Detaches lockTaken)
  then show ?thesis using shutdown_silent [of cl code False lockTaken] ok by (simp add: client_sound_def)
next
  case (Initializes module backend)
  then show ?thesis using Initialize_sound [OF ok, of code module backend] by simp
qed

lemma action_silent:
  assumes ok: "client_sound cl" and "cl_state cl = RuntimeShuttingDown" and quiet: "silent sent (cl_host cl, cl_context cl)"
  shows "cl_state (client_action code a cl) = RuntimeShuttingDown \<and>
    silent sent (cl_host (client_action code a cl), cl_context (client_action code a cl))"
proof (cases a)
  case (GameReceives self)
  have "client_wired cl" using ok by (simp add: client_sound_def)
  from silent_receives [OF quiet this, of code self] show ?thesis using assms(2) GameReceives by simp
next
  case (WorkerTurns fetch)
  then show ?thesis using worker_silent [OF quiet, of code fetch] worker_fields(1,2) [of code fetch cl] assms(2) by simp
next
  case (Detaches lockTaken)
  have "raw_sends (cl_host cl) = sent" using quiet by (simp add: silent_def)
  then show ?thesis using shutdown_silent [of cl code False lockTaken] ok Detaches by (simp add: client_sound_def)
next
  case (Initializes module backend)
  then show ?thesis using Initialize_sound [OF ok, of code module backend] assms(2) quiet by simp
qed

lemma actions_sound: "client_sound cl \<Longrightarrow> client_sound (fold (client_action code) actions cl)"
  by (induction actions arbitrary: cl) (simp_all add: action_sound del: client_action.simps)

lemma actions_silent:
  "client_sound cl \<Longrightarrow> cl_state cl = RuntimeShuttingDown \<Longrightarrow> silent sent (cl_host cl, cl_context cl) \<Longrightarrow>
    cl_state (fold (client_action code) actions cl) = RuntimeShuttingDown \<and>
    silent sent (cl_host (fold (client_action code) actions cl), cl_context (fold (client_action code) actions cl))"
proof (induction actions arbitrary: cl)
  case (Cons a actions)
  from Cons.IH [OF action_sound [OF Cons.prems(1), of code a]] action_silent [OF Cons.prems, of code a]
  show ?case by simp
qed simp


section \<open>Witnesses\<close>

text \<open>A first start on the sample process, with the log and the cache beside the plugin.\<close>

lemma start_protocol_starts:
  assumes fresh: "cl_context cl = no_context" and directory: "ModuleDirectory module \<noteq> []"
    and version: "FindRakNetTransport version = Some t" "RakNet_IsAvailable t"
    and cache: "cache_Initialize \<lparr>root = ModuleDirectory module @ [''CustomModel'', ''cache'']\<rparr> (cl_disk cl) = (True, d)"
    and hooked: "RakNet_Initialize code (callbacks_of code t) t (cl_host cl) = (True, u, h)"
  shows "ctx_transport (cl_context (start_protocol code module True version cl))"
proof -
  let ?one = "cl\<lparr>cl_transport := Some t, cl_context := (cl_context cl)\<lparr>ctx_handshake := Some (new_ClientHandshake
             \<lparr>runtimeVersion = kRuntimeVersion, sampVersion = version, capabilities = kDeclaredCapabilities\<rparr>), ctx_transport := True\<rparr>\<rparr>"
  obtain s where s: "manager_Initialize (start_system \<lparr>root = ModuleDirectory module @ [''CustomModel'', ''cache'']\<rparr> True (cl_disk ?one)) = (True, s)"
    using cache by (simp add: manager_Initialize_def start_system_def new_manager_def Let_def)
  have two: "create_assets module True ?one = ?one\<lparr>cl_context := (cl_context ?one)\<lparr>ctx_assets := Some s\<rparr>\<rparr>"
    using version directory s by (simp add: create_assets_def transport_available_def Let_def)
  have "initialize_transport code (create_assets module True ?one) =
      (True, (create_assets module True ?one)\<lparr>cl_transport := Some u, cl_host := h\<rparr>)"
    unfolding two using version hooked by (simp add: initialize_transport_def)
  then show ?thesis
    unfolding start_protocol_def Let_def by (simp add: two version transport_available_def)
qed

lemma game_started:
  "ctx_transport (cl_context (Initialize sample_code (Some [''game'', ''CustomModel.asi'']) True (new_client game_host empty_disk)))"
proof -
  let ?module = "Some [''game'', ''CustomModel.asi'']" and ?cl = "(new_client game_host empty_disk)\<lparr>cl_state := RuntimeInitializing\<rparr>"
  have f: "cl_state ?cl = RuntimeInitializing" "cl_context ?cl = no_context" "cl_host ?cl = game_host" "cl_disk ?cl = empty_disk"
    by (simp_all add: new_client_def)
  have space: "space (process game_host) = game_space" by (simp add: game_host_def)
  have i: "Initialize sample_code ?module True (new_client game_host empty_disk) = InitializeImpl sample_code ?module True ?cl"
    by (simp add: Initialize_def new_client_def)
  obtain b0 where known: "FindSampBuild_entryPoint 0x0CC4D0 = Some b0" "build_version b0 = SampVersion_R3_1"
    by (simp add: FindSampBuild_entryPoint_def KnownSampBuilds_def)
  from f(1,2) show ?thesis
  proof (cases rule: InitializeImpl_cases [where code = sample_code and module = ?module and backend = True])
    case disabled
    then show ?thesis using known by (simp add: f space game_module) (simp add: game_module_def)
  next
    case (ready m b cl1)
    have b: "build_version b = SampVersion_R3_1"
      using ready(1,3) known unfolding f space game_module by (auto simp: game_module_def)
    have "FindRakNetTransport (build_version b) = Some (new_RakNetTransport SampVersion_R3_1 :: SampleRak RuntimeWorld SampRakNetTransport)"
      by (simp add: b FindRakNetTransport_def)
    moreover have "RakNet_IsAvailable (new_RakNetTransport SampVersion_R3_1 :: SampleRak RuntimeWorld SampRakNetTransport)"
      using hookable_builds [of SampVersion_R3_1] by (auto simp: RakNet_IsAvailable_def new_RakNetTransport_def)
    moreover have disk: "cl_disk cl1 = empty_disk" by (simp only: ready(7) f)
    moreover obtain d where "cache_Initialize \<lparr>root = ModuleDirectory ?module @ [''CustomModel'', ''cache'']\<rparr> (cl_disk cl1) = (True, d)"
    proof (rule cache_Initialize_quiet)
      show "faults (cl_disk cl1) = []" by (simp add: disk empty_disk_def)
      show "\<not> is_regular (node_at q (cl_disk cl1))" for q
        by (simp add: disk empty_disk_def node_at_def)
    qed
    moreover have "space (process (cl_host cl1)) = game_space" by (simp add: ready(9) f space)
    then obtain u h where "RakNet_Initialize sample_code
        (callbacks_of sample_code (new_RakNetTransport SampVersion_R3_1 :: SampleRak RuntimeWorld SampRakNetTransport))
        (new_RakNetTransport SampVersion_R3_1) (cl_host cl1) = (True, u, h)"
      using game_hooked_with [of "cl_host cl1" "callbacks_of sample_code (new_RakNetTransport SampVersion_R3_1)"]
      by (auto simp: callbacks_of_def runtime_callbacks_def)
    ultimately have "ctx_transport (cl_context (start_protocol sample_code ?module True (build_version b) cl1))"
      by (intro start_protocol_starts [OF ready(6)]) (simp_all add: ModuleDirectory_def)
    then show ?thesis by (simp add: i ready(4))
  qed
qed

theorem client_refines_runs_witness:
  "\<exists>(t :: SampleRak RuntimeWorld SampRakNetTransport) w0 j cl'.
    fold (client_action sample_code) [GameReceives 0x402000, WorkerTurns (winhttp_backend sample_server), GameReceives 0x402000]
      (Initialize sample_code (Some [''game'', ''CustomModel.asi'']) True (new_client game_host empty_disk)) = cl' \<and>
    cl_transport cl' = Some t \<and> j \<le> 198 \<and> runs (RakNet_Send sample_code t) (range winhttp_backend) w0 j (cl_host cl', cl_context cl')"
proof -
  let ?start = "Initialize sample_code (Some [''game'', ''CustomModel.asi'']) True (new_client game_host empty_disk)"
  let ?last = "fold (client_action sample_code) [GameReceives 0x402000, WorkerTurns (winhttp_backend sample_server), GameReceives 0x402000] ?start"
  have "set [GameReceives 0x402000, WorkerTurns (winhttp_backend sample_server), GameReceives 0x402000] \<subseteq>
      range GameReceives \<union> WorkerTurns ` range winhttp_backend" by auto
  from client_refines_runs [OF refl game_started this refl] obtain t version cache j where run:
    "cl_transport ?last = Some t" "j \<le> 198"
    "runs (RakNet_Send sample_code t) (range winhttp_backend)
      (runtime_start (runtime_configuration version) cache empty_disk (cl_host ?start)) j (cl_host ?last, cl_context ?last)"
    by (auto simp del: fold_simps)
  show ?thesis by (intro exI conjI) (rule refl run)+
qed

end
