(* ===== verification/RakNetTraffic.thy ===== *)
theory RakNetTraffic
  imports RakNetProperties
begin

text \<open>
  The split of the packet stream: what the RakNet client has received is handed to the game
  or consumed by the protocol, each packet once and in order.
\<close>

section \<open>The RakNet client as a queue\<close>

text \<open>
  The view of a RakNet client the theorem needs: the packets that have arrived so far, those
  not yet polled, those deallocated, and the bytes of a packet.
\<close>

record 'r PacketQueue =
  arrived :: "'r Process \<Rightarrow> u32 list"
  pending :: "'r Process \<Rightarrow> u32 list"
  freed :: "'r Process \<Rightarrow> u32 list"
  content :: "u32 \<Rightarrow> bytes"

definition packet_at :: "AddressSpace \<Rightarrow> u32 \<Rightarrow> bytes \<Rightarrow> bool" where
  "packet_at memory x bs \<longleftrightarrow> x \<noteq> 0 \<and> IsReadable memory x sizeof_RakPacket \<and> payload_readable memory x \<and>
     IsReadable memory (packet_data memory x) (packet_len memory x) \<and>
     unat (packet_len memory x) = length bs \<and> bytes_at memory (packet_data memory x) (length bs) = bs"

abbreviation in_memory :: "'r PacketQueue \<Rightarrow> 'r Process \<Rightarrow> u32 \<Rightarrow> bool" where
  "in_memory q p x \<equiv> packet_at (space p) x (content q x)"

definition held_packets :: "'r PacketQueue \<Rightarrow> 'r Process \<Rightarrow> bool" where
  "held_packets q p \<longleftrightarrow> (\<forall>x \<in> set (pending q p). in_memory q p x)"

text \<open>Time passes: packets may arrive, and nothing is lost.\<close>

definition waits :: "'r PacketQueue \<Rightarrow> 'r Process \<Rightarrow> 'r Process \<Rightarrow> bool" where
  "waits q p p' \<longleftrightarrow> (\<exists>new. arrived q p' = arrived q p @ new \<and> pending q p' = pending q p @ new \<and>
     freed q p' = freed q p \<and> (\<forall>x \<in> set new. in_memory q p' x) \<and> (\<forall>x. in_memory q p x \<longrightarrow> in_memory q p' x))"

text \<open>
  The documented behaviour of the three methods the transport calls: polling pops the oldest
  packet or returns a null pointer, deallocating gives the packet back, and asking for the
  connection does nothing to the packets.
\<close>

definition polls :: "'r PacketQueue \<Rightarrow> 'r Process \<Rightarrow> u32 \<Rightarrow> 'r Process \<Rightarrow> bool" where
  "polls q p x p' \<longleftrightarrow>
     (case pending q p of
        [] \<Rightarrow> x = 0 \<and> waits q p p'
      | y # ys \<Rightarrow> x = y \<and> arrived q p' = arrived q p \<and> pending q p' = ys \<and> freed q p' = freed q p \<and>
          (\<forall>x. in_memory q p x \<longrightarrow> in_memory q p' x))"

definition frees :: "'r PacketQueue \<Rightarrow> u32 \<Rightarrow> 'r Process \<Rightarrow> 'r Process \<Rightarrow> bool" where
  "frees q x p p' \<longleftrightarrow> arrived q p' = arrived q p \<and> pending q p' = pending q p \<and> freed q p' = freed q p @ [x] \<and>
     (held_packets q p \<longrightarrow> held_packets q p')"

definition serves_queue :: "'r PacketQueue \<Rightarrow> 'r RakCode \<Rightarrow> 'w SampRakNetTransport \<Rightarrow> bool" where
  "serves_queue q code t \<longleftrightarrow>
     (\<forall>p. polls q p (fst (call_Receive code (rn_originalReceive t) (rn_rakClient t) p))
        (snd (call_Receive code (rn_originalReceive t) (rn_rakClient t) p))) \<and>
     (\<forall>x p. frees q x p (call_Deallocate code (rn_deallocateFunction t) (rn_rakClient t) x p)) \<and>
     (\<forall>p. waits q p (snd (call_IsConnected code (rn_isConnectedFunction t) (rn_rakClient t) p)))"

text \<open>Callbacks that leave the RakNet client's packets alone.\<close>

definition leaves_packets :: "'r PacketQueue \<Rightarrow> ('r Host \<times> 'c \<Rightarrow> 'r Host \<times> 'c) \<Rightarrow> bool" where
  "leaves_packets q f \<longleftrightarrow> (\<forall>w. waits q (process (fst w)) (process (fst (f w))))"

definition callbacks_leave :: "'r PacketQueue \<Rightarrow> ('r Host \<times> 'c) TransportCallbacks \<Rightarrow> bool" where
  "callbacks_leave q cb \<longleftrightarrow>
     (\<exists>f. cb_incoming cb = Some f \<and> (\<forall>bytes. leaves_packets q (f bytes))) \<and>
     (\<exists>f. cb_connection cb = Some f \<and> (\<forall>e. leaves_packets q (f e))) \<and>
     pred_option (leaves_packets q) (cb_pump cb)"

section \<open>Ours and the game's packets\<close>

definition is_ours :: "'r PacketQueue \<Rightarrow> u32 \<Rightarrow> bool" where
  "is_ours q x \<longleftrightarrow> frame_kind (Inspect (View (content q x))) = CustomModel"

definition payload_of :: "'r PacketQueue \<Rightarrow> u32 \<Rightarrow> ByteView" where
  "payload_of q x = protocolBytes (Inspect (View (content q x)))"

definition fits :: "'r PacketQueue \<Rightarrow> u32 \<Rightarrow> bool" where
  "fits q x \<longleftrightarrow> length (content q x) \<le> kMaximumFrameSize"

section \<open>Lemmas\<close>

lemma waits_refl [simp]: "waits q p p"
  by (simp add: waits_def)

lemma waits_trans: "waits q p p' \<Longrightarrow> waits q p' p'' \<Longrightarrow> waits q p p''"
  by (fastforce simp: waits_def)

lemma waits_held: "waits q p p' \<Longrightarrow> held_packets q p \<Longrightarrow> held_packets q p'"
  by (auto simp: waits_def held_packets_def)

lemma waits_memory: "waits q p p' \<Longrightarrow> in_memory q p x \<Longrightarrow> in_memory q p' x"
  by (auto simp: waits_def)

lemma noting_process: "process (fst (noting call f (h, c, calls))) = process (fst (f (h, c)))"
  by (simp add: noting_def split: prod.splits)

lemma leaves_noting: "leaves_packets q f \<Longrightarrow> leaves_packets q (noting call f)"
  by (auto simp: leaves_packets_def noting_def split: prod.splits) (metis fst_conv)

lemma callbacks_leave_recording: "callbacks_leave q cb \<Longrightarrow> callbacks_leave q (recording cb)"
  by (cases "cb_pump cb") (auto simp: callbacks_leave_def recording_def leaves_noting)

lemma leaves_waits: "leaves_packets q f \<Longrightarrow> waits q (process (fst w)) (process (fst (f w)))"
  unfolding leaves_packets_def by blast

lemma notify_waits:
  "callbacks_leave q (rn_callbacks t) \<Longrightarrow> waits q (process (fst w)) (process (fst (notify t e w)))"
  by (auto simp: callbacks_leave_def notify_def leaves_waits)

lemma inspect_packet_content: "packet_at memory x bs \<Longrightarrow> inspect_packet memory x = Inspect (View bs)"
  by (simp add: packet_at_def inspect_packet_def)

lemma first_byte:
  assumes "packet_at memory x bs"
  shows "bs \<noteq> []" "byte_at memory (packet_data memory x) = bs ! 0"
proof -
  have b: "bytes_at memory (packet_data memory x) (length bs) = bs" "unat (packet_len memory x) = length bs"
    "packet_len memory x \<noteq> 0"
    using assms by (simp_all add: packet_at_def payload_readable_def)
  then show ne: "bs \<noteq> []" by (auto simp: unat_eq_0)
  then have "bytes_at memory (packet_data memory x) (length bs) ! 0 = byte_at memory (packet_data memory x)" by simp
  then show "byte_at memory (packet_data memory x) = bs ! 0" using b(1) by simp
qed

lemma closing_not_ours: "bs \<noteq> [] \<Longrightarrow> bs ! 0 \<in> {kDisconnectionNotification, kConnectionLost} \<Longrightarrow>
    frame_kind (Inspect (View bs)) = Unrelated"
  by (auto simp: Inspect_def no_frame_def kRakNetPacketId_def kDisconnectionNotification_def kConnectionLost_def)

lemma NotifyConnected_waits:
  assumes "NotifyConnectedIfPending t w = (t', w')" and "callbacks_leave q (rn_callbacks t)"
  shows "waits q (process (fst w)) (process (fst w'))"
  using assms
  by (auto simp: NotifyConnectedIfPending_def Let_def notify_waits split: if_splits)

lemma NotifyDisconnected_waits:
  assumes "NotifyDisconnected t w = (t', w')" and "callbacks_leave q (rn_callbacks t)"
  shows "waits q (process (fst w)) (process (fst w'))"
  using assms
  by (auto simp: NotifyDisconnected_def Let_def notify_waits split: if_splits)

lemma dispatched_noting [simp]:
  "dispatched (calls_of (noting (CalledConnection e) f w)) = dispatched (calls_of w)"
  "dispatched (calls_of (noting CalledPump f w)) = dispatched (calls_of w)"
  by simp_all

lemma NotifyConnected_dispatched:
  "NotifyConnectedIfPending t w = (t', w') \<Longrightarrow> recorded (rn_callbacks t) \<Longrightarrow> dispatched (calls_of w') = dispatched (calls_of w)"
  by (auto simp: NotifyConnectedIfPending_def Let_def split: if_splits)

lemma NotifyDisconnected_dispatched:
  "NotifyDisconnected t w = (t', w') \<Longrightarrow> recorded (rn_callbacks t) \<Longrightarrow> dispatched (calls_of w') = dispatched (calls_of w)"
  by (auto simp: NotifyDisconnected_def Let_def split: if_splits)

section \<open>One call\<close>

text \<open>
  What a run of the loop does to the queue: the packets \<open>took\<close> leave it in order, those
  that are the protocol's are freed and dispatched, the others are \<open>given\<close> to the game.
\<close>

definition splits ::
  "'r PacketQueue \<Rightarrow> u32 list \<Rightarrow> u32 list \<Rightarrow> 'r Host \<times> 'c \<times> CallbackCall list \<Rightarrow> 'r Host \<times> 'c \<times> CallbackCall list \<Rightarrow> bool" where
  "splits q took given w w' \<longleftrightarrow> (\<exists>new.
     arrived q (process (fst w')) = arrived q (process (fst w)) @ new \<and>
     pending q (process (fst w)) @ new = took @ pending q (process (fst w')) \<and>
     given = filter (\<lambda>x. \<not> is_ours q x) took \<and> 0 \<notin> set took \<and>
     freed q (process (fst w')) = freed q (process (fst w)) @ filter (is_ours q) took \<and>
     dispatched (calls_of w') = dispatched (calls_of w) @ map (payload_of q) (filter (fits q) (filter (is_ours q) took)) \<and>
     held_packets q (process (fst w')))"

lemma splits_waits:
  "waits q (process (fst w)) (process (fst w')) \<Longrightarrow> held_packets q (process (fst w)) \<Longrightarrow>
    dispatched (calls_of w') = dispatched (calls_of w) \<Longrightarrow> splits q [] [] w w'"
  using waits_held [of q "process (fst w)" "process (fst w')"] by (auto simp: splits_def waits_def)

lemma splits_trans:
  "splits q took given w w' \<Longrightarrow> splits q took' given' w' w'' \<Longrightarrow> splits q (took @ took') (given @ given') w w''"
proof -
  assume "splits q took given w w'" and "splits q took' given' w' w''"
  then obtain new new' where
    "arrived q (process (fst w')) = arrived q (process (fst w)) @ new"
    "pending q (process (fst w)) @ new = took @ pending q (process (fst w'))"
    "arrived q (process (fst w'')) = arrived q (process (fst w')) @ new'"
    "pending q (process (fst w')) @ new' = took' @ pending q (process (fst w''))"
    and rest: "given = filter (\<lambda>x. \<not> is_ours q x) took" "0 \<notin> set took"
    "freed q (process (fst w')) = freed q (process (fst w)) @ filter (is_ours q) took"
    "dispatched (calls_of w') = dispatched (calls_of w) @ map (payload_of q) (filter (fits q) (filter (is_ours q) took))"
    "given' = filter (\<lambda>x. \<not> is_ours q x) took'" "0 \<notin> set took'"
    "freed q (process (fst w'')) = freed q (process (fst w')) @ filter (is_ours q) took'"
    "dispatched (calls_of w'') = dispatched (calls_of w') @ map (payload_of q) (filter (fits q) (filter (is_ours q) took'))"
    "held_packets q (process (fst w''))"
    unfolding splits_def by blast
  then have "arrived q (process (fst w'')) = arrived q (process (fst w)) @ new @ new'"
    "pending q (process (fst w)) @ new @ new' = (took @ took') @ pending q (process (fst w''))"
    by (simp, metis append_assoc)
  then show ?thesis unfolding splits_def using rest by (intro exI [of _ "new @ new'"]) simp
qed

lemma splits_held: "splits q took given w w' \<Longrightarrow> held_packets q (process (fst w'))"
  by (auto simp: splits_def)

text \<open>Polling one packet: the head of the queue leaves it, or there is nothing.\<close>

lemma polled:
  assumes serve: "serves_queue q code t" and held: "held_packets q (process (fst w))"
    and poll: "on_process (call_Receive code (rn_originalReceive t) (rn_rakClient t)) w = (x, w1)"
  shows "calls_of w1 = calls_of w \<and> arrived q (process (fst w)) @ [] = arrived q (process (fst w)) \<and>
    (if x = 0 then waits q (process (fst w)) (process (fst w1)) \<and> pending q (process (fst w)) = []
     else pending q (process (fst w)) = x # pending q (process (fst w1)) \<and> arrived q (process (fst w1)) = arrived q (process (fst w)) \<and>
       freed q (process (fst w1)) = freed q (process (fst w)) \<and> held_packets q (process (fst w1)) \<and> in_memory q (process (fst w1)) x)"
proof -
  have c: "calls_of w1 = calls_of w" using calls_of_process poll by (metis snd_conv)
  let ?r = "call_Receive code (rn_originalReceive t) (rn_rakClient t) (process (fst w))"
  have "x = fst ?r" "process (fst w1) = snd ?r"
    using poll by (auto simp: on_process_def split: prod.splits)
  then have p: "polls q (process (fst w)) x (process (fst w1))" using serve by (simp add: serves_queue_def)
  show ?thesis
  proof (cases "pending q (process (fst w))")
    case Nil
    then show ?thesis using p c by (simp add: polls_def)
  next
    case (Cons y ys)
    then have "in_memory q (process (fst w)) y" using held by (simp add: held_packets_def)
    moreover from this have "y \<noteq> 0" by (simp add: packet_at_def)
    ultimately show ?thesis using p c held Cons by (auto simp: polls_def held_packets_def)
  qed
qed

text \<open>A packet of the game goes to the game, one of the protocol is freed.\<close>

definition popped :: "'r PacketQueue \<Rightarrow> u32 \<Rightarrow> 'r Process \<Rightarrow> 'r Process \<Rightarrow> bool" where
  "popped q x p p1 \<longleftrightarrow> x \<noteq> 0 \<and> pending q p = x # pending q p1 \<and> arrived q p1 = arrived q p \<and> freed q p1 = freed q p \<and>
     held_packets q p1"

lemma splits_given:
  "popped q x (process (fst w)) (process (fst w1)) \<Longrightarrow> waits q (process (fst w1)) (process (fst w')) \<Longrightarrow>
    dispatched (calls_of w') = dispatched (calls_of w) \<Longrightarrow> \<not> is_ours q x \<Longrightarrow> splits q [x] [x] w w'"
  using waits_held [of q "process (fst w1)" "process (fst w')"] by (auto simp: splits_def popped_def waits_def)

lemma splits_ours:
  "popped q x (process (fst w)) (process (fst w1)) \<Longrightarrow> waits q (process (fst w1)) (process (fst w3)) \<Longrightarrow>
    frees q x (process (fst w3)) (process (fst w')) \<Longrightarrow> is_ours q x \<Longrightarrow>
    dispatched (calls_of w') = dispatched (calls_of w) @ (if fits q x then [payload_of q x] else []) \<Longrightarrow>
    splits q [x] [] w w'"
  using waits_held [of q "process (fst w1)" "process (fst w3)"]
  by (auto simp: splits_def popped_def frees_def waits_def)

lemma serves_queue_setup: "serves_queue q code t \<Longrightarrow> same_setup t t' \<Longrightarrow> serves_queue q code t'"
  by (simp add: serves_queue_def same_setup_def)

text \<open>Dispatching a protocol packet that lies in memory.\<close>

lemma deliver_packet:
  assumes "in_memory q (process (fst w)) x" and "rn_initialized t" and "rn_callbacks t = recording cb"
    and "callbacks_leave q cb"
  shows "waits q (process (fst w)) (process (fst (deliver (inspect_packet (memory_of w) x) x t w)))"
    and "dispatched (calls_of (deliver (inspect_packet (memory_of w) x) x t w)) =
      dispatched (calls_of w) @ (if fits q x then [payload_of q x] else [])"
proof -
  have m: "unat (packet_len (memory_of w) x) = length (content q x)"
    "IsReadable (memory_of w) (packet_data (memory_of w) x) (packet_len (memory_of w) x)"
    using assms(1) by (simp_all add: packet_at_def)
  have i: "inspect_packet (memory_of w) x = Inspect (View (content q x))"
    using inspect_packet_content assms(1) .
  obtain f where f: "cb_incoming cb = Some f" "\<forall>bytes. leaves_packets q (f bytes)"
    using assms(4) by (auto simp: callbacks_leave_def)
  let ?g = "noting (CalledIncoming (payload_of q x)) (f (payload_of q x))"
  have d: "deliver (inspect_packet (memory_of w) x) x t w = (if fits q x then ?g w else w)"
    using assms(2,3) f(1) m i
    by (simp add: deliver_def fits_def payload_of_def RakNet_DispatchIncoming_def recording_def)
  have "leaves_packets q ?g" using f(2) leaves_noting by blast
  then show "waits q (process (fst w)) (process (fst (deliver (inspect_packet (memory_of w) x) x t w)))"
    using d leaves_waits by fastforce
  show "dispatched (calls_of (deliver (inspect_packet (memory_of w) x) x t w)) =
      dispatched (calls_of w) @ (if fits q x then [payload_of q x] else [])"
    using d by simp
qed

lemma receive_loop_splits:
  assumes "receive_loop code (rn_rakClient t) n t w = (packet, t', w')"
    and "serves_queue q code t" and "rn_initialized t" and "rn_callbacks t = recording cb" and "callbacks_leave q cb"
    and "held_packets q (process (fst w))"
  shows "\<exists>took. splits q took (if packet = 0 then [] else [packet]) w w' \<and>
    (0 < n \<longrightarrow> pending q (process (fst w)) \<noteq> [] \<longrightarrow> took \<noteq> [])"
  using assms
proof (induction n arbitrary: t w)
  case 0
  then show ?case using splits_waits [of q w w] by auto
next
  case (Suc n)
  let ?p = "process (fst w)"
  have rec: "recorded (rn_callbacks t)" "callbacks_leave q (rn_callbacks t)"
    using Suc.prems(4,5) callbacks_leave_recording by (auto simp: recorded_def callbacks_leave_def)
  have step: "calls_of w1 = calls_of w \<and> waits q (process (fst w1)) (process (fst w2)) \<and> same_setup t t2 \<and>
      same_setup t (mark_pending t2) \<and> dispatched (calls_of w2) = dispatched (calls_of w) \<and>
      (if p = 0 then waits q ?p (process (fst w1)) \<and> pending q ?p = []
       else popped q p ?p (process (fst w1)) \<and> in_memory q (process (fst w2)) p)"
    if "on_process (call_Receive code (rn_originalReceive t) (rn_rakClient t)) w = (p, w1)"
      and "NotifyConnectedIfPending t w1 = (t2, w2)" for p w1 t2 w2
  proof -
    have s: "same_setup t t2" using NotifyConnected_setup [OF that(2)] .
    have wt: "waits q (process (fst w1)) (process (fst w2))" using NotifyConnected_waits [OF that(2) rec(2)] .
    have d: "dispatched (calls_of w2) = dispatched (calls_of w1)" using NotifyConnected_dispatched [OF that(2) rec(1)] .
    have po: "calls_of w1 = calls_of w"
      "if p = 0 then waits q ?p (process (fst w1)) \<and> pending q ?p = []
       else popped q p ?p (process (fst w1)) \<and> in_memory q (process (fst w1)) p"
      using polled [OF Suc.prems(2,6) that(1)] by (auto simp: popped_def split: if_splits)
    have "in_memory q (process (fst w1)) p \<Longrightarrow> in_memory q (process (fst w2)) p" using waits_memory [OF wt] .
    then show ?thesis
      using s wt d po same_setup_trans [OF s mark_pending_setup] by (auto split: if_splits)
  qed
  from Suc.prems(1) show ?case
  proof (cases rule: receive_turn)
    case (1 p w1 t2 w2)
    note st = step [OF 1(1,2)]
    have "p = 0" using 1(6) st by (auto simp: packet_at_def split: if_splits)
    then have "waits q ?p (process (fst w2))" "pending q ?p = []" using st waits_trans by auto
    then show ?thesis using splits_waits [of q w w2] Suc.prems(6) st \<open>p = 0\<close> 1(3,5) by auto
  next
    case (foreign p w1 t2 w2)
    note st = step [OF foreign(1,2)]
    have "payload_readable (memory_of w2) p" "frame_kind (inspect_packet (memory_of w2) p) = Unrelated" "\<not> is_ours q p"
      using st foreign(6,7) inspect_packet_content [of "memory_of w2" p "content q p"] by (auto simp: packet_at_def is_ours_def)
    then have "splits q [p] [p] w w2" using st foreign(6) splits_given [of q p w w1 w2] by auto
    then show ?thesis using foreign(3,5,6) by auto
  next
    case (closing p w1 t2 w2)
    note st = step [OF closing(1,2)]
    have m: "packet_at (memory_of w2) p (content q p)" "popped q p ?p (process (fst w1))" using st closing(4) by auto
    have "\<not> is_ours q p"
      using closing_not_ours first_byte [OF m(1)] closing(7) by (simp add: is_ours_def)
    moreover have "rn_callbacks (mark_pending t2) = rn_callbacks t" using st by (simp add: same_setup_def)
    then have "waits q (process (fst w2)) (process (fst w'))" "dispatched (calls_of w') = dispatched (calls_of w2)"
      using NotifyDisconnected_waits [OF closing(5)] NotifyDisconnected_dispatched [OF closing(5)] rec by simp_all
    then have "waits q (process (fst w1)) (process (fst w'))" "dispatched (calls_of w') = dispatched (calls_of w)"
      using st waits_trans by auto
    ultimately have "splits q [p] [p] w w'" using m(2) splits_given [of q p w w1 w'] by blast
    then show ?thesis using closing(3,4) by auto
  next
    case (ours p w1 t2 w2)
    note st = step [OF ours(1,2)]
    let ?t = "mark_pending t2" and ?d = "deliver (inspect_packet (memory_of w2) p) p (mark_pending t2) w2"
    let ?w = "snd (on_process (\<lambda>r. ((), call_Deallocate code (rn_deallocateFunction ?t) (rn_rakClient t) p r)) ?d)"
    have m: "in_memory q (process (fst w2)) p" "popped q p ?p (process (fst w1))" using st ours(3) by auto
    have t: "same_setup t ?t" using st by simp
    then have f: "rn_initialized ?t" "rn_callbacks ?t = recording cb" "rn_rakClient ?t = rn_rakClient t"
      "rn_deallocateFunction ?t = rn_deallocateFunction t"
      using Suc.prems(3,4) by (simp_all add: same_setup_def)
    have o: "is_ours q p" using ours(5) inspect_packet_content [OF m(1)] by (simp add: is_ours_def)
    have "process (fst ?w) = call_Deallocate code (rn_deallocateFunction t) (rn_rakClient t) p (process (fst ?d))"
      by (simp add: on_process_def f(4) split: prod.splits)
    then have "frees q p (process (fst ?d)) (process (fst ?w))" using Suc.prems(2) by (simp add: serves_queue_def)
    moreover have "waits q (process (fst w1)) (process (fst ?d))"
      using st deliver_packet(1) [OF m(1) f(1,2) Suc.prems(5)] waits_trans by blast
    moreover have "dispatched (calls_of ?w) = dispatched (calls_of w) @ (if fits q p then [payload_of q p] else [])"
      using st deliver_packet(2) [OF m(1) f(1,2) Suc.prems(5)] by simp
    ultimately have one: "splits q [p] [] w ?w" using splits_ours [OF m(2) _ _ o] by blast
    have loop: "receive_loop code (rn_rakClient ?t) n ?t ?w = (packet, t', w')" using ours(6) f(3) by simp
    obtain took where "splits q took (if packet = 0 then [] else [packet]) ?w w'"
      using Suc.IH [OF loop serves_queue_setup [OF Suc.prems(2) t] f(1,2) Suc.prems(5) splits_held [OF one]] by blast
    then have "splits q ([p] @ took) ([] @ (if packet = 0 then [] else [packet])) w w'"
      by (rule splits_trans [OF one])
    then show ?thesis by fastforce
  qed
qed

text \<open>A call of the hook, and a run of calls.\<close>

definition ready_transport :: "'r PacketQueue \<Rightarrow> 'r RakCode \<Rightarrow> ('r Host \<times> 'c) TransportCallbacks \<Rightarrow>
    ('r Host \<times> 'c \<times> CallbackCall list) SampRakNetTransport \<Rightarrow> bool" where
  "ready_transport q code cb t \<longleftrightarrow> rn_active t \<and> rn_originalReceive t \<noteq> 0 \<and> rn_initialized t \<and>
     rn_callbacks t = recording cb \<and> callbacks_leave q cb \<and> serves_queue q code t"

lemma ready_transport_setup: "ready_transport q code cb t \<Longrightarrow> same_setup t t' \<Longrightarrow> ready_transport q code cb t'"
  using serves_queue_setup [of q code t t'] by (simp add: ready_transport_def same_setup_def)

lemma ObserveConnection_splits:
  assumes "ObserveConnection code (rn_rakClient t) t w = (t', w')" and "ready_transport q code cb t"
    and "held_packets q (process (fst w))"
  shows "splits q [] [] w w'"
proof -
  let ?f = "call_IsConnected code (rn_isConnectedFunction t) (rn_rakClient t)"
  obtain c w1 where c: "on_process ?f w = (c, w1)" by (metis prod.exhaust)
  have "process (fst w1) = snd (?f (process (fst w)))" using c by (auto simp: on_process_def split: prod.splits)
  then have w: "waits q (process (fst w)) (process (fst w1))" using assms(2) by (simp add: ready_transport_def serves_queue_def)
  have s: "calls_of w1 = calls_of w" using c calls_of_process by (metis snd_conv)
  have r: "recorded (rn_callbacks t)" "callbacks_leave q (rn_callbacks t)"
    using assms(2) callbacks_leave_recording by (auto simp: ready_transport_def recorded_def callbacks_leave_def)
  have "w' = w1 \<or> w' = notify (t\<lparr>rn_connected := c, rn_connectedEventPending := False, rn_connectedEventSent := False\<rparr>) EventDisconnected w1"
    using assms(1) c by (auto simp: ObserveConnection_def Let_def split: if_splits)
  then have "waits q (process (fst w1)) (process (fst w')) \<and> dispatched (calls_of w') = dispatched (calls_of w1)"
    using r by (auto simp: notify_waits)
  then show ?thesis using splits_waits assms(3) s w waits_trans by metis
qed

lemma ReceiveHook_splits:
  assumes call: "ReceiveHook code (rn_rakClient t) t w = (packet, t', w')" and ready: "ready_transport q code cb t"
    and held: "held_packets q (process (fst w))"
  shows "\<exists>took. splits q took (if packet = 0 then [] else [packet]) w w' \<and>
    (pending q (process (fst w)) \<noteq> [] \<longrightarrow> took \<noteq> [])"
proof -
  have "Receive code (rn_rakClient t) t w = (packet, t', w')" using call ready by (simp add: ReceiveHook_def ready_transport_def)
  then show ?thesis
  proof (cases rule: Receive_cases)
    case (own t1 w1 w2)
    have o: "splits q [] [] w w1" using ObserveConnection_splits [OF own(2) ready held] .
    have t1: "same_setup t t1" using ObserveConnection_setup [OF own(2)] .
    then have r1: "ready_transport q code cb t1" and c1: "rn_rakClient t1 = rn_rakClient t"
      using ready_transport_setup [OF ready] by (simp_all add: same_setup_def)
    have "waits q (process (fst w1)) (process (fst w2)) \<and> dispatched (calls_of w2) = dispatched (calls_of w1)"
      unfolding own(3) using r1
      by (auto simp: ready_transport_def recording_def callbacks_leave_def leaves_waits leaves_noting split: option.splits)
    then have p: "splits q [] [] w1 w2" using splits_waits splits_held [OF o] by blast
    have op: "splits q [] [] w w2" using splits_trans [OF o p] by simp
    obtain took where k: "splits q took (if packet = 0 then [] else [packet]) w2 w'"
      "pending q (process (fst w2)) \<noteq> [] \<longrightarrow> took \<noteq> []"
      using receive_loop_splits [of code t1 kMaximumConsumedPacketsPerCall w2 packet t' w' q cb] own(4) c1 r1 splits_held [OF op]
      by (auto simp: ready_transport_def kMaximumConsumedPacketsPerCall_def)
    have "pending q (process (fst w)) \<noteq> [] \<longrightarrow> pending q (process (fst w2)) \<noteq> []"
      using op by (auto simp: splits_def)
    then show ?thesis using splits_trans [OF op k(1)] k(2) by auto
  qed simp
qed

lemma hook_calls_splits:
  assumes "hook_calls code (replicate n (rn_rakClient t)) t w = (packets, t', w')" and "ready_transport q code cb t"
    and "held_packets q (process (fst w))"
  shows "\<exists>took. splits q took (filter (\<lambda>x. x \<noteq> 0) packets) w w' \<and>
    min n (length (pending q (process (fst w)))) \<le> length took"
  using assms
proof (induction n arbitrary: t w packets)
  case 0
  then show ?case using splits_waits [of q w w] by auto
next
  case (Suc n)
  obtain x t1 w1 where one: "ReceiveHook code (rn_rakClient t) t w = (x, t1, w1)" by (metis prod.exhaust)
  obtain xs where rest: "hook_calls code (replicate n (rn_rakClient t)) t1 w1 = (xs, t', w')" and p: "packets = x # xs"
    using Suc.prems(1) one by (auto split: prod.splits)
  have s: "same_setup t t1" using ReceiveHook_setup [OF one] .
  obtain took where k: "splits q took (if x = 0 then [] else [x]) w w1" "pending q (process (fst w)) \<noteq> [] \<longrightarrow> took \<noteq> []"
    using ReceiveHook_splits [OF one Suc.prems(2,3)] by blast
  have r: "hook_calls code (replicate n (rn_rakClient t1)) t1 w1 = (xs, t', w')" using rest s by (simp add: same_setup_def)
  obtain took' where k': "splits q took' (filter (\<lambda>x. x \<noteq> 0) xs) w1 w'"
    "min n (length (pending q (process (fst w1)))) \<le> length took'"
    using Suc.IH [OF r ready_transport_setup [OF Suc.prems(2) s] splits_held [OF k(1)]] by blast
  obtain new where "pending q (process (fst w)) @ new = took @ pending q (process (fst w1))"
    using k(1) by (auto simp: splits_def)
  then have "length (pending q (process (fst w))) \<le> length took + length (pending q (process (fst w1)))"
    by (metis le_add1 length_append)
  then have "min (Suc n) (length (pending q (process (fst w)))) \<le> length (took @ took')"
    using k(2) k'(2) by (cases took) auto
  then show ?case using splits_trans [OF k(1) k'(1)] p by (intro exI [of _ "took @ took'"]) auto
qed

section \<open>Properties\<close>


section \<open>Witness\<close>

definition sample_queue :: "SampleRak PacketQueue" where
  "sample_queue = \<lparr>arrived = (\<lambda>p. fst (rak p)), pending = (\<lambda>p. fst (snd (rak p))), freed = (\<lambda>p. snd (snd (rak p))),
     content = (\<lambda>x. if x = 0x401000 then [0x5E, 0x43, 0x4D, 0x4F, 0x44, 0x07] else [0x29, 0x01, 0x02])\<rparr>"

lemma sample_serves: "ready_transport sample_queue sample_code idle_callbacks sample_transport"
proof -
  have "callbacks_leave sample_queue (idle_callbacks :: (SampleRak Host \<times> unit) TransportCallbacks)"
    by (simp add: callbacks_leave_def idle_callbacks_def leaves_packets_def)
  moreover have "serves_queue sample_queue sample_code sample_transport"
    by (auto simp: serves_queue_def sample_code_def sample_queue_def polls_def frees_def held_packets_def split: prod.splits list.splits)
  ultimately show ?thesis
    by (simp add: ready_transport_def sample_transport_def)
qed

lemma sample_held: "held_packets sample_queue (process sample_host)"
proof -
  have at: "read_word packet_space 0x401008 = 6" "read_word packet_space 0x401010 = 0x401100"
    "read_word packet_space 0x401028 = 3" "read_word packet_space 0x401030 = 0x401120"
    by (simp_all add: read_word_def le32_def packet_space_def packet_byte_def)
  have readable: "IsReadable packet_space a n" if "0x401000 \<le> a" "a < 0x402000" "n \<noteq> 0" "n < 0x1000" for a n
  proof -
    have s: "unat a < 0x402000" "unat n < 0x1000" "unat a \<ge> 0x401000"
      using that by (simp_all add: word_less_nat_alt word_le_nat_alt)
    then have sum: "unat (a + n) = unat a + unat n" by (simp add: unat_word_ariths)
    have n: "\<not> n > kUintptrMax - a"
      using s by (simp add: word_less_nat_alt kUintptrMax_def unat_sub word_le_nat_alt)
    have l: "a < a + n" "\<not> (0x410000 < a + n)" "a < 0x410000" "0x400000 \<le> a"
      using s sum that(3) by (simp_all add: word_less_nat_alt word_le_nat_alt unat_gt_0)
    have "walk_regions packet_space (\<lambda>r. usable r \<and> Protect r AND 0xFF \<noteq> PAGE_EXECUTE) (a + n) a"
      using l by (subst walk_regions.simps, subst walk_regions.simps)
        (simp add: packet_space_def usable_def PAGE_READWRITE_def PAGE_GUARD_def PAGE_NOACCESS_def PAGE_EXECUTE_def kUintptrMax_def Let_def)
    then show ?thesis using that n by (auto simp: IsReadable_def)
  qed
  have byte: "byte_at packet_space a = packet_byte a" for a by (simp add: packet_space_def)
  have "packet_at packet_space 0x401000 [0x5E, 0x43, 0x4D, 0x4F, 0x44, 0x07]" "packet_at packet_space 0x401020 [0x29, 0x01, 0x02]"
    by (simp_all add: packet_at_def payload_readable_def packet_data_def packet_len_def at readable sizeof_RakPacket_def
        bytes_at_def upt_rec byte packet_byte_def)
  then show ?thesis by (simp add: held_packets_def sample_host_def sample_queue_def)
qed


end
