(* ===== verification/ManifestConfig.thy ===== *)
theory ManifestConfig
  imports AssetRegistry Hex Text "HOL-Library.Monad_Syntax"
begin

text \<open>
  The manifest configuration file, \<^verbatim>\<open>server/src/manifest_config.cpp\<close>, with the formatted input
  of \<^verbatim>\<open>std::istringstream\<close> it relies on. A file is the text its stream delivers and whether the
  stream breaks down behind it; \<open>None\<close> is a file that cannot be opened.
\<close>

section \<open>Formatted input\<close>

text \<open>\<^verbatim>\<open>std::isspace\<close> in the classic locale, and the characters \<^verbatim>\<open>Trim\<close> removes.\<close>

definition is_space :: "char \<Rightarrow> bool" where
  "is_space c = (let n = of_char c :: nat in n = 32 \<or> 9 \<le> n \<and> n \<le> 13)"

definition trimmed :: "char \<Rightarrow> bool" where
  "trimmed c = (let n = of_char c :: nat in n = 32 \<or> n = 9 \<or> n = 13 \<or> n = 10)"

definition newline :: char where
  "newline = char_of (10 :: nat)"

text \<open>
  \<^verbatim>\<open>operator>>\<close> for a string and for an unsigned integer, with what they leave in the stream;
  \<open>None\<close> sets \<^verbatim>\<open>failbit\<close>. A number may have a sign, and a negative one wraps around; it ends
  at the first character that is no digit.
\<close>

definition read_text :: "string \<Rightarrow> (string \<times> string) option" where
  "read_text s =
    (let s = dropWhile is_space s; token = takeWhile (\<lambda>c. \<not> is_space c) s
     in if token = [] then None else Some (token, dropWhile (\<lambda>c. \<not> is_space c) s))"

definition is_digit :: "char \<Rightarrow> bool" where
  "is_digit c = (let n = of_char c :: nat in 48 \<le> n \<and> n \<le> 57)"

definition decimal :: "string \<Rightarrow> int" where
  "decimal digits = foldl (\<lambda>n c. 10 * n + (of_char c - 48)) 0 digits"

definition read_unsigned :: "string \<Rightarrow> ('a::len word \<times> string) option" where
  "read_unsigned s =
    (let s = dropWhile is_space s;
         negative = (s \<noteq> [] \<and> hd s = CHR ''-'');
         s = (if s \<noteq> [] \<and> (hd s = CHR ''-'' \<or> hd s = CHR ''+'') then tl s else s);
         digits = takeWhile is_digit s; n = decimal digits
     in if digits = [] \<or> n \<ge> 2 ^ LENGTH('a) then None
        else Some (if negative then - of_int n else of_int n, dropWhile is_digit s))"

text \<open>\<^verbatim>\<open>std::getline\<close>: the next line and what follows it.\<close>

definition getline :: "bool \<Rightarrow> string \<Rightarrow> (string \<times> string) option" where
  "getline broken s =
    (if newline \<in> set s then Some (takeWhile (\<lambda>c. c \<noteq> newline) s, tl (dropWhile (\<lambda>c. c \<noteq> newline) s))
     else if s = [] \<or> broken then None else Some (s, []))"

lemma getline_shorter: "getline broken s = Some (line, rest) \<Longrightarrow> length rest < length s"
proof -
  assume "getline broken s = Some (line, rest)"
  moreover have "newline \<in> set s \<Longrightarrow> dropWhile (\<lambda>c. c \<noteq> newline) s \<noteq> []" by (simp add: dropWhile_eq_Nil_conv)
  moreover have "length (dropWhile (\<lambda>c. c \<noteq> newline) s) \<le> length s" by (rule length_dropWhile_le)
  ultimately show ?thesis
    by (cases "dropWhile (\<lambda>c. c \<noteq> newline) s") (auto simp: getline_def split: if_splits)
qed

section \<open>The file\<close>

record ManifestConfigResult =
  loadedAssets :: nat
  errorLine :: nat
  config_error :: string

definition Trim :: "string \<Rightarrow> string" where
  "Trim value = rev (dropWhile trimmed (rev (dropWhile trimmed value)))"

text \<open>The six fields of a line, and nothing behind them.\<close>

definition read_fields :: "string \<Rightarrow> (u32 \<times> string \<times> string \<times> string \<times> u64 \<times> string) option" where
  "read_fields line =
    do {
      (number, s) \<leftarrow> read_unsigned line;
      (kind_text, s) \<leftarrow> read_text s;
      (name, s) \<leftarrow> read_text s;
      (url, s) \<leftarrow> read_text s;
      (bytes_announced, s) \<leftarrow> read_unsigned s;
      (hash, s) \<leftarrow> read_text s;
      if read_text s \<noteq> None then None else Some (number, kind_text, name, url, bytes_announced, hash)
    }"

definition config_failure :: "nat \<Rightarrow> string \<Rightarrow> ManifestConfigResult" where
  "config_failure line error = \<lparr>loadedAssets = 0, errorLine = line, config_error = error\<rparr>"

text \<open>What a line does to the registry that is being built.\<close>

definition load_line :: "nat \<Rightarrow> string \<Rightarrow> AssetRegistry \<Rightarrow> ManifestConfigResult + AssetRegistry" where
  "load_line lineNumber line parsed =
    (let line = Trim line
     in if line = [] \<or> hd line = CHR ''#'' then Inr parsed
     else case read_fields line of
       None \<Rightarrow> Inl (config_failure lineNumber ''expected six whitespace-separated fields'')
     | Some (number, kind_text, name, url, bytes_announced, hash) \<Rightarrow>
         (case ParseSha256Hex hash of
            None \<Rightarrow> Inl (config_failure lineNumber ''SHA-256 must contain 64 lowercase hexadecimal characters'')
          | Some digest \<Rightarrow>
              if kind_text \<noteq> ''DFF'' \<and> kind_text \<noteq> ''TXD''
              then Inl (config_failure lineNumber ''asset type must be DFF or TXD'')
              else case RegisterAsset \<lparr>assetId = number,
                  asset_type = (if kind_text = ''DFF'' then AssetType_Dff else AssetType_Txd),
                  logicalName = name, downloadUrl = url, fileSize = bytes_announced, sha256 = digest\<rparr> parsed of
                (result, parsed) \<Rightarrow>
                  if result \<noteq> Added then Inl (config_failure lineNumber (ToString_RegistryResult result))
                  else Inr parsed))"

function load_lines :: "bool \<Rightarrow> nat \<Rightarrow> string \<Rightarrow> AssetRegistry \<Rightarrow> ManifestConfigResult + nat \<times> AssetRegistry" where
  "load_lines broken lineNumber s parsed =
    (case getline broken s of
       None \<Rightarrow> Inr (lineNumber, parsed)
     | Some (line, rest) \<Rightarrow>
         (case load_line (lineNumber + 1) line parsed of
            Inl failure \<Rightarrow> Inl failure
          | Inr parsed \<Rightarrow> load_lines broken (lineNumber + 1) rest parsed))"
  by pat_completeness auto
termination by (relation "measure (\<lambda>(broken, n, s, r). length s)") (auto dest: getline_shorter)

declare load_lines.simps [simp del]
lemmas [code] = load_lines.simps

definition LoadManifestConfig :: "(string \<times> bool) option \<Rightarrow> AssetRegistry \<Rightarrow> ManifestConfigResult \<times> AssetRegistry" where
  "LoadManifestConfig file registry =
    (case file of
       None \<Rightarrow> (config_failure 0 ''could not open manifest configuration'', registry)
     | Some (content, broken) \<Rightarrow>
         (case load_lines broken 0 content empty_registry of
            Inl failure \<Rightarrow> (failure, registry)
          | Inr (lineNumber, parsed) \<Rightarrow>
              if broken then (config_failure lineNumber ''manifest configuration read failed'', registry)
              else (\<lparr>loadedAssets = Size parsed, errorLine = 0, config_error = []\<rparr>, parsed)))"


section \<open>Printing\<close>

text \<open>A line that describes an asset, and the file for a list of assets.\<close>

definition kind_name :: "AssetType \<Rightarrow> string" where
  "kind_name t = (if t = AssetType_Dff then ''DFF'' else ''TXD'')"

definition config_line :: "AssetDescription \<Rightarrow> string" where
  "config_line a = to_string (unat (assetId a)) @ '' '' @ kind_name (asset_type a) @ '' '' @ logicalName a @ '' '' @
     downloadUrl a @ '' '' @ to_string (unat (fileSize a)) @ '' '' @ Sha256Hex (sha256 a)"

definition print_config :: "AssetDescription list \<Rightarrow> string" where
  "print_config as = concat (map (\<lambda>a. config_line a @ [newline]) as)"

section \<open>Reading what was printed\<close>

lemma upper_digit_value: "n < 10 \<Longrightarrow> (of_char (upper_digit n) :: nat) = 48 + n"
proof -
  have "\<forall>n \<in> set [0..<10]. (of_char (upper_digit n) :: nat) = 48 + n" by (simp add: upper_digit_def upt_rec)
  then show "n < 10 \<Longrightarrow> (of_char (upper_digit n) :: nat) = 48 + n" by simp
qed

lemma of_char_int: "(of_char c :: int) = int (of_char c)"
  by (simp add: of_char_def horner_sum_simps)

lemma decimal_append: "decimal (ds @ [c]) = 10 * decimal ds + (of_char c - 48)"
  by (simp add: decimal_def)

lemma printed_digits: "list_all is_digit (digits_in 10 n) \<and> digits_in 10 n \<noteq> [] \<and> decimal (digits_in 10 n) = int n"
proof (induction n rule: less_induct)
  case (less n)
  show ?case
  proof (cases "n < 10")
    case True
    then show ?thesis
      using upper_digit_value [of n]
      by (subst (1 2 3) digits_in.simps) (simp add: is_digit_def decimal_def of_char_int Let_def)
  next
    case False
    have "n div 10 < n" using False by simp
    note IH = less.IH [OF this]
    have d: "digits_in 10 n = digits_in 10 (n div 10) @ [upper_digit (n mod 10)]"
      using False by (subst digits_in.simps) simp
    have v: "(of_char (upper_digit (n mod 10)) :: nat) = 48 + n mod 10" by (rule upper_digit_value) simp
    have "10 * int (n div 10) + int (n mod 10) = int n" by presburger
    then show ?thesis
      unfolding d decimal_append using IH v by (simp add: is_digit_def of_char_int Let_def)
  qed
qed

lemma to_string_digits:
  "list_all is_digit (to_string n)" "to_string n \<noteq> []" "decimal (to_string n) = int n"
  using printed_digits [of n] by (simp_all add: to_string_def)

lemma takeWhile_all_then:
  "list_all P xs \<Longrightarrow> \<not> P y \<Longrightarrow> takeWhile P (xs @ y # ys) = xs \<and> dropWhile P (xs @ y # ys) = y # ys"
  by (simp add: list_all_iff)

lemma digit_no_space: "is_digit c \<Longrightarrow> \<not> is_space c \<and> c \<noteq> CHR ''-'' \<and> c \<noteq> CHR ''+''"
  by (auto simp: is_digit_def is_space_def Let_def)

lemma read_unsigned_printed:
  assumes "n < 2 ^ LENGTH('a)" and "rest = [] \<or> hd rest = CHR '' ''"
  shows "read_unsigned (to_string n @ rest) = Some (of_nat n :: 'a::len word, rest)"
proof -
  obtain d ds where t: "to_string n = d # ds" "is_digit d"
    using to_string_digits [of n] by (cases "to_string n") auto
  have stop: "takeWhile is_digit (to_string n @ rest) = to_string n" "dropWhile is_digit (to_string n @ rest) = rest"
  proof -
    have "\<not> is_digit (CHR '' '')" by (simp add: is_digit_def)
    then have r: "takeWhile is_digit rest = []" "dropWhile is_digit rest = rest" using assms(2) by (cases rest; auto)+
    show "takeWhile is_digit (to_string n @ rest) = to_string n" "dropWhile is_digit (to_string n @ rest) = rest"
      using to_string_digits(1) [of n] r by (simp_all add: list_all_iff)
  qed
  have "int n < 2 ^ LENGTH('a)" using assms(1) by (metis of_nat_less_iff of_nat_numeral of_nat_power)
  then show ?thesis
    using t digit_no_space [OF t(2)] stop to_string_digits [of n] by (simp add: read_unsigned_def Let_def)
qed

definition token :: "string \<Rightarrow> bool" where
  "token s \<longleftrightarrow> s \<noteq> [] \<and> list_all (\<lambda>c. \<not> is_space c) s"

lemma read_text_token:
  assumes "token t" and "rest = [] \<or> hd rest = CHR '' ''"
  shows "read_text ('' '' @ t @ rest) = Some (t, rest)"
proof -
  have sp: "is_space (CHR '' '')" by (simp add: is_space_def)
  obtain c cs where t: "t = c # cs" "\<not> is_space c" using assms(1) by (cases t) (auto simp: token_def)
  have r: "takeWhile (\<lambda>c. \<not> is_space c) rest = []" "dropWhile (\<lambda>c. \<not> is_space c) rest = rest"
    using assms(2) sp by (cases rest; auto)+
  have "takeWhile (\<lambda>c. \<not> is_space c) (t @ rest) = t" "dropWhile (\<lambda>c. \<not> is_space c) (t @ rest) = rest"
    using assms(1) r by (simp_all add: token_def list_all_iff)
  then show ?thesis using t sp by (simp add: read_text_def Let_def)
qed


lemma identifier_no_space: "IsAsciiIdentifierByte c \<Longrightarrow> \<not> is_space c"
  by (auto simp: IsAsciiIdentifierByte_def isalnum_def is_space_def Let_def)

lemma name_token: "IsLogicalNameValid name \<Longrightarrow> token name"
  using identifier_no_space by (simp add: IsLogicalNameValid_def token_def list_all_iff split: if_split_asm)

lemma url_token:
  assumes "IsDownloadUrlValid url"
  shows "token url"
proof -
  have "url \<noteq> []" "list_all (\<lambda>c. 0x21 \<le> byte_of_char c \<and> byte_of_char c \<le> 0x7E) url"
    using assms by (auto simp: IsDownloadUrlValid_def Let_def split: if_split_asm option.split_asm)
  then show ?thesis by (auto simp: token_def list_all_iff url_byte_range is_space_def Let_def)
qed

lemma hex_token: "token (Sha256Hex digest)"
proof -
  have no: "\<not> is_space (hex_digit n)" if "n < 16" for n
  proof -
    have "\<forall>n \<in> set [0..<16]. \<not> is_space (hex_digit n)" by (simp add: hex_digit_def upt_rec is_space_def)
    then show ?thesis using that by simp
  qed
  have "unat (b :: u8) div 16 < 16" for b using unsigned_less [of b, where ?'a = nat] by simp
  then have "list_all (\<lambda>c. \<not> is_space c) (Sha256Hex digest)"
    using no by (auto simp: Sha256Hex_def output_hex_def list_all_iff)
  moreover have "Sha256Hex digest \<noteq> []" using length_Sha256Hex [of digest] by (metis list.size(3) zero_neq_numeral)
  ultimately show ?thesis by (simp add: token_def)
qed

lemma kind_token: "token (kind_name t)"
  by (simp add: token_def kind_name_def is_space_def)

lemma ParseSha256Hex_printed: "ParseSha256Hex (Sha256Hex digest) = Some digest"
proof -
  have "parse_hex_loop (Sha256Hex digest) 0 32 = Some (digest_bytes digest)"
    using parse_hex_loop_iff [of 0 32 "Sha256Hex digest"] by (simp add: Sha256Hex_def)
  then show ?thesis by (simp add: ParseSha256Hex_def kSha256Size_def)
qed

lemma read_text_end [simp]: "read_text [] = None"
  by (simp add: read_text_def)

lemma read_fields_printed:
  assumes "IsAssetDescriptionValid a"
  shows "read_fields (config_line a) =
    Some (assetId a, kind_name (asset_type a), logicalName a, downloadUrl a, fileSize a, Sha256Hex (sha256 a))"
proof -
  note tok = kind_token [of "asset_type a"] hex_token [of "sha256 a"]
    name_token [of "logicalName a"] url_token [of "downloadUrl a"]
  have v: "IsLogicalNameValid (logicalName a)" "IsDownloadUrlValid (downloadUrl a)" using assms by (simp_all add: IsAssetDescriptionValid_def)
  have bound: "unat (assetId a) < 2 ^ LENGTH(32)" "unat (fileSize a) < 2 ^ LENGTH(64)"
    using unsigned_less [of "assetId a", where ?'a = nat] unsigned_less [of "fileSize a", where ?'a = nat] by simp_all
  have size_field: "read_unsigned ('' '' @ to_string (unat (fileSize a)) @ rest) = (read_unsigned (to_string (unat (fileSize a)) @ rest) :: (u64 \<times> string) option)"
    for rest by (simp add: read_unsigned_def is_space_def)
  have last: "read_text ('' '' @ Sha256Hex (sha256 a)) = Some (Sha256Hex (sha256 a), [])"
    using read_text_token [OF tok(2), of "[]"] by simp
  show ?thesis
    unfolding read_fields_def config_line_def
    using bound by (simp add: read_unsigned_printed read_text_token [unfolded append_Cons append_Nil] tok v size_field [unfolded append_Cons append_Nil] last [unfolded append_Cons append_Nil])
qed


lemma digit_not_trimmed: "is_digit c \<Longrightarrow> \<not> trimmed c \<and> c \<noteq> CHR ''#'' \<and> c \<noteq> newline"
  by (auto simp: is_digit_def trimmed_def newline_def Let_def)

lemma token_no_newline: "token s \<Longrightarrow> newline \<notin> set s"
proof -
  have "is_space newline" by (simp add: is_space_def newline_def)
  then show "token s \<Longrightarrow> newline \<notin> set s" by (auto simp: token_def list_all_iff)
qed

lemma Trim_config_line: "Trim (config_line a) = config_line a"
proof -
  obtain d ds where d: "to_string (unat (assetId a)) = d # ds" "is_digit d"
    using to_string_digits(1,2) [of "unat (assetId a)"] by (cases "to_string (unat (assetId a))") auto
  then have 1: "dropWhile trimmed (config_line a) = config_line a"
    using digit_not_trimmed by (simp add: config_line_def)
  have t: "token (Sha256Hex (sha256 a))" by (rule hex_token)
  then obtain e es where e: "rev (Sha256Hex (sha256 a)) = e # es"
    by (cases "rev (Sha256Hex (sha256 a))") (auto simp: token_def)
  then have "e \<in> set (Sha256Hex (sha256 a))" by (metis list.set_intros(1) set_rev)
  then have "\<not> is_space e" using t by (simp add: token_def list_all_iff)
  then have "\<not> trimmed e" by (auto simp: is_space_def trimmed_def Let_def)
  then have "dropWhile trimmed (rev (config_line a)) = rev (config_line a)"
    by (simp add: config_line_def e)
  then show ?thesis using 1 by (simp add: Trim_def)
qed

lemma config_line_start: "config_line a \<noteq> [] \<and> hd (config_line a) \<noteq> CHR ''#''"
proof -
  obtain d ds where d: "to_string (unat (assetId a)) = d # ds" "is_digit d"
    using to_string_digits(1,2) [of "unat (assetId a)"] by (cases "to_string (unat (assetId a))") auto
  then show ?thesis using digit_not_trimmed by (simp add: config_line_def)
qed

lemma config_line_no_newline:
  assumes "IsAssetDescriptionValid a"
  shows "newline \<notin> set (config_line a)"
proof -
  have digits: "newline \<notin> set (to_string n)" for n
    using to_string_digits(1) [of n] digit_not_trimmed by (auto simp: list_all_iff)
  have "(of_char newline :: nat) \<noteq> of_char (CHR '' '')" by (simp add: newline_def)
  then have "newline \<noteq> CHR '' ''" by metis
  moreover have "newline \<notin> set (logicalName a)" "newline \<notin> set (downloadUrl a)"
    using assms name_token url_token token_no_newline by (simp_all add: IsAssetDescriptionValid_def)
  ultimately show ?thesis
    using digits token_no_newline [OF hex_token, of "sha256 a"] token_no_newline [OF kind_token, of "asset_type a"]
    by (simp add: config_line_def)
qed

lemma getline_line: "newline \<notin> set line \<Longrightarrow> getline broken (line @ newline # rest) = Some (line, rest)"
  by (auto simp: getline_def takeWhile_append dropWhile_append)

lemma load_line_printed:
  assumes "IsAssetDescriptionValid a" and "RegisterAsset a parsed = (Added, parsed')"
  shows "load_line n (config_line a) parsed = Inr parsed'"
proof -
  have "asset_type a = AssetType_Dff \<or> asset_type a = AssetType_Txd"
    using assms(1) by (simp add: IsAssetDescriptionValid_def IsAssetTypeValid_def)
  then have "\<lparr>assetId = assetId a, asset_type = (if kind_name (asset_type a) = ''DFF'' then AssetType_Dff else AssetType_Txd),
      logicalName = logicalName a, downloadUrl = downloadUrl a, fileSize = fileSize a, sha256 = sha256 a\<rparr> = a"
    "kind_name (asset_type a) = ''DFF'' \<or> kind_name (asset_type a) = ''TXD''"
    by (auto simp: kind_name_def)
  then show ?thesis
    using assms(2) config_line_start [of a]
    by (simp add: load_line_def Trim_config_line read_fields_printed [OF assms(1)] ParseSha256Hex_printed Let_def)
qed

section \<open>Loading a printed registry\<close>

lemma RegisterAsset_room:
  assumes "registry_ok r" and "IsAssetDescriptionValid a" and "assetId a \<notin> fst ` set (registry_assets r)"
    and "logicalName a \<notin> (\<lambda>e. logicalName (snd e)) ` set (registry_assets r)"
    and "length (registry_assets r) < 256"
    and "total_of (map snd (registry_assets r)) + unat (fileSize a) \<le> 536870912"
  shows "\<exists>r'. RegisterAsset a r = (Added, r')"
proof -
  have "map_of (registry_assets r) (assetId a) = None" using assms(3) by (simp add: map_of_eq_None_iff)
  moreover have "map_of (registry_names r) (logicalName a) = None"
    using assms(1,4) by (force simp: map_of_eq_None_iff registry_ok_def)
  moreover have "\<not> fileSize a > kMaximumTotalDownloadSize - registry_totalSize r"
  proof -
    have t: "unat (registry_totalSize r) = total_of (map snd (registry_assets r))" "registry_totalSize r \<le> kMaximumTotalDownloadSize"
      using assms(1) by (simp_all add: registry_ok_def)
    then have "unat (kMaximumTotalDownloadSize - registry_totalSize r) = 536870912 - unat (registry_totalSize r)"
      by (simp add: unat_sub kMaximumTotalDownloadSize_def)
    then show ?thesis using t(1) assms(6) by (simp add: word_less_nat_alt)
  qed
  ultimately show ?thesis using assms(2,5) by (simp add: RegisterAsset_def asset_limits)
qed


definition listable :: "AssetDescription list \<Rightarrow> bool" where
  "listable as \<longleftrightarrow> list_all IsAssetDescriptionValid as \<and> distinct (map assetId as) \<and> distinct (map logicalName as) \<and>
     length as \<le> 256 \<and> total_of as \<le> 536870912"

lemma total_of_append: "total_of (as @ bs) = total_of as + total_of bs"
  by (simp add: total_of_def)

lemma total_of_rev: "total_of (rev as) = total_of as"
  by (simp add: total_of_def rev_map [symmetric] sum_list_rev)

lemma load_lines_printed:
  assumes "registry_ok parsed" and "map snd (registry_assets parsed) = rev before" and "listable (before @ as)"
  shows "\<exists>r'. load_lines broken n (print_config as) parsed = Inr (n + length as, r') \<and> registry_ok r' \<and>
    map snd (registry_assets r') = rev (before @ as)"
  using assms
proof (induction as arbitrary: before parsed n)
  case Nil
  then show ?case by (subst load_lines.simps) (simp add: print_config_def getline_def)
next
  case (Cons a as)
  have valid: "IsAssetDescriptionValid a" using Cons.prems(3) by (simp add: listable_def)
  have set: "snd ` set (registry_assets parsed) = set before" using Cons.prems(2) by (metis list.set_map set_rev)
  have "fst ` set (registry_assets parsed) = assetId ` snd ` set (registry_assets parsed)"
    using entries_id [OF Cons.prems(1)] by (auto simp: image_iff)
  then have "assetId a \<notin> fst ` set (registry_assets parsed)" using set Cons.prems(3) by (auto simp: listable_def)
  moreover have "logicalName a \<notin> (\<lambda>e. logicalName (snd e)) ` set (registry_assets parsed)"
    using set Cons.prems(3) by (auto simp: listable_def)
  moreover have "length (registry_assets parsed) < 256"
    using arg_cong [OF Cons.prems(2), of length] Cons.prems(3) by (simp add: listable_def)
  moreover have "total_of (map snd (registry_assets parsed)) + unat (fileSize a) \<le> 536870912"
    using Cons.prems(2,3) by (simp add: listable_def total_of_append total_of_rev)
  ultimately obtain r1 where r1: "RegisterAsset a parsed = (Added, r1)"
    using RegisterAsset_room [OF Cons.prems(1) valid] by blast
  note one = RegisterAsset_Added [OF Cons.prems(1) r1]
  have "load_lines broken n (print_config (a # as)) parsed = load_lines broken (n + 1) (print_config as) r1"
    by (subst load_lines.simps)
      (simp add: print_config_def getline_line [OF config_line_no_newline [OF valid]] load_line_printed [OF valid r1])
  moreover have "\<exists>r'. load_lines broken (n + 1) (print_config as) r1 = Inr (n + 1 + length as, r') \<and> registry_ok r' \<and>
      map snd (registry_assets r') = rev ((before @ [a]) @ as)"
    by (rule Cons.IH) (use one Cons.prems in simp_all)
  ultimately show ?case by simp
qed

text \<open>What loading does on the way, and that every failure says something.\<close>

lemma registry_names_nonempty: "ToString_RegistryResult result \<noteq> []"
  by (cases result) simp_all

lemma load_line_failure: "load_line n line parsed = Inl failure \<Longrightarrow> errorLine failure = n \<and> loadedAssets failure = 0 \<and> config_error failure \<noteq> []"
  using registry_names_nonempty
  by (auto simp: load_line_def config_failure_def Let_def split: if_split_asm option.split_asm prod.split_asm)

definition built :: "AssetRegistry \<Rightarrow> bool" where
  "built r \<longleftrightarrow> registry_ok r \<and> registry_revision r = of_nat (Size r + 1)"

lemma load_line_built:
  assumes "load_line n line parsed = Inr parsed'" and "built parsed"
  shows "built parsed'"
proof -
  have "parsed' = parsed \<or> (\<exists>a. RegisterAsset a parsed = (Added, parsed'))"
    using assms(1) by (auto simp: load_line_def Let_def split: if_split_asm option.split_asm prod.split_asm)
  then consider "parsed' = parsed" | a where "RegisterAsset a parsed = (Added, parsed')" by blast
  then show ?thesis
  proof cases
    case 2
    have ok: "registry_ok parsed" and v: "registry_revision parsed = of_nat (Size parsed + 1)" using assms(2) by (simp_all add: built_def)
    note one = RegisterAsset_Added [OF ok 2]
    have len: "Size parsed < 256" using 2 by (auto simp: RegisterAsset_def Size_def asset_limits split: if_split_asm)
    have "registry_revision parsed' = registry_revision (AdvanceRevision parsed)"
      using 2 by (auto simp: RegisterAsset_def AdvanceRevision_def split: if_split_asm)
    moreover have "registry_revision parsed \<noteq> -1"
    proof
      assume "registry_revision parsed = -1"
      then have "unat (of_nat (Size parsed + 1) :: u64) = unat (-1 :: u64)" by (metis v)
      moreover have "unat (of_nat (Size parsed + 1) :: u64) = Size parsed + 1" unfolding unat_of_nat using len by simp
      moreover have "unat (-1 :: u64) = 18446744073709551615"
        by (simp add: unsigned_minus_1_eq_mask mask_eq_exp_minus_1)
      ultimately show False using len by linarith
    qed
    ultimately have "registry_revision parsed' = of_nat (Size parsed' + 1)"
      using v one by (simp add: AdvanceRevision_def Size_def)
    then show ?thesis using one by (simp add: built_def)
  qed (use assms(2) in simp)
qed


lemma count_newline_rest:
  assumes g: "getline broken s = Some (line, rest)"
  shows "if newline \<in> set s then count_list s newline = count_list rest newline + 1 else rest = []"
proof (cases "newline \<in> set s")
  case True
  then obtain before after_it where s: "s = before @ newline # after_it" "newline \<notin> set before" by (metis split_list_first)
  then have "rest = after_it" using g getline_line [OF s(2)] by simp
  then show ?thesis using s by (simp add: count_list_0_iff [THEN iffD2])
next
  case False
  then show ?thesis using g by (auto simp: getline_def split: if_split_asm)
qed

lemma load_lines_result:
  "(case load_lines broken n s parsed of
      Inl failure \<Rightarrow> n < errorLine failure \<and> errorLine failure \<le> n + count_list s newline + 1 \<and>
        loadedAssets failure = 0 \<and> config_error failure \<noteq> []
    | Inr (m, r) \<Rightarrow> m \<le> n + count_list s newline + 1 \<and> (built parsed \<longrightarrow> built r))"
proof (induction broken n s parsed rule: load_lines.induct)
  case (1 broken n s parsed)
  show ?case
  proof (cases "getline broken s")
    case None
    then show ?thesis by (subst load_lines.simps) simp
  next
    case (Some p)
    then obtain line rest where g: "getline broken s = Some (line, rest)" by (cases p) simp
    show ?thesis
    proof (cases "load_line (n + 1) line parsed")
      case (Inl failure)
      then show ?thesis using load_line_failure [OF Inl] by (subst load_lines.simps) (simp add: g)
    next
      case (Inr r)
      have e: "load_lines broken n s parsed = load_lines broken (n + 1) rest r"
        using Inr by (subst load_lines.simps) (simp add: g)
      have "count_list rest newline + 1 \<le> count_list s newline + 1 \<and>
          (newline \<in> set s \<longrightarrow> count_list rest newline + 1 = count_list s newline) \<and> (newline \<notin> set s \<longrightarrow> rest = [])"
        using count_newline_rest [OF g] by (auto split: if_split_asm)
      then show ?thesis
        using "1.IH" [OF g refl Inr] load_line_built [OF Inr]
        unfolding e by (cases "load_lines broken (n + 1) rest r") (auto simp: load_lines.simps [of _ _ "[]"] getline_def)
    qed
  qed
qed

section \<open>Properties\<close>


text \<open>
  Claim C12. A printed registry loads back. For the registry any sequence of operations
  leads to, the file with one line for every asset of its manifest loads without an error
  and publishes the same assets with the same total.
\<close>

theorem config_round_trip:
  fixes ops
  defines "r \<equiv> fold registry_step ops empty_registry"
  shows "\<exists>r'. LoadManifestConfig (Some (print_config (manifest_assets (BuildManifest r)), False)) other =
      (\<lparr>loadedAssets = Size r, errorLine = 0, config_error = []\<rparr>, r') \<and> registry_ok r' \<and>
    manifest_assets (BuildManifest r') = manifest_assets (BuildManifest r) \<and>
    totalDownloadSize (BuildManifest r') = totalDownloadSize (BuildManifest r)"
proof -
  have ok: "registry_ok r" unfolding r_def by (rule registry_steps_ok [OF registry_ok_empty])
  let ?as = "manifest_assets (BuildManifest r)"
  have m: "manifest_ok (BuildManifest r)" using ok by (rule BuildManifest_ok)
  have "totalDownloadSize (BuildManifest r) \<le> 536870912" using m by (simp add: manifest_ok_def kMaximumTotalDownloadSize_def)
  then have "total_of ?as \<le> 536870912" using m by (simp add: manifest_ok_def word_le_nat_alt)
  then have "listable ([] @ ?as)" using m by (simp add: listable_def manifest_ok_def list_all_iff asset_limits)
  from load_lines_printed [OF registry_ok_empty _ this, of False 0] obtain r' where
    r': "load_lines False 0 (print_config ?as) empty_registry = Inr (length ?as, r')" "registry_ok r'"
      "map snd (registry_assets r') = rev ?as" by (auto simp: empty_registry_def)
  have len: "length ?as = Size r" "Size r' = length ?as"
    using arg_cong [OF r'(3), of length] by (simp_all add: BuildManifest_def Size_def)
  have m': "manifest_ok (BuildManifest r')" using r'(2) by (rule BuildManifest_ok)
  have s: "set (manifest_assets (BuildManifest r')) = set ?as" using r'(3) by (simp add: BuildManifest_def)
  have same: "manifest_assets (BuildManifest r') = ?as"
    by (rule sorted_ids_unique) (use m m' s in \<open>simp_all add: manifest_ok_def\<close>)
  moreover have "unat (totalDownloadSize (BuildManifest r')) = unat (totalDownloadSize (BuildManifest r))"
    using m m' same by (simp add: manifest_ok_def)
  ultimately show ?thesis using r' len by (auto simp: LoadManifestConfig_def word_unat_eq_iff)
qed


section \<open>Fields that are not separated\<close>

text \<open>
  The documentation asks for six fields separated by white space. Formatted input ends a
  number at its first character that is no digit and accepts a sign, so that a line with
  four such fields and a negative number is taken as well.
\<close>

theorem config_fields_unseparated:
  "case LoadManifestConfig (Some (''-1DFF a http://h/x 5'' @ replicate 64 CHR ''a'', False)) empty_registry of
    (result, r) \<Rightarrow> result = \<lparr>loadedAssets = 1, errorLine = 0, config_error = []\<rparr> \<and>
      map_option logicalName (Find 4294967295 r) = Some ''a''"
  by code_simp

end
