(* ===== verification/OpenMpComponent.thy ===== *)
theory OpenMpComponent
  imports AssetPublication ManifestConfig
begin

text \<open>
  The open.mp component, \<^verbatim>\<open>server/openmp/component.cpp\<close>: it owns the tracker, the transport,
  the registry and the publication, and connects them to the events of the server core. The
  open.mp SDK is outside the repository: what the core answers is a parameter, what it is
  told, its console and the handlers it holds, is part of the state.
\<close>

section \<open>The core\<close>

datatype LogLevel = LogPrint | LogWarning | LogError

text \<open>A stream of bits as the handlers see it: \<open>None\<close> is a null pointer to its data.\<close>

record NetworkBitStream =
  stream_data :: "bytes option"
  unreadBits :: int
  readOffset :: int

text \<open>The check of the configuration file: missing, not accessible, or there with a stream.\<close>

datatype ConfigCheck = ConfigMissing | ConfigCheckFailed | ConfigPresent "(string \<times> bool) option"

record Core =
  core_players :: PlayerExists
  core_sendPacket :: SendPacket
  core_streamVersionMatches :: bool
  core_config :: ConfigCheck
  core_networks :: "(int \<times> nat \<times> nat) list"

datatype CoreHandler = ConnectHandler | IncomingHandlers | PacketHandler

section \<open>State\<close>

record CustomModelComponent =
  cmp_core :: bool
  cmp_registered :: bool
  cmp_tracker :: Tracker
  cmp_transport :: OpenMpTransport
  cmp_registry :: AssetRegistry
  cmp_assets :: Publication
  cmp_lastDispatch :: DispatchResult
  cmp_lastAssetDispatch :: AssetDispatchResult
  cmp_console :: "(LogLevel \<times> string) list"
  cmp_handlers :: "CoreHandler list"

definition kRequiredCapabilities :: CapabilityFlags where
  "kRequiredCapabilities = Capability_value CapabilityDff OR Capability_value CapabilityTxd OR Capability_value Sha256Cache"

definition MakePolicy :: HandshakePolicy where
  "MakePolicy = \<lparr>minimumClientRuntime = kRuntimeVersion, policy_serverRuntimeVersion = kRuntimeVersion,
     serverCapabilities = kDeclaredCapabilities, requiredCapabilities = kRequiredCapabilities\<rparr>"

definition new_component :: CustomModelComponent where
  "new_component = \<lparr>cmp_core = False, cmp_registered = False, cmp_tracker = PlayerCapabilityTracker MakePolicy,
     cmp_transport = new_OpenMpTransport, cmp_registry = empty_registry, cmp_assets = fmempty,
     cmp_lastDispatch = SendFailed, cmp_lastAssetDispatch = Ignored, cmp_console = [], cmp_handlers = []\<rparr>"

definition componentName :: string where
  "componentName = ''CustomModel''"

definition componentVersion :: "u8 \<times> u8 \<times> u8 \<times> u16" where
  "componentVersion = (ucast (major kRuntimeVersion), ucast (minor kRuntimeVersion), ucast (patch kRuntimeVersion), 0)"

section \<open>The console\<close>

definition console_line :: "LogLevel \<Rightarrow> string \<Rightarrow> CustomModelComponent \<Rightarrow> CustomModelComponent" where
  "console_line level text c = (if cmp_core c then c\<lparr>cmp_console := cmp_console c @ [(level, text)]\<rparr> else c)"

abbreviation printLn :: "string \<Rightarrow> CustomModelComponent \<Rightarrow> CustomModelComponent" where
  "printLn \<equiv> console_line LogPrint"

definition signed_text :: "int \<Rightarrow> string" where
  "signed_text n = (if n < 0 then CHR ''-'' # to_string (nat (- n)) else to_string (nat n))"

definition player_text :: "u32 \<Rightarrow> string" where
  "player_text i = to_string (unat i)"

definition kPreviewByteLimit :: nat where "kPreviewByteLimit = 16"

fun stream_preview :: "nat \<Rightarrow> bytes \<Rightarrow> string" where
  "stream_preview index [] = []"
| "stream_preview index (b # bs) = (if index = 0 then hex_byte b else CHR '' '' # hex_byte b) @ stream_preview (index + 1) bs"

definition LogPacketDebug :: "string \<Rightarrow> u32 \<Rightarrow> NetworkBitStream \<Rightarrow> CustomModelComponent \<Rightarrow> CustomModelComponent" where
  "LogPacketDebug stage i stream c =
    (if \<not> cmp_core c then c
     else
       let remainingBits = unreadBits stream;
           remainingBytes = (if remainingBits > 0 then (remainingBits - 1) div 8 + 1 else 0);
           preview = (case stream_data stream of
               Some bytes \<Rightarrow>
                 if remainingBits > 0 \<and> readOffset stream mod 8 = 0
                 then stream_preview 0 (take (min (nat remainingBytes) kPreviewByteLimit) (drop (nat (readOffset stream div 8)) bytes))
                 else []
             | None \<Rightarrow> [])
       in printLn (''[CustomModel:debug] preview='' @ (if preview = [] then ''<none>'' else preview))
           (printLn (''[CustomModel:debug] read offset='' @ signed_text (readOffset stream))
             (printLn (''[CustomModel:debug] remaining bytes='' @ signed_text remainingBytes)
               (printLn (''[CustomModel:debug] remaining bits='' @ signed_text remainingBits)
                 (printLn (''[CustomModel:debug] player='' @ player_text i)
                   (printLn (''[CustomModel:debug] '' @ stage) c))))))"

definition LogDispatch :: "u32 \<Rightarrow> DispatchResult \<Rightarrow> CustomModelComponent \<Rightarrow> CustomModelComponent" where
  "LogDispatch i result c =
    (let state = tracker_GetState i (cmp_tracker c)
     in case result of
       WelcomeSent \<Rightarrow>
         printLn (''[CustomModel] Welcome sent to player '' @ player_text i)
           (printLn (''[CustomModel] build '' @ ToString_SampVersion (hs_sampVersion state) @ '' accepted for player '' @ player_text i) c)
     | RejectSent \<Rightarrow>
         printLn (''[CustomModel] Reject sent to player '' @ player_text i @ '': '' @
           (case rejectReason state of Some reason \<Rightarrow> ToString_RejectReason reason | None \<Rightarrow> ''unknown reason'')) c
     | SendFailed \<Rightarrow>
         console_line LogError (''[CustomModel] handshake response send failed for player '' @ player_text i) c
     | DispatchUnrelated \<Rightarrow> c)"

definition LogAssetDispatch :: "u32 \<Rightarrow> AssetDispatchResult \<Rightarrow> Message \<Rightarrow> CustomModelComponent \<Rightarrow> CustomModelComponent" where
  "LogAssetDispatch i result message c =
    (if result = ReadyRecorded
     then (case message of
         AssetReadyMsg ready \<Rightarrow>
           printLn (''[CustomModel] asset '' @ to_string (unat (ready_assetId ready)) @ '' ready for player '' @ player_text i) c
       | _ \<Rightarrow> c)
     else if result = ErrorRecorded
     then (case message of
         AssetErrorMsg error \<Rightarrow>
           printLn (''[CustomModel] asset '' @ to_string (unat (error_assetId error)) @ '' failed for player '' @ player_text i @
             '': '' @ ToString_AssetErrorReason (error_reason error)) c
       | _ \<Rightarrow> c)
     else if result = InvalidOrder \<or> result = ReportInvalidAsset
     then console_line LogWarning (''[CustomModel] invalid asset status from player '' @ player_text i) c
     else c)"

section \<open>Dispatching\<close>

text \<open>The operations of the endpoint and the publication on the members of the component.\<close>

definition send_of :: "Core \<Rightarrow> OpenMpTransport Send" where
  "send_of core = OpenMp_Send (core_players core) (core_sendPacket core)"

definition on_endpoint ::
  "(Tracker \<times> OpenMpTransport \<Rightarrow> DispatchResult \<times> Tracker \<times> OpenMpTransport) \<Rightarrow> CustomModelComponent \<Rightarrow> DispatchResult \<times> CustomModelComponent" where
  "on_endpoint f c =
    (case f (cmp_tracker c, cmp_transport c) of
       (result, tracker, t) \<Rightarrow> (result, c\<lparr>cmp_tracker := tracker, cmp_transport := t\<rparr>))"

definition DispatchProtocol :: "Core \<Rightarrow> u32 \<Rightarrow> ByteView \<Rightarrow> CustomModelComponent \<Rightarrow> CustomModelComponent" where
  "DispatchProtocol core i bytes c =
    (case DecodePacket bytes of
       Inl error \<Rightarrow> c\<lparr>cmp_lastDispatch := SendFailed, cmp_lastAssetDispatch := InvalidOrder\<rparr>
     | Inr packet \<Rightarrow>
         (case packet_message packet of
            HelloMsg hello \<Rightarrow>
              (case on_endpoint (DispatchProtocolPayload (send_of core) i bytes) c of
                 (result, c) \<Rightarrow> c\<lparr>cmp_lastDispatch := result\<rparr>)
          | message \<Rightarrow>
              (case HandleIncoming i message (cmp_assets c) of
                 (result, assets) \<Rightarrow> c\<lparr>cmp_assets := assets, cmp_lastAssetDispatch := result\<rparr>)))"

definition DispatchMalformed :: "Core \<Rightarrow> u32 \<Rightarrow> CustomModelComponent \<Rightarrow> DispatchResult \<times> CustomModelComponent" where
  "DispatchMalformed core i c = on_endpoint (RejectMalformed (send_of core) i) c"

text \<open>What a welcomed player is sent.\<close>

definition publish_manifest :: "Core \<Rightarrow> u32 \<Rightarrow> CustomModelComponent \<Rightarrow> CustomModelComponent" where
  "publish_manifest core i c =
    (case OnPlayerCompatible (send_of core) (cmp_registry c) i (cmp_assets c, cmp_transport c) of
       (result, assets, t) \<Rightarrow>
         let c = c\<lparr>cmp_assets := assets, cmp_transport := t\<rparr>
         in case result of
           Sent \<Rightarrow>
             let state = publication_GetState i assets
             in printLn (''[CustomModel] manifest revision '' @ to_string (unat (as_manifestRevision state)) @ '' sent to player '' @
                  player_text i @ '' ('' @ to_string (fcard (expectedAssets state)) @ '' assets)'') c
         | ManifestSendFailed \<Rightarrow>
             console_line LogError (''[CustomModel] manifest send failed for player '' @ player_text i) c
         | _ \<Rightarrow> c)"

section \<open>Event handlers\<close>

definition onPlayerConnect :: "int \<Rightarrow> CustomModelComponent \<Rightarrow> CustomModelComponent" where
  "onPlayerConnect player c =
    (if player \<ge> 0
     then c\<lparr>cmp_tracker := OnPlayerConnected (of_int player) (cmp_tracker c),
            cmp_assets := publication_OnPlayerConnected (of_int player) (cmp_assets c)\<rparr>
     else c)"

definition onPlayerDisconnect :: "int \<Rightarrow> CustomModelComponent \<Rightarrow> CustomModelComponent" where
  "onPlayerDisconnect player c =
    (if player \<ge> 0
     then c\<lparr>cmp_tracker := OnPlayerDisconnected (of_int player) (cmp_tracker c),
            cmp_assets := publication_OnPlayerDisconnected (of_int player) (cmp_assets c)\<rparr>
     else c)"

definition onReceivePacket :: "int \<Rightarrow> int \<Rightarrow> NetworkBitStream \<Rightarrow> CustomModelComponent \<Rightarrow> bool \<times> CustomModelComponent" where
  "onReceivePacket player packetId stream c =
    (True, if packetId = uint kRakNetPacketId \<and> player \<ge> 0
           then LogPacketDebug ''carrier observed before per-packet dispatch'' (of_int player) stream c else c)"

definition kMagicBits :: int where "kMagicBits = 32"

text \<open>The bytes from the read position on.\<close>

definition payload_from :: "NetworkBitStream \<Rightarrow> bytes \<Rightarrow> bytes" where
  "payload_from stream bytes = drop (nat (readOffset stream div 8)) bytes"

text \<open>A packet of the protocol: its dispatch and what follows from its result.\<close>

fun is_hello :: "Message \<Rightarrow> bool" where
  "is_hello (HelloMsg _) = True"
| "is_hello _ = False"

fun is_asset_report :: "Message \<Rightarrow> bool" where
  "is_asset_report (AssetReadyMsg _) = True"
| "is_asset_report (AssetErrorMsg _) = True"
| "is_asset_report _ = False"

definition dispatch_packet :: "Core \<Rightarrow> u32 \<Rightarrow> ByteView \<Rightarrow> CustomModelComponent \<Rightarrow> CustomModelComponent" where
  "dispatch_packet core i bytes c =
    (let decoded = (case DecodePacket bytes of Inl error \<Rightarrow> None | Inr packet \<Rightarrow> Some (packet_message packet));
         isHello = (case decoded of Some message \<Rightarrow> is_hello message | None \<Rightarrow> False);
         isAssetReport = (case decoded of Some message \<Rightarrow> is_asset_report message | None \<Rightarrow> False);
         c = (if isHello then printLn (''[CustomModel] Hello received from player '' @ player_text i) c else c);
         c = c\<lparr>cmp_lastDispatch := SendFailed, cmp_lastAssetDispatch := Ignored\<rparr>
     in case OpenMp_DispatchIncoming (DispatchProtocol core) i bytes (cmp_transport c) c of
       (False, c) \<Rightarrow> console_line LogError (''[CustomModel] failed to dispatch frame from player '' @ player_text i) c
     | (True, c) \<Rightarrow>
         if isHello
         then (let c = LogDispatch i (cmp_lastDispatch c) c
               in if cmp_lastDispatch c = WelcomeSent then publish_manifest core i c else c)
         else if isAssetReport then LogAssetDispatch i (cmp_lastAssetDispatch c) (the decoded) c
         else c)"

definition onReceive :: "Core \<Rightarrow> int \<Rightarrow> NetworkBitStream \<Rightarrow> CustomModelComponent \<Rightarrow> bool \<times> CustomModelComponent" where
  "onReceive core player stream c =
    (if player < 0 then (True, c)
     else
       let i = of_int player;
           c = LogPacketDebug ''packet handler invoked'' i stream c
       in case stream_data stream of
         None \<Rightarrow> (True, c)
       | Some bytes \<Rightarrow>
           if unreadBits stream < kMagicBits \<or> readOffset stream < 0 \<or> readOffset stream mod 8 \<noteq> 0 then (True, c)
           else
             let payload = payload_from stream bytes
             in if frame_kind (InspectProtocolPayload (View (take 4 payload))) = Unrelated then (True, c)
             else if unreadBits stream mod 8 \<noteq> 0 \<or> unreadBits stream div 8 > int kMaximumPacketSize
             then (case DispatchMalformed core i c of (result, c) \<Rightarrow> (False, LogDispatch i result c))
             else (False, dispatch_packet core i (View (take (nat (unreadBits stream div 8)) payload)) c))"

section \<open>Life cycle\<close>

definition network_line :: "int \<times> nat \<times> nat \<Rightarrow> string" where
  "network_line n = (case n of (network, packets, incoming) \<Rightarrow>
     ''[CustomModel:debug] network='' @ signed_text network @ '' packet 0x5E handler count='' @ to_string packets @
     '' global incoming handler count='' @ to_string incoming)"

text \<open>The handlers are added for the connections, for each network, and for the packet id.\<close>

definition register_handlers :: "Core \<Rightarrow> CustomModelComponent \<Rightarrow> CustomModelComponent" where
  "register_handlers core c =
    printLn ''[CustomModel] server transport initialized''
      ((fold (\<lambda>n. printLn (network_line n)) (core_networks core)
        (c\<lparr>cmp_handlers := cmp_handlers c @ [ConnectHandler, IncomingHandlers, PacketHandler]\<rparr>))
       \<lparr>cmp_registered := True\<rparr>)"

definition shut_transport :: "CustomModelComponent \<Rightarrow> CustomModelComponent" where
  "shut_transport c = c\<lparr>cmp_transport := OpenMp_Shutdown (cmp_transport c)\<rparr>"

definition onLoad :: "Core \<Rightarrow> CustomModelComponent \<Rightarrow> CustomModelComponent" where
  "onLoad core c =
    (let c = c\<lparr>cmp_core := True\<rparr>
     in if \<not> core_streamVersionMatches core
        then console_line LogError ''[CustomModel] incompatible open.mp NetworkBitStream version'' c
     else case OpenMp_Initialize True (OpenMp_Attach True (cmp_transport c)) of
       (False, t) \<Rightarrow> console_line LogError ''[CustomModel] server transport initialization failed'' (c\<lparr>cmp_transport := t\<rparr>)
     | (True, t) \<Rightarrow>
         let c = c\<lparr>cmp_transport := t\<rparr>
         in case core_config core of
           ConfigPresent source \<Rightarrow>
             (case LoadManifestConfig source (cmp_registry c) of
                (loaded, registry) \<Rightarrow>
                  let c = c\<lparr>cmp_registry := registry\<rparr>
                  in if config_error loaded \<noteq> []
                     then shut_transport (console_line LogError (''[CustomModel] manifest configuration error at line '' @
                       to_string (errorLine loaded) @ '': '' @ config_error loaded) c)
                     else register_handlers core
                       (printLn (''[CustomModel] loaded '' @ to_string (loadedAssets loaded) @ '' manifest assets'') c))
         | ConfigCheckFailed \<Rightarrow>
             shut_transport (console_line LogError ''[CustomModel] manifest path check failed'' c)
         | ConfigMissing \<Rightarrow>
             register_handlers core
               (printLn ''[CustomModel] no manifest configuration; publishing an empty manifest'' c))"

definition reset :: "CustomModelComponent \<Rightarrow> CustomModelComponent" where
  "reset c = c\<lparr>cmp_tracker := tracker_Reset (cmp_tracker c), cmp_assets := publication_Reset (cmp_assets c)\<rparr>"

text \<open>\<^verbatim>\<open>free\<close> deletes the component; this is what it leaves behind it.\<close>

definition free :: "CustomModelComponent \<Rightarrow> CustomModelComponent" where
  "free c =
    (let c = (if cmp_core c \<and> cmp_registered c then c\<lparr>cmp_handlers := []\<rparr> else c);
         c = shut_transport (reset (c\<lparr>cmp_registered := False\<rparr>))
     in c\<lparr>cmp_core := False\<rparr>)"

end
