(* ===== verification/ComponentProperties.thy ===== *)
theory ComponentProperties
  imports OpenMpComponent
begin

text \<open>
  The open.mp component as a whole: what it sends for a packet it receives, and what holds
  in every state it can reach from its start.
\<close>

section \<open>The console does not matter\<close>

lemma console_line_fields [simp]:
  "cmp_core (console_line l s c) = cmp_core c" "cmp_registered (console_line l s c) = cmp_registered c"
  "cmp_tracker (console_line l s c) = cmp_tracker c" "cmp_transport (console_line l s c) = cmp_transport c"
  "cmp_registry (console_line l s c) = cmp_registry c" "cmp_assets (console_line l s c) = cmp_assets c"
  "cmp_lastDispatch (console_line l s c) = cmp_lastDispatch c"
  "cmp_lastAssetDispatch (console_line l s c) = cmp_lastAssetDispatch c" "cmp_handlers (console_line l s c) = cmp_handlers c"
  by (simp_all add: console_line_def)

text \<open>Two components that differ at most in their console.\<close>

definition alike :: "CustomModelComponent \<Rightarrow> CustomModelComponent \<Rightarrow> bool" where
  "alike c c' \<longleftrightarrow> cmp_core c' = cmp_core c \<and> cmp_registered c' = cmp_registered c \<and> cmp_tracker c' = cmp_tracker c \<and>
     cmp_transport c' = cmp_transport c \<and> cmp_registry c' = cmp_registry c \<and> cmp_assets c' = cmp_assets c"

lemma alike_refl [simp]: "alike c c"
  by (simp add: alike_def)

lemma alike_trans: "alike c c' \<Longrightarrow> alike c' c'' \<Longrightarrow> alike c c''"
  by (simp add: alike_def)

lemma alike_console: "alike c c' \<Longrightarrow> alike c (console_line l s c')"
  by (simp add: alike_def)

lemma alike_LogPacketDebug: "alike c (LogPacketDebug stage i stream c)"
  by (simp add: LogPacketDebug_def Let_def alike_console)

lemma alike_LogDispatch: "alike c (LogDispatch i result c)"
  by (cases result) (simp_all add: LogDispatch_def Let_def alike_console)

lemma alike_LogAssetDispatch: "alike c (LogAssetDispatch i result message c)"
  by (cases message) (simp_all add: LogAssetDispatch_def alike_console)

lemma alike_network_lines: "alike c (fold (\<lambda>n. printLn (network_line n)) ns c)"
proof -
  have "alike c c' \<Longrightarrow> alike c (fold (\<lambda>n. printLn (network_line n)) ns c')" for c'
    by (induction ns arbitrary: c') (simp_all add: alike_console)
  then show ?thesis by simp
qed

lemma alike_parts:
  assumes "alike c c'"
  shows "cmp_transport c' = cmp_transport c" "cmp_tracker c' = cmp_tracker c" "cmp_registry c' = cmp_registry c"
    "cmp_assets c' = cmp_assets c"
  using assms by (simp_all add: alike_def)

section \<open>The invariant\<close>

text \<open>
  A player whose manifest was sent, or who reports, was welcomed before; its expectations
  are the registry's manifest.
\<close>

definition player_sound :: "AssetRegistry \<Rightarrow> Tracker \<Rightarrow> u32 \<Rightarrow> PlayerAssetState \<Rightarrow> bool" where
  "player_sound r tracker i s \<longleftrightarrow> player_assets_ok s \<and> i |\<in>| fmdom (players tracker) \<and>
     (as_state s = AssetHandshakePending \<or>
       hs_state (tracker_GetState i tracker) \<in> {HandshakeCompatible, HandshakeRejected} \<and>
       as_manifestRevision s = revision (BuildManifest r) \<and>
       expectedAssets s = fset_of_list (map assetId (manifest_assets (BuildManifest r))))"

definition component_ok :: "CustomModelComponent \<Rightarrow> bool" where
  "component_ok c \<longleftrightarrow> tracker_ok (cmp_tracker c) \<and> reasons_ok (cmp_tracker c) \<and>
     policy (cmp_tracker c) = policy (PlayerCapabilityTracker MakePolicy) \<and> registry_ok (cmp_registry c) \<and>
     (\<forall>i s. fmlookup (cmp_assets c) i = Some s \<longrightarrow> player_sound (cmp_registry c) (cmp_tracker c) i s) \<and>
     (cmp_registered c \<longrightarrow> cmp_core c \<and> OpenMp_IsAvailable (cmp_transport c))"

lemma component_ok_alike: "alike c c' \<Longrightarrow> component_ok c' = component_ok c"
  by (simp add: alike_def component_ok_def)

lemma new_component_ok: "component_ok new_component"
proof -
  have "tracker_ok (PlayerCapabilityTracker MakePolicy)" by (rule tracker_ok_new)
  then show ?thesis
    using registry_ok_empty by (simp add: component_ok_def new_component_def reasons_ok_def PlayerCapabilityTracker_def)
qed

lemma player_sound_tracker:
  assumes "player_sound r tracker i s" and "i |\<in>| fmdom (players tracker')"
    and "hs_state (tracker_GetState i tracker) \<in> {HandshakeCompatible, HandshakeRejected} \<Longrightarrow>
      hs_state (tracker_GetState i tracker') \<in> {HandshakeCompatible, HandshakeRejected}"
  shows "player_sound r tracker' i s"
  using assms by (auto simp: player_sound_def)


section \<open>What receiving a packet amounts to\<close>

text \<open>
  The part of the state that matters, after a packet of a player that carries the messages
  with \<open>P\<close>: none or one.
\<close>

inductive received :: "Core \<Rightarrow> u32 \<Rightarrow> (Message \<Rightarrow> bool) \<Rightarrow> CustomModelComponent \<Rightarrow> CustomModelComponent \<Rightarrow> bool" for core i P c where
  unmoved: "alike c c' \<Longrightarrow> received core i P c c'"
| refused: "RejectPlayer i MalformedHandshake (cmp_tracker c) = (r, tracker') \<Longrightarrow>
    SendResponse (send_of core) i (RejectResponse r) (cmp_transport c) = (result, t') \<Longrightarrow>
    alike (c\<lparr>cmp_tracker := tracker', cmp_transport := t'\<rparr>) c' \<Longrightarrow> received core i P c c'"
| answered: "P (HelloMsg hello) \<Longrightarrow> HandleHello i hello (cmp_tracker c) = (response, tracker') \<Longrightarrow>
    SendResponse (send_of core) i response (cmp_transport c) = (result, t') \<Longrightarrow> result \<noteq> WelcomeSent \<Longrightarrow>
    alike (c\<lparr>cmp_tracker := tracker', cmp_transport := t'\<rparr>) c' \<Longrightarrow> received core i P c c'"
| welcomed: "P (HelloMsg hello) \<Longrightarrow> HandleHello i hello (cmp_tracker c) = (response, tracker') \<Longrightarrow>
    SendResponse (send_of core) i response (cmp_transport c) = (WelcomeSent, t') \<Longrightarrow>
    OnPlayerCompatible (send_of core) (cmp_registry c) i (cmp_assets c, t') = (mresult, assets', t'') \<Longrightarrow>
    alike (c\<lparr>cmp_tracker := tracker', cmp_transport := t'', cmp_assets := assets'\<rparr>) c' \<Longrightarrow> received core i P c c'"
| reported: "P message \<Longrightarrow> HandleIncoming i message (cmp_assets c) = (recorded, assets') \<Longrightarrow>
    alike (c\<lparr>cmp_assets := assets'\<rparr>) c' \<Longrightarrow> received core i P c c'"

lemma received_alike:
  assumes "received core i P c1 c'" and "alike c c1"
  shows "received core i P c c'"
proof -
  have eqs: "cmp_tracker c1 = cmp_tracker c" "cmp_transport c1 = cmp_transport c" "cmp_registry c1 = cmp_registry c"
    "cmp_assets c1 = cmp_assets c" using assms(2) by (simp_all add: alike_def)
  have upd: "alike (c1\<lparr>cmp_tracker := x, cmp_transport := y\<rparr>) c' \<Longrightarrow> alike (c\<lparr>cmp_tracker := x, cmp_transport := y\<rparr>) c'"
    "alike (c1\<lparr>cmp_tracker := x, cmp_transport := y, cmp_assets := z\<rparr>) c' \<Longrightarrow>
      alike (c\<lparr>cmp_tracker := x, cmp_transport := y, cmp_assets := z\<rparr>) c'"
    "alike (c1\<lparr>cmp_assets := z\<rparr>) c' \<Longrightarrow> alike (c\<lparr>cmp_assets := z\<rparr>) c'" for x y z
    using assms(2) by (simp_all add: alike_def)
  from assms(1) show ?thesis
  proof cases
    case unmoved
    then show ?thesis using assms(2) alike_trans received.unmoved by blast
  next
    case (refused r tracker' result t')
    then show ?thesis using upd(1) unfolding eqs by (intro received.refused)
  next
    case (answered hello response tracker' result t')
    then show ?thesis using upd(1) unfolding eqs by (intro received.answered)
  next
    case (welcomed hello response tracker' t' mresult assets' t'')
    then show ?thesis using upd(2) unfolding eqs by (intro received.welcomed)
  next
    case (reported message recorded assets')
    then show ?thesis using upd(3) unfolding eqs by (intro received.reported)
  qed
qed

lemma hello_dispatch:
  assumes d: "DecodePacket (View bs) = Inr packet" and m: "packet_message packet = HelloMsg hello"
    and h: "HandleHello i hello (cmp_tracker c) = (response, tracker')"
    and s: "SendResponse (send_of core) i response (cmp_transport c) = (result, t')"
  shows "DispatchProtocol core i (View bs) c = c\<lparr>cmp_tracker := tracker', cmp_transport := t', cmp_lastDispatch := result\<rparr>"
proof -
  have bytes: "bs = packet_bytes (HelloMsg hello)" and valid: "message_valid (HelloMsg hello)"
    using DecodePacket_dest [OF d] m by auto
  have "InspectProtocolPayload (View bs) = \<lparr>frame_kind = CustomModel, protocolBytes = View bs\<rparr>"
    by (simp add: bytes InspectProtocolPayload_def)
  moreover have "view_size (View bs) \<le> kMaximumPacketSize"
    using packet_length [OF valid] by (simp add: bytes kMaximumPacketSize_def)
  ultimately have "DispatchProtocolPayload (send_of core) i (View bs) (cmp_tracker c, cmp_transport c) = (result, tracker', t')"
    using d m h s by (simp add: DispatchProtocolPayload_def DispatchClaimedProtocol_def Let_def)
  then show ?thesis using d m by (simp add: DispatchProtocol_def on_endpoint_def)
qed

lemma report_dispatch:
  assumes "DecodePacket bytes = Inr packet" and "\<not> is_hello (packet_message packet)"
    and "HandleIncoming i (packet_message packet) (cmp_assets c) = (recorded, assets')"
  shows "DispatchProtocol core i bytes c = c\<lparr>cmp_assets := assets', cmp_lastAssetDispatch := recorded\<rparr>"
  using assms by (cases "packet_message packet") (simp_all add: DispatchProtocol_def)


text \<open>A greeting over an available transport, and the publication after a welcome.\<close>

lemma publish_alike:
  assumes "OnPlayerCompatible (send_of core) (cmp_registry c) i (cmp_assets c, cmp_transport c) = (mresult, assets', t')"
  shows "alike (c\<lparr>cmp_assets := assets', cmp_transport := t'\<rparr>) (publish_manifest core i c)"
  by (cases mresult) (simp_all add: publish_manifest_def assms Let_def alike_console)

lemma dispatch_hello:
  assumes avail: "OpenMp_IsAvailable (cmp_transport c)"
    and packet: "DecodePacket (View bs) = Inr packet" "packet_message packet = HelloMsg hello"
    and h: "HandleHello i hello (cmp_tracker c) = (response, tracker')"
    and s: "SendResponse (send_of core) i response (cmp_transport c) = (result, t')"
  shows "\<exists>c2. alike (c\<lparr>cmp_tracker := tracker', cmp_transport := t'\<rparr>) c2 \<and>
    dispatch_packet core i (View bs) c = (if result = WelcomeSent then publish_manifest core i c2 else c2)"
proof -
  define c0 where "c0 = (printLn (''[CustomModel] Hello received from player '' @ player_text i) c)
    \<lparr>cmp_lastDispatch := SendFailed, cmp_lastAssetDispatch := Ignored\<rparr>"
  have c0: "cmp_tracker c0 = cmp_tracker c" "cmp_transport c0 = cmp_transport c" "alike c c0" by (simp_all add: c0_def alike_def)
  let ?c1 = "c0\<lparr>cmp_tracker := tracker', cmp_transport := t', cmp_lastDispatch := result\<rparr>"
  let ?c2 = "LogDispatch i result ?c1"
  have l: "alike ?c1 ?c2" by (rule alike_LogDispatch)
  have r: "cmp_lastDispatch ?c2 = result" by (cases result) (simp_all add: LogDispatch_def Let_def)
  have d: "DispatchProtocol core i (View bs) c0 = ?c1" using hello_dispatch [OF packet, of i c0] h s c0 by simp
  have "dispatch_packet core i (View bs) c = (if result = WelcomeSent then publish_manifest core i ?c2 else ?c2)"
    using avail packet r d by (simp add: dispatch_packet_def c0_def OpenMp_DispatchIncoming_def Let_def)
  moreover have "alike (c\<lparr>cmp_tracker := tracker', cmp_transport := t'\<rparr>) ?c2" using l c0(3) by (simp add: alike_def)
  ultimately show ?thesis by blast
qed

text \<open>Any other packet over an available transport.\<close>

lemma dispatch_report:
  assumes avail: "OpenMp_IsAvailable (cmp_transport c)"
    and packet: "DecodePacket (View bs) = Inr packet" "\<not> is_hello (packet_message packet)"
    and r: "HandleIncoming i (packet_message packet) (cmp_assets c) = (recorded, assets')"
  shows "alike (c\<lparr>cmp_assets := assets'\<rparr>) (dispatch_packet core i (View bs) c)"
proof -
  define c0 where "c0 = c\<lparr>cmp_lastDispatch := SendFailed, cmp_lastAssetDispatch := Ignored\<rparr>"
  let ?c1 = "c0\<lparr>cmp_assets := assets', cmp_lastAssetDispatch := recorded\<rparr>"
  have r0: "HandleIncoming i (packet_message packet) (cmp_assets c0) = (recorded, assets')" using r by (simp add: c0_def)
  have "dispatch_packet core i (View bs) c =
      (if is_asset_report (packet_message packet) then LogAssetDispatch i recorded (packet_message packet) ?c1 else ?c1)"
    using avail packet report_dispatch [OF packet r0]
    by (simp add: dispatch_packet_def c0_def OpenMp_DispatchIncoming_def Let_def)
  moreover have "alike ?c1 (LogAssetDispatch i recorded (packet_message packet) ?c1)" by (rule alike_LogAssetDispatch)
  ultimately show ?thesis by (auto simp: alike_def c0_def)
qed

definition packet_carries :: "bytes \<Rightarrow> Message \<Rightarrow> bool" where
  "packet_carries bs m \<longleftrightarrow> (case DecodePacket (View bs) of Inl error \<Rightarrow> False | Inr packet \<Rightarrow> packet_message packet = m)"

lemma dispatch_packet_received: "received core i (packet_carries bs) c (dispatch_packet core i (View bs) c)"
proof -
  let ?P = "packet_carries bs"
  define decoded where "decoded = (case DecodePacket (View bs) of Inl error \<Rightarrow> None | Inr packet \<Rightarrow> Some (packet_message packet))"
  define c0 where "c0 = (if (case decoded of Some message \<Rightarrow> is_hello message | None \<Rightarrow> False)
    then printLn (''[CustomModel] Hello received from player '' @ player_text i) c else c)
    \<lparr>cmp_lastDispatch := SendFailed, cmp_lastAssetDispatch := Ignored\<rparr>"
  have c0: "alike c c0" by (simp add: c0_def alike_def)
  have run: "dispatch_packet core i (View bs) c =
    (case OpenMp_DispatchIncoming (DispatchProtocol core) i (View bs) (cmp_transport c0) c0 of
       (False, c) \<Rightarrow> console_line LogError (''[CustomModel] failed to dispatch frame from player '' @ player_text i) c
     | (True, c) \<Rightarrow>
         if (case decoded of Some message \<Rightarrow> is_hello message | None \<Rightarrow> False)
         then (let c = LogDispatch i (cmp_lastDispatch c) c
               in if cmp_lastDispatch c = WelcomeSent then publish_manifest core i c else c)
         else if (case decoded of Some message \<Rightarrow> is_asset_report message | None \<Rightarrow> False)
         then LogAssetDispatch i (cmp_lastAssetDispatch c) (the decoded) c
         else c)"
    unfolding dispatch_packet_def decoded_def c0_def Let_def by simp
  have "received core i ?P c0 (dispatch_packet core i (View bs) c)"
  proof (cases "OpenMp_IsAvailable (cmp_transport c0)")
    case False
    then have "dispatch_packet core i (View bs) c =
        console_line LogError (''[CustomModel] failed to dispatch frame from player '' @ player_text i) c0"
      unfolding run by (simp add: OpenMp_DispatchIncoming_def)
    then show ?thesis by (simp add: received.unmoved alike_console)
  next
    case available: True
    define c1 where "c1 = DispatchProtocol core i (View bs) c0"
    show ?thesis
    proof (cases "DecodePacket (View bs)")
      case (Inl e)
      then have "dispatch_packet core i (View bs) c = c0\<lparr>cmp_lastDispatch := SendFailed, cmp_lastAssetDispatch := InvalidOrder\<rparr>"
        using available unfolding run by (simp add: OpenMp_DispatchIncoming_def decoded_def DispatchProtocol_def)
      then show ?thesis by (intro received.unmoved) (simp add: alike_def)
    next
      case (Inr packet)
      show ?thesis
      proof (cases "is_hello (packet_message packet)")
        case True
        then obtain hello where HelloMsg: "packet_message packet = HelloMsg hello" by (cases "packet_message packet") auto
        have carries: "?P (HelloMsg hello)" using Inr HelloMsg by (simp add: packet_carries_def)
        obtain response tracker' where h: "HandleHello i hello (cmp_tracker c) = (response, tracker')" by (metis prod.exhaust)
        obtain result t' where s: "SendResponse (send_of core) i response (cmp_transport c) = (result, t')" by (metis prod.exhaust)
        have "OpenMp_IsAvailable (cmp_transport c)" using available c0 by (simp add: alike_def)
        from dispatch_hello [OF this Inr HelloMsg h s] obtain c2 where c2: "alike (c\<lparr>cmp_tracker := tracker', cmp_transport := t'\<rparr>) c2"
          "dispatch_packet core i (View bs) c = (if result = WelcomeSent then publish_manifest core i c2 else c2)" by blast
        have "received core i ?P c (dispatch_packet core i (View bs) c)"
        proof (cases "result = WelcomeSent")
          case False
          then show ?thesis using c2 received.answered [where P = ?P, OF carries h s] by simp
        next
          case True
          obtain mresult assets' t'' where o:
            "OnPlayerCompatible (send_of core) (cmp_registry c) i (cmp_assets c, t') = (mresult, assets', t'')"
            by (metis prod_cases3)
          have "OnPlayerCompatible (send_of core) (cmp_registry c2) i (cmp_assets c2, cmp_transport c2) = (mresult, assets', t'')"
            using o c2(1) by (simp add: alike_def)
          from publish_alike [OF this]
          have "alike (c\<lparr>cmp_tracker := tracker', cmp_transport := t'', cmp_assets := assets'\<rparr>) (publish_manifest core i c2)"
            using c2(1) by (simp add: alike_def)
          then show ?thesis using True c2(2) received.welcomed [where P = ?P, OF carries h _ o] s by simp
        qed
        moreover have "alike c0 c" using c0 by (simp add: alike_def)
        ultimately show ?thesis by (rule received_alike)
      next
        case False
        have carries: "?P (packet_message packet)" using Inr by (simp add: packet_carries_def)
        obtain recorded assets' where r: "HandleIncoming i (packet_message packet) (cmp_assets c) = (recorded, assets')"
          by (metis prod.exhaust)
        have "OpenMp_IsAvailable (cmp_transport c)" using available c0 by (simp add: alike_def)
        from received.reported [where P = ?P, OF carries r dispatch_report [OF this Inr False r]]
        have "received core i ?P c (dispatch_packet core i (View bs) c)" .
        moreover have "alike c0 c" using c0 by (simp add: alike_def)
        ultimately show ?thesis by (rule received_alike)
      qed
    qed
  qed
  then show ?thesis using c0 received_alike by blast
qed


text \<open>The packets the component takes out of the stream of the game: those with the protocol's magic.\<close>

definition claims :: "int \<Rightarrow> NetworkBitStream \<Rightarrow> bool" where
  "claims player stream \<longleftrightarrow> 0 \<le> player \<and>
    (case stream_data stream of None \<Rightarrow> False
     | Some bytes \<Rightarrow> 32 \<le> unreadBits stream \<and> 0 \<le> readOffset stream \<and> readOffset stream mod 8 = 0 \<and>
         take 4 (payload_from stream bytes) = u32_bytes kMagic)"

lemma magic_claimed:
  "frame_kind (InspectProtocolPayload (View (take 4 bs))) \<noteq> Unrelated \<longleftrightarrow> take 4 bs = u32_bytes kMagic"
proof -
  have "rest = []" if "take 4 bs = u32_bytes kMagic @ rest" for rest
  proof -
    have "length (u32_bytes kMagic @ rest) \<le> 4" using that by (metis length_take min.cobounded2)
    then show ?thesis by (simp add: u32_bytes_def)
  qed
  then have "HasProtocolMagic (View (take 4 bs)) \<longleftrightarrow> take 4 bs = u32_bytes kMagic"
    by (auto simp: HasProtocolMagic_View)
  then show ?thesis by (simp add: InspectProtocolPayload_def no_frame_def)
qed

text \<open>The message a stream carries, if its bytes decode.\<close>

definition carried :: "NetworkBitStream \<Rightarrow> Message \<Rightarrow> bool" where
  "carried stream m \<longleftrightarrow>
    (case stream_data stream of None \<Rightarrow> False
     | Some bytes \<Rightarrow> packet_carries (take (nat (unreadBits stream div 8)) (payload_from stream bytes)) m)"

lemma onReceive_cases:
  assumes "onReceive core player stream c = (pass, c')"
  shows "pass = (\<not> claims player stream) \<and> (if pass then alike c c' else received core (of_int player) (carried stream) c c')"
proof -
  let ?i = "of_int player :: u32"
  define c0 where "c0 = LogPacketDebug ''packet handler invoked'' ?i stream c"
  have c0: "alike c c0" unfolding c0_def by (rule alike_LogPacketDebug)
  show ?thesis
  proof (cases "claims player stream")
    case False
    then have "onReceive core player stream c = (True, if player < 0 then c else c0)"
      using magic_claimed by (auto simp: onReceive_def c0_def [symmetric] claims_def kMagicBits_def Let_def split: option.splits)
    then show ?thesis using assms c0 False by (auto split: if_split_asm)
  next
    case True
    then obtain bytes where b: "stream_data stream = Some bytes" "\<not> player < 0" "32 \<le> unreadBits stream" "0 \<le> readOffset stream"
      "readOffset stream mod 8 = 0" "take 4 (payload_from stream bytes) = u32_bytes kMagic"
      by (auto simp: claims_def split: option.splits)
    have run: "onReceive core player stream c =
      (if unreadBits stream mod 8 \<noteq> 0 \<or> unreadBits stream div 8 > int kMaximumPacketSize
       then (case DispatchMalformed core ?i c0 of (result, c) \<Rightarrow> (False, LogDispatch ?i result c))
       else (False, dispatch_packet core ?i (View (take (nat (unreadBits stream div 8)) (payload_from stream bytes))) c0))"
      using b magic_claimed [of "payload_from stream bytes"]
      by (simp add: onReceive_def c0_def [symmetric] kMagicBits_def Let_def)
    show ?thesis
    proof (cases "unreadBits stream mod 8 \<noteq> 0 \<or> unreadBits stream div 8 > int kMaximumPacketSize")
      case False
      then have "pass = False" "c' = dispatch_packet core ?i (View (take (nat (unreadBits stream div 8)) (payload_from stream bytes))) c0"
        using assms unfolding run by simp_all
      moreover have "carried stream = packet_carries (take (nat (unreadBits stream div 8)) (payload_from stream bytes))"
        using b(1) by (intro ext) (simp add: carried_def)
      ultimately show ?thesis using True dispatch_packet_received received_alike [OF _ c0] by simp
    next
      case malformed: True
      obtain r tracker' where r: "RejectPlayer ?i MalformedHandshake (cmp_tracker c0) = (r, tracker')" by (metis prod.exhaust)
      obtain result t' where s: "SendResponse (send_of core) ?i (RejectResponse r) (cmp_transport c0) = (result, t')"
        by (metis prod.exhaust)
      have "DispatchMalformed core ?i c0 = (result, c0\<lparr>cmp_tracker := tracker', cmp_transport := t'\<rparr>)"
        by (simp add: DispatchMalformed_def on_endpoint_def RejectMalformed_def endpoint_Reject_def r s)
      then have "pass = False" "c' = LogDispatch ?i result (c0\<lparr>cmp_tracker := tracker', cmp_transport := t'\<rparr>)"
        using assms malformed unfolding run by simp_all
      then show ?thesis
        using True received.refused [OF r s alike_LogDispatch] received_alike [OF _ c0] by simp
    qed
  qed
qed


text \<open>A whole packet of the protocol is dispatched.\<close>

lemma onReceive_whole:
  assumes "claims player stream" and b: "stream_data stream = Some bytes" and "unreadBits stream mod 8 = 0"
    and "unreadBits stream \<le> 8 * int kMaximumPacketSize"
  shows "\<exists>c0. alike c c0 \<and> onReceive core player stream c = (False, dispatch_packet core (of_int player)
    (View (take (nat (unreadBits stream div 8)) (payload_from stream bytes))) c0)"
proof -
  define c0 where "c0 = LogPacketDebug ''packet handler invoked'' (of_int player) stream c"
  have "\<not> player < 0" "32 \<le> unreadBits stream" "0 \<le> readOffset stream"
    "readOffset stream mod 8 = 0" "take 4 (payload_from stream bytes) = u32_bytes kMagic"
    using assms(1) b by (auto simp: claims_def)
  moreover have "\<not> unreadBits stream div 8 > int kMaximumPacketSize" using assms(3,4) by presburger
  ultimately have "onReceive core player stream c = (False, dispatch_packet core (of_int player)
      (View (take (nat (unreadBits stream div 8)) (payload_from stream bytes))) c0)"
    using b assms(3) magic_claimed [of "payload_from stream bytes"]
    by (simp add: onReceive_def c0_def [symmetric] kMagicBits_def Let_def)
  moreover have "alike c c0" unfolding c0_def by (rule alike_LogPacketDebug)
  ultimately show ?thesis by blast
qed

section \<open>What is sent, and the invariant\<close>

text \<open>The messages that may follow an answer: a welcome is followed by the manifest.\<close>

fun follow_up :: "AssetRegistry \<Rightarrow> HandshakeResponse \<Rightarrow> Message list" where
  "follow_up r (WelcomeResponse w) = manifest_messages (BuildManifest r)"
| "follow_up r (RejectResponse reject) = []"

text \<open>The answer to what a packet carries: the decision on a greeting, or a refusal.\<close>

definition answer_to :: "u32 \<Rightarrow> (Message \<Rightarrow> bool) \<Rightarrow> Tracker \<Rightarrow> HandshakeResponse \<Rightarrow> bool" where
  "answer_to i P tracker response \<longleftrightarrow> response = RejectResponse \<lparr>reject_reason = MalformedHandshake\<rparr> \<or>
     (\<exists>hello. P (HelloMsg hello) \<and> response = fst (HandleHello i hello tracker))"

definition replies :: "u32 \<Rightarrow> (Message \<Rightarrow> bool) \<Rightarrow> Tracker \<Rightarrow> CustomModelComponent \<Rightarrow> (u32 \<times> bytes) list \<Rightarrow> bool" where
  "replies i P tracker c new \<longleftrightarrow> new = [] \<or>
     (\<exists>response n. answer_to i P tracker response \<and> records response i (cmp_tracker c) \<and>
        new = map (\<lambda>m. (i, frame_of m)) (response_message response # take n (follow_up (cmp_registry c) response)))"

interpretation component_send: server_transport "send_of core" core_sent for core
  unfolding send_of_def by (rule openmp.server_transport_axioms)

lemma SendResponse_sent:
  assumes "records response i tracker" and "tracker_ok tracker" and "reasons_ok tracker"
    and "SendResponse (send_of core) i response t = (result, t')"
  shows "(result = sent_result response \<and> core_sent t' = core_sent t @ [(i, frame_of (response_message response))]) \<or>
    (result = SendFailed \<and> core_sent t' = core_sent t)"
  using assms(4) component_send.send_log [of core i "View (frame_of (response_message response))" t]
  unfolding SendResponse_valid [OF records_valid [OF assms(1-3)]] by (auto split: prod.splits if_splits)

lemma send_of_frame:
  "core_attached (snd (send_of core i bytes t)) = core_attached t" "handler_set (snd (send_of core i bytes t)) = handler_set t"
  by (simp_all add: send_of_def OpenMp_Send_frame)

lemma SendResponse_available:
  "SendResponse (send_of core) i response t = (result, t') \<Longrightarrow> OpenMp_IsAvailable t' = OpenMp_IsAvailable t"
  using send_of_frame [of core i _ t]
  by (auto simp: SendResponse_def OpenMp_IsAvailable_def split: sum.splits option.splits prod.splits bool.splits HandshakeResponse.splits)
    (metis snd_conv)+

lemma publication_Send_available:
  "publication_Send (send_of core) i m t = (ok, t') \<Longrightarrow> OpenMp_IsAvailable t' = OpenMp_IsAvailable t"
  using send_of_frame [of core i _ t]
  by (auto simp: publication_Send_def OpenMp_IsAvailable_def split: sum.splits option.splits) (metis snd_conv)+

lemma send_all_available:
  "send_all (send_of core) i ms t = (ok, t') \<Longrightarrow> OpenMp_IsAvailable t' = OpenMp_IsAvailable t"
proof (induction ms arbitrary: t)
  case (Cons m ms)
  obtain b t1 where s: "publication_Send (send_of core) i m t = (b, t1)" by (metis prod.exhaust)
  then show ?case using Cons publication_Send_available [OF s] by (auto split: if_splits)
qed simp


text \<open>A decision about a player, whichever way it came about.\<close>

definition decided :: "u32 \<Rightarrow> HandshakeResponse \<Rightarrow> Tracker \<Rightarrow> Tracker \<Rightarrow> bool" where
  "decided i response tracker tracker' \<longleftrightarrow> records response i tracker' \<and> tracker_ok tracker' \<and> reasons_ok tracker' \<and>
     policy tracker' = policy tracker \<and> (\<forall>j. j \<noteq> i \<longrightarrow> fmlookup (players tracker') j = fmlookup (players tracker) j)"

lemma decided_hello:
  assumes "HandleHello i hello tracker = (response, tracker')" and "tracker_ok tracker" and "reasons_ok tracker"
  shows "decided i response tracker tracker'"
proof -
  have "response = fst (HandleHello i hello tracker)" "tracker' = snd (HandleHello i hello tracker)" using assms(1) by simp_all
  then show ?thesis
    using HandleHello_records HandleHello_ok [OF assms(2)] HandleHello_reasons [OF assms(3)] HandleHello_frame
    by (simp add: decided_def)
qed

lemma decided_refused:
  assumes "RejectPlayer i MalformedHandshake tracker = (r, tracker')" and "tracker_ok tracker" and "reasons_ok tracker"
  shows "decided i (RejectResponse r) tracker tracker'"
proof -
  have t: "tracker' = snd (RejectPlayer i MalformedHandshake tracker)" using assms(1) by simp
  have ok: "tracker_ok tracker'" "reasons_ok tracker'"
    using RejectPlayer_ok [OF assms(2)] RejectPlayer_reasons [OF assms(3)] by (simp_all add: t)
  have "r = \<lparr>reject_reason = MalformedHandshake\<rparr>"
    "tracker' = set_player i (default_player\<lparr>hs_state := HandshakeRejected, rejectReason := Some MalformedHandshake\<rparr>) tracker"
    using assms(1) by (auto simp: RejectPlayer_def)
  then have "records (RejectResponse r) i tracker'" "policy tracker' = policy tracker"
    "\<forall>j. j \<noteq> i \<longrightarrow> fmlookup (players tracker') j = fmlookup (players tracker) j"
    by (simp_all add: records_def)
  then show ?thesis using ok by (simp add: decided_def)
qed

lemma decided_player:
  assumes "decided i response tracker tracker'"
  shows "i |\<in>| fmdom (players tracker')" and "hs_state (tracker_GetState i tracker') \<in> {HandshakeCompatible, HandshakeRejected}"
    and "j |\<in>| fmdom (players tracker) \<Longrightarrow> j |\<in>| fmdom (players tracker')"
    and "j \<noteq> i \<Longrightarrow> tracker_GetState j tracker' = tracker_GetState j tracker"
proof -
  obtain s where s: "fmlookup (players tracker') i = Some s"
    "hs_state s \<in> {HandshakeCompatible, HandshakeRejected}"
    using assms by (cases response) (auto simp: decided_def records_def)
  show "i |\<in>| fmdom (players tracker')" "hs_state (tracker_GetState i tracker') \<in> {HandshakeCompatible, HandshakeRejected}"
    using s by (simp_all add: fmdomI tracker_GetState_def)
  show "j |\<in>| fmdom (players tracker) \<Longrightarrow> j |\<in>| fmdom (players tracker')"
    using assms s(1) by (cases "j = i") (simp_all add: decided_def fmlookup_dom_iff)
  show "j \<noteq> i \<Longrightarrow> tracker_GetState j tracker' = tracker_GetState j tracker"
    using assms by (simp add: decided_def tracker_GetState_def)
qed

lemma decided_sound:
  assumes "decided i response tracker tracker'" and "player_sound r tracker j s"
  shows "player_sound r tracker' j s"
proof (rule player_sound_tracker [OF assms(2)])
  show "j |\<in>| fmdom (players tracker')"
    by (rule decided_player(3) [OF assms(1)]) (use assms(2) in \<open>simp add: player_sound_def\<close>)
  assume old: "hs_state (tracker_GetState j tracker) \<in> {HandshakeCompatible, HandshakeRejected}"
  show "hs_state (tracker_GetState j tracker') \<in> {HandshakeCompatible, HandshakeRejected}"
  proof (cases "j = i")
    case True
    then show ?thesis using decided_player(2) [OF assms(1)] by blast
  next
    case False
    show ?thesis using old by (simp only: decided_player(4) [OF assms(1) False])
  qed
qed

lemma component_ok_decided:
  assumes "component_ok c" and "decided i response (cmp_tracker c) tracker'" and "OpenMp_IsAvailable t' = OpenMp_IsAvailable (cmp_transport c)"
  shows "component_ok (c\<lparr>cmp_tracker := tracker', cmp_transport := t'\<rparr>)"
proof -
  have "player_sound (cmp_registry c) tracker' j s" if "fmlookup (cmp_assets c) j = Some s" for j s
    using that assms(1) decided_sound [OF assms(2)] by (simp add: component_ok_def)
  moreover have "tracker_ok tracker'" "reasons_ok tracker'" "policy tracker' = policy (cmp_tracker c)"
    using assms(2) by (simp_all add: decided_def)
  ultimately show ?thesis using assms(1,3) by (simp add: component_ok_def)
qed

text \<open>A publication for a player that was just decided on.\<close>

lemma publish_sound:
  assumes ok: "component_ok c" and rec: "i |\<in>| fmdom (players (cmp_tracker c))"
      "hs_state (tracker_GetState i (cmp_tracker c)) \<in> {HandshakeCompatible, HandshakeRejected}"
    and run: "OnPlayerCompatible (send_of core) (cmp_registry c) i (cmp_assets c, cmp_transport c) = (mresult, assets', t')"
  shows "component_ok (c\<lparr>cmp_transport := t', cmp_assets := assets'\<rparr>) \<and>
    (\<exists>n. core_sent t' = core_sent (cmp_transport c) @ map (\<lambda>m. (i, frame_of m)) (take n (manifest_messages (BuildManifest (cmp_registry c))))) \<and>
    (\<forall>j. j \<noteq> i \<longrightarrow> fmlookup assets' j = fmlookup (cmp_assets c) j)"
proof (cases "\<exists>s. fmlookup (cmp_assets c) i = Some s \<and> (as_state s = AssetHandshakePending \<or> as_state s = AssetCompatible)")
  case False
  then have "assets' = cmp_assets c" "t' = cmp_transport c"
    using OnPlayerCompatible_other [of "cmp_assets c" i "send_of core" "cmp_registry c" "cmp_transport c"] run by auto
  then show ?thesis using ok by (auto intro!: exI [of _ 0])
next
  case True
  then obtain s where s: "fmlookup (cmp_assets c) i = Some s" "as_state s = AssetHandshakePending \<or> as_state s = AssetCompatible" by blast
  let ?m = "BuildManifest (cmp_registry c)"
  have m: "manifest_ok ?m" using ok BuildManifest_ok by (simp add: component_ok_def)
  from component_send.publication_stream [OF m s run] obtain n where n1:
    "core_sent t' = core_sent (cmp_transport c) @ map (\<lambda>m. (i, frame_of m)) (take n (manifest_messages ?m))"
    "if n = length (manifest_messages ?m) then mresult = Sent \<and> assets' = fmupd i (published ?m) (cmp_assets c)
      else mresult = ManifestSendFailed \<and> assets' = fmupd i (publication_failed ?m) (cmp_assets c)" by blast
  then have n: "core_sent t' = core_sent (cmp_transport c) @ map (\<lambda>m. (i, frame_of m)) (take n (manifest_messages ?m))"
    "assets' = fmupd i (published ?m) (cmp_assets c) \<or> assets' = fmupd i (publication_failed ?m) (cmp_assets c)"
    by (auto split: if_split_asm)
  obtain sent_all t1 where a: "send_all (send_of core) i (manifest_messages ?m) (cmp_transport c) = (sent_all, t1)" by (metis prod.exhaust)
  have "t' = t1" using run unfolding OnPlayerCompatible_pending [OF s] a by (auto split: if_splits)
  then have avail: "OpenMp_IsAvailable t' = OpenMp_IsAvailable (cmp_transport c)" using send_all_available [OF a] by simp
  have "player_sound (cmp_registry c) (cmp_tracker c) i (published ?m)" "player_sound (cmp_registry c) (cmp_tracker c) i (publication_failed ?m)"
    using rec published_ok by (simp_all add: player_sound_def published_def publication_failed_def)
  then have "component_ok (c\<lparr>cmp_transport := t', cmp_assets := assets'\<rparr>)"
    using ok n(2) avail by (auto simp: component_ok_def split: if_split_asm)
  then show ?thesis using n by auto
qed


lemma report_sound:
  assumes ok: "component_ok c" and run: "HandleIncoming i message (cmp_assets c) = (recorded, assets')"
  shows "component_ok (c\<lparr>cmp_assets := assets'\<rparr>) \<and> (\<forall>j. j \<noteq> i \<longrightarrow> fmlookup assets' j = fmlookup (cmp_assets c) j)"
proof (cases "\<exists>s. fmlookup (cmp_assets c) i = Some s \<and> reporting s")
  case True
  then obtain s where s: "fmlookup (cmp_assets c) i = Some s" "reporting s" by blast
  have a: "assets' = fmupd i (reported message s) (cmp_assets c)" using HandleIncoming_reported [OF s, of message] run by simp
  have old: "player_sound (cmp_registry c) (cmp_tracker c) i s" using ok s(1) by (simp add: component_ok_def)
  have "as_state s \<noteq> AssetHandshakePending" using s(2) by (auto simp: reporting_def)
  moreover have "player_assets_ok (reported message s)" using reported_ok [OF s(2), of message] by (simp add: reporting_def)
  ultimately have "player_sound (cmp_registry c) (cmp_tracker c) i (reported message s)"
    using old reported_fixed [of message s] by (simp add: player_sound_def)
  then show ?thesis using ok by (auto simp: a component_ok_def split: if_split_asm)
next
  case False
  then have "HandleIncoming i message (cmp_assets c) = (InvalidOrder, cmp_assets c)"
    using ok by (intro HandleIncoming_refused) (auto simp: reporting_def component_ok_def player_sound_def)
  then show ?thesis using run ok by simp
qed

lemma received_ok:
  assumes step: "received core i P c c'" and ok: "component_ok c"
  shows "component_ok c' \<and> cmp_registry c' = cmp_registry c \<and>
    (\<exists>new. core_sent (cmp_transport c') = core_sent (cmp_transport c) @ new \<and> replies i P (cmp_tracker c) c' new) \<and>
    (\<forall>j. j \<noteq> i \<longrightarrow> fmlookup (players (cmp_tracker c')) j = fmlookup (players (cmp_tracker c)) j \<and>
      fmlookup (cmp_assets c') j = fmlookup (cmp_assets c) j)"
proof -
  have t: "tracker_ok (cmp_tracker c)" "reasons_ok (cmp_tracker c)" using ok by (simp_all add: component_ok_def)
  have decision: ?thesis
    if d: "decided i response (cmp_tracker c) tracker'"
      and s: "SendResponse (send_of core) i response (cmp_transport c) = (result, t')"
      and a: "alike (c\<lparr>cmp_tracker := tracker', cmp_transport := t'\<rparr>) c'"
      and origin: "answer_to i P (cmp_tracker c) response"
    for response tracker' result t'
  proof -
    have "component_ok (c\<lparr>cmp_tracker := tracker', cmp_transport := t'\<rparr>)"
      using component_ok_decided [OF ok d] SendResponse_available [OF s] by simp
    then have "component_ok c'" using component_ok_alike [OF a] by simp
    moreover have "replies i P (cmp_tracker c) c' [(i, frame_of (response_message response))]"
      using d a origin unfolding replies_def by (intro disjI2 exI [of _ response] exI [of _ 0]) (simp add: alike_def decided_def)
    moreover have "replies i P (cmp_tracker c) c' []" by (simp add: replies_def)
    moreover have "core_sent (cmp_transport c') = core_sent (cmp_transport c) @ [(i, frame_of (response_message response))] \<or>
        core_sent (cmp_transport c') = core_sent (cmp_transport c) @ []"
      using SendResponse_sent [OF _ _ _ s] d a by (auto simp: decided_def alike_def)
    ultimately have "\<exists>new. core_sent (cmp_transport c') = core_sent (cmp_transport c) @ new \<and> replies i P (cmp_tracker c) c' new" by blast
    moreover have "cmp_registry c' = cmp_registry c" using a by (simp add: alike_def)
    moreover have "fmlookup (players (cmp_tracker c')) j = fmlookup (players (cmp_tracker c)) j \<and>
        fmlookup (cmp_assets c') j = fmlookup (cmp_assets c) j" if "j \<noteq> i" for j
      using d that a by (simp add: alike_def decided_def)
    ultimately show ?thesis using \<open>component_ok c'\<close> by blast
  qed
  from step show ?thesis
  proof cases
    case unmoved
    then have "component_ok c'" using ok component_ok_alike by simp
    moreover have "core_sent (cmp_transport c') = core_sent (cmp_transport c) @ []" "replies i P (cmp_tracker c) c' []"
      by (simp_all add: alike_parts [OF unmoved] replies_def)
    ultimately show ?thesis using alike_parts [OF unmoved] by metis
  next
    case (refused r tracker' result t')
    show ?thesis by (rule decision [OF decided_refused [OF refused(1) t] refused(2,3)])
      (use refused(1) in \<open>auto simp: answer_to_def RejectPlayer_def\<close>)
  next
    case (answered hello response tracker' result t')
    show ?thesis by (rule decision [OF decided_hello [OF answered(2) t] answered(3,5)])
      (use answered(1,2) in \<open>auto simp: answer_to_def intro!: exI [of _ hello]\<close>)
  next
    case (reported message recorded assets')
    note r = report_sound [OF ok reported(2)]
    have "component_ok c'" using r component_ok_alike [OF reported(3)] by simp
    moreover have "replies i P (cmp_tracker c) c' []" by (simp add: replies_def)
    moreover have "core_sent (cmp_transport c') = core_sent (cmp_transport c) @ []" "cmp_registry c' = cmp_registry c"
      "cmp_tracker c' = cmp_tracker c" "cmp_assets c' = assets'" by (simp_all add: alike_parts [OF reported(3)])
    ultimately show ?thesis using r by metis
  next
    case (welcomed hello response tracker' t' mresult assets' t'')
    note d = decided_hello [OF welcomed(2) t]
    have sent: "response_message response = WelcomeMsg w \<Longrightarrow> follow_up r response = manifest_messages (BuildManifest r)" for w r
      by (cases response) simp_all
    obtain w where w: "response = WelcomeResponse w"
      using welcomed(3) by (cases response) (auto simp: SendResponse_def split: sum.splits option.splits prod.splits bool.splits)
    have s: "core_sent t' = core_sent (cmp_transport c) @ [(i, frame_of (response_message response))]"
      using SendResponse_sent [OF _ _ _ welcomed(3)] d by (auto simp: decided_def)
    let ?c1 = "c\<lparr>cmp_tracker := tracker', cmp_transport := t'\<rparr>"
    have ok1: "component_ok ?c1" using component_ok_decided [OF ok d] SendResponse_available [OF welcomed(3)] by simp
    have rec: "i |\<in>| fmdom (players (cmp_tracker ?c1))" "hs_state (tracker_GetState i (cmp_tracker ?c1)) \<in> {HandshakeCompatible, HandshakeRejected}"
      using decided_player(1,2) [OF d] by simp_all
    have "OnPlayerCompatible (send_of core) (cmp_registry ?c1) i (cmp_assets ?c1, cmp_transport ?c1) = (mresult, assets', t'')"
      using welcomed(4) by simp
    note p = publish_sound [OF ok1 rec this]
    obtain n where n: "core_sent t'' = core_sent t' @ map (\<lambda>m. (i, frame_of m)) (take n (manifest_messages (BuildManifest (cmp_registry c))))"
      using p by auto
    have origin: "answer_to i P (cmp_tracker c) response" using welcomed(1,2) by (auto simp: answer_to_def intro!: exI [of _ hello])
    let ?new = "map (\<lambda>m. (i, frame_of m)) (response_message response # take n (follow_up (cmp_registry c') response))"
    have reg: "cmp_registry c' = cmp_registry c" using welcomed(5) by (simp add: alike_def)
    have "component_ok c'" using p component_ok_alike [OF welcomed(5)] by simp
    moreover have "replies i P (cmp_tracker c) c' ?new"
      using d welcomed(5) origin unfolding replies_def decided_def alike_def by (intro disjI2 exI [of _ response] exI [of _ n]) simp
    moreover have "core_sent (cmp_transport c') = core_sent (cmp_transport c) @ ?new"
      using s n w reg welcomed(5) by (simp add: alike_def)
    ultimately have "component_ok c'" "\<exists>new. core_sent (cmp_transport c') = core_sent (cmp_transport c) @ new \<and> replies i P (cmp_tracker c) c' new"
      by blast+
    moreover have "fmlookup (players (cmp_tracker c')) j = fmlookup (players (cmp_tracker c)) j \<and>
        fmlookup (cmp_assets c') j = fmlookup (cmp_assets c) j" if "j \<noteq> i" for j
      using d that p welcomed(5) by (simp add: alike_def decided_def)
    ultimately show ?thesis using reg by blast
  qed
qed


section \<open>The component's events\<close>

text \<open>
  The core calls the handlers once they are registered; it may reset a component at any time.
\<close>

datatype ComponentEvent =
    PlayerConnects int
  | PlayerDisconnects int
  | PacketSeen int int NetworkBitStream
  | PacketReceived int NetworkBitStream
  | ComponentReset

fun component_step :: "Core \<Rightarrow> ComponentEvent \<Rightarrow> CustomModelComponent \<Rightarrow> CustomModelComponent" where
  "component_step core (PlayerConnects player) c = (if cmp_registered c then onPlayerConnect player c else c)"
| "component_step core (PlayerDisconnects player) c = (if cmp_registered c then onPlayerDisconnect player c else c)"
| "component_step core (PacketSeen player packetId stream) c =
    (if cmp_registered c then snd (onReceivePacket player packetId stream c) else c)"
| "component_step core (PacketReceived player stream) c = (if cmp_registered c then snd (onReceive core player stream c) else c)"
| "component_step core ComponentReset c = reset c"

definition component_run :: "Core \<Rightarrow> ComponentEvent list \<Rightarrow> CustomModelComponent" where
  "component_run core es = fold (component_step core) es (onLoad core new_component)"

lemma LoadManifestConfig_ok:
  assumes "registry_ok r"
  shows "registry_ok (snd (LoadManifestConfig source r))"
proof (cases source)
  case None
  then show ?thesis using assms by (simp add: LoadManifestConfig_def config_failure_def)
next
  case (Some p)
  then obtain content broken where p: "source = Some (content, broken)" by (cases p) simp
  have "built empty_registry" using registry_ok_empty by (simp add: built_def empty_registry_def Size_def)
  then show ?thesis
    using assms load_lines_result [where broken = broken and n = 0 and s = content and parsed = empty_registry]
    by (cases "load_lines broken 0 content empty_registry") (auto simp: p LoadManifestConfig_def built_def)
qed

lemma register_handlers_fields:
  "cmp_core (register_handlers core c) = cmp_core c" "cmp_registered (register_handlers core c)"
  "cmp_tracker (register_handlers core c) = cmp_tracker c" "cmp_transport (register_handlers core c) = cmp_transport c"
  "cmp_registry (register_handlers core c) = cmp_registry c" "cmp_assets (register_handlers core c) = cmp_assets c"
proof -
  have "alike (c\<lparr>cmp_handlers := cmp_handlers c @ [ConnectHandler, IncomingHandlers, PacketHandler]\<rparr>)
    (fold (\<lambda>n. printLn (network_line n)) (core_networks core) (c\<lparr>cmp_handlers := cmp_handlers c @ [ConnectHandler, IncomingHandlers, PacketHandler]\<rparr>))"
    by (rule alike_network_lines)
  then show "cmp_core (register_handlers core c) = cmp_core c" "cmp_registered (register_handlers core c)"
    "cmp_tracker (register_handlers core c) = cmp_tracker c" "cmp_transport (register_handlers core c) = cmp_transport c"
    "cmp_registry (register_handlers core c) = cmp_registry c" "cmp_assets (register_handlers core c) = cmp_assets c"
    by (simp_all add: register_handlers_def alike_def)
qed

text \<open>What loading leaves behind, in a component without players.\<close>

lemma onLoad_fields:
  "cmp_core (onLoad core c) \<and> cmp_tracker (onLoad core c) = cmp_tracker c \<and> cmp_assets (onLoad core c) = cmp_assets c \<and>
   (registry_ok (cmp_registry c) \<longrightarrow> registry_ok (cmp_registry (onLoad core c))) \<and>
   (cmp_registered (onLoad core c) \<longrightarrow> cmp_registered c \<or> OpenMp_IsAvailable (cmp_transport (onLoad core c)))"
proof -
  have i: "OpenMp_Initialize True (OpenMp_Attach True t) = (True, t\<lparr>core_attached := True, handler_set := True\<rparr>)" for t
    by (simp add: OpenMp_Initialize_def OpenMp_Attach_def)
  show ?thesis
  proof (cases "core_streamVersionMatches core")
    case False
    then show ?thesis by (simp add: onLoad_def)
  next
    case True
    show ?thesis
    proof (cases "core_config core")
      case (ConfigPresent source)
      obtain loaded registry where l: "LoadManifestConfig source (cmp_registry c) = (loaded, registry)" by (metis prod.exhaust)
      then have "registry_ok (cmp_registry c) \<Longrightarrow> registry_ok registry" using LoadManifestConfig_ok by (metis snd_conv)
      then show ?thesis
        using True ConfigPresent l
        by (simp add: onLoad_def i Let_def register_handlers_fields shut_transport_def OpenMp_IsAvailable_def)
    qed (use True in \<open>simp_all add: onLoad_def i Let_def register_handlers_fields shut_transport_def OpenMp_IsAvailable_def\<close>)
  qed
qed

lemma onLoad_ok: "component_ok (onLoad core new_component)"
proof -
  have n: "cmp_assets new_component = fmempty" "\<not> cmp_registered new_component" by (simp_all add: new_component_def)
  show ?thesis
    using new_component_ok onLoad_fields [of core new_component] n unfolding component_ok_def by simp
qed


text \<open>A player connects or leaves, and everybody is forgotten.\<close>

lemma onPlayerConnect_ok:
  assumes ok: "component_ok c"
  shows "component_ok (onPlayerConnect player c)"
proof (cases "player \<ge> 0")
  case True
  define i :: u32 where "i = of_int player"
  define tracker' where "tracker' = OnPlayerConnected i (cmp_tracker c)"
  define assets' where "assets' = publication_OnPlayerConnected i (cmp_assets c)"
  have run: "onPlayerConnect player c = c\<lparr>cmp_tracker := tracker', cmp_assets := assets'\<rparr>"
    using True by (simp add: onPlayerConnect_def tracker'_def assets'_def i_def)
  have t: "tracker' = tracker_step (Connected i) (cmp_tracker c)" by (simp add: tracker'_def OnPlayerConnected_def)
  have "tracker_ok tracker'" using ok tracker_step_ok unfolding t component_ok_def by blast
  moreover have "reasons_ok tracker'" "policy tracker' = policy (cmp_tracker c)"
    using ok by (auto simp: tracker'_def OnPlayerConnected_def BeginHandshake_def component_ok_def reasons_ok_def default_player_def split: if_split_asm)
  moreover have "player_sound (cmp_registry c) tracker' j s" if s: "fmlookup assets' j = Some s" for j s
  proof (cases "j = i")
    case True
    then have "s = default_assets\<lparr>as_state := AssetHandshakePending\<rparr>"
      using s by (simp add: assets'_def publication_OnPlayerConnected_def)
    then show ?thesis
      using True by (simp add: player_sound_def player_assets_ok_def default_assets_def tracker'_def OnPlayerConnected_def BeginHandshake_def set_player_def)
  next
    case False
    then have "player_sound (cmp_registry c) (cmp_tracker c) j s"
      using s ok by (simp add: assets'_def publication_OnPlayerConnected_def component_ok_def)
    then show ?thesis
      using False by (simp add: player_sound_def tracker'_def OnPlayerConnected_def BeginHandshake_def tracker_GetState_def set_player_def)
  qed
  ultimately show ?thesis using ok by (simp add: run component_ok_def)
next
  case False
  then show ?thesis using ok by (simp add: onPlayerConnect_def)
qed

lemma onPlayerDisconnect_ok:
  assumes ok: "component_ok c"
  shows "component_ok (onPlayerDisconnect player c)"
proof (cases "player \<ge> 0")
  case True
  define i :: u32 where "i = of_int player"
  define tracker' where "tracker' = OnPlayerDisconnected i (cmp_tracker c)"
  have run: "onPlayerDisconnect player c = c\<lparr>cmp_tracker := tracker', cmp_assets := fmdrop i (cmp_assets c)\<rparr>"
    using True by (simp add: onPlayerDisconnect_def tracker'_def i_def publication_OnPlayerDisconnected_def)
  have t: "tracker' = tracker_step (Disconnected i) (cmp_tracker c)" by (simp add: tracker'_def OnPlayerDisconnected_def)
  have "tracker_ok tracker'" using ok tracker_step_ok unfolding t component_ok_def by blast
  moreover have "reasons_ok tracker'" "policy tracker' = policy (cmp_tracker c)"
    using ok by (auto simp: tracker'_def OnPlayerDisconnected_def RemovePlayer_def component_ok_def reasons_ok_def split: if_split_asm)
  moreover have "player_sound (cmp_registry c) tracker' j s" if s: "fmlookup (fmdrop i (cmp_assets c)) j = Some s" for j s
  proof -
    have "j \<noteq> i" "player_sound (cmp_registry c) (cmp_tracker c) j s" using s ok by (auto simp: component_ok_def split: if_split_asm)
    then show ?thesis by (simp add: player_sound_def tracker'_def OnPlayerDisconnected_def RemovePlayer_def tracker_GetState_def)
  qed
  ultimately show ?thesis using ok by (simp add: run component_ok_def)
next
  case False
  then show ?thesis using ok by (simp add: onPlayerDisconnect_def)
qed

lemma reset_ok:
  assumes "component_ok c"
  shows "component_ok (reset c)"
proof -
  have "tracker_ok (tracker_Reset (cmp_tracker c))" "reasons_ok (tracker_Reset (cmp_tracker c))"
    using assms tracker_step_ok [of "cmp_tracker c" ServerReset] by (simp_all add: component_ok_def reasons_ok_def tracker_Reset_def)
  then show ?thesis using assms by (simp add: reset_def component_ok_def publication_Reset_def tracker_Reset_def)
qed

lemma onReceive_ok:
  assumes "component_ok c"
  shows "component_ok (snd (onReceive core player stream c))"
proof -
  obtain pass c' where r: "onReceive core player stream c = (pass, c')" by (metis prod.exhaust)
  then show ?thesis
    using onReceive_cases [OF r] received_ok [OF _ assms] component_ok_alike assms by (auto split: if_split_asm)
qed

lemma component_step_ok: "component_ok c \<Longrightarrow> component_ok (component_step core e c)"
proof (cases e)
  case (PacketSeen player packetId stream)
  assume "component_ok c"
  moreover have "alike c (snd (onReceivePacket player packetId stream c))"
    by (simp add: onReceivePacket_def alike_LogPacketDebug)
  ultimately show ?thesis using PacketSeen component_ok_alike by simp
qed (simp_all add: onPlayerConnect_ok onPlayerDisconnect_ok onReceive_ok reset_ok)

lemma component_run_ok: "component_ok (component_run core es)"
proof -
  have "component_ok c \<Longrightarrow> component_ok (fold (component_step core) es c)" for c
    by (induction es arbitrary: c) (simp_all add: component_step_ok)
  then show ?thesis by (simp add: component_run_def onLoad_ok)
qed


section \<open>Properties\<close>

text \<open>
  Claim C10. The server component never forgets its guarantees. Whatever the core answers,
  however its configuration file reads and whatever players and packets come, in any order:
  the tracker records only decisions its policy allows, the registry holds only valid
  descriptions within its limits, every player with an asset state is tracked, a player
  beyond the handshake was decided on and expects exactly the registry's manifest, and
  handlers are registered only over an available transport.
\<close>

theorem component_invariant: "component_ok (component_run core es)"
  by (rule component_run_ok)

text \<open>
  Claim C9. What the server does with a packet. After any run, a packet is taken from the
  game exactly if it has the protocol's magic at a byte boundary; one that is left to the
  game sends nothing and changes no state. For one that is taken, the core accepts no packet,
  or one answer to its sender, the decision on the greeting the packet carries or a refusal of a
  malformed one, which the tracker now records, followed after a welcome by a prefix of the manifest's messages, in order. No other
  player's handshake or assets change, nor does the registry.
\<close>

theorem component_answers:
  "let c = component_run core es; i = of_int player
   in case onReceive core player stream c of (pass, c') \<Rightarrow>
     pass = (\<not> claims player stream) \<and>
     (\<exists>new. core_sent (cmp_transport c') = core_sent (cmp_transport c) @ new \<and>
       (if pass then new = [] \<and> cmp_tracker c' = cmp_tracker c \<and> cmp_assets c' = cmp_assets c else replies i (carried stream) (cmp_tracker c) c' new)) \<and>
     fmdrop i (players (cmp_tracker c')) = fmdrop i (players (cmp_tracker c)) \<and>
     fmdrop i (cmp_assets c') = fmdrop i (cmp_assets c) \<and> cmp_registry c' = cmp_registry c"
proof -
  define c where "c = component_run core es"
  define i :: u32 where "i = of_int player"
  obtain pass c' where r: "onReceive core player stream c = (pass, c')" by (metis prod.exhaust)
  have ok: "component_ok c" by (simp add: c_def component_run_ok)
  note cs = onReceive_cases [OF r]
  show ?thesis
  proof (cases pass)
    case True
    then have "alike c c'" using cs by simp
    note parts = alike_parts [OF this]
    have "core_sent (cmp_transport c') = core_sent (cmp_transport c) @ []" using parts by simp
    then show ?thesis using True cs parts unfolding Let_def c_def [symmetric] i_def [symmetric] r by simp
  next
    case False
    then have step: "received core i (carried stream) c c'" using cs by (simp add: i_def)
    note k = received_ok [OF step ok]
    then obtain new where n: "core_sent (cmp_transport c') = core_sent (cmp_transport c) @ new" "replies i (carried stream) (cmp_tracker c) c' new" by blast
    have "fmdrop i (players (cmp_tracker c')) = fmdrop i (players (cmp_tracker c))" "fmdrop i (cmp_assets c') = fmdrop i (cmp_assets c)"
      using k by (auto intro!: fmap_ext)
    then show ?thesis using False cs k n unfolding Let_def c_def [symmetric] i_def [symmetric] r by auto
  qed
qed


definition sample_core :: Core where
  "sample_core = \<lparr>core_players = (\<lambda>_ _. True), core_sendPacket = (\<lambda>_ _ _. True), core_streamVersionMatches = True,
     core_config = ConfigMissing, core_networks = []\<rparr>"

definition magic_alone :: NetworkBitStream where
  "magic_alone = \<lparr>stream_data = Some (u32_bytes kMagic), unreadBits = 32, readOffset = 0\<rparr>"


end
