(* ===== verification/SessionEndToEnd.thy ===== *)
theory SessionEndToEnd
  imports ComponentProperties RuntimeProperties
begin

text \<open>
  Server and client together: what the open.mp component does with the greeting of a client,
  and what the client's runtime does with the frames it is sent back.
\<close>

section \<open>The server's side\<close>

text \<open>A stream that carries one message, and a core that takes every packet.\<close>

definition delivers :: "NetworkBitStream \<Rightarrow> Message \<Rightarrow> bool" where
  "delivers stream m \<longleftrightarrow> 0 \<le> readOffset stream \<and> readOffset stream mod 8 = 0 \<and>
     unreadBits stream = 8 * int (length (packet_bytes m)) \<and>
     (case stream_data stream of None \<Rightarrow> False
      | Some bytes \<Rightarrow> take (length (packet_bytes m)) (payload_from stream bytes) = packet_bytes m)"

definition accepting :: "Core \<Rightarrow> bool" where
  "accepting core \<longleftrightarrow> core_players core = (\<lambda>_ _. True) \<and> core_sendPacket core = (\<lambda>_ _ _. True)"

lemma accepted:
  assumes "accepting core" and "core_attached t" and "unat i \<le> 2147483647" and "message_valid m"
  shows "\<exists>t'. send_of core i (View (frame_of m)) t = (True, t') \<and> core_attached t'"
proof -
  have "length (frame_of m) \<le> kMaximumFrameSize"
    using packet_length [OF assms(4)] by (simp add: frame_of_def kMaximumFrameSize_def kMaximumPacketSize_def kPrefixSize_def)
  then show ?thesis
    using assms(1-3) by (simp add: accepting_def send_of_def OpenMp_Send_def Let_def frame_of_def not_less [symmetric])
qed

lemma all_accepted:
  assumes "accepting core" and "unat i \<le> 2147483647" and "\<forall>m \<in> set ms. message_valid m" and "core_attached t"
  shows "\<exists>t'. send_all (send_of core) i ms t = (True, t')"
  using assms(3,4)
proof (induction ms arbitrary: t)
  case (Cons m ms)
  then obtain t' where t': "send_of core i (View (frame_of m)) t = (True, t')" "core_attached t'"
    using accepted [OF assms(1) _ assms(2), of t m] by auto
  then show ?case using Cons by (simp add: publication_Send_valid)
qed simp

lemma stream_dispatched:
  assumes "delivers stream m" and "message_valid m" and "0 \<le> player"
  shows "\<exists>c0. alike c c0 \<and> onReceive core player stream c =
    (False, dispatch_packet core (of_int player) (View (packet_bytes m)) c0)"
proof -
  obtain bytes where b: "stream_data stream = Some bytes" "take (length (packet_bytes m)) (payload_from stream bytes) = packet_bytes m"
    using assms(1) by (auto simp: delivers_def split: option.splits)
  have len: "12 \<le> length (packet_bytes m)" "length (packet_bytes m) \<le> kMaximumPacketSize"
    using packet_length [OF assms(2)] by (simp_all add: packet_bytes_def kMaximumPacketSize_def u32_bytes_def u16_bytes_def)
  have "take 4 (payload_from stream bytes) = take 4 (take (length (packet_bytes m)) (payload_from stream bytes))"
    using len(1) by (simp add: min_def)
  also have "\<dots> = take 4 (packet_bytes m)" by (simp only: b(2))
  also have "\<dots> = u32_bytes kMagic" by (simp add: packet_bytes_def u32_bytes_def)
  finally have "claims player stream"
    using assms(1,3) len(1) b(1) by (simp add: claims_def delivers_def)
  from onReceive_whole [OF this b(1)] show ?thesis
    using assms(1) len(2) b(2) by (simp add: delivers_def)
qed

text \<open>The welcome of an acceptable greeting, and the whole manifest behind it.\<close>

lemma server_welcomes:
  assumes core: "accepting core" and avail: "OpenMp_IsAvailable (cmp_transport c)"
    and player: "0 \<le> player" "i = of_int player" "unat i \<le> 2147483647"
    and ok: "component_ok c"
    and pending: "hs_state (tracker_GetState i (cmp_tracker c)) = HandshakePending"
      "as_state (publication_GetState i (cmp_assets c)) = AssetHandshakePending"
    and hello: "acceptable (policy (cmp_tracker c)) hello" "delivers stream (HelloMsg hello)"
  shows "\<exists>w c'. onReceive core player stream c = (False, c') \<and> message_valid (WelcomeMsg w) \<and>
    w = WelcomeFor (cmp_tracker c') (tracker_GetState i (cmp_tracker c')) \<and>
    hs_state (tracker_GetState i (cmp_tracker c')) = HandshakeCompatible \<and>
    negotiatedCapabilities (tracker_GetState i (cmp_tracker c')) = hello_capabilities hello AND serverCapabilities (policy (cmp_tracker c)) \<and>
    publication_GetState i (cmp_assets c') = published (BuildManifest (cmp_registry c)) \<and>
    core_sent (cmp_transport c') = core_sent (cmp_transport c) @
      map (\<lambda>m. (i, frame_of m)) (WelcomeMsg w # manifest_messages (BuildManifest (cmp_registry c))) \<and>
    cmp_registered c' = cmp_registered c \<and> OpenMp_IsAvailable (cmp_transport c') \<and>
    fmlookup (cmp_assets c') i = Some (published (BuildManifest (cmp_registry c)))"
proof -
  let ?m = "BuildManifest (cmp_registry c)"
  have valid: "message_valid (HelloMsg hello)"
    using hello(1) by (auto simp: acceptable_def AreCapabilitiesValid_subset)
  have t: "tracker_ok (cmp_tracker c)" "reasons_ok (cmp_tracker c)" and m: "manifest_ok ?m"
    using ok BuildManifest_ok by (simp_all add: component_ok_def)
  obtain c0 where c0: "alike c c0" "onReceive core player stream c = (False, dispatch_packet core i (View (packet_bytes (HelloMsg hello))) c0)"
    using stream_dispatched [OF hello(2) valid player(1)] player(2) by blast
  have p: "fmlookup (players (cmp_tracker c)) i = Some (tracker_GetState i (cmp_tracker c))"
    using pending(1) by (intro lookup_of_state) simp
  obtain w tracker' where h: "HandleHello i hello (cmp_tracker c) = (WelcomeResponse w, tracker')"
    using HandleHello_acceptable [OF p pending(1)] hello(1) by (metis prod.collapse)
  note d = decided_hello [OF h t]
  have wv: "message_valid (WelcomeMsg w)"
    using records_valid [of "WelcomeResponse w" i tracker'] d by (simp add: decided_def)
  have nego: "negotiatedCapabilities (tracker_GetState i tracker') = hello_capabilities hello AND serverCapabilities (policy (cmp_tracker c))"
    using h unfolding HandleHello_pending [OF p pending(1)]
    by (auto simp: tracker_Reject_def Let_def tracker_GetState_def split: if_split_asm)
  have compatible: "hs_state (tracker_GetState i tracker') = HandshakeCompatible" "w = WelcomeFor tracker' (tracker_GetState i tracker')"
    using d by (auto simp: decided_def records_def tracker_GetState_def)
  obtain t1 where t1: "send_of core i (View (frame_of (WelcomeMsg w))) (cmp_transport c) = (True, t1)" "core_attached t1"
    using accepted [OF core _ player(3) wv] avail by (auto simp: OpenMp_IsAvailable_def)
  have s: "SendResponse (send_of core) i (WelcomeResponse w) (cmp_transport c) = (WelcomeSent, t1)"
    using t1 wv by (subst SendResponse_valid) simp_all
  have sent1: "core_sent t1 = core_sent (cmp_transport c) @ [(i, frame_of (WelcomeMsg w))]"
    using component_send.sent_ok [OF t1(1)] by simp
  obtain q where q: "fmlookup (cmp_assets c) i = Some q" "as_state q = AssetHandshakePending"
    using pending(2) by (auto simp: publication_GetState_def default_assets_def split: option.splits)
  obtain t2 where all: "send_all (send_of core) i (manifest_messages ?m) t1 = (True, t2)"
    using all_accepted [OF core player(3) _ t1(2), of "manifest_messages ?m"] manifest_messages_valid [OF m] by blast
  have o: "OnPlayerCompatible (send_of core) (cmp_registry c) i (cmp_assets c, t1) = (Sent, fmupd i (published ?m) (cmp_assets c), t2)"
    by (subst OnPlayerCompatible_pending [OF q(1)]) (simp_all add: q(2) all)
  have sent2: "core_sent t2 = core_sent t1 @ map (\<lambda>m. (i, frame_of m)) (manifest_messages ?m)"
    using component_send.publication_stream [OF m q(1) _ o] q(2) by (auto split: if_split_asm)
  have eqs: "cmp_tracker c0 = cmp_tracker c" "cmp_transport c0 = cmp_transport c" using alike_parts [OF c0(1)] by simp_all
  obtain c2 where c2: "alike (c0\<lparr>cmp_tracker := tracker', cmp_transport := t1\<rparr>) c2"
    "dispatch_packet core i (View (packet_bytes (HelloMsg hello))) c0 = publish_manifest core i c2"
    using dispatch_hello [of c0 "packet_bytes (HelloMsg hello)" _ hello i "WelcomeResponse w" tracker' core WelcomeSent t1]
      avail DecodePacket_packet_bytes [OF valid] h s eqs by auto
  have "OnPlayerCompatible (send_of core) (cmp_registry c2) i (cmp_assets c2, cmp_transport c2) = (Sent, fmupd i (published ?m) (cmp_assets c), t2)"
    using o c2(1) c0(1) by (simp add: alike_def)
  from publish_alike [OF this] have e: "cmp_tracker (publish_manifest core i c2) = tracker'"
      "cmp_assets (publish_manifest core i c2) = fmupd i (published ?m) (cmp_assets c)" "cmp_transport (publish_manifest core i c2) = t2"
      "cmp_registered (publish_manifest core i c2) = cmp_registered c"
    using c2(1) c0(1) by (simp_all add: alike_def)
  have "OpenMp_IsAvailable t2" using send_all_available [OF all] SendResponse_available [OF s] avail by simp
  show ?thesis
    using c0(2) wv compatible nego sent1 sent2 \<open>OpenMp_IsAvailable t2\<close> unfolding c2(2)
    by (intro exI [of _ w] exI [of _ "publish_manifest core i c2"]) (simp add: e publication_GetState_def)
qed

section \<open>The client's side\<close>

text \<open>A frame from the wire: the transport hands its protocol bytes to the runtime.\<close>

definition client_receives :: "'r Sender \<Rightarrow> bytes \<Rightarrow> 'r RuntimeWorld \<Rightarrow> 'r RuntimeWorld" where
  "client_receives send bytes w =
    (let inspected = Inspect (View bytes)
     in if frame_kind inspected = CustomModel then HandleIncomingProtocol send (protocolBytes inspected) w else w)"

lemma client_receives_frame:
  assumes "message_valid m"
  shows "client_receives send (frame_of m) w = HandleIncomingProtocol send (View (packet_bytes m)) w"
  using Inspect_packet_bytes [of m] by (simp add: client_receives_def frame_of_def)

lemma client_welcomed:
  assumes "ctx_handshake c = Some hs" and "ch_state hs = HelloSent"
    and valid: "message_valid (WelcomeMsg w)" and "welcome_ok (configuration hs) w"
  shows "\<exists>h'. client_receives send (frame_of (WelcomeMsg w)) (h, c) =
    (h', c\<lparr>ctx_handshake := Some (hs\<lparr>ch_welcome := Some w, ch_state := Compatible\<rparr>)\<rparr>)"
proof -
  have "client_HandleIncoming (View (packet_bytes (WelcomeMsg w))) hs =
      (IncomingWelcomeReceived, hs\<lparr>ch_welcome := Some w, ch_state := WelcomeReceived\<rparr>)"
    using assms DecodePacket_packet_bytes [OF valid] by (simp add: client_HandleIncoming_cases)
  then show ?thesis
    using assms(1) DecodePacket_packet_bytes [OF valid]
    by (simp add: client_receives_frame [OF valid] HandleIncomingProtocol_def handle_handshake_packet_def ConfirmWelcome_def)
qed

lemma client_manifest_message:
  assumes "ctx_handshake c = Some hs" and "ch_state hs = Compatible" and "ctx_assets c = Some s"
    and valid: "message_valid m" and "\<not> is_handshake_message m"
  shows "\<exists>h'. client_receives send (frame_of m) (h, c) =
    (h', c\<lparr>ctx_assets := Some (s\<lparr>sys_manager := (snd (HandleMessage m (sys_manager s)))\<lparr>mgr_events := []\<rparr>\<rparr>)\<rparr>)"
proof -
  obtain result m' where r: "HandleMessage m (sys_manager s) = (result, m')" by (metis prod.exhaust)
  have "HandleIncomingProtocol send (View (packet_bytes m)) (h, c) = handle_asset_message send m s (h, c)"
    using assms DecodePacket_packet_bytes [OF valid] by (simp add: HandleIncomingProtocol_def)
  moreover have "\<exists>h'. handle_asset_message send m s (h, c) =
      (h', c\<lparr>ctx_assets := Some (s\<lparr>sys_manager := m'\<lparr>mgr_events := []\<rparr>\<rparr>)\<rparr>)"
    using assms(1,2) by (simp add: handle_asset_message_def r PumpAssetResults_def DrainEvents_def Let_def)
  ultimately show ?thesis by (simp add: client_receives_frame [OF valid] r)
qed

text \<open>A manager that follows a stream: once it has the manifest, all its assets are queued.\<close>

fun work_items :: "u64 \<Rightarrow> Manifest option \<Rightarrow> WorkItem list" where
  "work_items g None = []"
| "work_items g (Some mf) = map (\<lambda>a. \<lparr>work_generation = g, work_revision = revision mf, work_asset = a\<rparr>) (manifest_assets mf)"

definition follows :: "Message list \<Rightarrow> ClientAssetManager \<Rightarrow> bool" where
  "follows ms m \<longleftrightarrow> mgr_receiver m = receiver_run ms \<and>
     mgr_queue m = work_items (mgr_generation m) (rx_completed (receiver_run ms)) \<and>
     (\<forall>i. fmlookup (mgr_states m) i =
       (case rx_completed (receiver_run ms) of
          None \<Rightarrow> None
        | Some mf \<Rightarrow> if i \<in> assetId ` set (manifest_assets mf) then Some StateQueued else None))"

lemma follows_events: "follows ms (m\<lparr>mgr_events := es\<rparr>) = follows ms m"
  by (simp add: follows_def)

text \<open>What no message changes.\<close>

definition same_setting :: "ClientAssetManager \<Rightarrow> ClientAssetManager \<Rightarrow> bool" where
  "same_setting m m' \<longleftrightarrow> mgr_generation m' = mgr_generation m \<and> mgr_stopping m' = mgr_stopping m \<and>
     mgr_cache m' = mgr_cache m \<and> mgr_options m' = mgr_options m"

lemma HandleMessage_setting: "same_setting m (snd (HandleMessage x m))"
proof -
  have "same_setting m (fold (queue_asset r) as m)" for r as and m :: ClientAssetManager
    by (induction as arbitrary: m) (auto simp: same_setting_def queue_asset_def)
  note k = this [unfolded same_setting_def]
  show ?thesis
    by (auto simp: same_setting_def HandleMessage_def QueueManifest_def Let_def k split: prod.splits option.splits Message.splits)
qed

lemma follows_step:
  assumes f: "follows ms m"
  shows "follows (ms @ [x]) (snd (HandleMessage x m))"
proof -
  obtain result r where run: "receiver_Handle x (mgr_receiver m) = (result, r)" by (metis prod.exhaust)
  have old: "mgr_receiver m = receiver_run ms" using f by (simp add: follows_def)
  then have r: "receiver_run (ms @ [x]) = r" using run by (simp add: receiver_run_snoc)
  show ?thesis
  proof (cases "result = InputComplete")
    case False
    then obtain es where es: "snd (HandleMessage x m) = m\<lparr>mgr_receiver := r, mgr_events := mgr_events m @ es\<rparr>"
      using HandleMessage_incomplete [OF run] by blast
    have "rx_completed r = rx_completed (receiver_run ms)"
    proof (cases "rx_completed (receiver_run ms)")
      case None
      then show ?thesis using incomplete_result [OF run False] old by simp
    next
      case (Some mf)
      then show ?thesis using completed_stays [OF _ completed_phase [OF Some], of mf x] run old by simp
    qed
    then show ?thesis using f by (simp add: follows_def es r)
  next
    case True
    note c = complete_result [OF run [unfolded True]]
    then have none: "rx_completed (receiver_run ms) = None"
      using completed_phase [of ms] old by (cases "rx_completed (receiver_run ms)") auto
    obtain mf where mf: "rx_completed r = Some mf" using c by blast
    have "received_ok mf" using receiver_history [of "ms @ [x]"] mf r by (simp add: history_def)
    then have "distinct (map assetId (manifest_assets mf))" by (simp add: received_ok_def)
    moreover have "mgr_states (manifest_announced r mf m) = fmempty"
      using f none by (intro fmap_ext) (simp add: follows_def manifest_announced_def)
    moreover have queue: "mgr_queue m = []" using f none by (simp add: follows_def)
    moreover have "snd (HandleMessage x m) = QueueManifest mf (manifest_announced r mf m)"
      using HandleMessage_complete mf run True by simp
    ultimately show ?thesis
      using QueueManifest_fresh [of mf "manifest_announced r mf m"] mf r by (simp add: follows_def manifest_announced_def)
  qed
qed

lemma client_follows:
  assumes "ctx_handshake c = Some hs" and "ch_state hs = Compatible" and "ctx_assets c = Some s" and "follows [] (sys_manager s)"
    and "\<forall>m \<in> set ms. message_valid m \<and> \<not> is_handshake_message m"
  shows "\<exists>h' m'. fold (client_receives send) (map frame_of ms) (h, c) = (h', c\<lparr>ctx_assets := Some (s\<lparr>sys_manager := m'\<rparr>)\<rparr>) \<and>
    follows ms m' \<and> same_setting (sys_manager s) m'"
  using assms(5)
proof (induction ms rule: rev_induct)
  case Nil
  have "c\<lparr>ctx_assets := Some (s\<lparr>sys_manager := sys_manager s\<rparr>)\<rparr> = c" using assms(3) by simp
  then show ?case using assms(4) by (intro exI [of _ h] exI [of _ "sys_manager s"]) (simp add: same_setting_def)
next
  case (snoc m ms)
  then obtain h1 m1 where 1: "fold (client_receives send) (map frame_of ms) (h, c) = (h1, c\<lparr>ctx_assets := Some (s\<lparr>sys_manager := m1\<rparr>)\<rparr>)"
    "follows ms m1" "same_setting (sys_manager s) m1" by auto
  let ?m = "(snd (HandleMessage m m1))\<lparr>mgr_events := []\<rparr>"
  obtain h2 where "client_receives send (frame_of m) (h1, c\<lparr>ctx_assets := Some (s\<lparr>sys_manager := m1\<rparr>)\<rparr>) =
      (h2, c\<lparr>ctx_assets := Some (s\<lparr>sys_manager := m1\<rparr>), ctx_assets := Some (s\<lparr>sys_manager := m1, sys_manager := ?m\<rparr>)\<rparr>)"
    using client_manifest_message [of "c\<lparr>ctx_assets := Some (s\<lparr>sys_manager := m1\<rparr>)\<rparr>" hs "s\<lparr>sys_manager := m1\<rparr>" m send h1]
      assms(1,2) snoc.prems by auto
  moreover have "follows (ms @ [m]) ?m" using follows_step [OF 1(2)] by (simp add: follows_events)
  moreover have "same_setting (sys_manager s) ?m" using 1(3) HandleMessage_setting [of m1 m] by (simp add: same_setting_def)
  ultimately show ?case using 1(1) by (intro exI [of _ h2] exI [of _ ?m]) simp
qed

lemma client_greets:
  assumes "ctx_handshake c = Some hs" and "ch_state hs = ClientHandshake.Disconnected" and "ctx_transport c" and "ctx_assets c = Some s"
    and "message_valid (HelloMsg (client_hello hs))"
  shows "\<exists>h' hs'. HandleConnectionEvent send EventConnected (h, c) =
      (h', c\<lparr>ctx_assets := Some (s\<lparr>sys_manager := ResetSession (sys_manager s)\<rparr>), ctx_handshake := Some hs'\<rparr>) \<and>
    ch_state hs' = HelloSent \<and> configuration hs' = configuration hs"
proof -
  have c: "on_assets ResetSession c = c\<lparr>ctx_assets := Some (s\<lparr>sys_manager := ResetSession (sys_manager s)\<rparr>)\<rparr>"
    using assms(4) by (simp add: on_assets_def)
  define k where "k = OnConnected hs"
  have "client_hello k = client_hello hs" "ch_state k = ClientHandshake.Connected" and cfg: "configuration k = configuration hs"
    using assms(2) by (simp_all add: client_hello_def OnConnected_def k_def)
  then have t: "TakeHello k = (Some (packet_bytes (HelloMsg (client_hello hs))), k\<lparr>ch_state := HelloSent\<rparr>)"
    using assms(5) by (simp add: TakeHello_cases)
  have "\<exists>h'. HandleConnectionEvent send EventConnected (h, c) =
      (h', c\<lparr>ctx_assets := Some (s\<lparr>sys_manager := ResetSession (sys_manager s)\<rparr>), ctx_handshake := Some (k\<lparr>ch_state := HelloSent\<rparr>)\<rparr>)"
    using assms(1,3)
    by (simp add: HandleConnectionEvent_def c send_hello_def k_def [symmetric] t Let_def split: prod.split bool.split)
  moreover have "ch_state (k\<lparr>ch_state := HelloSent\<rparr>) = HelloSent" "configuration (k\<lparr>ch_state := HelloSent\<rparr>) = configuration hs"
    using cfg by simp_all
  ultimately show ?thesis by blast
qed

lemma reset_follows: "follows [] (ResetSession m)"
  using receiver_Reset_new [of "mgr_receiver m"]
  by (simp add: follows_def ResetSession_def Let_def receiver_run_def new_receiver_def)

lemma manifest_messages_only: "m \<in> set (manifest_messages mf) \<Longrightarrow> \<not> is_handshake_message m"
  by (auto simp: manifest_messages_def item_messages_def)

text \<open>What a connecting client is left with by the frames of a welcome and a manifest.\<close>

lemma client_established:
  assumes client: "ctx_handshake c = Some hs" "ch_state hs = ClientHandshake.Disconnected" "ctx_transport c" "ctx_assets c = Some s"
    and valid: "message_valid (HelloMsg (client_hello hs))" and w: "message_valid (WelcomeMsg w)" "welcome_ok (configuration hs) w"
    and m: "manifest_ok mf"
  shows "\<exists>h' c' hs' m'. fold (client_receives send) (map frame_of (WelcomeMsg w # manifest_messages mf))
      (HandleConnectionEvent send EventConnected (h, c)) = (h', c') \<and>
    ctx_transport c' \<and> ctx_handshake c' = Some hs' \<and> ch_state hs' = Compatible \<and> ch_welcome hs' = Some w \<and>
    ctx_assets c' = Some (s\<lparr>sys_manager := m'\<rparr>) \<and>
    follows (manifest_messages mf) m' \<and> same_setting (ResetSession (sys_manager s)) m'"
proof -
  obtain h1 hs1 where g: "HandleConnectionEvent send EventConnected (h, c) =
      (h1, c\<lparr>ctx_assets := Some (s\<lparr>sys_manager := ResetSession (sys_manager s)\<rparr>), ctx_handshake := Some hs1\<rparr>)"
    "ch_state hs1 = HelloSent" "configuration hs1 = configuration hs"
    using client_greets [OF client valid] by blast
  let ?c1 = "c\<lparr>ctx_assets := Some (s\<lparr>sys_manager := ResetSession (sys_manager s)\<rparr>), ctx_handshake := Some hs1\<rparr>"
  let ?hs2 = "hs1\<lparr>ch_welcome := Some w, ch_state := Compatible\<rparr>"
  obtain h2 where welcomed: "client_receives send (frame_of (WelcomeMsg w)) (h1, ?c1) = (h2, ?c1\<lparr>ctx_handshake := Some ?hs2\<rparr>)"
    using client_welcomed [of ?c1 hs1 w send h1] g(2,3) w by auto
  obtain h3 m3 where f: "fold (client_receives send) (map frame_of (manifest_messages mf)) (h2, ?c1\<lparr>ctx_handshake := Some ?hs2\<rparr>) =
      (h3, ?c1\<lparr>ctx_handshake := Some ?hs2\<rparr>\<lparr>ctx_assets := Some (s\<lparr>sys_manager := m3\<rparr>)\<rparr>)" "follows (manifest_messages mf) m3"
      "same_setting (ResetSession (sys_manager s)) m3"
    using client_follows [where c = "?c1\<lparr>ctx_handshake := Some ?hs2\<rparr>" and hs = ?hs2 and ms = "manifest_messages mf" and h = h2
        and s = "s\<lparr>sys_manager := ResetSession (sys_manager s)\<rparr>" and send = send]
      reset_follows manifest_messages_valid [OF m] manifest_messages_only by auto
  have "fold (client_receives send) (map frame_of (WelcomeMsg w # manifest_messages mf)) (HandleConnectionEvent send EventConnected (h, c)) =
      (h3, ?c1\<lparr>ctx_handshake := Some ?hs2\<rparr>\<lparr>ctx_assets := Some (s\<lparr>sys_manager := m3\<rparr>)\<rparr>)"
    unfolding g(1) list.map by (simp only: fold_simps welcomed f(1))
  then show ?thesis
    using f(2,3) client(3)
    by (intro exI [of _ h3] exI [of _ "?c1\<lparr>ctx_handshake := Some ?hs2\<rparr>\<lparr>ctx_assets := Some (s\<lparr>sys_manager := m3\<rparr>)\<rparr>"] exI [of _ ?hs2] exI [of _ m3])
      simp
qed

text \<open>A client that has followed the whole manifest has every asset queued.\<close>

lemma follows_queued:
  assumes "follows (manifest_messages mf) m" and "manifest_ok mf"
  shows "rx_completed (mgr_receiver m) = Some mf"
    and "mgr_queue m = map (\<lambda>a. \<lparr>work_generation = mgr_generation m, work_revision = revision mf, work_asset = a\<rparr>) (manifest_assets mf)"
    and "fmlookup (mgr_states m) i = (if i \<in> assetId ` set (manifest_assets mf) then Some StateQueued else None)"
    and "fmdom (mgr_states m) = expectedAssets (published mf)" and "fmran (mgr_states m) |\<subseteq>| {|StateQueued|}"
proof -
  have rx: "rx_completed (receiver_run (manifest_messages mf)) = Some mf" by (rule receiver_complete [OF manifest_ok_received [OF assms(2)]])
  then show "rx_completed (mgr_receiver m) = Some mf"
    "mgr_queue m = map (\<lambda>a. \<lparr>work_generation = mgr_generation m, work_revision = revision mf, work_asset = a\<rparr>) (manifest_assets mf)"
    using assms(1) by (simp_all add: follows_def)
  have states: "fmlookup (mgr_states m) j = (if j \<in> assetId ` set (manifest_assets mf) then Some StateQueued else None)" for j
    using assms(1) rx by (simp add: follows_def)
  show "fmlookup (mgr_states m) i = (if i \<in> assetId ` set (manifest_assets mf) then Some StateQueued else None)" by (rule states)
  show "fmdom (mgr_states m) = expectedAssets (published mf)"
    by (intro fset_eqI) (auto simp: fmlookup_dom_iff states published_def default_assets_def fset_of_list_elem)
  show "fmran (mgr_states m) |\<subseteq>| {|StateQueued|}"
    by (auto simp: fmlookup_ran_iff states split: if_split_asm)
qed

section \<open>Property\<close>

text \<open>
  Claim C4. A session is established from both ends. A player connected to the server and
  a client that connects and greets: when the greeting reaches the component, is acceptable
  to its policy and the core takes every packet, the frames it sends, all to this player,
  make the client compatible with exactly the capabilities the server recorded, namely
  those both have, and leave the client with the server's manifest, every one of its assets
  queued: the assets the server expects reports about are those the client works on.
\<close>

theorem session_established:
  fixes player :: int
  defines "i \<equiv> of_int player :: u32"
  assumes client: "ctx_handshake c = Some hs" "ch_state hs = ClientHandshake.Disconnected" "ctx_transport c"
      "ctx_assets c = Some s"
    and server: "accepting core" "OpenMp_IsAvailable (cmp_transport (component_run core es))" "0 \<le> player" "player \<le> 2147483647"
      "hs_state (tracker_GetState i (cmp_tracker (component_run core es))) = HandshakePending"
      "as_state (publication_GetState i (cmp_assets (component_run core es))) = AssetHandshakePending"
    and greeting: "acceptable (policy (cmp_tracker (component_run core es))) (client_hello hs)"
      "delivers stream (HelloMsg (client_hello hs))"
  shows "case onReceive core player stream (component_run core es) of (pass, server) \<Rightarrow>
    (let before = core_sent (cmp_transport (component_run core es));
         after = core_sent (cmp_transport server);
         frames = drop (length before) after
     in \<not> pass \<and> take (length before) after = before \<and> fst ` set frames = {i} \<and>
       (case fold (client_receives send) (map snd frames) (HandleConnectionEvent send EventConnected (h, c)) of (h', c') \<Rightarrow>
          \<exists>hs' w s'. ctx_handshake c' = Some hs' \<and> ch_state hs' = Compatible \<and> ch_welcome hs' = Some w \<and>
            hs_state (tracker_GetState i (cmp_tracker server)) = HandshakeCompatible \<and>
            welcome_negotiatedCapabilities w = negotiatedCapabilities (tracker_GetState i (cmp_tracker server)) \<and>
            welcome_negotiatedCapabilities w = capabilities (configuration hs) AND serverCapabilities (policy (cmp_tracker server)) \<and>
            ctx_assets c' = Some s' \<and>
            rx_completed (mgr_receiver (sys_manager s')) = Some (BuildManifest (cmp_registry server)) \<and>
            fmdom (mgr_states (sys_manager s')) = expectedAssets (publication_GetState i (cmp_assets server)) \<and>
            fmran (mgr_states (sys_manager s')) |\<subseteq>| {|StateQueued|}))"
proof -
  define sc where "sc = component_run core es"
  let ?m = "BuildManifest (cmp_registry sc)"
  have ok: "component_ok sc" by (simp add: sc_def component_run_ok)
  have i: "unat i \<le> 2147483647"
    using server(3,4) by (simp add: i_def unsigned_of_int take_bit_int_eq_self)
  obtain w server where sw: "onReceive core player stream sc = (False, server)" "message_valid (WelcomeMsg w)"
    "w = WelcomeFor (cmp_tracker server) (tracker_GetState i (cmp_tracker server))"
    "hs_state (tracker_GetState i (cmp_tracker server)) = HandshakeCompatible"
    "negotiatedCapabilities (tracker_GetState i (cmp_tracker server)) = hello_capabilities (client_hello hs) AND serverCapabilities (policy (cmp_tracker sc))"
    "publication_GetState i (cmp_assets server) = published ?m"
    "core_sent (cmp_transport server) = core_sent (cmp_transport sc) @ map (\<lambda>m. (i, frame_of m)) (WelcomeMsg w # manifest_messages ?m)"
    using server_welcomes [OF server(1) _ server(3) i_def [THEN meta_eq_to_obj_eq] i ok] server(2,5,6) greeting unfolding sc_def by blast
  have step: "received core (of_int player) (carried stream) sc server" "component_ok server"
    using onReceive_cases [OF sw(1)] onReceive_ok [OF ok, of core player stream] sw(1) by simp_all
  have reg: "cmp_registry server = cmp_registry sc" "policy (cmp_tracker server) = policy (cmp_tracker sc)"
    using received_ok [OF step(1) ok] step(2) ok by (simp_all add: component_ok_def)
  have m: "manifest_ok ?m" using ok BuildManifest_ok by (simp add: component_ok_def)
  have valid: "message_valid (HelloMsg (client_hello hs))"
    using greeting(1) by (auto simp: acceptable_def AreCapabilitiesValid_subset)
  have "welcome_ok (configuration hs) w"
    using sw(3,5) by (simp add: welcome_ok_def WelcomeFor_def client_hello_def)
  note established = client_established [OF client valid sw(2) this m, of send h]
  let ?frames = "map (\<lambda>m. (i, frame_of m)) (WelcomeMsg w # manifest_messages ?m)"
  have frames: "drop (length (core_sent (cmp_transport sc))) (core_sent (cmp_transport server)) = ?frames"
    "take (length (core_sent (cmp_transport sc))) (core_sent (cmp_transport server)) = core_sent (cmp_transport sc)"
    by (simp_all add: sw(7))
  have snds: "map snd ?frames = map frame_of (WelcomeMsg w # manifest_messages ?m)" by simp
  have to: "fst ` set ?frames = {i}" by (auto simp: image_iff)
  have nego: "welcome_negotiatedCapabilities w = negotiatedCapabilities (tracker_GetState i (cmp_tracker server))"
    "welcome_negotiatedCapabilities w = capabilities (configuration hs) AND serverCapabilities (policy (cmp_tracker server))"
    using sw(3,5) reg(2) by (simp_all add: WelcomeFor_def client_hello_def)
  show ?thesis
    unfolding sc_def [symmetric] sw(1,6) Let_def prod.case frames snds reg(1)
    using to sw(4) nego established follows_queued(1,4,5) [OF _ m] by auto
qed

definition session_client :: ClientHandshake where
  "session_client = new_ClientHandshake
    \<lparr>runtimeVersion = kRuntimeVersion, sampVersion = SampVersion_R1, capabilities = kDeclaredCapabilities\<rparr>"

definition session_context :: "System \<Rightarrow> ProtocolContext" where
  "session_context s = \<lparr>ctx_handshake = Some session_client, ctx_transport = True, ctx_assets = Some s,
     ctx_malformedPacketLogged = False\<rparr>"

definition hello_stream :: NetworkBitStream where
  "hello_stream = \<lparr>stream_data = Some (packet_bytes (HelloMsg (client_hello session_client))),
     unreadBits = 8 * int (length (packet_bytes (HelloMsg (client_hello session_client)))), readOffset = 0\<rparr>"

lemma sample_session:
  "OpenMp_IsAvailable (cmp_transport (component_run sample_core [PlayerConnects 4]))"
  "tracker_GetState 4 (cmp_tracker (component_run sample_core [PlayerConnects 4])) = default_player\<lparr>hs_state := HandshakePending\<rparr>"
  "as_state (publication_GetState 4 (cmp_assets (component_run sample_core [PlayerConnects 4]))) = AssetHandshakePending"
  "policy (cmp_tracker (component_run sample_core [PlayerConnects 4])) = policy (PlayerCapabilityTracker MakePolicy)"
  "core_sent (cmp_transport (component_run sample_core [PlayerConnects 4])) = []"
  by (simp_all add: component_run_def onLoad_def sample_core_def OpenMp_Initialize_def OpenMp_Attach_def register_handlers_fields Let_def
      onPlayerConnect_def OnPlayerConnected_def BeginHandshake_def publication_OnPlayerConnected_def publication_GetState_def
      OpenMp_IsAvailable_def new_component_def tracker_GetState_def new_OpenMpTransport_def core_sent_def)

theorem session_established_witness:
  "case onReceive sample_core 4 hello_stream (component_run sample_core [PlayerConnects 4]) of (pass, server) \<Rightarrow>
    \<not> pass \<and> hs_state (tracker_GetState 4 (cmp_tracker server)) = HandshakeCompatible \<and>
    (\<forall>s (h :: unit Host) send. \<exists>h' c' hs'.
      fold (client_receives send) (map snd (core_sent (cmp_transport server)))
        (HandleConnectionEvent send EventConnected (h, session_context s)) = (h', c') \<and>
      ctx_handshake c' = Some hs' \<and> ch_state hs' = Compatible)"
proof -
  have acc: "acceptable (policy (PlayerCapabilityTracker MakePolicy)) (client_hello session_client)" by code_simp
  have del: "delivers hello_stream (HelloMsg (client_hello session_client))"
    by (simp add: delivers_def hello_stream_def payload_from_def)
  obtain pass server where r: "onReceive sample_core 4 hello_stream (component_run sample_core [PlayerConnects 4]) = (pass, server)"
    by (metis prod.exhaust)
  have "\<not> pass \<and> hs_state (tracker_GetState 4 (cmp_tracker server)) = HandshakeCompatible \<and>
    (\<exists>h' c' hs'. fold (client_receives send) (map snd (core_sent (cmp_transport server)))
        (HandleConnectionEvent send EventConnected (h, session_context s)) = (h', c') \<and>
      ctx_handshake c' = Some hs' \<and> ch_state hs' = Compatible)" for s and h :: "unit Host" and send
  proof -
    have c: "ctx_handshake (session_context s) = Some session_client"
      "ch_state session_client = ClientHandshake.Disconnected" "ctx_transport (session_context s)" "ctx_assets (session_context s) = Some s"
      by (simp_all add: session_context_def session_client_def new_ClientHandshake_def)
    have k: "accepting sample_core" "(0::int) \<le> 4" "(4::int) \<le> 2147483647" by (simp_all add: accepting_def sample_core_def)
    have p: "hs_state (tracker_GetState 4 (cmp_tracker (component_run sample_core [PlayerConnects 4]))) = HandshakePending"
      "acceptable (policy (cmp_tracker (component_run sample_core [PlayerConnects 4]))) (client_hello session_client)"
      using acc by (simp_all add: sample_session)
    have four: "(of_int 4 :: u32) = 4" by simp
    note t = session_established [where player = 4 and core = sample_core and es = "[PlayerConnects 4]" and h = h and send = send,
        unfolded four, OF c k(1) sample_session(1) k(2,3) p(1) sample_session(3) p(2) del]
    obtain h' c' where f: "fold (client_receives send) (map snd (core_sent (cmp_transport server)))
        (HandleConnectionEvent send EventConnected (h, session_context s)) = (h', c')" by (metis prod.exhaust)
    from t show ?thesis unfolding r sample_session(5) Let_def prod.case list.size drop_0 f by blast
  qed
  then show ?thesis by (simp add: r)
qed

end
