(* ===== verification/ManagerStability.thy ===== *)
theory ManagerStability
  imports ManagerReports
begin

text \<open>
  A ready asset stays ready while the session lasts: neither a message nor a turn of the
  worker takes the state back. And the receiver of a client that is sent only messages of one
  manifest never completes with another.
\<close>

section \<open>Ready assets stay ready\<close>

text \<open>Once an item's updates have said ready, they say nothing else.\<close>

fun ready_tail :: "AssetState list \<Rightarrow> bool" where
  "ready_tail [] \<longleftrightarrow> True"
| "ready_tail (st # sts) \<longleftrightarrow> (st = StateReady \<longrightarrow> (\<forall>t \<in> set sts. t = StateReady)) \<and> ready_tail sts"

lemma legal_ready_tail:
  assumes "map kind_of us \<in> legal_traces" and "ready_updates us"
  shows "ready_tail (map fst us)"
proof -
  have "map fst us = map state_of (map kind_of us)" using assms(2) by (simp add: ready_updates_def)
  moreover have "\<forall>ks \<in> legal_traces. ready_tail (map state_of ks)" by (simp add: legal_traces_def)
  ultimately show ?thesis using assms(1) by metis
qed

abbreviation ready :: "ClientAssetManager \<Rightarrow> u32 \<Rightarrow> bool" where
  "ready m i \<equiv> fmlookup (mgr_states m) i = Some StateReady"

fun busy_ok :: "ClientAssetManager \<Rightarrow> Worker \<Rightarrow> bool" where
  "busy_ok m (WorkerReporting w us) \<longleftrightarrow> ready_tail (map fst us) \<and>
     (work_generation w = mgr_generation m \<longrightarrow> ready m (assetId (work_asset w)) \<longrightarrow> (\<forall>u \<in> set us. fst u = StateReady))"
| "busy_ok m x \<longleftrightarrow> True"

lemma busy_ok_frame:
  assumes "busy_ok m x" and "mgr_generation m' = mgr_generation m" and "\<And>i. ready m' i \<Longrightarrow> ready m i"
  shows "busy_ok m' x"
  using assms by (cases x) auto

lemma busy_ok_none: "(\<And>i. \<not> ready m' i) \<Longrightarrow> busy_ok m x \<Longrightarrow> busy_ok m' x"
  by (cases x) auto

text \<open>A message of the manifest either leaves the states alone or comes when there are none.\<close>

lemma HandleMessage_states:
  assumes ok: "manager_ok k m"
  shows "mgr_generation (snd (HandleMessage x m)) = mgr_generation m \<and>
    (mgr_states (snd (HandleMessage x m)) = mgr_states m \<or>
     mgr_states m = fmempty \<and> (\<forall>i. \<not> ready (snd (HandleMessage x m)) i))"
proof -
  obtain result r where run: "receiver_Handle x (mgr_receiver m) = (result, r)" by (metis prod.exhaust)
  show ?thesis
  proof (cases "result = InputComplete")
    case False
    then show ?thesis using HandleMessage_incomplete [OF run False] by auto
  next
    case True
    then obtain mf where mf: "rx_completed r = Some mf" "distinct (map assetId (manifest_assets mf))" "mgr_states m = fmempty"
      using handle_complete [OF ok] run by blast
    have m1: "mgr_states (manifest_announced r mf m) = fmempty" using mf(3) by (simp add: manifest_announced_def)
    have "snd (HandleMessage x m) = QueueManifest mf (manifest_announced r mf m)"
      using HandleMessage_complete run True mf(1) by simp
    then show ?thesis using QueueManifest_fresh [OF mf(2) m1] mf(3) by (simp add: manifest_announced_def)
  qed
qed

lemma HandleMessage_ready: "manager_ok k m \<Longrightarrow> ready m i \<Longrightarrow> ready (snd (HandleMessage x m)) i"
  using HandleMessage_states [of k m x] by auto

lemma client_call_busy:
  assumes ok: "session_ok k s" and b: "busy_ok (sys_manager s) (sys_worker s)" and call: "client_call call s = Some s'"
  shows "busy_ok (sys_manager s') (sys_worker s')"
proof (cases call)
  case (CallHandleMessage x)
  then have s': "sys_manager s' = snd (HandleMessage x (sys_manager s))" "sys_worker s' = sys_worker s" using call by auto
  have "manager_ok k (sys_manager s)" using ok by (simp add: session_ok_def)
  from HandleMessage_states [OF this, of x] show ?thesis
    using busy_ok_frame [OF b, of "sys_manager s'"] busy_ok_none [of "sys_manager s'", OF _ b] s' by auto
next
  case CallResetSession
  then have "sys_manager s' = ResetSession (sys_manager s)" "sys_worker s' = sys_worker s" using call by auto
  then show ?thesis using busy_ok_none [of "sys_manager s'", OF _ b] by (simp add: ResetSession_def Let_def)
next
  case CallDrainEvents
  then have "s' = s\<lparr>sys_manager := snd (DrainEvents (sys_manager s))\<rparr>" using call by simp
  then show ?thesis using busy_ok_frame [OF b, of "sys_manager s'"] by (simp add: DrainEvents_def)
next
  case CallRequestStop
  then have "s' = s\<lparr>sys_manager := RequestStop (sys_manager s)\<rparr>" using call by simp
  then show ?thesis using busy_ok_frame [OF b, of "sys_manager s'"] by (simp add: RequestStop_def)
next
  case CallInitialize
  then have "sys_manager s' = sys_manager s \<and> sys_worker s' = sys_worker s \<or> sys_worker s' = WorkerWaiting"
    using call by (auto simp: manager_Initialize_def Let_def split: prod.splits bool.splits)
  then show ?thesis using b by auto
next
  case CallJoin
  then have "sys_worker s' = WorkerAbsent" using call by (auto simp: Shutdown_join_def split: if_splits)
  then show ?thesis by simp
qed

text \<open>A turn of the worker: nothing ready is lost, and what it is busy with stays in order.\<close>

context fetch_backends begin

lemma worker_turn_busy:
  assumes p: "progress_ok s" and b: "busy_ok (sys_manager s) (sys_worker s)" and fetch: "fetch \<in> backends"
    and turn: "worker_turn fetch s = Some s'"
  shows "busy_ok (sys_manager s') (sys_worker s')" and "ready (sys_manager s) i \<Longrightarrow> ready (sys_manager s') i"
    and "mgr_receiver (sys_manager s') = mgr_receiver (sys_manager s)"
proof -
  let ?m = "sys_manager s"
  have "busy_ok (sys_manager s') (sys_worker s') \<and> (ready ?m i \<longrightarrow> ready (sys_manager s') i) \<and>
    mgr_receiver (sys_manager s') = mgr_receiver ?m" for i
  proof (cases "sys_worker s")
    case WorkerWaiting
    then have "mgr_states (sys_manager s') = mgr_states ?m" "mgr_receiver (sys_manager s') = mgr_receiver ?m"
      "\<forall>w us. sys_worker s' \<noteq> WorkerReporting w us"
      using turn by (auto simp: worker_turn_def Let_def split: if_splits list.splits)
    then show ?thesis by (cases "sys_worker s'") auto
  next
    case (WorkerTook w)
    show ?thesis
    proof (cases "IsCurrentGeneration (work_generation w) ?m")
      case False
      then have "sys_manager s' = ?m" "sys_worker s' = WorkerWaiting" using turn WorkerTook by (auto simp: worker_turn_def)
      then show ?thesis by simp
    next
      case True
      obtain us d where run: "Process fetch (mgr_cache ?m) (mgr_options ?m) w (sys_disk s) = (us, d)" by (metis prod.exhaust)
      then have s': "s' = s\<lparr>sys_worker := WorkerReporting w us, sys_disk := d\<rparr>"
        using turn WorkerTook True by (auto simp: worker_turn_def Let_def)
      have "map kind_of us \<in> legal_traces" "ready_updates us"
        using Process_outcome [OF fetch, of "mgr_cache ?m" w "sys_disk s" "mgr_options ?m"]
          ready_updates_process [of fetch "mgr_cache ?m" "mgr_options ?m" w "sys_disk s"] run by simp_all
      then have "ready_tail (map fst us)" by (rule legal_ready_tail)
      moreover have "fmlookup (mgr_states ?m) (assetId (work_asset w)) = Some StateQueued"
        using p WorkerTook True by (simp add: progress_ok_def IsCurrentGeneration_def)
      ultimately show ?thesis using s' by simp
    qed
  next
    case (WorkerReporting w us)
    show ?thesis
    proof (cases us)
      case Nil
      then have "sys_manager s' = ?m" "sys_worker s' = WorkerWaiting" using turn WorkerReporting by (auto simp: worker_turn_def)
      then show ?thesis by simp
    next
      case (Cons u us')
      then have s': "s' = s\<lparr>sys_worker := WorkerReporting w us', sys_manager := SetState w u ?m\<rparr>"
        using turn WorkerReporting by (auto simp: worker_turn_def)
      show ?thesis
      proof (cases "work_generation w = mgr_generation ?m")
        case False
        then have "SetState w u ?m = ?m" by (simp add: SetState_def split: prod.splits)
        then show ?thesis using s' b WorkerReporting Cons by simp
      next
        case True
        then have "mgr_states (SetState w u ?m) = fmupd (assetId (work_asset w)) (fst u) (mgr_states ?m)"
          by (simp add: SetState_def split: prod.splits)
        then show ?thesis using s' b WorkerReporting Cons True by (auto simp: SetState_same)
      qed
    qed
  qed (use turn in \<open>auto simp: worker_turn_def\<close>)
  then show "busy_ok (sys_manager s') (sys_worker s')" "ready (sys_manager s) i \<Longrightarrow> ready (sys_manager s') i"
    "mgr_receiver (sys_manager s') = mgr_receiver (sys_manager s)" by blast+
qed

lemma reachable_busy_ok:
  "reachable backends (start_system c b d) k s \<Longrightarrow> k + 1 < 2 ^ 64 \<Longrightarrow> busy_ok (sys_manager s) (sys_worker s)"
proof (induction rule: reachable.induct)
  case start
  show ?case by (simp add: start_system_def)
next
  case (client k s call s')
  have k: "k + 1 < 2 ^ 64" using client.prems by (cases "call = CallResetSession") simp_all
  then show ?case using client_call_busy [OF reachable_session_ok [OF client.hyps(1) k]] client.IH client.hyps(2) by blast
next
  case (worker k s fetch s')
  then show ?case using worker_turn_busy(1) reachable_progress_ok by blast
qed

end

section \<open>The receiver follows one manifest\<close>

lemma HandleMessage_receiver: "mgr_receiver (snd (HandleMessage x m)) = snd (receiver_Handle x (mgr_receiver m))"
proof -
  have "mgr_receiver (fold (queue_asset r) as m) = mgr_receiver m" for r as and m :: ClientAssetManager
    by (induction as arbitrary: m) (simp_all add: queue_asset_def)
  then show ?thesis
    by (auto simp: HandleMessage_def QueueManifest_def Let_def split: prod.splits option.splits Message.splits)
qed

text \<open>The receiver has seen messages of the manifest \<open>mf\<close> only.\<close>

definition tracks :: "Manifest \<Rightarrow> ManifestReceiver \<Rightarrow> bool" where
  "tracks mf r \<longleftrightarrow> rx_completed r \<in> {None, Some mf} \<and>
     (rx_state r = Receiving \<longrightarrow> revision (rx_manifest r) = revision mf \<and> totalDownloadSize (rx_manifest r) = totalDownloadSize mf \<and>
        expectedCount r = of_nat (length (manifest_assets mf)) \<and>
        prefix (manifest_assets (rx_manifest r)) (manifest_assets mf))"

lemma tracks_new: "tracks mf (receiver_run [])"
  by (simp add: tracks_def receiver_run_def new_receiver_def)

lemma item_messages_elem:
  "x \<in> set (item_messages r k as) \<longleftrightarrow> (\<exists>n < length as. x = item_message r (k + n) (as ! n))"
proof (induction as arbitrary: k)
  case (Cons a as)
  have "(\<exists>n < length (a # as). x = item_message r (k + n) ((a # as) ! n)) \<longleftrightarrow>
      x = item_message r k a \<or> (\<exists>n < length as. x = item_message r (Suc k + n) (as ! n))"
    by (auto simp: less_Suc_eq_0_disj)
  then show ?case unfolding item_messages_Cons using Cons [of "Suc k"] by simp
qed simp

lemma handle_end_result:
  assumes "handle_end e r = (result, r')"
  shows "rx_state r' = Failed \<and> rx_completed r' = rx_completed r \<or>
    rx_state r = Receiving \<and> unat (end_assetCount e) = length (manifest_assets (rx_manifest r)) \<and>
      rx_state r' = Complete \<and> rx_completed r' = Some (rx_manifest r)"
  using assms by (auto simp: handle_end_def fail_def Let_def split: if_split_asm option.split_asm)

lemma handle_asset_result:
  assumes "handle_asset item r = (result, r')"
  shows "rx_completed r' = rx_completed r \<and>
    (rx_state r' = Failed \<or>
     rx_state r = Receiving \<and> unat (item_assetIndex item) = length (manifest_assets (rx_manifest r)) \<and>
       expectedCount r' = expectedCount r \<and>
       rx_manifest r' = (rx_manifest r)\<lparr>manifest_assets := manifest_assets (rx_manifest r) @ [item_asset item]\<rparr>)"
  using assms by (auto simp: handle_asset_def fail_def Let_def split: if_split_asm)

lemma tracks_step:
  assumes m: "manifest_ok mf" and r: "tracks mf r" and x: "x \<in> set (manifest_messages mf) \<or> \<not> is_manifest x"
  shows "tracks mf (snd (receiver_Handle x r))"
proof -
  have len: "length (manifest_assets mf) \<le> 256" using m by (simp add: manifest_ok_def kMaximumAssetsPerManifest_def)
  consider (other) "\<not> is_manifest x"
    | (start) "x = begin_message (revision mf) (of_nat (length (manifest_assets mf))) (totalDownloadSize mf)"
    | (item) n where "n < length (manifest_assets mf)" "x = item_message (revision mf) n (manifest_assets mf ! n)"
    | (finish) "x = end_message mf"
    using x by (auto simp: manifest_messages_alt item_messages_elem)
  then show ?thesis
  proof cases
    case other
    then show ?thesis using r by (simp add: receiver_ignores)
  next
    case start
    then show ?thesis using r by (auto simp: begin_message_def handle_begin_def fail_def tracks_def empty_manifest_def)
  next
    case item
    have n: "unat (of_nat n :: u32) = n" using item(1) len by (simp add: unat_of_nat_u32)
    obtain result r' where h: "handle_asset \<lparr>item_manifestRevision = revision mf, item_assetIndex = of_nat n, item_asset = manifest_assets mf ! n\<rparr> r = (result, r')"
      by (metis prod.exhaust)
    have e: "snd (receiver_Handle x r) = r'" using item(2) h by (simp add: item_message_def)
    note k = handle_asset_result [OF h, simplified, unfolded n]
    show ?thesis
    proof (cases "rx_state r' = Failed")
      case True
      then show ?thesis using k r by (simp add: e tracks_def)
    next
      case False
      then have "prefix (manifest_assets (rx_manifest r) @ [manifest_assets mf ! n]) (manifest_assets mf)"
        using append_one_prefix [of "manifest_assets (rx_manifest r)" "manifest_assets mf"] k r item(1) by (simp add: tracks_def)
      then show ?thesis using k r False by (simp add: e tracks_def)
    qed
  next
    case finish
    have count: "unat (of_nat (length (manifest_assets mf)) :: u32) = length (manifest_assets mf)" using len by (simp add: unat_of_nat_u32)
    obtain result r' where h: "handle_end \<lparr>end_manifestRevision = revision mf, end_assetCount = of_nat (length (manifest_assets mf)),
        end_totalDownloadSize = totalDownloadSize mf\<rparr> r = (result, r')"
      by (metis prod.exhaust)
    have e: "snd (receiver_Handle x r) = r'" using finish h by (simp add: end_message_def)
    note k = handle_end_result [OF h, simplified, unfolded count]
    show ?thesis
    proof (cases "rx_state r' = Failed")
      case True
      then show ?thesis using k r by (simp add: e tracks_def)
    next
      case False
      then have "manifest_assets (rx_manifest r) = manifest_assets mf" using k r by (auto simp: tracks_def prefix_def)
      then have "rx_manifest r = mf" using False k r by (simp add: tracks_def)
      then show ?thesis using False k by (simp add: e tracks_def)
    qed
  qed
qed

end
