(* ===== verification/SharedSession.thy ===== *)
theory SharedSession
  imports SessionEndToEnd ManagerStability
begin

text \<open>
  One connection between the server component and a client, over a network that may lose,
  repeat and reorder packets but not make them up, with all the other players, the worker
  and the rest of the process in between. What the server records about the client's assets
  is true.
\<close>

section \<open>The joint system\<close>

text \<open>
  What the server may see during the connection of player \<open>player\<close>: anything from and about
  the other players, and from this one packets of the game and packets the client has sent.
\<close>

fun permitted :: "int \<Rightarrow> bytes list \<Rightarrow> ComponentEvent \<Rightarrow> bool" where
  "permitted player up (PlayerConnects p) \<longleftrightarrow> (of_int p :: u32) \<noteq> of_int player"
| "permitted player up (PacketReceived p stream) \<longleftrightarrow> (of_int p :: u32) \<noteq> of_int player \<or> \<not> claims p stream \<or>
     (\<exists>m. packet_bytes m \<in> set up \<and> message_valid m \<and> delivers stream m)"
| "permitted player up e \<longleftrightarrow> True"

text \<open>
  The connection begins in the server's state \<open>sc0\<close> and the client's world \<open>w0\<close>: the server is
  told of the player and the client of its connection. \<open>up\<close> and \<open>down\<close> are what was handed to
  the network since then.
\<close>

definition down :: "int \<Rightarrow> CustomModelComponent \<Rightarrow> CustomModelComponent \<Rightarrow> bytes set" where
  "down player sc0 sc = {bs. (of_int player, bs) \<in> set (drop (length (core_sent (cmp_transport sc0))) (core_sent (cmp_transport sc)))}"

definition up :: "('r Host \<Rightarrow> bytes list) \<Rightarrow> 'r RuntimeWorld \<Rightarrow> 'r RuntimeWorld \<Rightarrow> bytes list" where
  "up sent w0 w = drop (length (sent (fst w0))) (sent (fst w))"

inductive shared ::
  "Core \<Rightarrow> int \<Rightarrow> 'r Sender \<Rightarrow> ('r Host \<Rightarrow> bytes list) \<Rightarrow> Fetch set \<Rightarrow> CustomModelComponent \<Rightarrow> 'r RuntimeWorld \<Rightarrow>
    CustomModelComponent \<Rightarrow> 'r RuntimeWorld \<Rightarrow> bool"
  for core player send sent backends sc0 w0 where
  start: "shared core player send sent backends sc0 w0 (component_step core (PlayerConnects player) sc0)
    (HandleConnectionEvent send EventConnected w0)"
| server: "shared core player send sent backends sc0 w0 sc w \<Longrightarrow> permitted player (up sent w0 w) e \<Longrightarrow>
    shared core player send sent backends sc0 w0 (component_step core e sc) w"
| arrival: "shared core player send sent backends sc0 w0 sc w \<Longrightarrow> bs \<in> down player sc0 sc \<Longrightarrow>
    shared core player send sent backends sc0 w0 sc (client_receives send bs w)"
| pump: "shared core player send sent backends sc0 w0 sc w \<Longrightarrow>
    shared core player send sent backends sc0 w0 sc (PumpAssetResults send w)"
| worker: "shared core player send sent backends sc0 w0 sc (h, c) \<Longrightarrow> ctx_assets c = Some s \<Longrightarrow> fetch \<in> backends \<Longrightarrow>
    worker_turn fetch s = Some s' \<Longrightarrow> shared core player send sent backends sc0 w0 sc (h, c\<lparr>ctx_assets := Some s'\<rparr>)"
| elsewhere: "shared core player send sent backends sc0 w0 sc (h, c) \<Longrightarrow>
    shared core player send sent backends sc0 w0 sc (h\<lparr>process := p\<rparr>, c)"

section \<open>The server's side\<close>

text \<open>An asset that is recorded ready was so before, or the packet said so.\<close>

definition recorded_ready :: "CustomModelComponent \<Rightarrow> u32 \<Rightarrow> u32 \<Rightarrow> bool" where
  "recorded_ready c i a \<longleftrightarrow> (\<exists>s. fmlookup (cmp_assets c) i = Some s \<and> a |\<in>| readyAssets s)"

lemma recorded_ready_alike: "alike c c' \<Longrightarrow> recorded_ready c' i a = recorded_ready c i a"
  by (simp add: alike_def recorded_ready_def)

lemma reported_ready:
  "a |\<in>| readyAssets (reported m s) \<Longrightarrow> a |\<in>| readyAssets s \<or> (\<exists>r. m = AssetReadyMsg r \<and> ready_assetId r = a)"
  by (auto simp: reported_def record_ready_def record_error_def split: Message.splits if_splits)

lemma publication_ready:
  assumes "OnPlayerCompatible (send_of core) r i (ps, t) = (result, ps', t')" and "fmlookup ps' j = Some s'" and "a |\<in>| readyAssets s'"
  shows "\<exists>s. fmlookup ps j = Some s \<and> a |\<in>| readyAssets s"
proof (cases "\<exists>s. fmlookup ps i = Some s \<and> (as_state s = AssetHandshakePending \<or> as_state s = AssetCompatible)")
  case True
  then obtain s where s: "fmlookup ps i = Some s" "as_state s = AssetHandshakePending \<or> as_state s = AssetCompatible" by blast
  have "ps' = fmupd i (published (BuildManifest r)) ps \<or> ps' = fmupd i (publication_failed (BuildManifest r)) ps"
    using assms(1) unfolding OnPlayerCompatible_pending [OF s] by (auto split: prod.splits if_splits)
  then show ?thesis
    using assms(2,3) by (auto simp: published_def publication_failed_def default_assets_def split: if_split_asm)
next
  case False
  then have "ps' = ps" using OnPlayerCompatible_other [of ps i "send_of core" r t] assms(1) by auto
  then show ?thesis using assms by auto
qed

lemma received_ready:
  assumes step: "received core j P c c'" and ok: "component_ok c" and new: "recorded_ready c' i a"
  shows "recorded_ready c i a \<or> i = j \<and> (\<exists>r. P (AssetReadyMsg r) \<and> ready_assetId r = a)"
  using step
proof cases
  case unmoved
  then show ?thesis using new recorded_ready_alike by metis
next
  case (refused r tracker' result t')
  then show ?thesis using new by (auto simp: alike_def recorded_ready_def)
next
  case (answered hello response tracker' result t')
  then show ?thesis using new by (auto simp: alike_def recorded_ready_def)
next
  case (welcomed hello response tracker' t' mresult assets' t'')
  then have "cmp_assets c' = assets'" by (simp add: alike_def)
  then show ?thesis using publication_ready [OF welcomed(4)] new by (auto simp: recorded_ready_def)
next
  case (reported message recorded assets')
  have e: "cmp_assets c' = assets'" using reported(3) by (simp add: alike_def)
  show ?thesis
  proof (cases "\<exists>s. fmlookup (cmp_assets c) j = Some s \<and> reporting s")
    case True
    then obtain s where s: "fmlookup (cmp_assets c) j = Some s" "reporting s" by blast
    have a: "assets' = fmupd j (AssetPublication.reported message s) (cmp_assets c)"
      using HandleIncoming_reported [OF s, of message] reported(2) by simp
    show ?thesis
      using new reported(1) s(1) reported_ready [of a message s] by (auto simp: recorded_ready_def e a split: if_split_asm)
  next
    case False
    then have "HandleIncoming j message (cmp_assets c) = (InvalidOrder, cmp_assets c)"
      using ok by (intro HandleIncoming_refused) (auto simp: reporting_def component_ok_def player_sound_def)
    then show ?thesis using new reported(2) by (simp add: recorded_ready_def e)
  qed
qed

text \<open>What a frame to a player may be, given the manifest.\<close>

definition server_frame :: "Manifest \<Rightarrow> bytes \<Rightarrow> bool" where
  "server_frame mf bs \<longleftrightarrow> (\<exists>m. bs = frame_of m \<and> message_valid m \<and> (is_handshake_message m \<or> m \<in> set (manifest_messages mf)))"

lemma answers_frames:
  assumes "replies i P tracker c new" and "component_ok c" and "(j, bs) \<in> set new"
  shows "j = i \<and> server_frame (BuildManifest (cmp_registry c)) bs"
proof -
  let ?m = "BuildManifest (cmp_registry c)"
  obtain response n where r: "records response i (cmp_tracker c)"
    "new = map (\<lambda>m. (i, frame_of m)) (response_message response # take n (follow_up (cmp_registry c) response))"
    using assms(1,3) by (auto simp: replies_def)
  then obtain m where m: "j = i" "bs = frame_of m" "m = response_message response \<or> m \<in> set (take n (follow_up (cmp_registry c) response))"
    using assms(3) by auto
  have "message_valid (response_message response)"
    using records_valid [OF r(1)] assms(2) by (simp add: component_ok_def)
  moreover have "is_handshake_message (response_message response)" by (cases response) simp_all
  moreover have "manifest_ok ?m" using assms(2) BuildManifest_ok by (simp add: component_ok_def)
  then have "m \<in> set (manifest_messages ?m) \<and> message_valid m" if "m \<in> set (take n (follow_up (cmp_registry c) response))"
    using that manifest_messages_valid by (cases response) (auto dest: in_set_takeD)
  ultimately show ?thesis using m by (auto simp: server_frame_def)
qed

text \<open>One event of the server, seen from player \<open>i\<close>.\<close>

lemma component_step_frames:
  assumes ok: "component_ok c"
  shows "cmp_registry (component_step core e c) = cmp_registry c \<and>
    (\<exists>new. core_sent (cmp_transport (component_step core e c)) = core_sent (cmp_transport c) @ new \<and>
      (\<forall>(j, bs) \<in> set new. server_frame (BuildManifest (cmp_registry c)) bs))"
proof (cases e)
  case (PacketReceived p stream)
  obtain pass c' where r: "onReceive core p stream c = (pass, c')" by (metis prod.exhaust)
  note cs = onReceive_cases [OF r]
  show ?thesis
  proof (cases pass)
    case True
    then show ?thesis using cs alike_parts [of c c'] PacketReceived r by (intro conjI exI [of _ "[]"]) (auto)
  next
    case False
    then have step: "received core (of_int p) (carried stream) c c'" using cs by simp
    note k = received_ok [OF step ok]
    then obtain new where "core_sent (cmp_transport c') = core_sent (cmp_transport c) @ new"
      "replies (of_int p) (carried stream) (cmp_tracker c) c' new" by blast
    then show ?thesis using answers_frames [of "of_int p" "carried stream" "cmp_tracker c" c' new] k PacketReceived r
      by (cases "cmp_registered c") fastforce+
  qed
next
  case (PacketSeen p packetId stream)
  have "alike c (snd (onReceivePacket p packetId stream c))" by (simp add: onReceivePacket_def alike_LogPacketDebug)
  then show ?thesis using PacketSeen alike_parts by (auto intro!: exI [of _ "[]"])
qed (auto simp: onPlayerConnect_def onPlayerDisconnect_def reset_def intro!: exI [of _ "[]"])

lemma delivers_carried:
  assumes "delivers stream m" and "message_valid m" and "carried stream m'"
  shows "m' = m"
  using assms DecodePacket_packet_bytes [OF assms(2)]
  by (auto simp: carried_def packet_carries_def delivers_def split: option.splits)

lemma component_step_ready:
  assumes ok: "component_ok c" and permitted: "permitted player sent e"
    and new: "recorded_ready (component_step core e c) (of_int player) a"
  shows "recorded_ready c (of_int player) a \<or>
    (\<exists>r. message_valid (AssetReadyMsg r) \<and> packet_bytes (AssetReadyMsg r) \<in> set sent \<and> ready_assetId r = a)"
proof (cases e)
  case (PlayerConnects p)
  then show ?thesis using new permitted
    by (auto simp: recorded_ready_def onPlayerConnect_def publication_OnPlayerConnected_def split: if_split_asm)
next
  case (PlayerDisconnects p)
  then show ?thesis using new
    by (auto simp: recorded_ready_def onPlayerDisconnect_def publication_OnPlayerDisconnected_def split: if_split_asm)
next
  case (PacketSeen p packetId stream)
  have "alike c (snd (onReceivePacket p packetId stream c))" by (simp add: onReceivePacket_def alike_LogPacketDebug)
  then show ?thesis using PacketSeen new recorded_ready_alike by (auto split: if_split_asm)
next
  case ComponentReset
  then show ?thesis using new by (simp add: recorded_ready_def reset_def publication_Reset_def)
next
  case (PacketReceived p stream)
  obtain pass c' where r: "onReceive core p stream c = (pass, c')" by (metis prod.exhaust)
  note cs = onReceive_cases [OF r]
  show ?thesis
  proof (cases "pass \<or> \<not> cmp_registered c")
    case True
    then show ?thesis using cs recorded_ready_alike [of c c'] PacketReceived r new by (auto split: if_split_asm)
  next
    case False
    then have step: "received core (of_int p) (carried stream) c c'" "claims p stream" using cs by auto
    have "recorded_ready c' (of_int player) a" using new PacketReceived r False by simp
    from received_ready [OF step(1) ok this] show ?thesis
    proof
      assume mine: "of_int player = (of_int p :: u32) \<and> (\<exists>r. carried stream (AssetReadyMsg r) \<and> ready_assetId r = a)"
      then obtain m where "packet_bytes m \<in> set sent" "message_valid m" "delivers stream m"
        using permitted PacketReceived step(2) by auto
      then show ?thesis using mine delivers_carried by blast
    qed simp
  qed
qed

section \<open>The client's side\<close>

text \<open>The client has the manifest and the asset is ready in its current session.\<close>

definition client_ready :: "Manifest \<Rightarrow> ProtocolContext \<Rightarrow> u32 \<Rightarrow> bool" where
  "client_ready mf c a \<longleftrightarrow> (\<exists>s. ctx_assets c = Some s \<and> rx_completed (mgr_receiver (sys_manager s)) = Some mf \<and>
     a \<in> assetId ` set (manifest_assets mf) \<and> ready (sys_manager s) a)"

text \<open>One manager after another of the same session.\<close>

definition advances :: "Manifest \<Rightarrow> ClientAssetManager \<Rightarrow> ClientAssetManager \<Rightarrow> bool" where
  "advances mf m m' \<longleftrightarrow> (tracks mf (mgr_receiver m) \<longrightarrow> tracks mf (mgr_receiver m')) \<and>
     (rx_completed (mgr_receiver m) = Some mf \<longrightarrow> rx_completed (mgr_receiver m') = Some mf) \<and> (\<forall>a. ready m a \<longrightarrow> ready m' a)"

lemma advances_events: "advances mf m (m'\<lparr>mgr_events := es\<rparr>) = advances mf m m'"
  by (simp add: advances_def)

lemma advances_refl: "advances mf m m"
  by (simp add: advances_def)

lemma advances_message:
  assumes ok: "manager_ok k m" and mf: "manifest_ok mf" and x: "x \<in> set (manifest_messages mf) \<or> \<not> is_manifest x"
  shows "advances mf m (snd (HandleMessage x m))"
proof -
  obtain ms where ms: "mgr_receiver m = receiver_run ms" using ok by (auto simp: manager_ok_def)
  have "rx_completed (snd (receiver_Handle x (mgr_receiver m))) = Some mf" if "rx_completed (mgr_receiver m) = Some mf"
    using completed_stays [OF that, of x] completed_phase [of ms mf] that ms by simp
  then show ?thesis using tracks_step [OF mf _ x] HandleMessage_ready [OF ok] by (simp add: advances_def HandleMessage_receiver)
qed

lemma client_ready_advances:
  assumes "ctx_assets c = Some s" and "ctx_assets c' = Some s'" and "advances mf (sys_manager s) (sys_manager s')" and "client_ready mf c a"
  shows "client_ready mf c' a"
  using assms by (auto simp: client_ready_def advances_def)

lemma incoming_assets:
  assumes s: "ctx_assets c = Some s" and m: "message_valid m"
  shows "ctx_assets (snd (HandleIncomingProtocol send (View (packet_bytes m)) (h, c))) \<in>
    {Some s, Some (s\<lparr>sys_manager := (snd (HandleMessage m (sys_manager s)))\<lparr>mgr_events := []\<rparr>\<rparr>)}"
proof (cases "ctx_handshake c")
  case None
  then show ?thesis using s by (simp add: HandleIncomingProtocol_def)
next
  case (Some hs)
  note d = DecodePacket_packet_bytes [OF m]
  consider "is_handshake_message m" | "\<not> is_handshake_message m" "ch_state hs \<noteq> Compatible"
    | "\<not> is_handshake_message m" "ch_state hs = Compatible" by blast
  then show ?thesis
  proof cases
    case 1
    obtain hs' b where "snd (handle_handshake_packet (View (packet_bytes m)) hs (h, c)) = c\<lparr>ctx_handshake := Some hs', ctx_malformedPacketLogged := b\<rparr>"
      using handshake_packet_context [of "View (packet_bytes m)" hs h c] by blast
    then show ?thesis using 1 d s Some by (simp add: HandleIncomingProtocol_def)
  next
    case 2
    then show ?thesis using d s Some by (simp add: HandleIncomingProtocol_def)
  next
    case 3
    obtain h' where "client_receives send (frame_of m) (h, c) =
        (h', c\<lparr>ctx_assets := Some (s\<lparr>sys_manager := (snd (HandleMessage m (sys_manager s)))\<lparr>mgr_events := []\<rparr>\<rparr>)\<rparr>)"
      using client_manifest_message [OF Some 3(2) s m 3(1)] by blast
    then show ?thesis by (simp add: client_receives_frame [OF m])
  qed
qed

lemma pump_assets:
  assumes "ctx_assets c = Some s"
  shows "ctx_assets (snd (PumpAssetResults send (h, c))) \<in> {Some s, Some (s\<lparr>sys_manager := (sys_manager s)\<lparr>mgr_events := []\<rparr>\<rparr>)}"
  using assms by (auto simp: Pump_context DrainEvents_def split: option.splits)

section \<open>The invariant of the joint system\<close>

definition shared_ok :: "int \<Rightarrow> 'r Sender \<Rightarrow> ('r Host \<Rightarrow> bytes list) \<Rightarrow> 'r RuntimeWorld \<Rightarrow> nat \<Rightarrow> Manifest \<Rightarrow>
    CustomModelComponent \<Rightarrow> 'r RuntimeWorld \<Rightarrow> CustomModelComponent \<Rightarrow> 'r RuntimeWorld \<Rightarrow> bool" where
  "shared_ok player send sent world k mf sc0 w0 sc w \<longleftrightarrow> component_ok sc \<and> BuildManifest (cmp_registry sc) = mf \<and>
    (\<exists>new. core_sent (cmp_transport sc) = core_sent (cmp_transport sc0) @ new \<and> (\<forall>(j, bs) \<in> set new. server_frame mf bs)) \<and>
    runs send (range winhttp_backend) world k w \<and>
    (\<forall>s. ctx_assets (snd w) = Some s \<longrightarrow> tracks mf (mgr_receiver (sys_manager s))) \<and>
    (\<exists>new. sent (fst w) = sent (fst w0) @ map packet_bytes new \<and>
      (\<forall>m \<in> set new. message_valid m \<and> (\<forall>r. m = AssetReadyMsg r \<longrightarrow> client_ready mf (snd w) (ready_assetId r)))) \<and>
    (\<forall>a. recorded_ready sc (of_int player) a \<longrightarrow> client_ready mf (snd w) a)"

lemma justified_ready:
  assumes "justified c (AssetReadyMsg r)" and "\<And>s. ctx_assets c = Some s \<Longrightarrow> tracks mf (mgr_receiver (sys_manager s))"
  shows "client_ready mf c (ready_assetId r)"
proof -
  obtain s mf' a where s: "ctx_assets c = Some s" "rx_completed (mgr_receiver (sys_manager s)) = Some mf'"
    "a \<in> set (manifest_assets mf')" "ready_assetId r = assetId a" "GetState (assetId a) (sys_manager s) = StateReady"
    using assms(1) by fastforce
  moreover have "mf' = mf" using assms(2) [OF s(1)] s(2) by (simp add: tracks_def)
  moreover have "ready (sys_manager s) (ready_assetId r)" using s(4,5) by (auto simp: GetState_def split: option.splits)
  ultimately show ?thesis unfolding client_ready_def by blast
qed

text \<open>A step of the client.\<close>

lemma shared_client_step:
  assumes ok: "shared_ok player send sent world k mf sc0 w0 sc w" and run: "runs send (range winhttp_backend) world k w'"
    and s: "ctx_assets (snd w) = Some s" and s': "ctx_assets (snd w') = Some s'" and adv: "advances mf (sys_manager s) (sys_manager s')"
    and sent: "sent (fst w') = sent (fst w) @ map packet_bytes sends" "list_all (\<lambda>m. message_valid m \<and> justified (snd w') m) sends"
  shows "shared_ok player send sent world k mf sc0 w0 sc w'"
proof -
  note mono = client_ready_advances [OF s s' adv]
  have tracks: "tracks mf (mgr_receiver (sys_manager s'))" using ok s adv by (simp add: shared_ok_def advances_def)
  obtain new where new: "sent (fst w) = sent (fst w0) @ map packet_bytes new"
    "\<forall>m \<in> set new. message_valid m \<and> (\<forall>r. m = AssetReadyMsg r \<longrightarrow> client_ready mf (snd w) (ready_assetId r))"
    using ok by (auto simp: shared_ok_def)
  have "message_valid m \<and> (\<forall>r. m = AssetReadyMsg r \<longrightarrow> client_ready mf (snd w') (ready_assetId r))" if "m \<in> set (new @ sends)" for m
  proof (cases "m \<in> set new")
    case True
    then show ?thesis using new(2) mono by blast
  next
    case False
    then have "message_valid m" "justified (snd w') m" using that sent(2) by (auto simp: list_all_iff)
    then show ?thesis using justified_ready [of "snd w'" _ mf] s' tracks by auto
  qed
  moreover have "sent (fst w') = sent (fst w0) @ map packet_bytes (new @ sends)" using new(1) sent(1) by simp
  ultimately have "\<exists>new. sent (fst w') = sent (fst w0) @ map packet_bytes new \<and>
      (\<forall>m \<in> set new. message_valid m \<and> (\<forall>r. m = AssetReadyMsg r \<longrightarrow> client_ready mf (snd w') (ready_assetId r)))" by blast
  moreover have "\<forall>a. recorded_ready sc (of_int player) a \<longrightarrow> client_ready mf (snd w') a" using ok mono by (simp add: shared_ok_def)
  ultimately show ?thesis using ok run s' tracks by (simp add: shared_ok_def)
qed

text \<open>An event of the server.\<close>

lemma packet_bytes_inject:
  assumes "message_valid m" and "message_valid m'" and "packet_bytes m = packet_bytes m'"
  shows "m = m'"
proof -
  have "packet_message (projr (DecodePacket (View (packet_bytes x)))) = x" if "message_valid x" for x
    unfolding DecodePacket_packet_bytes [OF that] by simp
  then show ?thesis using assms by metis
qed

lemma shared_server_step:
  assumes ok: "shared_ok player send sent world k mf sc0 w0 sc w" and e: "permitted player (up sent w0 w) e"
  shows "shared_ok player send sent world k mf sc0 w0 (component_step core e sc) w"
proof -
  have c: "component_ok sc" "BuildManifest (cmp_registry sc) = mf" using ok by (simp_all add: shared_ok_def)
  note frames = component_step_frames [OF c(1), of core e]
  obtain new where new: "sent (fst w) = sent (fst w0) @ map packet_bytes new"
    "\<forall>m \<in> set new. message_valid m \<and> (\<forall>r. m = AssetReadyMsg r \<longrightarrow> client_ready mf (snd w) (ready_assetId r))"
    using ok by (auto simp: shared_ok_def)
  then have up: "up sent w0 w = map packet_bytes new" by (simp add: up_def)
  have "client_ready mf (snd w) a" if a: "recorded_ready (component_step core e sc) (of_int player) a" for a
  proof (cases "recorded_ready sc (of_int player) a")
    case True
    then show ?thesis using ok by (simp add: shared_ok_def)
  next
    case False
    then obtain r where r: "message_valid (AssetReadyMsg r)" "packet_bytes (AssetReadyMsg r) \<in> set (map packet_bytes new)" "ready_assetId r = a"
      using component_step_ready [OF c(1) e a] unfolding up by blast
    then obtain m where "m \<in> set new" "packet_bytes m = packet_bytes (AssetReadyMsg r)" by auto
    moreover from this have "m = AssetReadyMsg r" using new(2) packet_bytes_inject [OF _ r(1)] by blast
    ultimately show ?thesis using new(2) r(3) by blast
  qed
  moreover have "\<exists>new. core_sent (cmp_transport (component_step core e sc)) = core_sent (cmp_transport sc0) @ new \<and>
      (\<forall>(j, bs) \<in> set new. server_frame mf bs)"
  proof -
    obtain old where "core_sent (cmp_transport sc) = core_sent (cmp_transport sc0) @ old" "\<forall>(j, bs) \<in> set old. server_frame mf bs"
      using ok by (auto simp: shared_ok_def)
    moreover obtain sends where "core_sent (cmp_transport (component_step core e sc)) = core_sent (cmp_transport sc) @ sends"
      "\<forall>(j, bs) \<in> set sends. server_frame mf bs" using frames c(2) by auto
    ultimately show ?thesis by (intro exI [of _ "old @ sends"]) auto
  qed
  ultimately show ?thesis using ok component_step_ok [OF c(1), of core e] frames c(2) by (simp add: shared_ok_def)
qed

text \<open>The transport of a started client stays.\<close>

lemma callback_transport: "ctx_transport (snd (runtime_call send call (h, c))) = ctx_transport c"
proof (cases call)
  case (Incoming bytes)
  have pump: "ctx_transport (snd (PumpAssetResults send (h, c'))) = ctx_transport c'" for h c'
    by (simp add: Pump_context split: option.split)
  have malformed: "ctx_transport (snd (drop_malformed (h, c))) = ctx_transport c" by (simp add: drop_malformed_def)
  have asset: "ctx_transport (snd (handle_asset_message send m s (h, c))) = ctx_transport c" for m s
    using pump by (simp add: asset_message_context [where h' = h])
  have handshake: "ctx_transport (snd (handle_handshake_packet bytes hs (h, c))) = ctx_transport c" for hs
    using handshake_packet_context [of bytes hs h c] by auto
  show ?thesis
    using malformed asset handshake Incoming by (auto simp: HandleIncomingProtocol_def split: option.split sum.split)
next
  case (Connection e)
  then show ?thesis
    by (auto simp: HandleConnectionEvent_def send_hello_context on_assets_def Let_def split: option.split)
next
  case Pump
  then show ?thesis by (simp add: Pump_context split: option.split)
qed

lemma runs_transport: "runs send backends (runtime_start cfg cache disk h0) k w \<Longrightarrow> ctx_transport (snd w)"
proof (induction rule: runs.induct)
  case initial
  show ?case by (simp add: runtime_start_def)
next
  case (callback k w call)
  obtain h c where "w = (h, c)" by (metis prod.exhaust)
  then show ?case using callback.IH callback_transport [of send call h c] by simp
qed simp_all

text \<open>The connection begins.\<close>

lemma connect_recorded:
  assumes "cmp_registered sc0" and "0 \<le> player"
  shows "\<not> recorded_ready (component_step core (PlayerConnects player) sc0) (of_int player) a"
  using assms by (simp add: recorded_ready_def onPlayerConnect_def publication_OnPlayerConnected_def default_assets_def)

context host_transport begin

lemma shared_start:
  assumes server: "component_ok sc0" "cmp_registered sc0" "0 \<le> player"
    and run: "runs send (range winhttp_backend) (runtime_start cfg cache disk h0) k w0" and k: "k + 2 < 2 ^ 64"
  shows "shared_ok player send sent (runtime_start cfg cache disk h0) (k + 1) (BuildManifest (cmp_registry sc0)) sc0 w0
    (component_step core (PlayerConnects player) sc0) (HandleConnectionEvent send EventConnected w0)"
proof -
  obtain h c where w0: "w0 = (h, c)" by (metis prod.exhaust)
  let ?mf = "BuildManifest (cmp_registry sc0)" and ?w = "HandleConnectionEvent send EventConnected w0"
  have ok: "runtime_ok cfg cache disk (range winhttp_backend) k c" using runs_ok [OF run] k w0 by simp
  then obtain hs s where c: "ctx_handshake c = Some hs" "ctx_assets c = Some s" by (auto simp: runtime_ok_def)
  have assets: "ctx_assets (snd ?w) = Some (s\<lparr>sys_manager := ResetSession (sys_manager s)\<rparr>)"
    using Connection_context [OF c(1), of send EventConnected h] runs_transport [OF run] c(2) w0 by (simp add: on_assets_def)
  have tracks: "tracks ?mf (mgr_receiver (ResetSession (sys_manager s)))"
    using idle_ResetSession [of "sys_manager s"] tracks_new [of ?mf] by (simp add: idle_def)
  obtain new where new: "sent (fst ?w) = sent h @ map packet_bytes new" "list_all (\<lambda>m. message_valid m \<and> justified (snd ?w) m) new"
    using call_justified [OF ok, of "Connection EventConnected" h] k w0 by auto
  have "message_valid m \<and> (\<forall>r. m = AssetReadyMsg r \<longrightarrow> client_ready ?mf (snd ?w) (ready_assetId r))" if "m \<in> set new" for m
    using that new(2) justified_ready [of "snd ?w" _ ?mf] assets tracks by (auto simp: list_all_iff)
  then have "\<exists>new. sent (fst ?w) = sent (fst w0) @ map packet_bytes new \<and>
      (\<forall>m \<in> set new. message_valid m \<and> (\<forall>r. m = AssetReadyMsg r \<longrightarrow> client_ready ?mf (snd ?w) (ready_assetId r)))"
    using new(1) w0 by auto
  moreover have "runs send (range winhttp_backend) (runtime_start cfg cache disk h0) (k + 1) ?w"
    using runs.callback [OF run, of "Connection EventConnected"] by simp
  ultimately show ?thesis
    using component_step_ok [OF server(1), of core "PlayerConnects player"] component_step_frames [OF server(1), of core "PlayerConnects player"]
      connect_recorded [OF server(2,3)] assets tracks by (simp add: shared_ok_def)
qed

lemma shared_states_ok:
  assumes sh: "shared core player send sent (range winhttp_backend) sc0 w0 sc w"
    and server: "component_ok sc0" "cmp_registered sc0" "0 \<le> player"
    and run: "runs send (range winhttp_backend) (runtime_start cfg cache disk h0) k w0" and k: "k + 2 < 2 ^ 64"
    and quiet: "\<And>h p. sent (h\<lparr>process := p\<rparr>) = sent h"
  shows "shared_ok player send sent (runtime_start cfg cache disk h0) (k + 1) (BuildManifest (cmp_registry sc0)) sc0 w0 sc w"
    (is "shared_ok _ _ _ ?w0 _ ?mf _ _ _ _")
  using sh
proof (induction rule: shared.induct)
  case start
  show ?case by (rule shared_start [OF server run k])
next
  case (server sc w e)
  show ?case by (rule shared_server_step [OF server.IH server.hyps(2)])
next
  case (arrival sc w bs)
  obtain h c where w: "w = (h, c)" by (metis prod.exhaust)
  note ih = arrival.IH [unfolded w]
  have r: "runs send (range winhttp_backend) ?w0 (k + 1) (h, c)" using ih unfolding shared_ok_def by blast
  have ok: "runtime_ok cfg cache disk (range winhttp_backend) (k + 1) c" using runs_ok [OF r] k by simp
  then obtain hs s j where c: "ctx_handshake c = Some hs" "ctx_assets c = Some s" "j \<le> k + 1"
    "reachable (range winhttp_backend) (start_system cache True disk) j s" by (auto simp: runtime_ok_def)
  have "server_frame ?mf bs" using arrival.hyps(2) ih by (auto simp: shared_ok_def down_def)
  then obtain m where m: "bs = frame_of m" "message_valid m" "is_handshake_message m \<or> m \<in> set (manifest_messages ?mf)"
    by (auto simp: server_frame_def)
  have m': "m \<in> set (manifest_messages ?mf) \<or> \<not> is_manifest m" using m(3) by (cases m) auto
  let ?call = "Incoming (View (packet_bytes m))"
  have eq: "client_receives send bs w = runtime_call send ?call (h, c)" using client_receives_frame [OF m(2)] m(1) w by simp
  have man: "manager_ok j (sys_manager s)" using reachable_session_ok [OF c(4)] c(3) k by (simp add: session_ok_def)
  have mf: "manifest_ok ?mf" using server(1) BuildManifest_ok by (simp add: component_ok_def)
  obtain s' where s': "ctx_assets (snd (runtime_call send ?call (h, c))) = Some s'" "advances ?mf (sys_manager s) (sys_manager s')"
    using incoming_assets [OF c(2) m(2), of send h] advances_message [OF man mf m'] advances_refl advances_events by auto
  obtain sends where sends: "sent (fst (runtime_call send ?call (h, c))) = sent h @ map packet_bytes sends"
    "list_all (\<lambda>m. message_valid m \<and> justified (snd (runtime_call send ?call (h, c))) m) sends"
    using call_justified [OF ok] k by fastforce
  have "runs send (range winhttp_backend) ?w0 (k + 1) (runtime_call send ?call (h, c))" using runs.callback [OF r, of ?call] by simp
  from shared_client_step [OF ih this _ s'] show ?case unfolding eq using c(2) sends by simp
next
  case (pump sc w)
  obtain h c where w: "w = (h, c)" by (metis prod.exhaust)
  note ih = pump.IH [unfolded w]
  have r: "runs send (range winhttp_backend) ?w0 (k + 1) (h, c)" using ih unfolding shared_ok_def by blast
  have ok: "runtime_ok cfg cache disk (range winhttp_backend) (k + 1) c" using runs_ok [OF r] k by simp
  then obtain s where c: "ctx_assets c = Some s" by (auto simp: runtime_ok_def)
  obtain s' where s': "ctx_assets (snd (PumpAssetResults send (h, c))) = Some s'" "advances ?mf (sys_manager s) (sys_manager s')"
    using pump_assets [OF c, of send h] advances_refl advances_events by auto
  obtain sends where sends: "sent (fst (PumpAssetResults send (h, c))) = sent h @ map packet_bytes sends"
    "list_all (\<lambda>m. message_valid m \<and> justified (snd (PumpAssetResults send (h, c))) m) sends"
    using Pump_justified [OF ok] k by fastforce
  have "runs send (range winhttp_backend) ?w0 (k + 1) (PumpAssetResults send (h, c))" using runs.callback [OF r, of Pump] by simp
  from shared_client_step [OF ih this _ s'] show ?case unfolding w using c sends by simp
next
  case (worker sc h c s fetch s')
  have r: "runs send (range winhttp_backend) ?w0 (k + 1) (h, c)" using worker.IH unfolding shared_ok_def by blast
  have r': "runs send (range winhttp_backend) ?w0 (k + 1) (h, c\<lparr>ctx_assets := Some s'\<rparr>)"
    by (rule runs.worker [OF r worker.hyps(2-4)])
  obtain j where j: "j \<le> k + 1" "reachable (range winhttp_backend) (start_system cache True disk) j s"
    using runs_ok [OF r] k worker.hyps(2) by (auto simp: runtime_ok_def)
  then have "j + 1 < 2 ^ 64" using k by simp
  note turn = winhttp.worker_turn_busy [OF winhttp.reachable_progress_ok [OF j(2) this] winhttp.reachable_busy_ok [OF j(2) this] worker.hyps(3,4)]
  have "advances ?mf (sys_manager s) (sys_manager s')" using turn(2,3) by (simp add: advances_def)
  from shared_client_step [OF worker.IH r' _ _ this, of "[]"] show ?case using worker.hyps(2) by simp
next
  case (elsewhere sc h c p)
  have "runs send (range winhttp_backend) ?w0 (k + 1) (h, c)" using elsewhere.IH unfolding shared_ok_def by blast
  from runs.elsewhere [OF this, of p] show ?case using elsewhere.IH quiet by (simp add: shared_ok_def)
qed

end

end
