(* ===== verification/SessionCompletes.thy ===== *)
theory SessionCompletes
  imports SharedSession
begin

text \<open>
  A session of server and client can always be completed: connection, greeting, manifest,
  the worker's turns, the reports and what the server records of them.
\<close>

section \<open>The worker tells what became of every asset\<close>

abbreviation reason_valid :: "AssetErrorReason \<Rightarrow> bool" where
  "reason_valid r \<equiv> IsAssetErrorReasonValid (AssetErrorReason_value r)"

definition valid_updates :: "Update list \<Rightarrow> bool" where
  "valid_updates us \<longleftrightarrow> (\<forall>u \<in> set us. reason_valid (snd (snd u)))"

lemma valid_updates_process: "valid_updates (fst (Process fetch c options w d))"
proof -
  have gu: "valid_updates (fst (give_up t r d)) = reason_valid r" for t r d
    by (simp add: give_up_def valid_updates_def Fail_def)
  have to: "reason_valid (snd (snd (update_to s k)))" for s k by (simp add: update_to_def IsAssetErrorReasonValid_def)
  have cons: "valid_updates (update_to s k # us) \<longleftrightarrow> valid_updates us" for s k us
    using to by (simp add: valid_updates_def)
  have one: "valid_updates [update_to s k]" for s k using to by (simp add: valid_updates_def)
  have rv: "IsAssetErrorReasonValid 7" "IsAssetErrorReasonValid 5" "IsAssetErrorReasonValid 6"
    by (simp_all add: IsAssetErrorReasonValid_def)
  have commit: "valid_updates (fst (process_commit c a t d))" for a t d
    by (simp add: process_commit_def gu one rv split: prod.split bool.split)
  have verify: "valid_updates (fst (process_verify c a t d))" for a t d
    using commit by (auto simp: process_verify_def gu cons rv split: prod.splits option.splits) (metis fst_conv)
  have fetched: "reason_valid (MapFetchError e)" for e by (cases e) (simp_all add: IsAssetErrorReasonValid_def)
  have download: "valid_updates (fst (process_download fetch c options a d))" for a d
    using verify by (auto simp: process_download_def gu cons rv fetched Let_def split: prod.splits) (metis fst_conv)
  have "process_download fetch c options a d = (us, d') \<Longrightarrow> valid_updates us" for a d us d'
    using download by (metis fst_conv)
  moreover have "valid_updates [Fail AssetErrorReason_DiskFailure]" "valid_updates []"
    using rv by (simp_all add: valid_updates_def Fail_def)
  ultimately show ?thesis by (auto simp: Process_def cons split: prod.splits CacheLookup.splits)
qed

definition told :: "ClientAssetManager \<Rightarrow> u32 \<Rightarrow> bool" where
  "told m i \<longleftrightarrow> (\<exists>e \<in> set (mgr_events m). ev_kind e \<in> final_kinds \<and> ev_assetId e = i \<and> reason_valid (ev_error e))"

fun telling :: "Worker \<Rightarrow> bool" where
  "telling (WorkerReporting w us) \<longleftrightarrow> valid_updates us \<and> (us \<noteq> [] \<longrightarrow> kind_of (last us) \<in> final_kinds)"
| "telling x \<longleftrightarrow> True"

fun still_telling :: "ClientAssetManager \<Rightarrow> Worker \<Rightarrow> u32 \<Rightarrow> bool" where
  "still_telling m (WorkerReporting w us) i \<longleftrightarrow> us \<noteq> [] \<and> work_generation w = mgr_generation m \<and> assetId (work_asset w) = i"
| "still_telling m x i \<longleftrightarrow> False"

definition all_told :: "System \<Rightarrow> bool" where
  "all_told s \<longleftrightarrow> telling (sys_worker s) \<and>
     (\<forall>i. fmlookup (mgr_states (sys_manager s)) i \<in> {Some StateReady, Some StateFailed} \<longrightarrow>
       told (sys_manager s) i \<or> still_telling (sys_manager s) (sys_worker s) i)"

lemma told_events: "told m i \<Longrightarrow> mgr_events m' = mgr_events m @ es \<Longrightarrow> told m' i"
  by (auto simp: told_def)

context fetch_backends begin

lemma worker_turn_told:
  assumes ok: "all_told s" and fetch: "fetch \<in> backends" and turn: "worker_turn fetch s = Some s'"
  shows "all_told s'"
proof (cases "sys_worker s")
  case WorkerWaiting
  then have "mgr_states (sys_manager s') = mgr_states (sys_manager s)" "mgr_events (sys_manager s') = mgr_events (sys_manager s)"
    "telling (sys_worker s')"
    using turn by (auto simp: worker_turn_def Let_def split: if_splits list.splits)
  then show ?thesis using ok WorkerWaiting by (simp add: all_told_def told_def)
next
  case (WorkerTook w)
  obtain us d where run: "Process fetch (mgr_cache (sys_manager s)) (mgr_options (sys_manager s)) w (sys_disk s) = (us, d)"
    by (metis prod.exhaust)
  have us: "map kind_of us \<in> legal_traces" "valid_updates us"
    using Process_outcome [OF fetch, of "mgr_cache (sys_manager s)" w "sys_disk s" "mgr_options (sys_manager s)"]
      valid_updates_process [of fetch "mgr_cache (sys_manager s)" "mgr_options (sys_manager s)" w "sys_disk s"] run by simp_all
  then have "us \<noteq> []" by (auto simp: legal_traces_def)
  then have "kind_of (last us) = last (map kind_of us)" by (simp add: last_map)
  then have "telling (WorkerReporting w us)" using us by (auto simp: legal_traces_def)
  moreover have "sys_manager s' = sys_manager s" "sys_worker s' \<in> {WorkerWaiting, WorkerReporting w us}"
    using turn WorkerTook run by (auto simp: worker_turn_def Let_def split: if_splits)
  ultimately show ?thesis using ok WorkerTook by (auto simp: all_told_def)
next
  case (WorkerReporting w us)
  show ?thesis
  proof (cases us)
    case Nil
    then have "sys_manager s' = sys_manager s" "sys_worker s' = WorkerWaiting" using turn WorkerReporting by (auto simp: worker_turn_def)
    then show ?thesis using ok WorkerReporting Nil by (simp add: all_told_def)
  next
    case (Cons u us')
    then have s': "s' = s\<lparr>sys_worker := WorkerReporting w us', sys_manager := SetState w u (sys_manager s)\<rparr>"
      using turn WorkerReporting by (auto simp: worker_turn_def)
    have telling: "telling (WorkerReporting w us')" "us' = [] \<Longrightarrow> kind_of u \<in> final_kinds" "reason_valid (snd (snd u))"
      using ok WorkerReporting Cons by (auto simp: all_told_def valid_updates_def)
    let ?m = "sys_manager s" and ?m' = "SetState w u (sys_manager s)" and ?i = "assetId (work_asset w)"
    show ?thesis
    proof (cases "work_generation w = mgr_generation ?m")
      case False
      then have "?m' = ?m" by (simp add: SetState_def split: prod.splits)
      then show ?thesis using ok telling(1) WorkerReporting Cons False s' by (simp add: all_told_def)
    next
      case True
      obtain st k e where u: "u = (st, k, e)" by (metis prod_cases3)
      have m': "mgr_events ?m' = mgr_events ?m @ [asset_event k (work_revision w) ?i e]"
        "mgr_states ?m' = fmupd ?i st (mgr_states ?m)" "mgr_generation ?m' = mgr_generation ?m"
        using True by (simp_all add: SetState_def u)
      have "told ?m' i \<or> still_telling ?m' (WorkerReporting w us') i"
        if i: "fmlookup (mgr_states ?m') i \<in> {Some StateReady, Some StateFailed}" for i
      proof (cases "i = ?i")
        case True
        then show ?thesis using telling m' u \<open>work_generation w = mgr_generation ?m\<close>
          by (cases us') (auto simp: told_def asset_event_def)
      next
        case False
        then have "fmlookup (mgr_states ?m) i \<in> {Some StateReady, Some StateFailed}" using i m'(2) by (simp split: if_splits)
        then have "told ?m i" using ok WorkerReporting Cons False by (auto simp: all_told_def)
        then show ?thesis using told_events m'(1) by blast
      qed
      then show ?thesis using telling(1) s' by (simp add: all_told_def)
    qed
  qed
qed (use turn in \<open>simp_all add: worker_turn_def\<close>)

lemma worker_run_told: "fetch \<in> backends \<Longrightarrow> all_told s \<Longrightarrow> all_told (worker_run fetch n s)"
  by (induction n arbitrary: s) (auto split: option.splits intro: worker_turn_told)

lemma queue_told:
  assumes fetch: "fetch \<in> backends" and s: "sys_worker s = WorkerWaiting" "\<not> mgr_stopping (sys_manager s)"
    "\<forall>w \<in> set (mgr_queue (sys_manager s)). work_generation w = mgr_generation (sys_manager s)" "all_told s"
  shows "\<exists>n s'. worker_run fetch n s = s' \<and> mgr_receiver (sys_manager s') = mgr_receiver (sys_manager s) \<and>
    (\<forall>i \<in> queued_ids (sys_manager s). told (sys_manager s') i)"
proof -
  obtain n s' where n: "worker_run fetch n s = s'" "sys_worker s' = WorkerWaiting"
    "only_states (sys_manager s) (sys_manager s') (queued_ids (sys_manager s))"
    "\<forall>i \<in> queued_ids (sys_manager s). fmlookup (mgr_states (sys_manager s')) i \<in> {Some StateReady, Some StateFailed}"
    using queue_run [OF fetch s(1-3)] by blast
  have "all_told s'" using worker_run_told [OF fetch s(4), of n] n(1) by simp
  then have "told (sys_manager s') i" if "fmlookup (mgr_states (sys_manager s')) i \<in> {Some StateReady, Some StateFailed}" for i
    using that n(2) by (auto simp: all_told_def)
  then have "\<forall>i \<in> queued_ids (sys_manager s). told (sys_manager s') i" using n(4) by blast
  then show ?thesis using n(1,3) by (auto simp: only_states_def)
qed

end

text \<open>An item the cache holds becomes ready.\<close>

lemma hit_run:
  assumes s: "sys_worker s = WorkerWaiting" "\<not> mgr_stopping (sys_manager s)" "mgr_queue (sys_manager s) = w # ws"
      "work_generation w = mgr_generation (sys_manager s)"
    and hit: "Lookup (mgr_cache (sys_manager s)) (work_asset w) (sys_disk s) = (Hit, d)"
  shows "\<exists>n s'. worker_run fetch n s = s' \<and> sys_worker s' = WorkerWaiting \<and>
    mgr_receiver (sys_manager s') = mgr_receiver (sys_manager s) \<and>
    fmlookup (mgr_states (sys_manager s')) (assetId (work_asset w)) = Some StateReady"
proof -
  let ?m = "(sys_manager s)\<lparr>mgr_queue := ws\<rparr>" and ?us = "[update_to StateReady EvCacheHit, update_to StateReady EvReady]"
  define s1 where "s1 = s\<lparr>sys_worker := WorkerTook w, sys_manager := ?m\<rparr>"
  define s2 where "s2 = s1\<lparr>sys_worker := WorkerReporting w ?us, sys_disk := d\<rparr>"
  have t1: "worker_turn fetch s = Some s1" using s by (simp add: worker_turn_def s1_def)
  have t2: "worker_turn fetch s1 = Some s2"
    using s hit by (simp add: worker_turn_def s1_def s2_def IsCurrentGeneration_def Process_def)
  obtain n s' where n: "worker_run fetch n s2 = s'" "sys_worker s' = WorkerWaiting"
    "only_states (sys_manager s2) (sys_manager s') {assetId (work_asset w)}"
    "fmlookup (mgr_states (sys_manager s')) (assetId (work_asset w)) = Some StateReady"
    using report_run [of s2 w ?us fetch] s(4) by (auto simp: s2_def s1_def update_to_def)
  have "worker_run fetch (Suc (Suc n)) s = s'" using t1 t2 n(1) by simp
  then show ?thesis using n by (intro exI [of _ "Suc (Suc n)"] exI [of _ s']) (simp add: only_states_def s2_def s1_def)
qed

section \<open>What is told is reported, and reports are true\<close>

lemma told_report:
  assumes told: "told m i" and events: "\<forall>e \<in> set (mgr_events m). event_ok m e" and mf: "rx_completed (mgr_receiver m) = Some mf" "manifest_ok mf"
  shows "\<exists>x \<in> set (reports (mgr_events m)). concerns (revision mf) i x"
proof -
  obtain e where e: "e \<in> set (mgr_events m)" "ev_kind e \<in> final_kinds" "ev_assetId e = i" "reason_valid (ev_error e)"
    using told by (auto simp: told_def)
  have ok: "ev_revision e = revision mf" "i \<in> assetId ` set (manifest_assets mf)"
    using events e mf(1) by (auto simp: event_ok_def)
  then have nonzero: "revision mf \<noteq> 0" "i \<noteq> 0" using mf(2) by (auto simp: manifest_ok_def IsAssetDescriptionValid_def)
  have in_reports: "x \<in> set (reports es)" if "e \<in> set es" "report_of e = Some x" "message_valid x" for x es
    using that by (induction es) auto
  have "\<exists>x. report_of e = Some x \<and> message_valid x \<and> concerns (revision mf) i x"
    using e ok(1) nonzero by (auto simp: report_of.simps concerns_def)
  then show ?thesis using in_reports [OF e(1)] by blast
qed

definition fits_state :: "ClientAssetManager \<Rightarrow> Message \<Rightarrow> bool" where
  "fits_state m x \<longleftrightarrow>
     (case x of
        AssetReadyMsg r \<Rightarrow> fmlookup (mgr_states m) (ready_assetId r) = Some StateReady
      | AssetErrorMsg e \<Rightarrow> fmlookup (mgr_states m) (error_assetId e) = Some StateFailed
      | _ \<Rightarrow> False)"

lemma reports_fit:
  assumes "settled m" and x: "x \<in> set (reports (mgr_events m))"
  shows "message_valid x" and "fits_state m x" and "\<not> is_hello x"
proof -
  obtain e where e: "e \<in> set (mgr_events m)" "report_of e = Some x" "message_valid x" using reports_origin [OF x] by blast
  then show "message_valid x" by simp
  have "ev_kind e \<in> final_kinds" using e(2) by (auto simp: report_of.simps split: if_splits)
  then have "fmlookup (mgr_states m) (ev_assetId e) = Some (state_of (ev_kind e))" using assms(1) e(1) unfolding settled_def by blast
  then show "fits_state m x" "\<not> is_hello x" using e(2) by (auto simp: report_of.simps fits_state_def split: if_splits)
qed

text \<open>What the server has recorded after reports that fit the client's states and leave out no asset.\<close>

lemma recorded_reports:
  assumes "reflects (published mf) entry xs" and "reporting entry"
    and fit: "\<forall>x \<in> set xs. fits_state m x" and all: "\<forall>a \<in> set (manifest_assets mf). \<exists>x \<in> set xs. concerns (revision mf) (assetId a) x"
  shows "\<forall>a \<in> set (manifest_assets mf).
      assetId a |\<in>| readyAssets entry \<and> fmlookup (mgr_states m) (assetId a) = Some StateReady \<or>
      assetId a |\<in>| fmdom (failedAssets entry) \<and> fmlookup (mgr_states m) (assetId a) = Some StateFailed"
proof (rule ballI)
  fix a assume a: "a \<in> set (manifest_assets mf)"
  have expected: "assetId a |\<in>| expectedAssets (published mf)" "as_manifestRevision (published mf) = revision mf"
    using a by (simp_all add: published_def default_assets_def fset_of_list_elem)
  have "find (concerns (revision mf) (assetId a)) (rev xs) \<noteq> None"
    using all a by (auto simp: find_None_iff)
  then obtain x where x: "latest_report (revision mf) (assetId a) xs = Some x" by (auto simp: latest_report_def)
  then have "x \<in> set xs" "concerns (revision mf) (assetId a) x"
    by (auto simp: latest_report_def find_Some_iff in_set_conv_nth) (metis length_rev nth_mem set_rev in_set_conv_nth)
  then have "fits_state m x" using fit by blast
  then show "assetId a |\<in>| readyAssets entry \<and> fmlookup (mgr_states m) (assetId a) = Some StateReady \<or>
      assetId a |\<in>| fmdom (failedAssets entry) \<and> fmlookup (mgr_states m) (assetId a) = Some StateFailed"
    using assms(1) x expected \<open>concerns (revision mf) (assetId a) x\<close>
    by (cases x) (auto simp: reflects_def fits_state_def concerns_def ready_report_def error_report_def fmlookup_dom_iff)
qed

lemma recorded_all_ready:
  assumes "reporting entry" and expected: "expectedAssets entry = fset_of_list (map assetId as)"
    and each: "\<forall>a \<in> set as. assetId a |\<in>| readyAssets entry \<and> GetState (assetId a) m = StateReady \<or>
      assetId a |\<in>| fmdom (failedAssets entry) \<and> GetState (assetId a) m = StateFailed"
  shows "as_state entry = AssetsReady \<longleftrightarrow> (\<forall>a \<in> set as. GetState (assetId a) m = StateReady)"
proof -
  note k = reporting_sets [OF assms(1)]
  have "readyAssets entry = expectedAssets entry \<longleftrightarrow> (\<forall>a \<in> set as. assetId a |\<in>| readyAssets entry)"
    using k expected by (auto simp: fset_of_list_elem)
  moreover have "assetId a |\<in>| readyAssets entry \<longleftrightarrow> GetState (assetId a) m = StateReady" if "a \<in> set as" for a
  proof -
    have "\<not> (assetId a |\<in>| readyAssets entry \<and> assetId a |\<in>| fmdom (failedAssets entry))" using k by blast
    then show ?thesis using bspec [OF each that] by auto
  qed
  ultimately show ?thesis using k by auto
qed

section \<open>The server receives reports\<close>

definition stream_of :: "Message \<Rightarrow> NetworkBitStream" where
  "stream_of m = \<lparr>stream_data = Some (packet_bytes m), unreadBits = 8 * int (length (packet_bytes m)), readOffset = 0\<rparr>"

lemma delivers_stream_of: "delivers (stream_of m) m"
  by (simp add: delivers_def stream_of_def payload_from_def)

lemma component_report:
  assumes "message_valid m" and "\<not> is_hello m" and "0 \<le> player" and "cmp_registered c" and "OpenMp_IsAvailable (cmp_transport c)"
  shows "alike (c\<lparr>cmp_assets := snd (HandleIncoming (of_int player) m (cmp_assets c))\<rparr>)
    (component_step core (PacketReceived player (stream_of m)) c)"
proof -
  obtain c0 where c0: "alike c c0"
    "onReceive core player (stream_of m) c = (False, dispatch_packet core (of_int player) (View (packet_bytes m)) c0)"
    using stream_dispatched [OF delivers_stream_of assms(1,3)] by blast
  obtain recorded assets' where r: "HandleIncoming (of_int player) m (cmp_assets c0) = (recorded, assets')" by (metis prod.exhaust)
  have "OpenMp_IsAvailable (cmp_transport c0)" using assms(5) c0(1) by (simp add: alike_def)
  from dispatch_report [OF this DecodePacket_packet_bytes [OF assms(1)]]
  have "alike (c0\<lparr>cmp_assets := assets'\<rparr>) (dispatch_packet core (of_int player) (View (packet_bytes m)) c0)"
    using assms(2) r by simp
  then show ?thesis using c0 r assms(4) by (simp add: alike_def)
qed

lemma shared_reports:
  assumes sh: "shared core player send sent backends sc0 w0 sc w" and player: "0 \<le> player"
    and c: "cmp_registered sc" "OpenMp_IsAvailable (cmp_transport sc)"
    and xs: "\<forall>x \<in> set xs. message_valid x \<and> \<not> is_hello x \<and> packet_bytes x \<in> set (up sent w0 w)"
  shows "\<exists>sc'. shared core player send sent backends sc0 w0 sc' w \<and> cmp_registered sc' \<and> OpenMp_IsAvailable (cmp_transport sc') \<and>
    cmp_registry sc' = cmp_registry sc \<and>
    cmp_assets sc' = fold (\<lambda>x ps. snd (HandleIncoming (of_int player) x ps)) xs (cmp_assets sc)"
  using xs
proof (induction xs rule: rev_induct)
  case Nil
  then show ?case using sh c by auto
next
  case (snoc x xs)
  then obtain sc1 where 1: "shared core player send sent backends sc0 w0 sc1 w" "cmp_registered sc1" "OpenMp_IsAvailable (cmp_transport sc1)"
    "cmp_registry sc1 = cmp_registry sc"
    "cmp_assets sc1 = fold (\<lambda>x ps. snd (HandleIncoming (of_int player) x ps)) xs (cmp_assets sc)" by auto
  let ?e = "PacketReceived player (stream_of x)"
  have x: "message_valid x" "\<not> is_hello x" "packet_bytes x \<in> set (up sent w0 w)" using snoc.prems by simp_all
  have "permitted player (up sent w0 w) ?e" using x delivers_stream_of by auto
  from shared.server [OF 1(1) this] have "shared core player send sent backends sc0 w0 (component_step core ?e sc1) w" .
  moreover have "alike (sc1\<lparr>cmp_assets := snd (HandleIncoming (of_int player) x (cmp_assets sc1))\<rparr>) (component_step core ?e sc1)"
    by (rule component_report [OF x(1,2) player 1(2,3)])
  ultimately show ?case using 1 by (intro exI [of _ "component_step core ?e sc1"]) (simp add: alike_def)
qed

section \<open>Schedules\<close>

lemma shared_mono:
  "shared core player send sent backends sc0 w0 sc w \<Longrightarrow> backends \<subseteq> backends' \<Longrightarrow> shared core player send sent backends' sc0 w0 sc w"
proof (induction rule: shared.induct)
  case start
  show ?case by (rule shared.start)
next
  case (server sc w e)
  from shared.server [OF server.IH [OF server.prems] server.hyps(2)] show ?case .
next
  case (arrival sc w bs)
  from shared.arrival [OF arrival.IH [OF arrival.prems] arrival.hyps(2)] show ?case .
next
  case (pump sc w)
  from shared.pump [OF pump.IH [OF pump.prems]] show ?case .
next
  case (worker sc h c s fetch s')
  from shared.worker [OF worker.IH [OF worker.prems] worker.hyps(2) _ worker.hyps(4)] show ?case using worker.hyps(3) worker.prems by blast
next
  case (elsewhere sc h c p)
  from shared.elsewhere [OF elsewhere.IH [OF elsewhere.prems]] show ?case .
qed

lemma shared_arrivals:
  assumes "\<forall>bs \<in> set frames. bs \<in> down player sc0 sc" and "shared core player send sent backends sc0 w0 sc w"
  shows "shared core player send sent backends sc0 w0 sc (fold (client_receives send) frames w)"
  using assms
proof (induction frames arbitrary: w)
  case (Cons bs frames)
  then have "shared core player send sent backends sc0 w0 sc (client_receives send bs w)" by (intro shared.arrival) simp_all
  then show ?case using Cons by simp
qed simp

lemma shared_worker:
  assumes "fetch \<in> backends"
  shows "shared core player send sent backends sc0 w0 sc (h, c\<lparr>ctx_assets := Some s\<rparr>) \<Longrightarrow>
    shared core player send sent backends sc0 w0 sc (h, c\<lparr>ctx_assets := Some (worker_run fetch n s)\<rparr>)"
proof (induction n arbitrary: s)
  case (Suc n)
  show ?case
  proof (cases "worker_turn fetch s")
    case None
    then show ?thesis using Suc.prems by simp
  next
    case (Some s1)
    have "shared core player send sent backends sc0 w0 sc (h, c\<lparr>ctx_assets := Some s, ctx_assets := Some s1\<rparr>)"
      by (rule shared.worker [OF Suc.prems _ assms Some]) simp
    then show ?thesis using Suc.IH [of s1] Some by simp
  qed
qed simp

lemma connected_server:
  assumes "component_ok sc0" and "cmp_registered sc0" and "0 \<le> player" and i: "i = of_int player"
    and sc: "sc = component_step core (PlayerConnects player) sc0"
  shows "component_ok sc" and "cmp_registered sc" and "cmp_transport sc = cmp_transport sc0" and "cmp_registry sc = cmp_registry sc0"
    and "policy (cmp_tracker sc) = policy (cmp_tracker sc0)"
    and "hs_state (tracker_GetState i (cmp_tracker sc)) = HandshakePending"
    and "as_state (publication_GetState i (cmp_assets sc)) = AssetHandshakePending"
  using component_step_ok [OF assms(1), of core "PlayerConnects player"] assms(2,3) i
  by (simp_all add: sc onPlayerConnect_def OnPlayerConnected_def BeginHandshake_def publication_OnPlayerConnected_def
      publication_GetState_def tracker_GetState_def default_assets_def default_player_def)

context host_transport begin

lemma connected_client:
  assumes "ctx_handshake c = Some hs" and "ch_state hs = Disconnected" and "ctx_transport c"
    and "message_valid (HelloMsg (client_hello hs))" and "accepts send"
  shows "sent (fst (HandleConnectionEvent send EventConnected (h, c))) = sent h @ [packet_bytes (HelloMsg (client_hello hs))]"
proof -
  let ?h = "log_with (Info ''RakNet connection established'') h" and ?hs = "OnConnected hs"
  have hs: "?hs = hs\<lparr>ch_state := Connected, ch_welcome := None, ch_rejection := None\<rparr>"
    using assms(2) by (simp add: OnConnected_def)
  then have "client_hello ?hs = client_hello hs" by (simp add: client_hello_def)
  moreover have "HandleConnectionEvent send EventConnected (h, c) = send_hello send ?hs (?h, on_assets ResetSession c)"
    using assms(1,3) by (simp add: HandleConnectionEvent_def Let_def)
  ultimately show ?thesis
    using send_hello_sent [of ?hs ?h "on_assets ResetSession c"] hs assms(4,5) by auto
qed

text \<open>The connection, the greeting, its answer and the manifest.\<close>

lemma shared_established:
  fixes player :: int and sc0 :: CustomModelComponent
  defines "i \<equiv> of_int player :: u32" and "mf \<equiv> BuildManifest (cmp_registry sc0)"
  assumes client: "ctx_handshake c = Some hs" "ch_state hs = ClientHandshake.Disconnected" "ctx_transport c" "ctx_assets c = Some s"
    and server: "component_ok sc0" "cmp_registered sc0" "OpenMp_IsAvailable (cmp_transport sc0)" "accepting core"
      "0 \<le> player" "player \<le> 2147483647"
    and greeting: "accepts send" "acceptable (policy (cmp_tracker sc0)) (client_hello hs)"
  shows "\<exists>sc h' c' hs' m'. shared core player send sent backends sc0 (h, c) sc (h', c') \<and>
    cmp_registered sc \<and> OpenMp_IsAvailable (cmp_transport sc) \<and> cmp_registry sc = cmp_registry sc0 \<and>
    fmlookup (cmp_assets sc) i = Some (published mf) \<and>
    ctx_transport c' \<and> ctx_handshake c' = Some hs' \<and> ch_state hs' = Compatible \<and> ctx_assets c' = Some (s\<lparr>sys_manager := m'\<rparr>) \<and>
    follows (manifest_messages mf) m' \<and> same_setting (ResetSession (sys_manager s)) m'"
proof -
  define sc1 where "sc1 = component_step core (PlayerConnects player) sc0"
  note sc1 = connected_server [OF server(1,2,5) i_def [THEN meta_eq_to_obj_eq] sc1_def]
  let ?hello = "HelloMsg (client_hello hs)" and ?w1 = "HandleConnectionEvent send EventConnected (h, c)"
  have valid: "message_valid ?hello" using greeting(2) by (auto simp: acceptable_def AreCapabilitiesValid_subset)
  have sh1: "shared core player send sent backends sc0 (h, c) sc1 ?w1" unfolding sc1_def by (rule shared.start)
  have up: "packet_bytes ?hello \<in> set (up sent (h, c) ?w1)"
    using connected_client [OF client(1-3) valid greeting(1), of h] by (simp add: up_def)
  have unat_i: "unat i \<le> 2147483647"
    using server(5,6) by (simp add: i_def unsigned_of_int take_bit_int_eq_self)
  obtain w sc where sc: "onReceive core player (stream_of ?hello) sc1 = (False, sc)" "message_valid (WelcomeMsg w)"
    "w = WelcomeFor (cmp_tracker sc) (tracker_GetState i (cmp_tracker sc))"
    "negotiatedCapabilities (tracker_GetState i (cmp_tracker sc)) =
      hello_capabilities (client_hello hs) AND serverCapabilities (policy (cmp_tracker sc1))"
    "core_sent (cmp_transport sc) = core_sent (cmp_transport sc1) @ map (\<lambda>m. (i, frame_of m)) (WelcomeMsg w # manifest_messages mf)"
    "cmp_registered sc = cmp_registered sc1" "OpenMp_IsAvailable (cmp_transport sc)" "fmlookup (cmp_assets sc) i = Some (published mf)"
    using server_welcomes [OF server(4) _ server(5) i_def [THEN meta_eq_to_obj_eq] unat_i sc1(1,6,7) _ delivers_stream_of [of ?hello]]
      sc1(3-5) server(3) greeting(2) unfolding mf_def by auto
  let ?e = "PacketReceived player (stream_of ?hello)"
  have step: "component_step core ?e sc1 = sc" using sc(1) sc1(2) by simp
  have "permitted player (up sent (h, c) ?w1) ?e" using up valid delivers_stream_of [of ?hello] by auto
  from shared.server [OF sh1 this] have sh2: "shared core player send sent backends sc0 (h, c) sc ?w1" unfolding step .
  have reg: "cmp_registry sc = cmp_registry sc0" using component_step_frames [OF sc1(1), of core ?e] sc1(4) by (simp only: step)
  let ?frames = "map frame_of (WelcomeMsg w # manifest_messages mf)"
  have "\<forall>bs \<in> set ?frames. bs \<in> down player sc0 sc"
    using sc(5) sc1(3) by (auto simp: down_def i_def)
  note sh3 = shared_arrivals [OF this sh2]
  have m: "manifest_ok mf" using server(1) BuildManifest_ok by (simp add: component_ok_def mf_def)
  have "welcome_ok (configuration hs) w" using sc(3,4) by (simp add: welcome_ok_def WelcomeFor_def client_hello_def)
  from client_established [OF client valid sc(2) this m, of send h] obtain h' c' hs' m' where
    "fold (client_receives send) ?frames ?w1 = (h', c')" "ctx_transport c'" "ctx_handshake c' = Some hs'" "ch_state hs' = Compatible"
    "ctx_assets c' = Some (s\<lparr>sys_manager := m'\<rparr>)" "follows (manifest_messages mf) m'" "same_setting (ResetSession (sys_manager s)) m'"
    by blast
  then show ?thesis using sh3 sc(6-8) sc1(2) reg by metis
qed

text \<open>The reports: pumped, delivered and recorded.\<close>

lemma shared_recorded:
  fixes player :: int
  assumes sh: "shared core player send sent backends sc0 w0 sc (h, c)" and backends: "backends \<subseteq> range winhttp_backend"
    and start: "component_ok sc0" "cmp_registered sc0" "0 \<le> player"
      "runs send (range winhttp_backend) (runtime_start cfg cache disk h0) k w0" "k + 2 < 2 ^ 64"
    and quiet: "\<And>h p. sent (h\<lparr>process := p\<rparr>) = sent h"
    and server: "cmp_registered sc" "OpenMp_IsAvailable (cmp_transport sc)"
      "fmlookup (cmp_assets sc) (of_int player) = Some (published mf)" "mf = BuildManifest (cmp_registry sc0)"
    and client: "ctx_handshake c = Some hs" "ch_state hs = Compatible" "ctx_transport c" "ctx_assets c = Some s" "accepts send"
      "rx_completed (mgr_receiver (sys_manager s)) = Some mf"
      "\<forall>a \<in> set (manifest_assets mf). told (sys_manager s) (assetId a)"
  shows "\<exists>sc' h' c' m' entry. shared core player send sent backends sc0 w0 sc' (h', c') \<and> cmp_registry sc' = cmp_registry sc \<and>
    ctx_assets c' = Some (s\<lparr>sys_manager := m'\<rparr>) \<and> mgr_states m' = mgr_states (sys_manager s) \<and>
    fmlookup (cmp_assets sc') (of_int player) = Some entry \<and> reporting entry \<and> expectedAssets entry = expectedAssets (published mf) \<and>
    (\<forall>a \<in> set (manifest_assets mf).
      assetId a |\<in>| readyAssets entry \<and> fmlookup (mgr_states m') (assetId a) = Some StateReady \<or>
      assetId a |\<in>| fmdom (failedAssets entry) \<and> fmlookup (mgr_states m') (assetId a) = Some StateFailed)"
proof -
  let ?m = "sys_manager s" and ?xs = "reports (mgr_events (sys_manager s))"
  have ok: "shared_ok player send sent (runtime_start cfg cache disk h0) (k + 1) (BuildManifest (cmp_registry sc0)) sc0 w0 sc (h, c)"
    by (rule shared_states_ok [OF shared_mono [OF sh backends] start quiet])
  then have run: "runs send (range winhttp_backend) (runtime_start cfg cache disk h0) (k + 1) (h, c)" by (simp add: shared_ok_def)
  have c2: "k + 1 + 1 < 2 ^ 64" using start(5) by simp
  from runs_ok [OF run this] obtain j where j: "j \<le> k + 1" "reachable (range winhttp_backend) (start_system cache True disk) j s"
    using client(4) by (auto simp: runtime_ok_def)
  then have k: "j + 1 < 2 ^ 64" using start(5) by simp
  have settled: "settled ?m" using winhttp.reachable_reports_ok [OF j(2) k] by (simp add: reports_ok_def)
  have events: "\<forall>e \<in> set (mgr_events ?m). event_ok ?m e"
    using reachable_session_ok [OF j(2) k] by (simp add: session_ok_def manager_ok_def)
  have m: "manifest_ok mf" using start(1) BuildManifest_ok server(4) by (simp add: component_ok_def)
  obtain h' c' where pumped: "PumpAssetResults send (h, c) = (h', c')" by (metis prod.exhaust)
  have sh': "shared core player send sent backends sc0 w0 sc (h', c')" using shared.pump [OF sh] pumped by simp
  have c': "ctx_assets c' = Some (s\<lparr>sys_manager := snd (DrainEvents ?m)\<rparr>)"
    using Pump_context [of send h c] client(1,2,4) pumped by simp
  have sent: "sent h' = sent h @ map packet_bytes ?xs"
    using Pump_sent [OF client(1,4), of h] client(2,3,5) pumped by auto
  obtain old where "sent h = sent (fst w0) @ old" using ok by (auto simp: shared_ok_def)
  then have up: "packet_bytes x \<in> set (up sent w0 (h', c'))" if "x \<in> set ?xs" for x
    using sent that by (simp add: up_def)
  have xs: "\<forall>x \<in> set ?xs. message_valid x \<and> \<not> is_hello x \<and> packet_bytes x \<in> set (up sent w0 (h', c'))"
    using reports_fit [OF settled] up by blast
  obtain sc' where sc': "shared core player send sent backends sc0 w0 sc' (h', c')" "cmp_registry sc' = cmp_registry sc"
    "cmp_assets sc' = fold (\<lambda>x ps. snd (HandleIncoming (of_int player) x ps)) ?xs (cmp_assets sc)"
    using shared_reports [OF sh' start(3) server(1,2) xs] by blast
  obtain entry where entry: "fmlookup (cmp_assets sc') (of_int player) = Some entry" "reporting entry" "reflects (published mf) entry ?xs"
    using reports_reflected [OF server(3), of ?xs] sc'(3) by auto
  have "\<forall>a \<in> set (manifest_assets mf). \<exists>x \<in> set ?xs. concerns (revision mf) (assetId a) x"
    using told_report [OF _ events client(6) m] client(7) by blast
  from recorded_reports [OF entry(3,2) _ this] reports_fit(2) [OF settled]
  have "\<forall>a \<in> set (manifest_assets mf).
      assetId a |\<in>| readyAssets entry \<and> fmlookup (mgr_states ?m) (assetId a) = Some StateReady \<or>
      assetId a |\<in>| fmdom (failedAssets entry) \<and> fmlookup (mgr_states ?m) (assetId a) = Some StateFailed" by blast
  moreover have "mgr_states (snd (DrainEvents ?m)) = mgr_states ?m" by (simp add: DrainEvents_def)
  moreover have "expectedAssets entry = expectedAssets (published mf)" using entry(3) by (simp add: reflects_def)
  ultimately show ?thesis using sc' c' entry(1,2)
    by (intro exI [of _ sc'] exI [of _ h'] exI [of _ c'] exI [of _ "snd (DrainEvents ?m)"] exI [of _ entry]) simp
qed

end

section \<open>Properties\<close>

lemma raw_sent_process: "raw_sent (h\<lparr>process := p\<rparr>) = raw_sent h"
  by (simp add: raw_sent_def)


text \<open>
  Claim C3. A session can always be completed. A client in any state of a disconnected
  runtime whose worker waits connects to a server that is up, with a greeting its policy
  accepts: whatever the file servers answer and whatever is on the client's disk, the network
  can deliver the greeting, the welcome, the manifest and the reports such that in the end
  the server has recorded for every asset of the manifest what became of it at the client,
  ready or failed, and counts the player as ready exactly when all assets are.
\<close>

theorem session_completes:
  fixes player :: int
  assumes client: "ctx_handshake c = Some hs" "ch_state hs = ClientHandshake.Disconnected" "ctx_assets c = Some s"
      "sys_worker s = WorkerWaiting" "\<not> mgr_stopping (sys_manager s)"
    and run: "runs (RakNet_Send code t) (range winhttp_backend) (runtime_start cfg cache disk h0) k (h, c)" "k + 2 < 2 ^ 64"
    and server: "component_ok sc0" "cmp_registered sc0" "OpenMp_IsAvailable (cmp_transport sc0)" "accepting core"
      "0 \<le> player" "player \<le> 2147483647"
    and greeting: "accepts (RakNet_Send code t)" "acceptable (policy (cmp_tracker sc0)) (client_hello hs)"
  shows "\<exists>sc h' c' s' entry. shared core player (RakNet_Send code t) raw_sent {winhttp_backend env} sc0 (h, c) sc (h', c') \<and>
    cmp_registry sc = cmp_registry sc0 \<and> ctx_assets c' = Some s' \<and> fmlookup (cmp_assets sc) (of_int player) = Some entry \<and>
    (\<forall>a \<in> set (manifest_assets (BuildManifest (cmp_registry sc))).
      assetId a |\<in>| readyAssets entry \<and> GetState (assetId a) (sys_manager s') = StateReady \<or>
      assetId a |\<in>| fmdom (failedAssets entry) \<and> GetState (assetId a) (sys_manager s') = StateFailed) \<and>
    (as_state entry = AssetsReady \<longleftrightarrow>
      (\<forall>a \<in> set (manifest_assets (BuildManifest (cmp_registry sc))). GetState (assetId a) (sys_manager s') = StateReady))"
proof -
  let ?mf = "BuildManifest (cmp_registry sc0)" and ?sh = "shared core player (RakNet_Send code t) raw_sent {winhttp_backend env} sc0 (h, c)"
  have transport: "ctx_transport c" using runs_transport [OF run(1)] by simp
  have m: "manifest_ok ?mf" using server(1) BuildManifest_ok by (simp add: component_ok_def)
  obtain sc1 h1 c1 hs1 m1 where e: "?sh sc1 (h1, c1)" "cmp_registered sc1" "OpenMp_IsAvailable (cmp_transport sc1)"
    "cmp_registry sc1 = cmp_registry sc0" "fmlookup (cmp_assets sc1) (of_int player) = Some (published ?mf)"
    "ctx_transport c1" "ctx_handshake c1 = Some hs1" "ch_state hs1 = Compatible" "ctx_assets c1 = Some (s\<lparr>sys_manager := m1\<rparr>)"
    "follows (manifest_messages ?mf) m1" "same_setting (ResetSession (sys_manager s)) m1"
    using raknet_host.shared_established [OF client(1,2) transport client(3) server greeting] by blast
  note q = follows_queued [OF e(10) m]
  let ?s1 = "s\<lparr>sys_manager := m1\<rparr>"
  have settings: "sys_worker ?s1 = WorkerWaiting" "\<not> mgr_stopping (sys_manager ?s1)"
    "\<forall>w \<in> set (mgr_queue (sys_manager ?s1)). work_generation w = mgr_generation (sys_manager ?s1)" "all_told ?s1"
    using client(4,5) e(11) q(2,3) by (auto simp: same_setting_def ResetSession_def Let_def all_told_def)
  obtain n s2 where n: "worker_run (winhttp_backend env) n ?s1 = s2" "mgr_receiver (sys_manager s2) = mgr_receiver m1"
    "\<forall>i \<in> queued_ids m1. told (sys_manager s2) i"
    using winhttp.queue_told [of "winhttp_backend env" ?s1] settings by auto
  have "queued_ids m1 = assetId ` set (manifest_assets ?mf)" by (simp add: q(2) image_image)
  then have told: "\<forall>a \<in> set (manifest_assets ?mf). told (sys_manager s2) (assetId a)" using n(3) by auto
  have "c1\<lparr>ctx_assets := Some ?s1\<rparr> = c1" using e(9) by simp
  then have sh: "?sh sc1 (h1, c1\<lparr>ctx_assets := Some s2\<rparr>)"
    using shared_worker [OF insertI1 [of "winhttp_backend env" "{}"], of core player "RakNet_Send code t" raw_sent sc0 "(h, c)" sc1 h1 ?s1 c1 n]
      e(1) n(1) by simp
  have mf2: "rx_completed (mgr_receiver (sys_manager s2)) = Some ?mf" using n(2) q(1) by simp
  obtain sc2 h2 c2 m2 entry where r: "?sh sc2 (h2, c2)" "cmp_registry sc2 = cmp_registry sc1"
    "ctx_assets c2 = Some (s2\<lparr>sys_manager := m2\<rparr>)" "fmlookup (cmp_assets sc2) (of_int player) = Some entry" "reporting entry"
    "expectedAssets entry = expectedAssets (published ?mf)"
    "\<forall>a \<in> set (manifest_assets ?mf).
      assetId a |\<in>| readyAssets entry \<and> fmlookup (mgr_states m2) (assetId a) = Some StateReady \<or>
      assetId a |\<in>| fmdom (failedAssets entry) \<and> fmlookup (mgr_states m2) (assetId a) = Some StateFailed"
    using raknet_host.shared_recorded [OF sh _ server(1,2,5) run raw_sent_process e(2,3,5) refl, of hs1 s2]
      e(6-8) greeting(1) mf2 told by auto
  then have each: "\<forall>a \<in> set (manifest_assets ?mf).
      assetId a |\<in>| readyAssets entry \<and> GetState (assetId a) m2 = StateReady \<or>
      assetId a |\<in>| fmdom (failedAssets entry) \<and> GetState (assetId a) m2 = StateFailed"
    by (auto simp: GetState_def)
  have "expectedAssets entry = fset_of_list (map assetId (manifest_assets ?mf))" using r(6) by (simp add: published_def default_assets_def)
  then have "as_state entry = AssetsReady \<longleftrightarrow> (\<forall>a \<in> set (manifest_assets ?mf). GetState (assetId a) m2 = StateReady)"
    using recorded_all_ready [OF r(5) _ each] by blast
  then show ?thesis using r(1-4) e(4) each
    by (intro exI [of _ sc2] exI [of _ h2] exI [of _ c2] exI [of _ "s2\<lparr>sys_manager := m2\<rparr>"] exI [of _ entry]) simp
qed

section \<open>Witnesses\<close>

text \<open>A server with one asset, and a client whose cache already holds its file.\<close>

definition asset_server :: CustomModelComponent where
  "asset_server = (component_run sample_core [])\<lparr>cmp_registry := snd (RegisterAsset cached_asset empty_registry)\<rparr>"

lemma asset_server_facts:
  "component_ok asset_server" "cmp_registered asset_server" "OpenMp_IsAvailable (cmp_transport asset_server)"
  "policy (cmp_tracker asset_server) = policy (PlayerCapabilityTracker MakePolicy)"
  "manifest_assets (BuildManifest (cmp_registry asset_server)) = [cached_asset]"
proof -
  have e: "cmp_assets (component_run sample_core []) = fmempty" "cmp_registered (component_run sample_core [])"
    "OpenMp_IsAvailable (cmp_transport (component_run sample_core []))"
    "cmp_tracker (component_run sample_core []) = PlayerCapabilityTracker MakePolicy"
    by (simp_all add: component_run_def onLoad_def sample_core_def OpenMp_Initialize_def OpenMp_Attach_def register_handlers_fields Let_def
        OpenMp_IsAvailable_def new_component_def new_OpenMpTransport_def)
  have "registry_ok (snd (RegisterAsset cached_asset empty_registry))"
    using registry_step_ok [OF registry_ok_empty, of "OpRegister cached_asset"] by simp
  then show "component_ok asset_server"
    using component_run_ok [of sample_core "[]"] e by (simp add: asset_server_def component_ok_def)
  show "cmp_registered asset_server" "OpenMp_IsAvailable (cmp_transport asset_server)"
    "policy (cmp_tracker asset_server) = policy (PlayerCapabilityTracker MakePolicy)"
    using e by (simp_all add: asset_server_def)
  show "manifest_assets (BuildManifest (cmp_registry asset_server)) = [cached_asset]"
    using cached_asset_valid
    by (simp add: asset_server_def RegisterAsset_def empty_registry_def BuildManifest_def um_emplace_def AdvanceRevision_def
        cached_asset_def asset_limits)
qed

abbreviation caching_client :: "SampleRak RuntimeWorld" where
  "caching_client \<equiv> runtime_start sample_configuration sample_cache (disk_with (PathFor sample_cache cached_asset) [7]) sample_host"

lemma caching_client_facts:
  obtains c s d where "caching_client = (sample_host, c)" "ctx_handshake c = Some (new_ClientHandshake sample_configuration)"
    "ctx_transport c" "ctx_assets c = Some s" "sys_worker s = WorkerWaiting" "\<not> mgr_stopping (sys_manager s)"
    "mgr_cache (sys_manager s) = sample_cache" "Lookup sample_cache cached_asset (sys_disk s) = (Hit, d)"
proof -
  let ?s = "start_system sample_cache True (disk_with (PathFor sample_cache cached_asset) [7])"
  obtain d' where d': "cache_Initialize sample_cache (disk_with (PathFor sample_cache cached_asset) [7]) = (True, d')"
    "fst (Lookup sample_cache cached_asset d') = Hit" by (rule sample_disk_initialized)
  obtain d where "Lookup sample_cache cached_asset d' = (Hit, d)" using d'(2) by (metis prod.collapse)
  moreover have "sys_worker (snd (manager_Initialize ?s)) = WorkerWaiting" "sys_disk (snd (manager_Initialize ?s)) = d'"
    "\<not> mgr_stopping (sys_manager (snd (manager_Initialize ?s)))" "mgr_cache (sys_manager (snd (manager_Initialize ?s))) = sample_cache"
    using d'(1) by (simp_all add: manager_Initialize_def Let_def start_system_def new_manager_def)
  ultimately show thesis using that by (simp add: runtime_start_def)
qed

lemma sample_start_facts:
  "ch_state (new_ClientHandshake sample_configuration) = ClientHandshake.Disconnected" "accepting sample_core"
  "(0::nat) + 2 < 2 ^ 64" "(0::int) \<le> 4" "(4::int) \<le> 2147483647"
  by (simp_all add: new_ClientHandshake_def accepting_def sample_core_def)

lemma sample_hello_acceptable:
  "acceptable (policy (cmp_tracker asset_server)) (client_hello (new_ClientHandshake sample_configuration))"
  unfolding asset_server_facts(4) by code_simp

theorem session_completes_witness:
  "\<exists>sc h c s entry. shared sample_core 4 sample_send raw_sent {winhttp_backend sample_server} asset_server caching_client sc (h, c) \<and>
    ctx_assets c = Some s \<and> fmlookup (cmp_assets sc) 4 = Some entry \<and>
    (1 |\<in>| readyAssets entry \<and> GetState 1 (sys_manager s) = StateReady \<or>
     1 |\<in>| fmdom (failedAssets entry) \<and> GetState 1 (sys_manager s) = StateFailed)"
proof -
  obtain c s d where c: "caching_client = (sample_host, c)" "ctx_handshake c = Some (new_ClientHandshake sample_configuration)"
    "ctx_transport c" "ctx_assets c = Some s" "sys_worker s = WorkerWaiting" "\<not> mgr_stopping (sys_manager s)"
    by (rule caching_client_facts)
  have run: "runs sample_send (range winhttp_backend) caching_client 0 (sample_host, c)"
    using runs.initial [of sample_send "range winhttp_backend" caching_client] c(1) by simp
  obtain sc h' c' s' entry where r: "shared sample_core 4 sample_send raw_sent {winhttp_backend sample_server} asset_server (sample_host, c) sc (h', c')"
    "cmp_registry sc = cmp_registry asset_server" "ctx_assets c' = Some s'" "fmlookup (cmp_assets sc) (of_int 4) = Some entry"
    "\<forall>a \<in> set (manifest_assets (BuildManifest (cmp_registry sc))).
      assetId a |\<in>| readyAssets entry \<and> GetState (assetId a) (sys_manager s') = StateReady \<or>
      assetId a |\<in>| fmdom (failedAssets entry) \<and> GetState (assetId a) (sys_manager s') = StateFailed"
    using session_completes [OF c(2) sample_start_facts(1) c(4-6) run sample_start_facts(3) asset_server_facts(1-3)
        sample_start_facts(2,4,5) sample_accepts sample_hello_acceptable, of sample_server] by blast
  moreover have "assetId cached_asset = 1" by (simp add: cached_asset_def)
  ultimately show ?thesis using c(1) by (simp add: asset_server_facts(5)) blast
qed

text \<open>The whole session of the two: in the end the server has recorded the asset.\<close>

lemma caching_session:
  "\<exists>sc h c entry. shared sample_core 4 sample_send raw_sent (range winhttp_backend) asset_server caching_client sc (h, c) \<and>
    cmp_registry sc = cmp_registry asset_server \<and>
    fmlookup (cmp_assets sc) (of_int 4) = Some entry \<and> assetId cached_asset |\<in>| readyAssets entry"
proof -
  let ?mf = "BuildManifest (cmp_registry asset_server)" and ?f = "winhttp_backend sample_server"
  let ?sh = "shared sample_core 4 sample_send raw_sent (range winhttp_backend) asset_server caching_client"
  obtain c s d where c: "caching_client = (sample_host, c)" "ctx_handshake c = Some (new_ClientHandshake sample_configuration)"
    "ctx_transport c" "ctx_assets c = Some s" "sys_worker s = WorkerWaiting" "\<not> mgr_stopping (sys_manager s)"
    "mgr_cache (sys_manager s) = sample_cache" "Lookup sample_cache cached_asset (sys_disk s) = (Hit, d)"
    by (rule caching_client_facts)
  have run: "runs sample_send (range winhttp_backend) caching_client 0 caching_client" by (rule runs.initial)
  have m: "manifest_ok ?mf" using asset_server_facts(1) BuildManifest_ok by (simp add: component_ok_def)
  obtain sc1 h1 c1 hs1 m1 where e: "?sh sc1 (h1, c1)" "cmp_registered sc1" "OpenMp_IsAvailable (cmp_transport sc1)"
    "cmp_registry sc1 = cmp_registry asset_server" "fmlookup (cmp_assets sc1) (of_int 4) = Some (published ?mf)"
    "ctx_transport c1" "ctx_handshake c1 = Some hs1" "ch_state hs1 = Compatible" "ctx_assets c1 = Some (s\<lparr>sys_manager := m1\<rparr>)"
    "follows (manifest_messages ?mf) m1" "same_setting (ResetSession (sys_manager s)) m1"
    using raknet_host.shared_established [OF c(2) sample_start_facts(1) c(3,4) asset_server_facts(1-3) sample_start_facts(2,4,5)
        sample_accepts sample_hello_acceptable, where h = sample_host and backends = "range winhttp_backend"] unfolding c(1) by blast
  note q = follows_queued [OF e(10) m]
  let ?s1 = "s\<lparr>sys_manager := m1\<rparr>"
  obtain n s2 where n: "worker_run ?f n ?s1 = s2" "sys_worker s2 = WorkerWaiting" "mgr_receiver (sys_manager s2) = mgr_receiver m1"
    "fmlookup (mgr_states (sys_manager s2)) (assetId cached_asset) = Some StateReady"
    using hit_run [of ?s1 _ "[]" d ?f] c(5-8) e(11) q(2)
    by (auto simp: same_setting_def ResetSession_def Let_def asset_server_facts(5))
  have "all_told ?s1" using c(5) q(3) by (simp add: all_told_def)
  then have "all_told s2" using winhttp.worker_run_told [of ?f ?s1 n] n(1) by simp
  then have told: "\<forall>a \<in> set (manifest_assets ?mf). told (sys_manager s2) (assetId a)"
    using n(2,4) by (auto simp: all_told_def asset_server_facts(5))
  have "c1\<lparr>ctx_assets := Some ?s1\<rparr> = c1" using e(9) by simp
  have rx: "rx_completed (mgr_receiver (sys_manager s2)) = Some ?mf" using n(3) q(1) by simp
  have c2: "ctx_handshake (c1\<lparr>ctx_assets := Some s2\<rparr>) = Some hs1" "ctx_transport (c1\<lparr>ctx_assets := Some s2\<rparr>)"
    "ctx_assets (c1\<lparr>ctx_assets := Some s2\<rparr>) = Some s2" using e(6,7) by simp_all
  have sh: "?sh sc1 (h1, c1\<lparr>ctx_assets := Some s2\<rparr>)" using \<open>c1\<lparr>ctx_assets := Some ?s1\<rparr> = c1\<close>
    using shared_worker [OF rangeI [of winhttp_backend sample_server], of sample_core 4 sample_send raw_sent asset_server caching_client sc1 h1 ?s1 c1 n]
      e(1) n(1) by simp
  obtain sc h' c' m' entry where r: "?sh sc (h', c')" "cmp_registry sc = cmp_registry sc1" "ctx_assets c' = Some (s2\<lparr>sys_manager := m'\<rparr>)"
    "mgr_states m' = mgr_states (sys_manager s2)" "fmlookup (cmp_assets sc) (of_int 4) = Some entry"
    "\<forall>a \<in> set (manifest_assets ?mf).
      assetId a |\<in>| readyAssets entry \<and> fmlookup (mgr_states m') (assetId a) = Some StateReady \<or>
      assetId a |\<in>| fmdom (failedAssets entry) \<and> fmlookup (mgr_states m') (assetId a) = Some StateFailed"
    using raknet_host.shared_recorded [OF sh order_refl asset_server_facts(1,2) sample_start_facts(4) run sample_start_facts(3)
        raw_sent_process e(2,3,5) refl c2(1) e(8) c2(2,3) sample_accepts rx told] by blast
  then have "assetId cached_asset |\<in>| readyAssets entry" using n(4) by (auto simp: asset_server_facts(5))
  then show ?thesis using r(1,2,5) e(4) by metis
qed


end
