(* ===== verification/FetchProbe.thy ===== *)
theory FetchProbe
  imports ManifestConfig WinHttpFetch Sha256
begin

text \<open>
  The probe, \<^verbatim>\<open>tools/winhttp_probe.cpp\<close>: a command line around one fetch. What it prints, its exit
  code and what is left on disk.
\<close>

section \<open>Definitions\<close>

text \<open>
  \<^verbatim>\<open>std::stoull\<close> accepts what the formatted input of an unsigned 64-bit number accepts, and
  ignores what follows the number; \<open>None\<close> is its exception.
\<close>

definition stoull :: "string \<Rightarrow> u64 option" where
  "stoull s = map_option fst (read_unsigned s)"

fun FetchError_value :: "FetchError \<Rightarrow> nat" where
  "FetchError_value FetchNone = 0"
| "FetchError_value FetchUnsupportedScheme = 1"
| "FetchError_value FetchNetworkFailure = 2"
| "FetchError_value FetchTimeout = 3"
| "FetchError_value FetchSizeMismatch = 4"
| "FetchError_value FetchDiskFailure = 5"
| "FetchError_value FetchInternalError = 6"

record ProbeRun =
  standard_output :: "string list"
  standard_error :: "string list"
  exit_code :: int

definition PrintDiagnostic :: "string \<Rightarrow> string" where
  "PrintDiagnostic message = ''[CustomModel:debug] '' @ message"

text \<open>
  \<^verbatim>\<open>main\<close>, the arguments being those behind the program's name. How a string names a file is the
  platform's business; \<open>created\<close> says whether the backend could be made.
\<close>

definition probe_main :: "(string \<Rightarrow> path) \<Rightarrow> bool \<Rightarrow> WinHttp \<Rightarrow> string list \<Rightarrow> Disk \<Rightarrow> ProbeRun \<times> Disk" where
  "probe_main path_of created env argv d =
    (let url = (case argv of u # _ \<Rightarrow> u | _ \<Rightarrow> ''http://127.0.0.1:8000/test_asset.dff'');
         destination = path_of (case argv of _ # p # _ \<Rightarrow> p | _ \<Rightarrow> ''winhttp-probe.tmp'')
     in case (case argv of _ # _ # n # _ \<Rightarrow> stoull n | _ \<Rightarrow> Some 40) of
          None \<Rightarrow> (\<lparr>standard_output = [], standard_error = [''invalid expected size''], exit_code = 2\<rparr>, d)
        | Some expectedSize \<Rightarrow>
            if \<not> created
            then (\<lparr>standard_output = [], standard_error = [''could not create WinHTTP backend''], exit_code = 2\<rparr>, d)
            else case WinHttp_Fetch env url destination expectedSize default_options d of
              ((result, log), d) \<Rightarrow>
                let printed = map PrintDiagnostic log
                in if fetch_error result \<noteq> FetchNone
                   then (\<lparr>standard_output = printed,
                     standard_error = [''fetch failed code='' @ to_string (FetchError_value (fetch_error result)) @
                       '' bytes='' @ to_string (unat (bytesReceived result))], exit_code = 1\<rparr>, d)
                   else case Sha256File destination d of
                     (None, d) \<Rightarrow> (\<lparr>standard_output = printed,
                       standard_error = [''downloaded file could not be hashed''], exit_code = 1\<rparr>, d)
                   | (Some digest, d) \<Rightarrow> (\<lparr>standard_output = printed @
                       [''fetch succeeded bytes='' @ to_string (unat (bytesReceived result)) @ '' sha256='' @ Sha256Hex digest],
                       standard_error = [], exit_code = 0\<rparr>, d))"

section \<open>Lemmas\<close>

lemma stoull_examples: "stoull ''40'' = Some 40" "stoull '' +7bytes'' = Some 7" "stoull ''-1'' = Some (-1)" "stoull ''x'' = None"
  by code_simp+

text \<open>
  The exit code is the truth: 0 exactly when the file lies at the destination with the expected
  number of bytes, and then the last line has its digest; any other code comes with a line on
  the error output.
\<close>

lemma probe_exit_code:
  assumes "path_of (case argv of _ # p # _ \<Rightarrow> p | _ \<Rightarrow> ''winhttp-probe.tmp'') = p" and "p \<noteq> []"
    and run: "probe_main path_of created env argv d = (r, d')"
  shows "exit_code r \<in> {0, 1, 2}" and "exit_code r = 0 \<longleftrightarrow> standard_error r = []"
    and "exit_code r = 2 \<Longrightarrow> d' = d" and "q \<noteq> p \<Longrightarrow> node_at q d' = node_at q d"
    and "exit_code r = 0 \<Longrightarrow> \<exists>bs. node_at p d' = Some (RegularFile bs) \<and>
      last (standard_output r) = ''fetch succeeded bytes='' @ to_string (length bs) @ '' sha256='' @ Sha256Hex (digest_of bs)"
proof -
  define url where "url = (case argv of u # _ \<Rightarrow> u | _ \<Rightarrow> ''http://127.0.0.1:8000/test_asset.dff'')"
  define n where "n = (case argv of _ # _ # n # _ \<Rightarrow> stoull n | _ \<Rightarrow> Some 40)"
  note main = run [unfolded probe_main_def Let_def assms(1) url_def [symmetric] n_def [symmetric]]
  have "exit_code r \<in> {0, 1, 2} \<and> (exit_code r = 0 \<longleftrightarrow> standard_error r = []) \<and> (exit_code r = 2 \<longrightarrow> d' = d) \<and>
    (q \<noteq> p \<longrightarrow> node_at q d' = node_at q d) \<and>
    (exit_code r = 0 \<longrightarrow> (\<exists>bs. node_at p d' = Some (RegularFile bs) \<and>
      last (standard_output r) = ''fetch succeeded bytes='' @ to_string (length bs) @ '' sha256='' @ Sha256Hex (digest_of bs)))" for q
  proof (cases "n = None \<or> \<not> created")
    case True
    then show ?thesis using main by (cases n) auto
  next
    case False
    then obtain size where size: "n = Some size" "created" by auto
    obtain result log d1 where fetch: "WinHttp_Fetch env url p size default_options d = ((result, log), d1)" by (metis prod.exhaust)
    have others: "q \<noteq> p \<longrightarrow> node_at q d1 = node_at q d"
      and done1: "fetch_error result = FetchNone \<longrightarrow> bytesReceived result = size \<and>
        (\<exists>bs. node_at p d1 = Some (RegularFile bs) \<and> length bs = unat size)" for q
      using fetch receive_body_ok(1,2) [OF assms(2)] by (cases rule: WinHttp_Fetch_cases; auto)+
    show ?thesis
    proof (cases "fetch_error result = FetchNone")
      case False
      then show ?thesis using main size fetch others by auto
    next
      case True
      obtain digest d2 where hashed: "Sha256File p d1 = (digest, d2)" by (metis prod.exhaust)
      note same = Sha256File_nodes [OF hashed]
      obtain bs where bs: "bytesReceived result = size" "node_at p d1 = Some (RegularFile bs)" "length bs = unat size"
        using done1 True by blast
      show ?thesis
      proof (cases digest)
        case None
        then show ?thesis using main size fetch others True hashed same by auto
      next
        case (Some x)
        then have "x = digest_of bs" using Sha256File_result hashed bs(2) by fastforce
        then show ?thesis using main size fetch others True hashed same Some bs by auto
      qed
    qed
  qed
  then show "exit_code r \<in> {0, 1, 2}" "exit_code r = 0 \<longleftrightarrow> standard_error r = []" "exit_code r = 2 \<Longrightarrow> d' = d"
    "q \<noteq> p \<Longrightarrow> node_at q d' = node_at q d"
    "exit_code r = 0 \<Longrightarrow> \<exists>bs. node_at p d' = Some (RegularFile bs) \<and>
      last (standard_output r) = ''fetch succeeded bytes='' @ to_string (length bs) @ '' sha256='' @ Sha256Hex (digest_of bs)"
    by blast+
qed

end
