(* ===== verification/Spec2Isabelle.thy ===== *)
theory Spec2Isabelle
  imports RuntimeShutdown RakNetTraffic SessionCompletes FetchProbe
begin

text \<open>
  \<^bold>\<open>The program.\<close> CustomModel distributes model files to players of a SA-MP server. A component
  of the open.mp server (\<^verbatim>\<open>src/server\<close>) announces a manifest of assets; a library loaded into
  the game (\<^verbatim>\<open>src/client\<close>) downloads, verifies and caches them and reports back. Both speak a
  binary protocol (\<^verbatim>\<open>src/shared\<close>) in RakNet packets with a private id and a magic number.

  A session runs like this. The library finds out which build of \<^verbatim>\<open>samp.dll\<close> it is in, hooks the
  receive entry of the game's network client and, once connected, sends a greeting. The
  component takes the packets with the magic out of the game's stream, decides on the greeting,
  answers with a welcome or a rejection and sends the manifest after a welcome. The client
  becomes compatible, checks the stream of the manifest, queues the assets for its one worker
  thread, and reports each asset as ready or failed. The component records the reports.

  \<^bold>\<open>Shared code.\<close>
  \<^item> \<open>Version\<close>, \<open>Assets\<close>, \<open>Hex\<close>: \<^verbatim>\<open>version.cpp\<close>, \<^verbatim>\<open>assets.cpp\<close> and the textual digests of
    \<^verbatim>\<open>sha256.cpp\<close>. The checks of names and URLs are proved equal to declarative descriptions.
  \<^item> \<open>Picosha2\<close>, \<open>Sha256\<close>: the vendored hash as it is written, the digests of views and files; it
    is proved to compute FIPS 180-4.
  \<^item> \<open>ByteIO\<close>, \<open>Protocol\<close>, \<open>TransportFrame\<close>: writer, reader, codec and frame. A locale of field
    codecs carries the round trips; decoding is the exact inverse of encoding.
  \<^item> \<open>PeImage\<close>: the header parser of \<^verbatim>\<open>pe_image.cpp\<close>, with a functional specification.
  \<^item> \<open>Prelude\<close>, \<open>Text\<close>, \<open>FileSystem\<close>: types, byte orders, printing, and the file operations the
    client uses, with arbitrary I/O errors as a list of answers that is part of the disk.

  \<^bold>\<open>Server.\<close>
  \<^item> \<open>AssetRegistry\<close> (\<^verbatim>\<open>asset_registry.cpp\<close>), \<open>ManifestConfig\<close> (\<^verbatim>\<open>manifest_config.cpp\<close>): the
    registry with its invariant and canonical manifest; the file is loaded all or nothing, and
    what is printed from a registry loads back.
  \<^item> \<open>PlayerCapabilities\<close> (\<^verbatim>\<open>player_capabilities.cpp\<close>): the decision on a greeting.
  \<^item> \<open>ServerTransport\<close>, \<open>HandshakeEndpoint\<close>, \<open>AssetPublication\<close>: the transport interface as a locale
    with its two implementations, the answers to frames, the stream of the manifest and the
    reports.
  \<^item> \<open>OpenMpComponent\<close>, \<open>ComponentProperties\<close> (\<^verbatim>\<open>openmp/component.cpp\<close>): loading, the events of the
    server core, dispatch, log lines; an invariant of all runs and what is sent for a packet.
    The inductive relation \<open>received\<close> summarises the effects a packet can have.

  \<^bold>\<open>Client.\<close>
  \<^item> \<open>Module\<close> (\<^verbatim>\<open>module.cpp\<close>, \<^verbatim>\<open>compatibility.cpp\<close>): finding the module, its build, the accessible
    ranges, over an address space that is a parameter.
  \<^item> \<open>ClientTransport\<close>, \<open>RakNetTransport\<close> (\<^verbatim>\<open>raknet_transport.cpp\<close>): the interface as a locale, and
    the hook on a machine of memory words and foreign code. \<open>RakNetHook\<close> proves what the method
    table holds, \<open>RakNetTraffic\<close> that the packets are split between game and protocol, each once
    and in order, \<open>RakNetProperties\<close> that connection events alternate, \<open>RakNetInvariant\<close> what a
    call of the hook keeps.
  \<^item> \<open>ClientHandshake\<close> (\<^verbatim>\<open>protocol/handshake.cpp\<close>), \<open>ManifestReceiver\<close>: two state machines; the
    receiver completes on exactly the streams the server produces.
  \<^item> \<open>AssetCache\<close>, \<open>Fetch\<close>, \<open>WinHttpFetch\<close>, \<open>AssetWorker\<close>: the content-addressed cache, the download
    interface and its WinHTTP backend, the work on one asset.
  \<^item> \<open>ClientAssetManager\<close>, \<open>ManagerSession\<close>, \<open>ManagerProgress\<close>, \<open>ManagerReports\<close>, \<open>ManagerStability\<close>,
    \<open>ManagerProperties\<close> (\<^verbatim>\<open>assets/manager.cpp\<close>): the client's thread and the worker as interleaved steps of an inductive
    relation; sessions stay apart, a ready asset is verified on disk and stays ready while the
    session lasts, the worker settles everything that is queued.
  \<^item> \<open>Logger\<close>, \<open>ClientRuntime\<close>, \<open>RuntimeProperties\<close>, \<open>RuntimeLifecycle\<close>, \<open>RuntimeShutdown\<close>
    (\<^verbatim>\<open>logger.cpp\<close>, \<^verbatim>\<open>runtime.cpp\<close>, \<^verbatim>\<open>dllmain.cpp\<close>): the callbacks, what they send in any
    interleaving, initialisation and shutdown. The client inside the game refines the runs of the
    callbacks, and nothing is sent after the shutdown.
  \<^item> \<open>SessionEndToEnd\<close>, \<open>SharedSession\<close>, \<open>SessionCompletes\<close>: the component and the client's runtime put
    together. The inductive relation \<open>shared\<close> has the states both reach after a connection when the
    network loses, repeats and reorders packets; what the server records in them is true, and every
    session can be completed.

  \<^bold>\<open>Tool.\<close> \<open>FetchProbe\<close> (\<^verbatim>\<open>tools/winhttp_probe.cpp\<close>): the command line around one fetch and its exit code.

  \<^bold>\<open>State and errors.\<close> A class is a record, an operation a function on it. Errors are values of a
  result type or of the enumeration the code uses. Integers have the width they have on the
  32-bit Windows target of the client and where the server computes with fixed widths; sizes and
  lengths of the server are natural numbers within the limits the code checks. Callbacks
  through a context pointer are functions on the state behind the pointer. What the platform,
  the game, RakNet, WinHTTP, the file system and the open.mp core answer is a parameter or a
  recorded list of answers, and the theorems hold for every choice of it.

  \<^bold>\<open>Bounds.\<close> Loops are structural recursions or have a termination proof. The transport tries to
  find the network client 600 times and consumes at most 64 protocol packets in a call of the
  hook; both bounds are the code's, so are the counters that recurse on them. A call of the hook
  causes at most 66 connection events. The session generation of the asset manager is a 64-bit
  counter; theorems about sessions assume fewer than \<open>2 ^ 64\<close> resets. A fetch ends because of the
  code's own byte limit and deadline, of which the loop's measure is made.

  \<^bold>\<open>Not modelled.\<close> Failed allocations and the \<^verbatim>\<open>catch\<close> branches that only they reach. Concurrency
  inside one operation under the manager's mutex: its steps are the operations the lock makes
  atomic. The text of the WinHTTP diagnostics in the log. The identity of the one active transport
  is a flag of the transport. The undefined behaviour of reading a bit stream beyond its data. The
  open.mp entry point in \<^verbatim>\<open>entry.cpp\<close> and the test programs.
\<close>

end
